(* ===== verification/Prelude.thy ===== *)
theory Prelude
  imports Main "HOL-Library.Word"
begin

text \<open>
  Shared vocabulary of the development: the fixed-width integer types of the
  C++ sources (\<open>Bit8u\<close>, \<open>Bit16u\<close>, \<open>Bit32u\<close>, \<open>Bit64u\<close>, \<open>bx_address\<close>), the lemma
  collections the component theories extend, and the generic facts about machine
  words that several components need (carry and borrow chains, single-bit masks,
  the 0/1 encoding of C truth values).
\<close>

unbundle bit_operations_syntax

type_synonym Bit8u = "8 word"
type_synonym Bit16u = "16 word"
type_synonym Bit32u = "32 word"
type_synonym Bit64u = "64 word"
type_synonym bx_address = "64 word"
type_synonym bx_phy_address = "64 word"

text \<open>What a host pointer into guest memory points to: RAM, the ROM image, the page for missing memory, or a device's buffer.\<close>

datatype host_ptr = Ram bx_phy_address | Rom Bit32u | Bogus nat | Dev_ptr nat


named_theorems flag_simps \<open>reading a status flag after writing one\<close>
named_theorems inv_intros \<open>an operation preserves its component's invariant\<close>

subsection \<open>C truth values\<close>

text \<open>The value C gives to a comparison, at the width of \<open>unsigned\<close>.\<close>

definition b2u :: "bool \<Rightarrow> Bit32u" where
  "b2u b = (if b then 1 else 0)"

lemma b2u_simps [simp]: "b2u True = 1" "b2u False = 0"
  by (simp_all add: b2u_def)

lemma b2u_eq_0 [simp]: "b2u b = 0 \<longleftrightarrow> \<not> b"
  by (simp add: b2u_def)

lemma b2u_eq_1 [simp]: "b2u b = 1 \<longleftrightarrow> b"
  by (simp add: b2u_def)

lemma bit_b2u [simp]: "bit (b2u b) n \<longleftrightarrow> n = 0 \<and> b"
  by (cases b) (auto simp: bit_1_iff)

lemma b2u_xor: "b2u a XOR b2u b = b2u (a \<noteq> b)"
  by (cases a; cases b) simp_all

lemma bit_lit1_iff: "bit (1 :: 'a::len word) n \<longleftrightarrow> n = 0"
  by (simp add: bit_1_iff)

lemma drop_bit_and_1: "drop_bit n x AND 1 = (if bit x n then 1 else 0)" for x :: "'a::len word"
  by (rule bit_word_eqI) (auto simp: bit_simps bit_1_iff intro: gr0I)

lemma and_1_eq_bit: "x AND 1 = (if bit x 0 then 1 else 0)" for x :: "'a::len word"
  using drop_bit_and_1 [of 0 x] by simp

lemma and_pow2_eq_0: "x AND push_bit n 1 = 0 \<longleftrightarrow> \<not> bit x n" if "n < LENGTH('a)"
  for x :: "'a::len word"
proof
  assume "x AND push_bit n 1 = 0"
  then have "\<not> bit (x AND push_bit n 1) n" by simp
  then show "\<not> bit x n" using that by (simp add: bit_simps bit_1_iff)
next
  assume "\<not> bit x n"
  then show "x AND push_bit n 1 = 0"
    by (intro bit_word_eqI) (auto simp: bit_simps bit_1_iff)
qed

lemma unat_less_exp: "unat x < 2 ^ LENGTH('a)" for x :: "'a::len word"
  by (rule unsigned_less)

lemma unat_ucast_up: "LENGTH('a) \<le> LENGTH('b) \<Longrightarrow> unat (ucast x :: 'b::len word) = unat x"
  for x :: "'a::len word"
proof -
  assume le: "LENGTH('a) \<le> LENGTH('b)"
  have "unat x < 2 ^ LENGTH('a)" by (rule unsigned_less)
  also have "\<dots> \<le> 2 ^ LENGTH('b)" using le by simp
  finally show ?thesis by (simp add: unsigned_ucast_eq take_bit_nat_eq_self)
qed

subsection \<open>Low-bit masks written as literals\<close>

text \<open>
  The simplifier reduces a bit of a word literal to a bit of an \<open>int\<close> literal; these
  facts finish the reduction for the masks the sources use.
\<close>

lemma mask_literals:
  "(3 :: int) = mask 2"
  "(7 :: int) = mask 3"
  "(15 :: int) = mask 4"
  "(31 :: int) = mask 5"
  "(63 :: int) = mask 6"
  "(127 :: int) = mask 7"
  "(255 :: int) = mask 8"
  "(4095 :: int) = mask 12"
  "(65535 :: int) = mask 16"
  "(4294967295 :: int) = mask 32"
  by (simp_all add: mask_eq_exp_minus_1)

lemma bit_mask_literals:
  "bit (3 :: int) n \<longleftrightarrow> n < 2"
  "bit (7 :: int) n \<longleftrightarrow> n < 3"
  "bit (15 :: int) n \<longleftrightarrow> n < 4"
  "bit (31 :: int) n \<longleftrightarrow> n < 5"
  "bit (63 :: int) n \<longleftrightarrow> n < 6"
  "bit (127 :: int) n \<longleftrightarrow> n < 7"
  "bit (255 :: int) n \<longleftrightarrow> n < 8"
  "bit (4095 :: int) n \<longleftrightarrow> n < 12"
  "bit (65535 :: int) n \<longleftrightarrow> n < 16"
  "bit (4294967295 :: int) n \<longleftrightarrow> n < 32"
  by (simp_all only: mask_literals bit_mask_iff possible_bit_def) simp_all

lemma bit_240: "bit (240 :: int) n \<longleftrightarrow> 4 \<le> n \<and> n < 8"
proof -
  have "(240 :: int) = push_bit 4 (mask 4)" by (simp add: mask_eq_exp_minus_1)
  then show ?thesis by (simp only: bit_push_bit_iff bit_mask_iff possible_bit_def) auto
qed

subsection \<open>Searches, branches, runs\<close>

lemma find_rev_upt:
  "find P (rev [a..<b]) = Some v \<longleftrightarrow> a \<le> v \<and> v < b \<and> P v \<and> (\<forall>u. v < u \<and> u < b \<longrightarrow> \<not> P u)"
  "find P (rev [a..<b]) = None \<longleftrightarrow> (\<forall>u. a \<le> u \<and> u < b \<longrightarrow> \<not> P u)"
  by (induction b) (auto simp: less_Suc_eq)

lemma if_pred: "(P \<Longrightarrow> Q a) \<Longrightarrow> (\<not> P \<Longrightarrow> Q b) \<Longrightarrow> Q (if P then a else b)"
  by simp

lemma bit_unat_less: "unat w < 2 ^ k \<Longrightarrow> bit w n \<Longrightarrow> n < k" for w :: "'a::len word"
proof (rule ccontr)
  assume *: "unat w < 2 ^ k" "bit w n" "\<not> n < k"
  have "take_bit k (unat w) = unat w" using *(1) by (simp add: take_bit_nat_eq_self)
  moreover have "bit (unat w) n" using *(2) by (simp add: bit_unsigned_iff bit_imp_le_length)
  ultimately show False using *(3) by (metis bit_take_bit_iff)
qed

text \<open>A step relation that keeps an invariant: every run from a good state ends in one.\<close>

locale kept_invariant =
  fixes step :: "'s \<Rightarrow> 's \<Rightarrow> bool" and inv :: "'s \<Rightarrow> bool"
  assumes step_keeps: "step s t \<Longrightarrow> inv s \<Longrightarrow> inv t"
begin

lemma run_keeps: "step\<^sup>*\<^sup>* s t \<Longrightarrow> inv s \<Longrightarrow> inv t"
  by (induction rule: rtranclp_induct) (auto intro: step_keeps)

end

subsection \<open>Carry and borrow chains\<close>

text \<open>
  \<open>carry_at a b c k\<close> is the carry into bit \<open>k\<close> of \<open>a + b + c\<close>, and
  \<open>borrow_at a b c k\<close> the borrow out of the low \<open>k\<close> bits of \<open>a - b - c\<close>. They are
  the arithmetic meaning of the carry vectors the flag code works with.
\<close>

definition carry_at :: "'a::len word \<Rightarrow> 'a word \<Rightarrow> bool \<Rightarrow> nat \<Rightarrow> bool" where
  "carry_at a b c k \<longleftrightarrow> 2 ^ k \<le> take_bit k (uint a) + take_bit k (uint b) + of_bool c"

definition borrow_at :: "'a::len word \<Rightarrow> 'a word \<Rightarrow> bool \<Rightarrow> nat \<Rightarrow> bool" where
  "borrow_at a b c k \<longleftrightarrow> take_bit k (uint a) < take_bit k (uint b) + of_bool c"

lemma take_bit_Suc_split:
  "take_bit (Suc k) (x :: int) = take_bit k x + (if bit x k then 2 ^ k else 0)"
proof -
  have "take_bit (Suc k) x = x mod (2 ^ k * 2)"
    by (simp add: take_bit_eq_mod mult.commute)
  also have "\<dots> = 2 ^ k * (x div 2 ^ k mod 2) + x mod 2 ^ k"
    by (rule zmod_zmult2_eq) simp
  finally show ?thesis
    by (simp add: take_bit_eq_mod bit_iff_odd odd_iff_mod_2_eq_one)
qed

lemma carry_at_0 [simp]: "carry_at a b c 0 \<longleftrightarrow> c"
  by (simp add: carry_at_def)

lemma borrow_at_0 [simp]: "borrow_at a b c 0 \<longleftrightarrow> c"
  by (simp add: borrow_at_def)

lemma carry_step_arith:
  fixes A B P :: int
  assumes "0 \<le> A" "A < P" "0 \<le> B" "B < P"
  shows "2 * P \<le> A + (if x then P else 0) + (B + (if y then P else 0)) + of_bool c \<longleftrightarrow>
           (x \<and> y) \<or> ((x \<or> y) \<and> P \<le> A + B + of_bool c)"
  using assms by (cases c; cases x; cases y) auto

lemma borrow_step_arith:
  fixes A B P :: int
  assumes "0 \<le> A" "A < P" "0 \<le> B" "B < P"
  shows "A + (if x then P else 0) < B + (if y then P else 0) + of_bool c \<longleftrightarrow>
           (\<not> x \<and> y) \<or> (x = y \<and> A < B + of_bool c)"
  using assms by (cases c; cases x; cases y) auto

lemma carry_at_Suc:
  "carry_at a b c (Suc k) \<longleftrightarrow>
     (bit (uint a) k \<and> bit (uint b) k) \<or> ((bit (uint a) k \<or> bit (uint b) k) \<and> carry_at a b c k)"
  using carry_step_arith [of "take_bit k (uint a)" "2 ^ k" "take_bit k (uint b)"]
  by (simp add: carry_at_def take_bit_Suc_split)

lemma borrow_at_Suc:
  "borrow_at a b c (Suc k) \<longleftrightarrow>
     (\<not> bit (uint a) k \<and> bit (uint b) k) \<or> (bit (uint a) k = bit (uint b) k \<and> borrow_at a b c k)"
  using borrow_step_arith [of "take_bit k (uint a)" "2 ^ k" "take_bit k (uint b)"]
  by (simp add: borrow_at_def take_bit_Suc_split)

lemma carry_div_arith:
  fixes A B P :: int
  assumes "0 \<le> A" "A < P" "0 \<le> B" "B < P"
  shows "(A + B + of_bool c) div P = of_bool (P \<le> A + B + of_bool c)"
proof (cases "P \<le> A + B + of_bool c")
  case True
  with assms have "(A + B + of_bool c - P) div P = 0"
    by (intro div_pos_pos_trivial) (cases c; simp)+
  with True assms show ?thesis by (simp only: div_pos_geq) simp
next
  case False
  with assms show ?thesis by (simp add: div_pos_pos_trivial)
qed

text \<open>A bit of a sum or difference is the exclusive or of the operands' bits and the chain.\<close>

lemma bit_int_add_carry:
  fixes x y :: int
  shows "bit (x + y + of_bool c) k \<longleftrightarrow>
    (bit x k \<noteq> (bit y k \<noteq> (2 ^ k \<le> take_bit k x + take_bit k y + of_bool c)))"
proof -
  let ?A = "take_bit k x" and ?B = "take_bit k y" and ?P = "2 ^ k :: int"
  have x: "x = x div ?P * ?P + ?A" and y: "y = y div ?P * ?P + ?B"
    by (simp_all only: take_bit_eq_mod div_mult_mod_eq)
  have "(x + y + of_bool c) div ?P = x div ?P + y div ?P + (?A + ?B + of_bool c) div ?P"
  proof -
    have "x + y + of_bool c = (x div ?P + y div ?P) * ?P + (?A + ?B + of_bool c)"
      using x y by (simp add: algebra_simps)
    then have "(x + y + of_bool c) div ?P =
        ((x div ?P + y div ?P) * ?P + (?A + ?B + of_bool c)) div ?P"
      by (rule arg_cong)
    also have "\<dots> = (x div ?P + y div ?P) + (?A + ?B + of_bool c) div ?P"
      by (rule div_mult_self3) simp
    finally show ?thesis .
  qed
  moreover have "(?A + ?B + of_bool c) div ?P = of_bool (?P \<le> ?A + ?B + of_bool c)"
    by (rule carry_div_arith) simp_all
  ultimately show ?thesis
    by (auto simp: bit_iff_odd)
qed

lemma bit_word_add_carry:
  fixes a b :: "'a::len word"
  assumes "k < LENGTH('a)"
  shows "bit (a + b + of_bool c) k \<longleftrightarrow> (bit a k \<noteq> (bit b k \<noteq> carry_at a b c k))"
proof -
  have "uint (a + b + of_bool c) = take_bit LENGTH('a) (uint a + uint b + of_bool c)"
    by (simp add: uint_word_ariths take_bit_eq_mod mod_simps uint_word_arith_bintrs)
  then have "bit (uint (a + b + of_bool c)) k = bit (take_bit LENGTH('a) (uint a + uint b + of_bool c)) k"
    by (rule arg_cong)
  then have "bit (a + b + of_bool c) k = bit (uint a + uint b + of_bool c) k"
    using assms by (simp only: bit_uint_iff bit_take_bit_iff simp_thms)
  then show ?thesis
    using assms by (simp add: bit_int_add_carry carry_at_def bit_uint_iff)
qed

lemma bit_word_sub_borrow:
  fixes a b :: "'a::len word"
  assumes "k < LENGTH('a)"
  shows "bit (a - b - of_bool c) k \<longleftrightarrow> (bit a k \<noteq> (bit b k \<noteq> borrow_at a b c k))"
proof -
  define r where "r = a - b - of_bool c"
  have a: "a = r + b + of_bool c" by (simp add: r_def)
  have "borrow_at a b c j \<longleftrightarrow> carry_at r b c j" if "j \<le> LENGTH('a)" for j
    using that
  proof (induction j)
    case (Suc j)
    then have "bit a j \<longleftrightarrow> (bit r j \<noteq> (bit b j \<noteq> carry_at r b c j))"
      using bit_word_add_carry [of j r b c] a by simp
    with Suc show ?case
      by (auto simp: borrow_at_Suc carry_at_Suc bit_uint_iff)
  qed simp
  with assms have "bit a k \<longleftrightarrow> (bit r k \<noteq> (bit b k \<noteq> borrow_at a b c k))"
    using bit_word_add_carry [of k r b c] a by simp
  then show ?thesis by (auto simp: r_def)
qed

text \<open>The signed value of a word, split at its sign bit.\<close>

lemma sint_split:
  fixes a :: "'a::len word"
  shows "sint a = take_bit (LENGTH('a) - 1) (uint a) - (if bit a (LENGTH('a) - 1) then 2 ^ (LENGTH('a) - 1) else 0)"
proof -
  define m where "m = LENGTH('a) - 1"
  have len: "LENGTH('a) = Suc m" by (simp add: m_def)
  have "sint a = take_bit (Suc m) (uint a) - 2 ^ Suc m * of_bool (bit (uint a) m)"
    by (simp add: sint_uint len signed_take_bit_eq_take_bit_minus)
  also have "\<dots> = take_bit m (uint a) - (if bit a m then 2 ^ m else 0)"
    by (simp add: take_bit_Suc_split bit_uint_iff len)
  finally show ?thesis by (simp add: m_def)
qed

lemma uint_take_len [simp]: "take_bit LENGTH('a) (uint a) = uint a" for a :: "'a::len word"
  by (simp add: take_bit_int_eq_self)

lemma carry_at_len:
  "carry_at a b c LENGTH('a) \<longleftrightarrow> 2 ^ LENGTH('a) \<le> uint a + uint b + of_bool c" for a :: "'a::len word"
  by (simp add: carry_at_def)

lemma borrow_at_len:
  "borrow_at a b c LENGTH('a) \<longleftrightarrow> uint a < uint b + of_bool c" for a :: "'a::len word"
  by (simp add: borrow_at_def)

text \<open>Signed overflow is a difference between the carries into and out of the sign bit.\<close>

definition sint_fits :: "'a::len itself \<Rightarrow> int \<Rightarrow> bool" where
  "sint_fits _ x \<longleftrightarrow> - (2 ^ (LENGTH('a) - 1)) \<le> x \<and> x < 2 ^ (LENGTH('a) - 1)"

lemma overflow_arith:
  fixes A B P :: int
  assumes "0 \<le> A" "A < P" "0 \<le> B" "B < P"
  shows "(- P \<le> A - (if x then P else 0) + (B - (if y then P else 0)) + of_bool c \<and>
          A - (if x then P else 0) + (B - (if y then P else 0)) + of_bool c < P) \<longleftrightarrow>
         ((x \<and> y \<or> (x \<or> y) \<and> P \<le> A + B + of_bool c) = (P \<le> A + B + of_bool c))"
  using assms by (cases x; cases y; cases c) auto

lemma overflow_sub_arith:
  fixes A B P :: int
  assumes "0 \<le> A" "A < P" "0 \<le> B" "B < P"
  shows "(- P \<le> A - (if x then P else 0) - (B - (if y then P else 0)) - of_bool c \<and>
          A - (if x then P else 0) - (B - (if y then P else 0)) - of_bool c < P) \<longleftrightarrow>
         ((\<not> x \<and> y \<or> x = y \<and> A < B + of_bool c) = (A < B + of_bool c))"
  using assms by (cases x; cases y; cases c) auto

lemma add_overflow_carries:
  fixes a b :: "'a::len word"
  shows "sint_fits TYPE('a) (sint a + sint b + of_bool c) \<longleftrightarrow>
     (carry_at a b c LENGTH('a) = carry_at a b c (LENGTH('a) - 1))"
proof -
  define m where "m = LENGTH('a) - 1"
  have len: "LENGTH('a) = Suc m" by (simp add: m_def)
  have "carry_at a b c LENGTH('a) = carry_at a b c (Suc m)" by (simp only: len)
  then show ?thesis
    unfolding sint_fits_def sint_split m_def [symmetric] carry_at_Suc
    using overflow_arith [of "take_bit m (uint a)" "2 ^ m" "take_bit m (uint b)" "bit a m" "bit b m" c]
    by (simp add: carry_at_def bit_uint_iff len)
qed

lemma sub_overflow_borrows:
  fixes a b :: "'a::len word"
  shows "sint_fits TYPE('a) (sint a - sint b - of_bool c) \<longleftrightarrow>
     (borrow_at a b c LENGTH('a) = borrow_at a b c (LENGTH('a) - 1))"
proof -
  define m where "m = LENGTH('a) - 1"
  have len: "LENGTH('a) = Suc m" by (simp add: m_def)
  have "borrow_at a b c LENGTH('a) = borrow_at a b c (Suc m)" by (simp only: len)
  then show ?thesis
    unfolding sint_fits_def sint_split m_def [symmetric] borrow_at_Suc
    using overflow_sub_arith [of "take_bit m (uint a)" "2 ^ m" "take_bit m (uint b)" "bit a m" "bit b m" c]
    by (simp add: borrow_at_def bit_uint_iff len)
qed

end
