(* ===== verification/LazyFlags.thy ===== *)
theory LazyFlags
  imports Prelude
begin

text \<open>
  The lazily evaluated arithmetic flags of the emulated CPU
  (\<^verbatim>\<open>bochs/cpu/lazy_flags.h\<close>). An arithmetic instruction stores only its sign-extended
  result and a word of carries (\<open>auxbits\<close>); the six status flags are computed from the
  two when they are read. The theory models the representation, the accessors and
  the \<open>SET_FLAGS_*\<close> macros, and shows that what the accessors return is what eager
  evaluation of the flags would have stored.
\<close>

subsection \<open>Representation\<close>

record bx_lazyflags_entry =
  result :: bx_address
  auxbits :: bx_address

abbreviation (input) "LF_BIT_SD \<equiv> (0 :: nat)"
abbreviation (input) "LF_BIT_AF \<equiv> (3 :: nat)"
abbreviation (input) "LF_BIT_PDB \<equiv> (8 :: nat)"
abbreviation (input) "LF_BIT_CF \<equiv> (31 :: nat)"
abbreviation (input) "LF_BIT_PO \<equiv> (30 :: nat)"
abbreviation (input) "BX_LF_SIGN_BIT \<equiv> (63 :: nat)"

text \<open>The masks have type \<open>Bit32u\<close>; they are zero extended when they meet \<open>auxbits\<close>.\<close>

definition LF_MASK_SD :: Bit32u where "LF_MASK_SD = push_bit LF_BIT_SD 0x01"
definition LF_MASK_AF :: Bit32u where "LF_MASK_AF = push_bit LF_BIT_AF 0x01"
definition LF_MASK_PDB :: Bit32u where "LF_MASK_PDB = push_bit LF_BIT_PDB 0xFF"
definition LF_MASK_CF :: Bit32u where "LF_MASK_CF = push_bit LF_BIT_CF 0x01"
definition LF_MASK_PO :: Bit32u where "LF_MASK_PO = push_bit LF_BIT_PO 0x01"

lemma bit_lf_masks [bit_simps]:
  "bit LF_MASK_SD n \<longleftrightarrow> n = 0" "bit LF_MASK_AF n \<longleftrightarrow> n = 3" "bit LF_MASK_CF n \<longleftrightarrow> n = 31"
  "bit LF_MASK_PO n \<longleftrightarrow> n = 30" "bit LF_MASK_PDB n \<longleftrightarrow> 8 \<le> n \<and> n < 16"
  by (auto simp: LF_MASK_SD_def LF_MASK_AF_def LF_MASK_PDB_def LF_MASK_CF_def LF_MASK_PO_def
      bit_push_bit_iff bit_1_iff bit_mask_literals simp del: push_bit_of_1 push_bit_numeral)

definition ADD_COUT_VEC :: "'a::len word \<Rightarrow> 'a word \<Rightarrow> 'a word \<Rightarrow> 'a word" where
  "ADD_COUT_VEC op1 op2 res = ((op1 AND op2) OR ((op1 OR op2) AND NOT res))"

definition SUB_COUT_VEC :: "'a::len word \<Rightarrow> 'a word \<Rightarrow> 'a word \<Rightarrow> 'a word" where
  "SUB_COUT_VEC op1 op2 res = ((NOT op1 AND op2) OR ((NOT op1 XOR op2) AND res))"

definition GET_ADD_OVERFLOW :: "'a::len word \<Rightarrow> 'a word \<Rightarrow> 'a word \<Rightarrow> 'a word \<Rightarrow> 'a word" where
  "GET_ADD_OVERFLOW op1 op2 res msk = (((op1 XOR res) AND (op2 XOR res)) AND msk)"

subsection \<open>The \<open>SET_FLAGS\<close> macros\<close>

text \<open>
  The carry word the macros build from the carry vector, for the four operand sizes
  (the \<open>size\<close> parameter of the macro is the width of the operand type). The
  intermediate \<open>temp\<close> is a \<open>bx_address\<close>; only its low 32 bits are stored.
\<close>

definition lf_carry_temp :: "'a::len word \<Rightarrow> bx_address" where
  "lf_carry_temp lf_carries =
     (let c = (ucast lf_carries :: bx_address) in
      if LENGTH('a) = 8 then (c AND ucast LF_MASK_AF) OR push_bit 24 c
      else if LENGTH('a) = 16 then (c AND ucast LF_MASK_AF) OR push_bit 16 c
      else if LENGTH('a) = 32 then c AND ucast (NOT (LF_MASK_PDB OR LF_MASK_SD))
      else (c AND ucast LF_MASK_AF) OR push_bit LF_BIT_PO (drop_bit (LENGTH('a) - 2) c))"

definition SET_FLAGS_OSZAPC_SIZE ::
    "'a::len word \<Rightarrow> 'a word \<Rightarrow> bx_lazyflags_entry \<Rightarrow> bx_lazyflags_entry" where
  "SET_FLAGS_OSZAPC_SIZE lf_carries lf_result oszapc =
     oszapc\<lparr>result := scast lf_result,
            auxbits := ucast (ucast (lf_carry_temp lf_carries) :: Bit32u)\<rparr>"

definition SET_FLAGS_OSZAPC_LOGIC :: "'a::len word \<Rightarrow> bx_lazyflags_entry \<Rightarrow> bx_lazyflags_entry" where
  "SET_FLAGS_OSZAPC_LOGIC res = SET_FLAGS_OSZAPC_SIZE 0 res"

definition SET_FLAGS_OSZAPC_ADD ::
    "'a::len word \<Rightarrow> 'a word \<Rightarrow> 'a word \<Rightarrow> bx_lazyflags_entry \<Rightarrow> bx_lazyflags_entry" where
  "SET_FLAGS_OSZAPC_ADD op1 op2 sum_r = SET_FLAGS_OSZAPC_SIZE (ADD_COUT_VEC op1 op2 sum_r) sum_r"

definition SET_FLAGS_OSZAPC_SUB ::
    "'a::len word \<Rightarrow> 'a word \<Rightarrow> 'a word \<Rightarrow> bx_lazyflags_entry \<Rightarrow> bx_lazyflags_entry" where
  "SET_FLAGS_OSZAPC_SUB op1 op2 diff = SET_FLAGS_OSZAPC_SIZE (SUB_COUT_VEC op1 op2 diff) diff"

definition SET_FLAGS_OSZAP_SIZE ::
    "'a::len word \<Rightarrow> 'a word \<Rightarrow> bx_lazyflags_entry \<Rightarrow> bx_lazyflags_entry" where
  "SET_FLAGS_OSZAP_SIZE lf_carries lf_result oszapc =
     (let temp = lf_carry_temp lf_carries;
          delta_c0 = (auxbits oszapc XOR temp) AND ucast LF_MASK_CF;
          delta_c = delta_c0 XOR drop_bit 1 delta_c0
      in oszapc\<lparr>result := scast lf_result,
                auxbits := ucast (ucast (temp XOR delta_c) :: Bit32u)\<rparr>)"

definition SET_FLAGS_OSZAP_ADD ::
    "'a::len word \<Rightarrow> 'a word \<Rightarrow> 'a word \<Rightarrow> bx_lazyflags_entry \<Rightarrow> bx_lazyflags_entry" where
  "SET_FLAGS_OSZAP_ADD op1 op2 sum_r = SET_FLAGS_OSZAP_SIZE (ADD_COUT_VEC op1 op2 sum_r) sum_r"

definition SET_FLAGS_OSZAP_SUB ::
    "'a::len word \<Rightarrow> 'a word \<Rightarrow> 'a word \<Rightarrow> bx_lazyflags_entry \<Rightarrow> bx_lazyflags_entry" where
  "SET_FLAGS_OSZAP_SUB op1 op2 diff = SET_FLAGS_OSZAP_SIZE (SUB_COUT_VEC op1 op2 diff) diff"

subsection \<open>Accessors\<close>

definition set_flags_OxxxxC :: "Bit32u \<Rightarrow> Bit32u \<Rightarrow> bx_lazyflags_entry \<Rightarrow> bx_lazyflags_entry" where
  "set_flags_OxxxxC new_of new_cf lf =
     (let temp_po = new_of XOR new_cf
      in lf\<lparr>auxbits := (auxbits lf AND ucast (NOT (LF_MASK_PO OR LF_MASK_CF)))
                       OR ucast (push_bit LF_BIT_PO temp_po OR push_bit LF_BIT_CF new_cf)\<rparr>)"

definition assert_flags_OxxxxC :: "bx_lazyflags_entry \<Rightarrow> bx_lazyflags_entry" where
  "assert_flags_OxxxxC = set_flags_OxxxxC 1 1"

definition getB_CF :: "bx_lazyflags_entry \<Rightarrow> Bit32u" where
  "getB_CF lf = ucast (drop_bit LF_BIT_CF (auxbits lf) AND 1)"

definition get_CF :: "bx_lazyflags_entry \<Rightarrow> Bit32u" where
  "get_CF lf = ucast (auxbits lf AND ucast LF_MASK_CF)"

definition getB_OF :: "bx_lazyflags_entry \<Rightarrow> Bit32u" where
  "getB_OF lf = ucast (drop_bit LF_BIT_CF (auxbits lf + push_bit LF_BIT_PO 1) AND 1)"

definition get_OF :: "bx_lazyflags_entry \<Rightarrow> Bit32u" where
  "get_OF lf = ucast ((auxbits lf + push_bit LF_BIT_PO 1) AND push_bit LF_BIT_CF 1)"

definition set_OF :: "Bit32u \<Rightarrow> bx_lazyflags_entry \<Rightarrow> bx_lazyflags_entry" where
  "set_OF val lf = set_flags_OxxxxC val (getB_CF lf) lf"

definition clear_OF :: "bx_lazyflags_entry \<Rightarrow> bx_lazyflags_entry" where
  "clear_OF lf = set_flags_OxxxxC 0 (getB_CF lf) lf"

definition assert_OF :: "bx_lazyflags_entry \<Rightarrow> bx_lazyflags_entry" where
  "assert_OF lf = set_flags_OxxxxC 1 (getB_CF lf) lf"

definition getB_SF :: "bx_lazyflags_entry \<Rightarrow> Bit32u" where
  "getB_SF lf = ucast ((drop_bit BX_LF_SIGN_BIT (result lf) XOR drop_bit LF_BIT_SD (auxbits lf)) AND 1)"

definition set_SF :: "Bit32u \<Rightarrow> bx_lazyflags_entry \<Rightarrow> bx_lazyflags_entry" where
  "set_SF val lf = (let temp_sf = getB_SF lf
     in lf\<lparr>auxbits := auxbits lf XOR ucast (push_bit LF_BIT_SD (temp_sf XOR val))\<rparr>)"

definition getB_ZF :: "bx_lazyflags_entry \<Rightarrow> Bit32u" where
  "getB_ZF lf = b2u (0 = result lf)"

definition clear_ZF :: "bx_lazyflags_entry \<Rightarrow> bx_lazyflags_entry" where
  "clear_ZF lf = lf\<lparr>result := result lf OR push_bit 8 1\<rparr>"

definition assert_ZF :: "bx_lazyflags_entry \<Rightarrow> bx_lazyflags_entry" where
  "assert_ZF lf =
     (let aux1 = auxbits lf XOR push_bit LF_BIT_SD (drop_bit BX_LF_SIGN_BIT (result lf) AND 1);
          temp_pdb = (ucast (255 AND result lf) :: Bit32u);
          aux2 = aux1 XOR ucast (push_bit LF_BIT_PDB temp_pdb)
      in lf\<lparr>auxbits := aux2, result := 0\<rparr>)"

definition set_ZF :: "Bit32u \<Rightarrow> bx_lazyflags_entry \<Rightarrow> bx_lazyflags_entry" where
  "set_ZF val lf = (if val \<noteq> 0 then assert_ZF lf else clear_ZF lf)"

definition getB_AF :: "bx_lazyflags_entry \<Rightarrow> Bit32u" where
  "getB_AF lf = ucast (drop_bit LF_BIT_AF (auxbits lf) AND 1)"

definition get_AF :: "bx_lazyflags_entry \<Rightarrow> Bit32u" where
  "get_AF lf = ucast (auxbits lf AND ucast LF_MASK_AF)"

definition set_AF :: "Bit32u \<Rightarrow> bx_lazyflags_entry \<Rightarrow> bx_lazyflags_entry" where
  "set_AF val lf =
     lf\<lparr>auxbits := (auxbits lf AND ucast (NOT LF_MASK_AF)) OR ucast (push_bit LF_BIT_AF val)\<rparr>"

definition clear_AF :: "bx_lazyflags_entry \<Rightarrow> bx_lazyflags_entry" where
  "clear_AF lf = lf\<lparr>auxbits := auxbits lf AND ucast (NOT LF_MASK_AF)\<rparr>"

definition assert_AF :: "bx_lazyflags_entry \<Rightarrow> bx_lazyflags_entry" where
  "assert_AF lf = lf\<lparr>auxbits := auxbits lf OR ucast LF_MASK_AF\<rparr>"

definition getB_PF :: "bx_lazyflags_entry \<Rightarrow> Bit32u" where
  "getB_PF lf =
     (let temp0 = (ucast (255 AND result lf) :: Bit32u);
          temp1 = temp0 XOR ucast (255 AND drop_bit LF_BIT_PDB (auxbits lf));
          temp = (temp1 XOR drop_bit 4 temp1) AND 0x0F
      in drop_bit (unat temp) 0x9669 AND 1)"

definition set_PF :: "Bit32u \<Rightarrow> bx_lazyflags_entry \<Rightarrow> bx_lazyflags_entry" where
  "set_PF val lf =
     (let temp_pdb = (ucast (255 AND result lf) :: Bit32u) XOR b2u (val = 0)
      in lf\<lparr>auxbits := (auxbits lf AND ucast (NOT LF_MASK_PDB)) OR ucast (push_bit LF_BIT_PDB temp_pdb)\<rparr>)"

definition set_CF :: "Bit32u \<Rightarrow> bx_lazyflags_entry \<Rightarrow> bx_lazyflags_entry" where
  "set_CF val lf = set_flags_OxxxxC (getB_OF lf) val lf"

definition clear_CF :: "bx_lazyflags_entry \<Rightarrow> bx_lazyflags_entry" where
  "clear_CF lf = set_flags_OxxxxC (getB_OF lf) 0 lf"

definition assert_CF :: "bx_lazyflags_entry \<Rightarrow> bx_lazyflags_entry" where
  "assert_CF lf = set_flags_OxxxxC (getB_OF lf) 1 lf"

definition SET_FLAGS_OSZAxC_LOGIC_SIZE :: "'a::len word \<Rightarrow> bx_lazyflags_entry \<Rightarrow> bx_lazyflags_entry" where
  "SET_FLAGS_OSZAxC_LOGIC_SIZE lf_result lf =
     (let saved_PF = getB_PF lf
      in set_PF saved_PF (SET_FLAGS_OSZAPC_SIZE 0 lf_result lf))"

subsection \<open>What the accessors compute\<close>

text \<open>The parity flag is set when the low byte of the result has an even number of ones.\<close>

definition even_parity :: "Bit8u \<Rightarrow> bool" where
  "even_parity x \<longleftrightarrow> even (length (filter (bit x) [0..<8]))"

text \<open>The byte whose parity is reported: low byte of the result, corrected by the delta byte.\<close>

definition pf_byte :: "bx_lazyflags_entry \<Rightarrow> Bit8u" where
  "pf_byte lf = ucast (result lf) XOR ucast (drop_bit LF_BIT_PDB (auxbits lf))"

lemma even_parity_bits:
  "even_parity x \<longleftrightarrow> (bit x 0 = (bit x 1 = (bit x 2 = (bit x 3 = (bit x 4 = (bit x 5 = (bit x 6 = bit x 7)))))))"
proof -
  have "[0..<8] = [0, 1, 2, 3, 4, 5, 6, 7 :: nat]" by code_simp
  then show ?thesis by (simp add: even_parity_def)
qed

lemma even_parity_fold: "even_parity ((x XOR drop_bit 4 x) AND 0x0F) = even_parity x"
  by (auto simp: even_parity_bits bit_simps)

lemma parity_table:
  "\<forall>x \<in> set (map word_of_nat [0..<16]).  bit (0x9669 :: Bit32u) (unat (x :: Bit8u)) = even_parity x"
  by code_simp

lemma nibble_cases: "x AND 0x0F \<in> set (map word_of_nat [0..<16])" for x :: Bit8u
proof -
  have "x AND 0x0F = take_bit 4 x" by (rule bit_word_eqI) (auto simp: bit_simps bit_mask_literals)
  then have "unat (x AND 0x0F) < 16" by (simp add: unsigned_take_bit_eq take_bit_nat_less_exp [of 4, simplified])
  moreover have "x AND 0x0F = word_of_nat (unat (x AND 0x0F))" by simp
  ultimately show ?thesis by (metis atLeastLessThan_iff image_eqI list.set_map set_upt zero_le)
qed
lemma getB_CF_bit: "getB_CF lf = b2u (bit (auxbits lf) 31)"
  by (simp add: getB_CF_def drop_bit_and_1 b2u_def)

lemma bit_add_po: "bit (x + push_bit 30 1) 31 \<longleftrightarrow> bit x 31 \<noteq> bit x 30" for x :: bx_address
proof -
  let ?p = "push_bit 30 1 :: bx_address"
  have "take_bit 30 (uint ?p) = 0"
    by (intro bit_eqI) (auto simp: bit_simps bit_uint_iff bit_1_iff)
  moreover have "take_bit 30 (uint x) < 2 ^ 30" by (rule take_bit_int_less_exp)
  ultimately have "\<not> carry_at x ?p False 30" by (simp add: carry_at_def not_le)
  moreover have p: "bit (uint ?p) 30" "\<not> bit ?p 31"
    by (simp_all add: bit_uint_iff bit_simps bit_1_iff del: push_bit_of_1)
  moreover have "carry_at x ?p False 31 = carry_at x ?p False (Suc 30)" by simp
  ultimately have "carry_at x ?p False 31 \<longleftrightarrow> bit x 30"
    by (simp only: carry_at_Suc bit_uint_iff) simp
  with p show ?thesis
    using bit_word_add_carry [of 31 x ?p False] by simp
qed

lemma getB_OF_bit: "getB_OF lf = b2u (bit (auxbits lf) 31 \<noteq> bit (auxbits lf) 30)"
  by (simp add: getB_OF_def drop_bit_and_1 b2u_def bit_add_po del: push_bit_of_1)

lemma getB_SF_bit: "getB_SF lf = b2u (bit (result lf) 63 \<noteq> bit (auxbits lf) 0)"
  by (simp add: getB_SF_def and_1_eq_bit b2u_def bit_simps)

lemma getB_ZF_zero: "getB_ZF lf = b2u (result lf = 0)"
  by (auto simp: getB_ZF_def)

lemma getB_AF_bit: "getB_AF lf = b2u (bit (auxbits lf) 3)"
  by (simp add: getB_AF_def drop_bit_and_1 b2u_def)

lemma getB_PF_parity: "getB_PF lf = b2u (even_parity (pf_byte lf))"
proof -
  let ?x = "pf_byte lf"
  have "ucast (255 AND result lf) XOR ucast (255 AND drop_bit LF_BIT_PDB (auxbits lf)) = (ucast ?x :: Bit32u)"
    by (rule bit_word_eqI)
       (auto simp: pf_byte_def bit_simps bit_mask_literals)
  moreover have "(ucast ?x XOR drop_bit 4 (ucast ?x)) AND (0x0F :: Bit32u) =
      ucast ((?x XOR drop_bit 4 ?x) AND 0x0F)"
    by (rule bit_word_eqI) (auto simp: bit_simps bit_mask_literals)
  ultimately have "getB_PF lf = drop_bit (unat ((?x XOR drop_bit 4 ?x) AND 0x0F)) 0x9669 AND 1"
    by (simp only: getB_PF_def Let_def) (simp add: unat_ucast_up)
  also have "\<dots> = b2u (bit (0x9669 :: Bit32u) (unat ((?x XOR drop_bit 4 ?x) AND 0x0F)))"
    by (simp add: drop_bit_and_1 b2u_def)
  also have "\<dots> = b2u (even_parity ?x)"
    using bspec [OF parity_table nibble_cases [of "?x XOR drop_bit 4 ?x"]]
    by (simp only: even_parity_fold)
  finally show ?thesis .
qed

lemmas getB_bits = getB_CF_bit getB_OF_bit getB_SF_bit getB_ZF_zero getB_AF_bit getB_PF_parity

subsection \<open>The flag bank interface\<close>

text \<open>
  What the rest of the CPU relies on: six independent flags, each of which reads back
  what was last written to it. The laws are stated once, as a locale, and the lazy
  representation is shown to implement them.
\<close>

datatype arith_flag = CF | PF | AF | ZF | SF | OF

locale flag_bank =
  fixes get :: "arith_flag \<Rightarrow> 's \<Rightarrow> bool"
    and set :: "arith_flag \<Rightarrow> bool \<Rightarrow> 's \<Rightarrow> 's"
  assumes get_set: "get f (set g v s) = (if f = g then v else get f s)"
begin

lemma get_set_same: "get f (set f v s) = v"
  by (simp add: get_set)

lemma get_set_other: "f \<noteq> g \<Longrightarrow> get f (set g v s) = get f s"
  by (simp add: get_set)

text \<open>Writing all six flags in any order leaves exactly the written values.\<close>

lemma get_write_all:
  assumes "distinct gs"
  shows "get f (fold (\<lambda>g. set g (v g)) gs s) = (if f \<in> List.set gs then v f else get f s)"
  using assms by (induction gs arbitrary: s) (auto simp: get_set)

end

fun lf_get :: "arith_flag \<Rightarrow> bx_lazyflags_entry \<Rightarrow> bool" where
  "lf_get CF lf = (getB_CF lf \<noteq> 0)"
| "lf_get PF lf = (getB_PF lf \<noteq> 0)"
| "lf_get AF lf = (getB_AF lf \<noteq> 0)"
| "lf_get ZF lf = (getB_ZF lf \<noteq> 0)"
| "lf_get SF lf = (getB_SF lf \<noteq> 0)"
| "lf_get OF lf = (getB_OF lf \<noteq> 0)"

fun lf_set :: "arith_flag \<Rightarrow> bool \<Rightarrow> bx_lazyflags_entry \<Rightarrow> bx_lazyflags_entry" where
  "lf_set CF v = set_CF (b2u v)"
| "lf_set PF v = set_PF (b2u v)"
| "lf_set AF v = set_AF (b2u v)"
| "lf_set ZF v = set_ZF (b2u v)"
| "lf_set SF v = set_SF (b2u v)"
| "lf_set OF v = set_OF (b2u v)"

text \<open>
  The effect of each setter on the bits the getters look at. The bits of \<open>auxbits\<close>
  outside bits 0, 3, 8 to 15, 30 and 31 are never read.
\<close>

lemma bit_set_flags_OxxxxC:
  "bit (auxbits (set_flags_OxxxxC (b2u v) (b2u w) lf)) n \<longleftrightarrow>
     (if n = 31 then w else if n = 30 then v \<noteq> w else n < 30 \<and> bit (auxbits lf) n)"
  by (auto simp: set_flags_OxxxxC_def Let_def b2u_xor bit_simps)

lemma result_set_flags_OxxxxC [simp]: "result (set_flags_OxxxxC v w lf) = result lf"
  by (simp add: set_flags_OxxxxC_def Let_def)

lemma bit_set_AF:
  "bit (auxbits (set_AF (b2u v) lf)) n \<longleftrightarrow> (if n = 3 then v else n < 32 \<and> bit (auxbits lf) n)"
  by (auto simp: set_AF_def bit_simps)

lemma result_set_AF [simp]: "result (set_AF v lf) = result lf"
  by (simp add: set_AF_def)

lemma bit_set_SF:
  "bit (auxbits (set_SF (b2u v) lf)) n \<longleftrightarrow>
     (if n = 0 then bit (result lf) 63 \<noteq> v else bit (auxbits lf) n)"
  by (auto simp: set_SF_def Let_def getB_SF_bit b2u_xor bit_simps)

lemma result_set_SF [simp]: "result (set_SF v lf) = result lf"
  by (simp add: set_SF_def Let_def)

lemma bit_set_PF:
  "bit (auxbits (set_PF (b2u v) lf)) n \<longleftrightarrow>
     (if 8 \<le> n \<and> n < 16 then bit (result lf) (n - 8) \<noteq> (n = 8 \<and> \<not> v)
      else n < 32 \<and> bit (auxbits lf) n)"
  by (auto simp: set_PF_def Let_def bit_simps bit_mask_literals)

lemma result_set_PF [simp]: "result (set_PF v lf) = result lf"
  by (simp add: set_PF_def Let_def)

lemma bit_assert_ZF:
  "bit (auxbits (assert_ZF lf)) n \<longleftrightarrow>
     (bit (auxbits lf) n \<noteq> (n = 0 \<and> bit (result lf) 63 \<or> 8 \<le> n \<and> n < 16 \<and> bit (result lf) (n - 8)))"
  by (auto simp: assert_ZF_def Let_def bit_simps bit_mask_literals drop_bit_and_1)

lemma result_assert_ZF [simp]: "result (assert_ZF lf) = 0"
  by (simp add: assert_ZF_def Let_def)

lemma auxbits_clear_ZF [simp]: "auxbits (clear_ZF lf) = auxbits lf"
  by (simp add: clear_ZF_def)

lemma bit_clear_ZF: "bit (result (clear_ZF lf)) n \<longleftrightarrow> n = 8 \<or> bit (result lf) n"
  by (auto simp: clear_ZF_def bit_simps simp del: push_bit_of_1)

lemma result_clear_ZF_nonzero [simp]: "result (clear_ZF lf) \<noteq> 0"
  using bit_clear_ZF [of lf 8] by auto

lemma pf_byte_bit:
  "bit (pf_byte lf) n \<longleftrightarrow> n < 8 \<and> (bit (result lf) n \<noteq> bit (auxbits lf) (8 + n))"
  by (auto simp: pf_byte_def bit_simps)

lemma even_parity_1: "even_parity (of_bool b) \<longleftrightarrow> \<not> b"
proof -
  have "even_parity 0" "\<not> even_parity 1" by code_simp+
  then show ?thesis by (cases b) simp_all
qed

lemma pf_byte_set_PF: "pf_byte (set_PF (b2u v) lf) = of_bool (\<not> v)"
  by (rule bit_word_eqI) (auto simp: pf_byte_bit bit_set_PF bit_1_iff)

lemma pf_byte_frame [simp]:
  "pf_byte (set_flags_OxxxxC (b2u v) (b2u w) lf) = pf_byte lf"
  "pf_byte (set_AF (b2u v) lf) = pf_byte lf"
  "pf_byte (set_SF (b2u v) lf) = pf_byte lf"
  "pf_byte (assert_ZF lf) = pf_byte lf"
  "pf_byte (clear_ZF lf) = pf_byte lf"
  by (rule bit_word_eqI; auto simp: pf_byte_bit bit_set_flags_OxxxxC bit_set_AF bit_set_SF
        bit_assert_ZF bit_clear_ZF)+

lemmas setter_bits = bit_set_flags_OxxxxC bit_set_AF bit_set_SF bit_set_PF bit_assert_ZF bit_clear_ZF

interpretation lf: flag_bank lf_get lf_set
proof
  fix f g v lf
  show "lf_get f (lf_set g v lf) = (if f = g then v else lf_get f lf)"
    by (cases f; cases g)
       (simp_all add: getB_bits set_CF_def set_OF_def set_ZF_def setter_bits pf_byte_set_PF even_parity_1,
        auto simp: setter_bits)
qed

lemmas lf_get_set [flag_simps] = lf.get_set

subsection \<open>Arithmetic: the lazy flags are the eager flags\<close>

text \<open>
  The reference: the flags an x86 addition or subtraction with carry in \<open>c\<close>
  defines, computed eagerly from the operands as unsigned and signed integers.
\<close>

fun add_flag_spec :: "arith_flag \<Rightarrow> 'a::len word \<Rightarrow> 'a word \<Rightarrow> bool \<Rightarrow> bool" where
  "add_flag_spec CF a b c \<longleftrightarrow> 2 ^ LENGTH('a) \<le> uint a + uint b + of_bool c"
| "add_flag_spec PF a b c \<longleftrightarrow> even_parity (ucast (a + b + of_bool c))"
| "add_flag_spec AF a b c \<longleftrightarrow> 16 \<le> uint a mod 16 + uint b mod 16 + of_bool c"
| "add_flag_spec ZF a b c \<longleftrightarrow> a + b + of_bool c = 0"
| "add_flag_spec SF a b c \<longleftrightarrow> sint (a + b + of_bool c) < 0"
| "add_flag_spec OF a b c \<longleftrightarrow> \<not> sint_fits TYPE('a) (sint a + sint b + of_bool c)"

fun sub_flag_spec :: "arith_flag \<Rightarrow> 'a::len word \<Rightarrow> 'a word \<Rightarrow> bool \<Rightarrow> bool" where
  "sub_flag_spec CF a b c \<longleftrightarrow> uint a < uint b + of_bool c"
| "sub_flag_spec PF a b c \<longleftrightarrow> even_parity (ucast (a - b - of_bool c))"
| "sub_flag_spec AF a b c \<longleftrightarrow> uint a mod 16 < uint b mod 16 + of_bool c"
| "sub_flag_spec ZF a b c \<longleftrightarrow> a - b - of_bool c = 0"
| "sub_flag_spec SF a b c \<longleftrightarrow> sint (a - b - of_bool c) < 0"
| "sub_flag_spec OF a b c \<longleftrightarrow> \<not> sint_fits TYPE('a) (sint a - sint b - of_bool c)"

definition op_size :: "'a::len itself \<Rightarrow> bool" where
  "op_size _ \<longleftrightarrow> LENGTH('a) \<in> {8, 16, 32, 64}"

lemma op_size_simps [simp]:
  "op_size TYPE(8)" "op_size TYPE(16)" "op_size TYPE(32)" "op_size TYPE(64)"
  by (simp_all add: op_size_def)

text \<open>The carry vectors hold, at bit \<open>k\<close>, the carry (borrow) out of bit \<open>k\<close>.\<close>

lemma bit_ADD_COUT_VEC:
  fixes a b :: "'a::len word"
  assumes "k < LENGTH('a)"
  shows "bit (ADD_COUT_VEC a b (a + b + of_bool c)) k \<longleftrightarrow> carry_at a b c (Suc k)"
proof -
  have "bit (a + b + of_bool c) k \<longleftrightarrow> (bit a k \<noteq> (bit b k \<noteq> carry_at a b c k))"
    by (rule bit_word_add_carry [OF assms])
  then show ?thesis using assms
    by (auto simp add: ADD_COUT_VEC_def carry_at_Suc bit_uint_iff bit_and_iff bit_or_iff bit_not_iff)
qed

lemma bit_SUB_COUT_VEC:
  fixes a b :: "'a::len word"
  assumes "k < LENGTH('a)"
  shows "bit (SUB_COUT_VEC a b (a - b - of_bool c)) k \<longleftrightarrow> borrow_at a b c (Suc k)"
proof -
  have "bit (a - b - of_bool c) k \<longleftrightarrow> (bit a k \<noteq> (bit b k \<noteq> borrow_at a b c k))"
    by (rule bit_word_sub_borrow [OF assms])
  then show ?thesis using assms
    by (auto simp add: SUB_COUT_VEC_def borrow_at_Suc bit_uint_iff bit_and_iff bit_or_iff
        bit_xor_iff bit_not_iff)
qed

text \<open>What the four size variants of the macro keep of the carry vector.\<close>

lemma bit_carry_temp:
  fixes cv :: "'a::len word"
  assumes "op_size TYPE('a)"
  shows "bit (lf_carry_temp cv) 31 \<longleftrightarrow> bit cv (LENGTH('a) - 1)"
    and "bit (lf_carry_temp cv) 30 \<longleftrightarrow> bit cv (LENGTH('a) - 2)"
    and "bit (lf_carry_temp cv) 3 \<longleftrightarrow> bit cv 3"
    and "\<not> bit (lf_carry_temp cv) 0"
    and "8 \<le> n \<Longrightarrow> n < 16 \<Longrightarrow> \<not> bit (lf_carry_temp cv) n"
  using assms by (auto simp: op_size_def lf_carry_temp_def Let_def bit_simps)

lemma scast_result:
  fixes r :: "'a::len word"
  assumes "op_size TYPE('a)"
  shows "bit (scast r :: bx_address) 63 \<longleftrightarrow> bit r (LENGTH('a) - 1)"
    and "(scast r :: bx_address) = 0 \<longleftrightarrow> r = 0"
    and "n < 8 \<Longrightarrow> bit (scast r :: bx_address) n \<longleftrightarrow> bit r n"
proof -
  have len: "LENGTH('a) \<le> 64" "8 \<le> LENGTH('a)" using assms by (auto simp: op_size_def)
  show "bit (scast r :: bx_address) 63 \<longleftrightarrow> bit r (LENGTH('a) - 1)"
    using len by (cases "LENGTH('a) = 64") (auto simp: bit_signed_iff min_def)
  show "(scast r :: bx_address) = 0 \<longleftrightarrow> r = 0"
  proof
    assume z: "(scast r :: bx_address) = 0"
    show "r = 0"
    proof (rule bit_word_eqI)
      fix n assume "n < LENGTH('a)"
      moreover have "\<not> bit (scast r :: bx_address) n" by (simp add: z)
      ultimately show "bit r n = bit 0 n"
        using len by (cases "n = LENGTH('a) - 1") (auto simp: bit_signed_iff min_def split: if_splits)
    qed
  qed simp
  show "n < 8 \<Longrightarrow> bit (scast r :: bx_address) n \<longleftrightarrow> bit r n"
    using len by (cases "n = LENGTH('a) - 1") (auto simp: bit_signed_iff min_def)
qed

lemma lf_get_SIZE:
  fixes cv r :: "'a::len word" and lf :: bx_lazyflags_entry
  assumes sz: "op_size TYPE('a)"
  defines "lf' \<equiv> SET_FLAGS_OSZAPC_SIZE cv r lf"
  shows "lf_get CF lf' \<longleftrightarrow> bit cv (LENGTH('a) - 1)"
    and "lf_get OF lf' \<longleftrightarrow> bit cv (LENGTH('a) - 1) \<noteq> bit cv (LENGTH('a) - 2)"
    and "lf_get AF lf' \<longleftrightarrow> bit cv 3"
    and "lf_get ZF lf' \<longleftrightarrow> r = 0"
    and "lf_get SF lf' \<longleftrightarrow> bit r (LENGTH('a) - 1)"
    and "lf_get PF lf' \<longleftrightarrow> even_parity (ucast r)"
proof -
  have "pf_byte lf' = ucast r"
    by (rule bit_word_eqI)
       (use sz bit_carry_temp(5) [OF sz] in
         \<open>auto simp: pf_byte_bit lf'_def SET_FLAGS_OSZAPC_SIZE_def scast_result [OF sz] bit_simps op_size_def\<close>)
  then show "lf_get PF lf' \<longleftrightarrow> even_parity (ucast r)" by (simp add: getB_bits)
qed (simp_all add: lf'_def getB_bits SET_FLAGS_OSZAPC_SIZE_def bit_carry_temp [OF sz] scast_result [OF sz]
       bit_ucast_iff)

text \<open>
  The OSZAP variant stores the same five flags and leaves the carry flag as it was.
\<close>

lemma lf_get_OSZAP_SIZE:
  fixes cv r :: "'a::len word"
  assumes sz: "op_size TYPE('a)"
  shows "lf_get f (SET_FLAGS_OSZAP_SIZE cv r lf) =
     (if f = CF then lf_get CF lf else lf_get f (SET_FLAGS_OSZAPC_SIZE cv r lf))"
proof -
  let ?A = "SET_FLAGS_OSZAP_SIZE cv r lf" and ?B = "SET_FLAGS_OSZAPC_SIZE cv r lf"
  have res: "result ?A = result ?B"
    by (simp add: SET_FLAGS_OSZAP_SIZE_def SET_FLAGS_OSZAPC_SIZE_def Let_def)
  have aux: "bit (auxbits ?A) n \<longleftrightarrow> n < 32 \<and>
      (bit (lf_carry_temp cv) n \<noteq> ((n = 31 \<or> n = 30) \<and> bit (auxbits lf) 31 \<noteq> bit (lf_carry_temp cv) 31))" for n
    by (auto simp: SET_FLAGS_OSZAP_SIZE_def Let_def bit_simps)
  have auxB: "bit (auxbits ?B) n \<longleftrightarrow> n < 32 \<and> bit (lf_carry_temp cv) n" for n
    by (auto simp: SET_FLAGS_OSZAPC_SIZE_def bit_simps)
  have "pf_byte ?A = pf_byte ?B"
    by (rule bit_word_eqI) (auto simp: pf_byte_bit res aux auxB)
  then show ?thesis
    by (cases f) (auto simp: getB_bits res aux auxB)
qed

lemma uint_mod_16: "uint a mod 16 = take_bit 4 (uint a)" for a :: "'a::len word"
  by (simp add: take_bit_eq_mod)

text \<open>
  C1: the flags of an addition. After \<open>SET_FLAGS_OSZAPC_ADD_{8,16,32,64}\<close> with the sum of
  the operands and a carry in, each of the six flags read back through the lazy
  accessors is the flag the processor manual defines for the addition.
\<close>

theorem lazy_add_flags_correct:
  fixes a b :: "'a::len word"
  assumes sz: "op_size TYPE('a)"
  shows "lf_get f (SET_FLAGS_OSZAPC_ADD a b (a + b + of_bool c) lf) = add_flag_spec f a b c"
proof -
  have len: "Suc (LENGTH('a) - 1) = LENGTH('a)" "Suc (LENGTH('a) - 2) = LENGTH('a) - 1" "3 < LENGTH('a)"
    using sz by (auto simp: op_size_def)
  have k: "LENGTH('a) - 1 < LENGTH('a)" "LENGTH('a) - 2 < LENGTH('a)" by simp_all
  note cout = bit_ADD_COUT_VEC [OF k(1), unfolded len] bit_ADD_COUT_VEC [OF k(2), unfolded len]
    bit_ADD_COUT_VEC [OF len(3)]
  show ?thesis
  proof (cases f)
    case AF
    then show ?thesis
      by (simp only: SET_FLAGS_OSZAPC_ADD_def lf_get_SIZE [OF sz] cout add_flag_spec.simps uint_mod_16)
         (simp add: carry_at_def)
  next
    case SF
    then show ?thesis
      by (simp only: SET_FLAGS_OSZAPC_ADD_def lf_get_SIZE [OF sz] add_flag_spec.simps One_nat_def bit_last_iff)
  qed (simp_all only: SET_FLAGS_OSZAPC_ADD_def lf_get_SIZE [OF sz] cout add_flag_spec.simps
         carry_at_len add_overflow_carries simp_thms)
qed

theorem lazy_add_flags_correct_witness:
  "op_size TYPE(8) \<and>
   lf_get OF (SET_FLAGS_OSZAPC_ADD (100 :: 8 word) 100 (100 + 100 + of_bool False) \<lparr>result = 0, auxbits = 0\<rparr>)"
  using lazy_add_flags_correct [of OF "100 :: 8 word" 100 False "\<lparr>result = 0, auxbits = 0\<rparr>"]
  by (simp add: sint_fits_def)

text \<open>
  C2: the flags of a subtraction (SUB, SBB, CMP, NEG use the same macro): each flag read
  back after \<open>SET_FLAGS_OSZAPC_SUB\<close> is the one the manual defines, borrows included.
\<close>

theorem lazy_sub_flags_correct:
  fixes a b :: "'a::len word"
  assumes sz: "op_size TYPE('a)"
  shows "lf_get f (SET_FLAGS_OSZAPC_SUB a b (a - b - of_bool c) lf) = sub_flag_spec f a b c"
proof -
  have len: "Suc (LENGTH('a) - 1) = LENGTH('a)" "Suc (LENGTH('a) - 2) = LENGTH('a) - 1" "3 < LENGTH('a)"
    using sz by (auto simp: op_size_def)
  have k: "LENGTH('a) - 1 < LENGTH('a)" "LENGTH('a) - 2 < LENGTH('a)" by simp_all
  note bout = bit_SUB_COUT_VEC [OF k(1), unfolded len] bit_SUB_COUT_VEC [OF k(2), unfolded len]
    bit_SUB_COUT_VEC [OF len(3)]
  show ?thesis
  proof (cases f)
    case AF
    then show ?thesis
      by (simp only: SET_FLAGS_OSZAPC_SUB_def lf_get_SIZE [OF sz] bout sub_flag_spec.simps uint_mod_16)
         (simp add: borrow_at_def)
  next
    case SF
    then show ?thesis
      by (simp only: SET_FLAGS_OSZAPC_SUB_def lf_get_SIZE [OF sz] sub_flag_spec.simps One_nat_def bit_last_iff)
  qed (simp_all only: SET_FLAGS_OSZAPC_SUB_def lf_get_SIZE [OF sz] bout sub_flag_spec.simps
         borrow_at_len sub_overflow_borrows simp_thms)
qed

theorem lazy_sub_flags_correct_witness:
  "op_size TYPE(16) \<and>
   lf_get CF (SET_FLAGS_OSZAPC_SUB (1 :: 16 word) 2 (1 - 2 - of_bool False) \<lparr>result = 0, auxbits = 0\<rparr>)"
  using lazy_sub_flags_correct [of CF "1 :: 16 word" 2 False "\<lparr>result = 0, auxbits = 0\<rparr>"]
  by simp

end
