(* ===== verification/Descriptors.thy ===== *)
theory Descriptors
  imports Prelude
begin

text \<open>
  Selectors and segment descriptors (\<^verbatim>\<open>bochs/cpu/descriptor.h\<close> and the descriptor
  functions of \<^verbatim>\<open>bochs/cpu/segment_ctrl_pro.cc\<close>): parsing the two descriptor words,
  rebuilding them, and loading a hidden segment cache from an access-rights word the
  way the hypervisor context switch does. The three members of the C union \<open>u\<close> are
  kept as separate fields; the system types select which member is written.
\<close>

record bx_selector_t =
  value_sel :: Bit16u
  index_sel :: Bit16u
  ti :: Bit8u
  rpl :: Bit8u

record bx_descriptor_t =
  valid :: Bit32u
  p :: Bit32u
  dpl :: Bit8u
  segment :: Bit32u
  type_d :: Bit8u
  base :: bx_address
  limit_scaled :: Bit32u
  g :: Bit32u
  d_b :: Bit32u
  l :: Bit32u
  avl :: Bit32u
  param_count :: Bit8u
  dest_selector :: Bit16u
  dest_offset :: Bit32u
  tss_selector :: Bit16u

record bx_segment_reg_t =
  selector :: bx_selector_t
  cache :: bx_descriptor_t

record bx_global_segment_reg_t =
  base_gs :: bx_address
  limit_gs :: Bit16u

abbreviation (input) "BX_SYS_SEGMENT_AVAIL_286_TSS \<equiv> (0x1 :: Bit8u)"
abbreviation (input) "BX_SYS_SEGMENT_LDT \<equiv> (0x2 :: Bit8u)"
abbreviation (input) "BX_SYS_SEGMENT_BUSY_286_TSS \<equiv> (0x3 :: Bit8u)"
abbreviation (input) "BX_286_CALL_GATE \<equiv> (0x4 :: Bit8u)"
abbreviation (input) "BX_TASK_GATE \<equiv> (0x5 :: Bit8u)"
abbreviation (input) "BX_286_INTERRUPT_GATE \<equiv> (0x6 :: Bit8u)"
abbreviation (input) "BX_286_TRAP_GATE \<equiv> (0x7 :: Bit8u)"
abbreviation (input) "BX_SYS_SEGMENT_AVAIL_386_TSS \<equiv> (0x9 :: Bit8u)"
abbreviation (input) "BX_SYS_SEGMENT_BUSY_386_TSS \<equiv> (0xb :: Bit8u)"
abbreviation (input) "BX_386_CALL_GATE \<equiv> (0xc :: Bit8u)"
abbreviation (input) "BX_386_INTERRUPT_GATE \<equiv> (0xe :: Bit8u)"
abbreviation (input) "BX_386_TRAP_GATE \<equiv> (0xf :: Bit8u)"
abbreviation (input) "BX_DATA_READ_WRITE_ACCESSED \<equiv> (0x3 :: Bit8u)"

text \<open>The system types whose descriptor is laid out like a segment.\<close>

definition sys_segment_type :: "Bit8u \<Rightarrow> bool" where
  "sys_segment_type t \<longleftrightarrow>
     t = BX_SYS_SEGMENT_LDT \<or> t = BX_SYS_SEGMENT_AVAIL_286_TSS \<or> t = BX_SYS_SEGMENT_BUSY_286_TSS \<or>
     t = BX_SYS_SEGMENT_AVAIL_386_TSS \<or> t = BX_SYS_SEGMENT_BUSY_386_TSS"

definition parse_selector :: "Bit16u \<Rightarrow> bx_selector_t" where
  "parse_selector raw_selector =
     \<lparr>value_sel = raw_selector, index_sel = drop_bit 3 raw_selector,
      ti = ucast (drop_bit 2 raw_selector AND 0x01), rpl = ucast (raw_selector AND 0x03)\<rparr>"

definition get_ar_byte :: "bx_descriptor_t \<Rightarrow> Bit8u" where
  "get_ar_byte d = ucast ((ucast (type_d d) :: Bit32u) OR push_bit 4 (segment d)
      OR push_bit 5 (ucast (dpl d)) OR push_bit 7 (p d))"

definition set_ar_byte :: "bx_descriptor_t \<Rightarrow> Bit8u \<Rightarrow> bx_descriptor_t" where
  "set_ar_byte d ar_byte = d\<lparr>
     p := ucast (drop_bit 7 ar_byte AND 0x01),
     dpl := drop_bit 5 ar_byte AND 0x03,
     segment := ucast (drop_bit 4 ar_byte AND 0x01),
     type_d := ar_byte AND 0x0f\<rparr>"

definition get_descriptor_l :: "bx_descriptor_t \<Rightarrow> Bit32u" where
  "get_descriptor_l d =
     (let limit = (if g d \<noteq> 0 then drop_bit 12 (limit_scaled d) else limit_scaled d);
          val = push_bit 16 (ucast (base d AND 0xffff)) OR (limit AND 0xffff)
      in if segment d \<noteq> 0 \<or> valid d = 0 then val
         else if sys_segment_type (type_d d) then val else 0)"

definition get_descriptor_h :: "bx_descriptor_t \<Rightarrow> Bit32u" where
  "get_descriptor_h d =
     (let limit = (if g d \<noteq> 0 then drop_bit 12 (limit_scaled d) else limit_scaled d)
      in if segment d \<noteq> 0 \<or> valid d = 0 then
           ucast (base d AND 0xff000000) OR ucast (drop_bit 16 (base d) AND 0xff)
           OR push_bit 8 (ucast (type_d d)) OR push_bit 12 (segment d)
           OR push_bit 13 (ucast (dpl d)) OR push_bit 15 (p d) OR (limit AND 0xf0000)
           OR push_bit 20 (avl d) OR push_bit 21 (l d) OR push_bit 22 (d_b d) OR push_bit 23 (g d)
         else if sys_segment_type (type_d d) then
           ucast (drop_bit 16 (base d) AND 0xff) OR push_bit 8 (ucast (type_d d))
           OR push_bit 13 (ucast (dpl d)) OR push_bit 15 (p d) OR (limit AND 0xf0000)
           OR push_bit 20 (avl d) OR push_bit 22 (d_b d) OR push_bit 23 (g d)
           OR ucast (base d AND 0xff000000)
         else 0)"

text \<open>The result is the new register and the returned \<open>d->valid\<close>.\<close>

definition set_segment_ar_data ::
    "bx_segment_reg_t \<Rightarrow> Bit32u \<Rightarrow> Bit16u \<Rightarrow> bx_address \<Rightarrow> Bit32u \<Rightarrow> Bit16u \<Rightarrow> bx_segment_reg_t \<times> Bit32u" where
  "set_segment_ar_data seg valid_a raw_selector base_a limit_a ar_data =
     (let d1 = (cache seg)\<lparr>
            p := ucast (drop_bit 7 ar_data AND 0x1),
            dpl := ucast (drop_bit 5 ar_data AND 0x3),
            segment := ucast (drop_bit 4 ar_data AND 0x1),
            type_d := ucast (ar_data AND 0x0f),
            valid := valid_a\<rparr>;
          d2 = (if segment d1 \<noteq> 0 \<or> valid_a = 0 then
                  d1\<lparr>g := ucast (drop_bit 15 ar_data AND 0x1),
                     d_b := ucast (drop_bit 14 ar_data AND 0x1),
                     l := ucast (drop_bit 13 ar_data AND 0x1),
                     avl := ucast (drop_bit 12 ar_data AND 0x1),
                     base := base_a, limit_scaled := limit_a\<rparr>
                else if sys_segment_type (type_d d1) then
                  d1\<lparr>avl := ucast (drop_bit 12 ar_data AND 0x1),
                     d_b := ucast (drop_bit 14 ar_data AND 0x1),
                     g := ucast (drop_bit 15 ar_data AND 0x1),
                     base := base_a, limit_scaled := limit_a\<rparr>
                else d1)
      in (seg\<lparr>selector := parse_selector raw_selector, cache := d2\<rparr>, valid d2))"

definition seg_limit :: "Bit32u \<Rightarrow> Bit32u \<Rightarrow> Bit32u" where
  "seg_limit dword1 dword2 = (dword1 AND 0xffff) OR (dword2 AND 0x000F0000)"

definition parse_descriptor :: "Bit32u \<Rightarrow> Bit32u \<Rightarrow> bx_descriptor_t \<Rightarrow> bx_descriptor_t" where
  "parse_descriptor dword1 dword2 temp =
     (let AR_byte = (ucast (drop_bit 8 dword2) :: Bit8u);
          t1 = temp\<lparr>p := ucast (drop_bit 7 AR_byte AND 0x1), dpl := drop_bit 5 AR_byte AND 0x3,
                    segment := ucast (drop_bit 4 AR_byte AND 0x1), type_d := AR_byte AND 0xf, valid := 0\<rparr>;
          limit = seg_limit dword1 dword2;
          g_n = b2u (dword2 AND 0x00800000 > 0);
          lim_s = (if g_n \<noteq> 0 then push_bit 12 limit OR 0xfff else limit)
      in if segment t1 \<noteq> 0 then
           t1\<lparr>base := ucast (drop_bit 16 dword1 OR push_bit 16 (dword2 AND 0xFF)) OR ucast (dword2 AND 0xFF000000),
              g := g_n, d_b := b2u (dword2 AND 0x00400000 > 0),
              l := b2u (dword2 AND 0x00200000 > 0), avl := b2u (dword2 AND 0x00100000 > 0),
              limit_scaled := lim_s, valid := 1\<rparr>
         else if type_d t1 \<in> {BX_286_CALL_GATE, BX_286_INTERRUPT_GATE, BX_286_TRAP_GATE} then
           t1\<lparr>param_count := ucast (dword2 AND 0x1f), dest_selector := ucast (drop_bit 16 dword1),
              dest_offset := dword1 AND 0xffff, valid := 1\<rparr>
         else if type_d t1 \<in> {BX_386_CALL_GATE, BX_386_INTERRUPT_GATE, BX_386_TRAP_GATE} then
           t1\<lparr>param_count := ucast (dword2 AND 0x1f), dest_selector := ucast (drop_bit 16 dword1),
              dest_offset := (dword2 AND 0xffff0000) OR (dword1 AND 0x0000ffff), valid := 1\<rparr>
         else if type_d t1 = BX_TASK_GATE then
           t1\<lparr>tss_selector := ucast (drop_bit 16 dword1), valid := 1\<rparr>
         else if sys_segment_type (type_d t1) then
           t1\<lparr>base := ucast (drop_bit 16 dword1 OR push_bit 16 (dword2 AND 0xff) OR (dword2 AND 0xff000000)),
              g := g_n, d_b := b2u (dword2 AND 0x00400000 > 0), avl := b2u (dword2 AND 0x00100000 > 0),
              limit_scaled := lim_s, valid := 1\<rparr>
         else t1\<lparr>valid := 0\<rparr>)"

subsection \<open>Round trips\<close>

text \<open>The values a descriptor cache can hold: flags are 0 or 1, \<open>dpl\<close> and \<open>type\<close> fit their fields.\<close>

definition desc_ok :: "bx_descriptor_t \<Rightarrow> bool" where
  "desc_ok d \<longleftrightarrow> p d \<le> 1 \<and> segment d \<le> 1 \<and> g d \<le> 1 \<and> d_b d \<le> 1 \<and> l d \<le> 1 \<and> avl d \<le> 1 \<and>
     dpl d \<le> 3 \<and> type_d d \<le> 15"

lemma bit_desc_literals:
  "bit (4278190080 :: int) n \<longleftrightarrow> 24 \<le> n \<and> n < 32"
  "bit (983040 :: int) n \<longleftrightarrow> 16 \<le> n \<and> n < 20"
  "bit (4294901760 :: int) n \<longleftrightarrow> 16 \<le> n \<and> n < 32"
  "bit (16711680 :: int) n \<longleftrightarrow> 16 \<le> n \<and> n < 24"
  "bit (4096 :: int) n \<longleftrightarrow> n = 12"
proof -
  have "(4278190080 :: int) = push_bit 24 (mask 8)" "(983040 :: int) = push_bit 16 (mask 4)"
       "(4294901760 :: int) = push_bit 16 (mask 16)" "(16711680 :: int) = push_bit 16 (mask 8)"
       "(4096 :: int) = push_bit 12 (mask 1)"
    by (simp_all add: mask_eq_exp_minus_1 push_bit_eq_mult)
  then show
    "bit (4278190080 :: int) n \<longleftrightarrow> 24 \<le> n \<and> n < 32"
    "bit (983040 :: int) n \<longleftrightarrow> 16 \<le> n \<and> n < 20"
    "bit (4294901760 :: int) n \<longleftrightarrow> 16 \<le> n \<and> n < 32"
    "bit (16711680 :: int) n \<longleftrightarrow> 16 \<le> n \<and> n < 24"
    "bit (4096 :: int) n \<longleftrightarrow> n = 12"
    by (simp_all only: bit_push_bit_iff bit_mask_iff possible_bit_def) auto
qed

lemma flag_tests:
  "x AND 0x00800000 > 0 \<longleftrightarrow> bit x 23" "x AND 0x00400000 > 0 \<longleftrightarrow> bit x 22"
  "x AND 0x00200000 > 0 \<longleftrightarrow> bit x 21" "x AND 0x00100000 > 0 \<longleftrightarrow> bit x 20" for x :: Bit32u
  using and_pow2_eq_0 [of 23 x] and_pow2_eq_0 [of 22 x] and_pow2_eq_0 [of 21 x] and_pow2_eq_0 [of 20 x]
  by (simp_all add: word_gt_0)

lemmas desc_bits = bit_simps bit_mask_literals bit_desc_literals bit_1_iff

text \<open>The parse of a code or data descriptor, field by field.\<close>

lemma parse_code_data:
  assumes "bit dword2 12"
  shows "parse_descriptor dword1 dword2 t = t\<lparr>
     valid := 1, p := b2u (bit dword2 15), dpl := ucast (drop_bit 13 dword2 AND 3),
     segment := 1, type_d := ucast (drop_bit 8 dword2 AND 15),
     base := ucast (drop_bit 16 dword1) OR push_bit 16 (ucast (dword2 AND 0xFF)) OR ucast (dword2 AND 0xFF000000),
     limit_scaled := (if bit dword2 23 then push_bit 12 (seg_limit dword1 dword2) OR 0xfff
                      else seg_limit dword1 dword2),
     g := b2u (bit dword2 23), d_b := b2u (bit dword2 22), l := b2u (bit dword2 21), avl := b2u (bit dword2 20)\<rparr>"
proof -
  have seg: "ucast (drop_bit 4 (ucast (drop_bit 8 dword2) :: Bit8u) AND 1) = (1 :: Bit32u)"
    using assms by (simp add: drop_bit_and_1 bit_simps)
  have "ucast (drop_bit 7 (ucast (drop_bit 8 dword2) :: Bit8u) AND 1) = b2u (bit dword2 15)"
    by (simp add: drop_bit_and_1 bit_simps b2u_def)
  moreover have "drop_bit 5 (ucast (drop_bit 8 dword2) :: Bit8u) AND 3 = ucast (drop_bit 13 dword2 AND 3)"
    "(ucast (drop_bit 8 dword2) :: Bit8u) AND 15 = ucast (drop_bit 8 dword2 AND 15)"
    by (rule bit_word_eqI, auto simp: desc_bits)+
  moreover have "(ucast (drop_bit 16 dword1 OR push_bit 16 (dword2 AND 0xFF)) :: bx_address) =
      ucast (drop_bit 16 dword1) OR push_bit 16 (ucast (dword2 AND 0xFF))"
    by (rule bit_word_eqI) (auto simp: desc_bits)
  ultimately show ?thesis
    by (intro bx_descriptor_t.equality)
       (simp_all add: parse_descriptor_def Let_def seg flag_tests or.assoc)
qed

lemma descriptor_l_parse:
  assumes "bit dword2 12"
  shows "get_descriptor_l (parse_descriptor dword1 dword2 t) = dword1"
proof -
  have "drop_bit 12 (push_bit 12 (seg_limit dword1 dword2) OR 0xfff) = seg_limit dword1 dword2"
    by (rule bit_word_eqI) (auto simp: seg_limit_def desc_bits)
  then show ?thesis
    by (simp add: parse_code_data [OF assms] get_descriptor_l_def Let_def b2u_def)
       (rule bit_word_eqI, auto simp: seg_limit_def desc_bits)
qed

lemma descriptor_h_parse:
  assumes "bit dword2 12"
  shows "get_descriptor_h (parse_descriptor dword1 dword2 t) = dword2"
proof -
  have "drop_bit 12 (push_bit 12 (seg_limit dword1 dword2) OR 0xfff) = seg_limit dword1 dword2"
    by (rule bit_word_eqI) (auto simp: seg_limit_def desc_bits)
  then have limit: "(if b2u (bit dword2 23) \<noteq> 0 then drop_bit 12 (if bit dword2 23 then push_bit 12 (seg_limit dword1 dword2) OR 0xfff
                      else seg_limit dword1 dword2) else if bit dword2 23 then push_bit 12 (seg_limit dword1 dword2) OR 0xfff
                      else seg_limit dword1 dword2) = seg_limit dword1 dword2"
    by simp
  show ?thesis
  proof (rule bit_word_eqI)
    fix n assume n: "n < LENGTH(32)"
    then consider "n < 8" | "8 \<le> n" "n < 12" | "n = 12" | "13 \<le> n" "n < 15" | "n = 15" | "16 \<le> n" "n < 20"
      | "n = 20" | "n = 21" | "n = 22" | "n = 23" | "24 \<le> n" by fastforce
    then show "bit (get_descriptor_h (parse_descriptor dword1 dword2 t)) n = bit dword2 n"
      using assms n
      by cases (auto simp: get_descriptor_h_def parse_code_data limit seg_limit_def desc_bits
          dest: bit_imp_le_length)
  qed
qed

text \<open>
  Parsing a code or data segment descriptor and rebuilding its two words is the
  identity, for every pair of words with the S bit set: \<open>parse_descriptor\<close> loses no bit of
  the descriptor, scaled limits and the long-mode bit included.
\<close>

theorem descriptor_parse_print:
  assumes "bit dword2 12"
  shows "get_descriptor_l (parse_descriptor dword1 dword2 t) = dword1 \<and>
         get_descriptor_h (parse_descriptor dword1 dword2 t) = dword2"
  using descriptor_l_parse [OF assms] descriptor_h_parse [OF assms] by blast

definition zero_descriptor :: bx_descriptor_t where
  "zero_descriptor = \<lparr>valid = 0, p = 0, dpl = 0, segment = 0, type_d = 0, base = 0, limit_scaled = 0,
     g = 0, d_b = 0, l = 0, avl = 0, param_count = 0, dest_selector = 0, dest_offset = 0, tss_selector = 0\<rparr>"

theorem descriptor_parse_print_witness:
  "bit (0x00AF9B00 :: Bit32u) 12 \<and>
   get_descriptor_h (parse_descriptor 0x0000FFFF 0x00AF9B00 zero_descriptor) = 0x00AF9B00"
  using descriptor_parse_print [of "0x00AF9B00" "0x0000FFFF" zero_descriptor]
  by simp

subsection \<open>The access-rights word of the hypervisor context\<close>

text \<open>
  The attributes \<open>GET_SEGMENT_FULL\<close> extracts are bits 8 to 23 of the high word, so
  bits 8 to 11 of the result are the limit's top nibble. All other bits are exactly
  what \<open>set_segment_ar_data\<close> was given, for a segment the code handles.
\<close>

definition seg_loadable :: "Bit32u \<Rightarrow> Bit16u \<Rightarrow> bool" where
  "seg_loadable v ar \<longleftrightarrow> bit ar 4 \<or> v = 0 \<or> (sys_segment_type (ucast (ar AND 15)) \<and> \<not> bit ar 13)"

lemma set_segment_selector:
  "selector (fst (set_segment_ar_data s v sel b lim ar)) = parse_selector sel"
  "valid (cache (fst (set_segment_ar_data s v sel b lim ar))) = v"
  by (simp_all add: set_segment_ar_data_def Let_def)

lemma one_bit_ucast: "ucast (drop_bit k ar AND 1) = b2u (bit ar k)" for ar :: Bit16u
  by (simp add: drop_bit_and_1 b2u_def)

lemma set_segment_cache:
  fixes s :: bx_segment_reg_t and b :: bx_address and lim :: Bit32u and sel :: Bit16u
  assumes "seg_loadable v ar"
  defines "d \<equiv> cache (fst (set_segment_ar_data s v sel b lim ar))"
  shows "base d = b" "limit_scaled d = lim" "g d = b2u (bit ar 15)" "d_b d = b2u (bit ar 14)"
    "avl d = b2u (bit ar 12)" "p d = b2u (bit ar 7)" "dpl d = ucast (drop_bit 5 ar AND 3)"
    "segment d = b2u (bit ar 4)" "type_d d = ucast (ar AND 15)"
    "bit ar 4 \<or> v = 0 \<Longrightarrow> l d = b2u (bit ar 13)"
  using assms by (auto simp: set_segment_ar_data_def Let_def one_bit_ucast seg_loadable_def)

lemma set_segment_attributes:
  assumes ok: "seg_loadable v ar" and n: "n < 16" "n < 8 \<or> 12 \<le> n"
  shows "bit (drop_bit 8 (get_descriptor_h (cache (fst (set_segment_ar_data s v sel b lim ar))))) n = bit ar n"
proof -
  consider "n < 4" | "n = 4" | "n = 5" | "n = 6" | "n = 7" | "n = 12" | "n = 13" | "n = 14" | "n = 15" using n by force
  then show ?thesis
  proof cases
    case 1
    then show ?thesis
      using ok set_segment_cache [OF ok] set_segment_selector
      by (auto simp: get_descriptor_h_def Let_def desc_bits seg_loadable_def)
  qed (use ok set_segment_cache [OF ok] set_segment_selector in
        \<open>auto simp: get_descriptor_h_def Let_def desc_bits seg_loadable_def\<close>)
qed

end
