(* ===== verification/ICache.thy ===== *)
theory ICache
  imports Prelude
begin

text \<open>
  The instruction (trace) cache of the emulated CPU, \<^verbatim>\<open>bochs/cpu/icache.h\<close>, with the
  age field the hypervisor integration adds: entries built before the last switch
  from the hypervisor are not used again. The entry and pool arrays are functions on
  their index; a pointer to a pool instruction or to an entry is its index. An
  instruction is reduced to the three fields \<open>genDummyICacheEntry\<close> writes.
\<close>

datatype exec_ptr = BxEndTrace | Handler nat

record bxInstruction_c =
  ilen :: Bit8u
  ia_opcode :: Bit16u
  execute1 :: exec_ptr

record bxICacheEntry_c =
  pAddr :: bx_phy_address
  traceMask :: Bit32u
  age :: Bit64u
  tlen :: Bit32u
  i_ptr :: nat

record pageSplitEntryIndex =
  ppf :: bx_phy_address
  e_ptr :: nat

record bxICache_c =
  entry :: "nat \<Rightarrow> bxICacheEntry_c"
  mpool :: "nat \<Rightarrow> bxInstruction_c"
  mpindex :: nat
  traceLinkTimeStamp :: Bit32u
  pageSplitIndex :: "nat \<Rightarrow> pageSplitEntryIndex"
  nextPageSplitIndex :: nat

abbreviation (input) "BxICacheEntries \<equiv> (65536 :: nat)"
abbreviation (input) "BxICacheMemPool \<equiv> (589824 :: nat)"
abbreviation (input) "BX_MAX_TRACE_LENGTH \<equiv> (32 :: nat)"
abbreviation (input) "BX_ICACHE_PAGE_SPLIT_ENTRIES \<equiv> (8 :: nat)"

definition BX_ICACHE_INVALID_PHY_ADDRESS :: bx_phy_address where
  "BX_ICACHE_INVALID_PHY_ADDRESS = - 1"

subsection \<open>Page write stamps\<close>

definition stamp_hash :: "bx_phy_address \<Rightarrow> Bit32u" where
  "stamp_hash paddr = drop_bit 12 (ucast paddr :: Bit32u)"

definition PAGE_OFFSET :: "bx_address \<Rightarrow> Bit32u" where
  "PAGE_OFFSET laddr = ucast laddr AND 0xfff"

text \<open>One bit per 128 byte line of the page: the first and the last line of the access.\<close>

definition stamp_mask :: "bx_phy_address \<Rightarrow> nat \<Rightarrow> Bit32u" where
  "stamp_mask paddr len =
     push_bit (unat (drop_bit 7 (PAGE_OFFSET paddr))) 1 OR
     push_bit (unat (drop_bit 7 (PAGE_OFFSET (paddr + of_nat len - 1)))) 1"

definition getFineGranularityMapping :: "(Bit32u \<Rightarrow> Bit32u) \<Rightarrow> bx_phy_address \<Rightarrow> Bit32u" where
  "getFineGranularityMapping fg paddr = fg (stamp_hash paddr)"

definition markICacheMask :: "(Bit32u \<Rightarrow> Bit32u) \<Rightarrow> bx_phy_address \<Rightarrow> Bit32u \<Rightarrow> Bit32u \<Rightarrow> Bit32u" where
  "markICacheMask fg paddr msk = fg(stamp_hash paddr := fg (stamp_hash paddr) OR msk)"

definition markICache :: "(Bit32u \<Rightarrow> Bit32u) \<Rightarrow> bx_phy_address \<Rightarrow> nat \<Rightarrow> Bit32u \<Rightarrow> Bit32u" where
  "markICache fg paddr len = fg(stamp_hash paddr := fg (stamp_hash paddr) OR stamp_mask paddr len)"

subsection \<open>Cache operations\<close>

definition genDummyICacheEntry :: "Bit16u \<Rightarrow> bxInstruction_c \<Rightarrow> bxInstruction_c" where
  "genDummyICacheEntry BX_INSERTED_OPCODE i = i\<lparr>ilen := 0, ia_opcode := BX_INSERTED_OPCODE, execute1 := BxEndTrace\<rparr>"

definition ic_hash :: "bx_phy_address \<Rightarrow> Bit32u \<Rightarrow> Bit32u" where
  "ic_hash paddr fetchModeMask = ucast (paddr AND 0xffff) XOR fetchModeMask"

definition flushICacheEntries :: "bxICache_c \<Rightarrow> bxICache_c" where
  "flushICacheEntries ic = ic\<lparr>
     entry := (\<lambda>n. if n < BxICacheEntries
                   then (entry ic n)\<lparr>pAddr := BX_ICACHE_INVALID_PHY_ADDRESS, traceMask := 0\<rparr>
                   else entry ic n),
     nextPageSplitIndex := 0,
     pageSplitIndex := (\<lambda>n. if n < BX_ICACHE_PAGE_SPLIT_ENTRIES
                            then (pageSplitIndex ic n)\<lparr>ppf := BX_ICACHE_INVALID_PHY_ADDRESS\<rparr>
                            else pageSplitIndex ic n),
     mpindex := 0, traceLinkTimeStamp := 0\<rparr>"

definition alloc_trace :: "nat \<Rightarrow> bxICache_c \<Rightarrow> bxICache_c" where
  "alloc_trace e ic =
     (let ic1 = (if mpindex ic + BX_MAX_TRACE_LENGTH + 1 > BxICacheMemPool then flushICacheEntries ic else ic)
      in ic1\<lparr>entry := (entry ic1)(e := (entry ic1 e)\<lparr>i_ptr := mpindex ic1, tlen := 0\<rparr>)\<rparr>)"

definition commit_trace :: "nat \<Rightarrow> bxICache_c \<Rightarrow> bxICache_c" where
  "commit_trace len ic = ic\<lparr>mpindex := mpindex ic + len\<rparr>"

definition commit_page_split_trace :: "bx_phy_address \<Rightarrow> nat \<Rightarrow> bxICache_c \<Rightarrow> bxICache_c" where
  "commit_page_split_trace paddr e ic =
     (let n = nextPageSplitIndex ic;
          old = pageSplitIndex ic n;
          ent = (if ppf old \<noteq> BX_ICACHE_INVALID_PHY_ADDRESS
                 then (entry ic)(e_ptr old := (entry ic (e_ptr old))\<lparr>pAddr := BX_ICACHE_INVALID_PHY_ADDRESS\<rparr>)
                 else entry ic)
      in ic\<lparr>mpindex := mpindex ic + unat (tlen (entry ic e)),
            entry := ent,
            pageSplitIndex := (pageSplitIndex ic)(n := \<lparr>ppf = paddr, e_ptr = e\<rparr>),
            nextPageSplitIndex := (n + 1) mod BX_ICACHE_PAGE_SPLIT_ENTRIES\<rparr>)"

definition get_entry :: "bxICache_c \<Rightarrow> bx_phy_address \<Rightarrow> Bit32u \<Rightarrow> nat" where
  "get_entry ic paddr fetchModeMask = unat (ic_hash paddr fetchModeMask)"

text \<open>\<open>None\<close> is the NULL of the source: a miss, or an entry of a different age.\<close>

definition find_entry :: "Bit64u \<Rightarrow> bxICache_c \<Rightarrow> bx_phy_address \<Rightarrow> Bit32u \<Rightarrow> nat option" where
  "find_entry hypervisor_context_switches ic paddr fetchModeMask =
     (let e = get_entry ic paddr fetchModeMask
      in if pAddr (entry ic e) \<noteq> paddr then None
         else if age (entry ic e) \<noteq> hypervisor_context_switches then None
         else Some e)"

definition breakLinks :: "bxICache_c \<Rightarrow> bxICache_c \<times> bool" where
  "breakLinks ic =
     (let ic1 = ic\<lparr>traceLinkTimeStamp := traceLinkTimeStamp ic + 1\<rparr>
      in if traceLinkTimeStamp ic1 = 0xffffffff then (flushICacheEntries ic1, True) else (ic1, False))"

definition flushSMC :: "Bit16u \<Rightarrow> nat \<Rightarrow> bxICache_c \<Rightarrow> bxICache_c" where
  "flushSMC BX_INSERTED_OPCODE e ic =
     (if pAddr (entry ic e) \<noteq> BX_ICACHE_INVALID_PHY_ADDRESS then
        (let k = i_ptr (entry ic e)
         in ic\<lparr>entry := (entry ic)(e := (entry ic e)\<lparr>pAddr := BX_ICACHE_INVALID_PHY_ADDRESS\<rparr>),
               mpool := (mpool ic)(k := genDummyICacheEntry BX_INSERTED_OPCODE (mpool ic k))\<rparr>)
      else ic)"

definition LPFOf :: "bx_address \<Rightarrow> bx_address" where
  "LPFOf laddr = laddr AND 0xfffffffffffff000"

definition PPFOf :: "bx_phy_address \<Rightarrow> bx_address" where
  "PPFOf paddr = paddr AND 0xfffffffffffff000"

text \<open>The page-split table entries of the page are dropped, and the traces they point to.\<close>

definition smc_split_step :: "Bit16u \<Rightarrow> Bit32u \<Rightarrow> nat \<Rightarrow> bxICache_c \<Rightarrow> bxICache_c" where
  "smc_split_step BX_INSERTED_OPCODE pAddrIndex n ic =
     (let ps = pageSplitIndex ic n
      in if ppf ps \<noteq> BX_ICACHE_INVALID_PHY_ADDRESS \<and> pAddrIndex = stamp_hash (ppf ps)
         then flushSMC BX_INSERTED_OPCODE (e_ptr ps)
                (ic\<lparr>pageSplitIndex := (pageSplitIndex ic)(n := ps\<lparr>ppf := BX_ICACHE_INVALID_PHY_ADDRESS\<rparr>)\<rparr>)
         else ic)"

definition smc_entry_step :: "Bit16u \<Rightarrow> Bit32u \<Rightarrow> Bit32u \<Rightarrow> nat \<Rightarrow> bxICache_c \<Rightarrow> bxICache_c" where
  "smc_entry_step BX_INSERTED_OPCODE pAddrIndex msk e ic =
     (if pAddrIndex = stamp_hash (pAddr (entry ic e)) \<and> traceMask (entry ic e) AND msk \<noteq> 0
      then flushSMC BX_INSERTED_OPCODE e ic else ic)"

text \<open>The entries the loop visits: 128 per cache line, up to the highest line of the mask.\<close>

definition smc_visited :: "nat \<Rightarrow> Bit32u \<Rightarrow> nat list" where
  "smc_visited e0 msk =
     concat (map (\<lambda>n. [e0 + 128 * n ..< e0 + 128 * n + 128]) (takeWhile (\<lambda>n. push_bit n 1 \<le> msk) [0..<32]))"

definition ic_handleSMC :: "Bit16u \<Rightarrow> bx_phy_address \<Rightarrow> Bit32u \<Rightarrow> bxICache_c \<Rightarrow> bxICache_c" where
  "ic_handleSMC BX_INSERTED_OPCODE paddr msk ic =
     (let pAddrIndex = stamp_hash paddr; (ic1, flushed) = breakLinks ic
      in if flushed then ic1
         else (let ic2 = (if msk AND 0x1 \<noteq> 0
                          then fold (smc_split_step BX_INSERTED_OPCODE pAddrIndex) [0..<BX_ICACHE_PAGE_SPLIT_ENTRIES] ic1
                          else ic1)
               in fold (smc_entry_step BX_INSERTED_OPCODE pAddrIndex msk)
                       (smc_visited (get_entry ic2 (LPFOf paddr) 0) msk) ic2))"

text \<open>
  A write to a page: when one of the written lines holds cached code, the traces are
  dropped (on the one CPU of the build) and the lines are unmarked. The second
  component of the result says whether \<open>handleSMC\<close> ran, which also raises
  \<open>BX_ASYNC_EVENT_STOP_TRACE\<close>.
\<close>

definition decWriteStamp_page ::
    "Bit16u \<Rightarrow> bx_phy_address \<Rightarrow> (Bit32u \<Rightarrow> Bit32u) \<Rightarrow> bxICache_c \<Rightarrow> (Bit32u \<Rightarrow> Bit32u) \<times> bxICache_c \<times> bool" where
  "decWriteStamp_page BX_INSERTED_OPCODE paddr fg ic =
     (let index = stamp_hash paddr
      in if fg index \<noteq> 0 then (fg(index := 0), ic_handleSMC BX_INSERTED_OPCODE paddr 0xffffffff ic, True)
         else (fg, ic, False))"

definition decWriteStamp ::
    "Bit16u \<Rightarrow> bx_phy_address \<Rightarrow> nat \<Rightarrow> (Bit32u \<Rightarrow> Bit32u) \<Rightarrow> bxICache_c \<Rightarrow> (Bit32u \<Rightarrow> Bit32u) \<times> bxICache_c \<times> bool" where
  "decWriteStamp BX_INSERTED_OPCODE paddr len fg ic =
     (let index = stamp_hash paddr; msk = stamp_mask paddr len
      in if fg index \<noteq> 0 \<and> fg index AND msk \<noteq> 0
         then (fg(index := fg index AND NOT msk), ic_handleSMC BX_INSERTED_OPCODE paddr msk ic, True)
         else (fg, ic, False))"

definition resetWriteStamps :: "(Bit32u \<Rightarrow> Bit32u) \<Rightarrow> Bit32u \<Rightarrow> Bit32u" where
  "resetWriteStamps fg = (\<lambda>i. if unat i < 1024 * 1024 then 0 else fg i)"

subsection \<open>Lookups\<close>

lemma find_entry_SomeD:
  "find_entry hcs ic paddr fm = Some e \<Longrightarrow>
     e = unat (ic_hash paddr fm) \<and> pAddr (entry ic e) = paddr \<and> age (entry ic e) = hcs"
  by (auto simp: find_entry_def get_entry_def Let_def split: if_splits)

text \<open>The hash keeps traces of different fetch modes apart: equal address and slot give equal mode.\<close>

lemma ic_hash_inj: "ic_hash paddr fm = ic_hash paddr fm' \<Longrightarrow> fm = fm'"
proof -
  assume "ic_hash paddr fm = ic_hash paddr fm'"
  then have "(ucast (paddr AND 0xffff) XOR ic_hash paddr fm) = (ucast (paddr AND 0xffff) XOR ic_hash paddr fm')"
    by simp
  then show "fm = fm'" by (simp add: ic_hash_def flip: xor.assoc)
qed

lemma flush_entry:
  "pAddr (entry (flushICacheEntries ic) n) = (if n < 65536 then BX_ICACHE_INVALID_PHY_ADDRESS else pAddr (entry ic n))"
  by (simp add: flushICacheEntries_def)

lemma flushSMC_pAddr:
  "pAddr (entry (flushSMC op e ic) n) = (if n = e then BX_ICACHE_INVALID_PHY_ADDRESS else pAddr (entry ic n))"
  by (auto simp: flushSMC_def Let_def)

lemma flushSMC_traceMask [simp]:
  "traceMask (entry (flushSMC op e ic) n) = traceMask (entry ic n)"
  "age (entry (flushSMC op e ic) n) = age (entry ic n)"
  by (auto simp: flushSMC_def Let_def)

text \<open>The scan only ever invalidates: what it does not touch keeps its address and mask.\<close>

definition only_invalidates :: "bxICache_c \<Rightarrow> bxICache_c \<Rightarrow> bool" where
  "only_invalidates ic ic' \<longleftrightarrow> (\<forall>n. traceMask (entry ic' n) = traceMask (entry ic n) \<and>
     (pAddr (entry ic' n) = pAddr (entry ic n) \<or> pAddr (entry ic' n) = BX_ICACHE_INVALID_PHY_ADDRESS))"

lemma only_invalidates_refl: "only_invalidates ic ic"
  by (simp add: only_invalidates_def)

lemma only_invalidates_trans:
  "only_invalidates a b \<Longrightarrow> only_invalidates b c \<Longrightarrow> only_invalidates a c"
  unfolding only_invalidates_def by metis

lemma only_invalidates_flushSMC: "only_invalidates ic (flushSMC op e ic)"
  by (auto simp: only_invalidates_def flushSMC_pAddr)

lemma only_invalidates_steps:
  "only_invalidates ic (smc_split_step op px n ic)" "only_invalidates ic (smc_entry_step op px m n ic)"
  by (auto simp: smc_split_step_def smc_entry_step_def Let_def only_invalidates_def flushSMC_pAddr)

lemma only_invalidates_fold:
  "(\<And>n ic. only_invalidates ic (f n ic)) \<Longrightarrow> only_invalidates ic (fold f ns ic)"
  by (induction ns arbitrary: ic) (auto intro: only_invalidates_refl only_invalidates_trans)

lemma only_invalidatesD:
  "only_invalidates ic ic' \<Longrightarrow> pAddr (entry ic' n) \<noteq> BX_ICACHE_INVALID_PHY_ADDRESS \<Longrightarrow>
     pAddr (entry ic n) = pAddr (entry ic' n)"
  "only_invalidates ic ic' \<Longrightarrow> traceMask (entry ic' n) = traceMask (entry ic n)"
  unfolding only_invalidates_def by metis+

lemma smc_fold_hits:
  assumes "e \<in> set es" "pAddr (entry (fold (smc_entry_step op px m) es ic) e) = a"
    "stamp_hash a = px" "traceMask (entry ic e) AND m \<noteq> 0"
  shows "a = BX_ICACHE_INVALID_PHY_ADDRESS"
  using assms
proof (induction es arbitrary: ic)
  case (Cons x es)
  let ?ic' = "smc_entry_step op px m x ic"
  have tm: "traceMask (entry ?ic' e) = traceMask (entry ic e)"
    by (rule only_invalidatesD(2) [OF only_invalidates_steps(2)])
  have rest: "only_invalidates ?ic' (fold (smc_entry_step op px m) es ?ic')"
    by (rule only_invalidates_fold) (rule only_invalidates_steps)
  show ?case
  proof (cases "x = e")
    case True
    show ?thesis
    proof (rule ccontr)
      assume a: "a \<noteq> BX_ICACHE_INVALID_PHY_ADDRESS"
      with Cons.prems(2) have "pAddr (entry ?ic' e) = a"
        using only_invalidatesD(1) [OF rest, of e] by simp
      with a have "pAddr (entry ic e) = a"
        using only_invalidatesD(1) [OF only_invalidates_steps(2), of op px m x ic e] by simp
      with True Cons.prems \<open>pAddr (entry ?ic' e) = a\<close> a show False
        by (auto simp: smc_entry_step_def flushSMC_pAddr)
    qed
  next
    case False
    with Cons.prems tm show ?thesis by (intro Cons.IH [of ?ic']) auto
  qed
qed simp

text \<open>The 128 byte line of its page an address lies in.\<close>

definition line_of :: "bx_phy_address \<Rightarrow> nat" where
  "line_of a = unat (drop_bit 7 (PAGE_OFFSET a))"

lemma drop_hash: "fm < 64 \<Longrightarrow> drop_bit 7 (ic_hash a fm) = drop_bit 7 (ucast (a AND 0xffff))"
proof -
  assume "fm < 64"
  then have "unat fm < 2 ^ 6" by (simp add: word_less_nat_alt)
  then have "take_bit 6 fm = fm"
    by (simp add: word_unat_eq_iff unsigned_take_bit_eq take_bit_nat_eq_self)
  then have "bit fm n \<Longrightarrow> n < 6" for n by (metis bit_take_bit_iff)
  then have "\<not> bit fm (7 + n)" for n by fastforce
  then show ?thesis
    by (intro bit_word_eqI) (auto simp: ic_hash_def bit_simps)
qed

lemma and_masks_take_bit:
  "a AND 0xffff = take_bit 16 a" "a AND 0xfff = take_bit 12 a" for a :: "'a::len word"
  by (rule bit_word_eqI; simp add: bit_simps bit_mask_literals; linarith)+

lemmas unat_bits = unsigned_drop_bit_eq unsigned_push_bit_eq unsigned_take_bit_eq unsigned_ucast_eq
lemmas nat_bits = drop_bit_eq_div push_bit_eq_mult take_bit_eq_mod mod_mod_cancel

lemma unat_line: "line_of a = (unat a mod 4096) div 128"
  by (simp only: line_of_def PAGE_OFFSET_def and_masks_take_bit unat_bits) (simp add: nat_bits)

lemma unat_stamp: "unat (stamp_hash a) = (unat a mod 4294967296) div 4096"
  by (simp only: stamp_hash_def unat_bits) (simp add: nat_bits)

lemma unat_slot: "fm < 64 \<Longrightarrow> unat (ic_hash a fm) div 128 = (unat a mod 65536) div 128"
  using arg_cong [OF drop_hash, of fm unat a] unat_less_exp [of "ic_hash a fm"]
  by (simp only: and_masks_take_bit unat_bits) (simp add: nat_bits)

lemma unat_page_slot: "unat (ic_hash (LPFOf b) 0) = (unat b mod 65536) div 4096 * 4096"
proof -
  have "(0xfffffffffffff000 :: bx_address) = NOT (mask 12)" by code_simp
  then have "LPFOf b = b AND NOT (mask 12)" by (simp only: LPFOf_def)
  then have "ic_hash (LPFOf b) 0 = push_bit 12 (drop_bit 12 (ucast (take_bit 16 b)))"
    by (intro bit_word_eqI) (auto simp: ic_hash_def and_masks_take_bit bit_simps simp del: mask_numeral)
  then show ?thesis
    by (simp only: unat_bits) (simp add: nat_bits)
qed

lemma mod_page_split: "x mod (4096 * k) div 4096 = x div 4096 mod k" "x mod (4096 * k) = 4096 * (x div 4096 mod k) + x mod 4096"
  for x k :: nat
  by (simp_all add: mod_mult2_eq)

lemma page_slot_arith:
  fixes a b :: nat
  assumes "(a mod 4294967296) div 4096 = (b mod 4294967296) div 4096"
  shows "(a mod 65536) div 128 = (b mod 65536) div 4096 * 32 + (a mod 4096) div 128"
proof -
  have page: "x mod 65536 div 4096 = (x mod 4294967296 div 4096) mod 16" for x :: nat
    using mod_page_split(1) [of x 16] mod_page_split(1) [of x 1048576]
    by (simp add: mod_mod_cancel)
  have "a mod 65536 = 4096 * (a mod 65536 div 4096) + a mod 4096"
    using mod_page_split [of a 16] by simp
  then have "(a mod 65536) div 128 = (4096 * (a mod 65536 div 4096) + a mod 4096) div 128" by simp
  also have "\<dots> = 32 * (a mod 65536 div 4096) + (a mod 4096) div 128"
    using div_mult_self3 [of 128 "32 * (a mod 65536 div 4096)" "a mod 4096"] by (simp add: algebra_simps)
  also have "a mod 65536 div 4096 = b mod 65536 div 4096" using assms by (simp only: page)
  finally show ?thesis by simp
qed

lemma slot_bound: "fm < 64 \<Longrightarrow> unat (ic_hash a fm) < 65536"
proof -
  assume fm: "fm < 64"
  have "(unat a mod 65536) div 128 < 512" by (rule less_mult_imp_div_less) simp
  with unat_slot [OF fm, of a] show ?thesis by linarith
qed

lemma hash_slot:
  assumes "stamp_hash a = stamp_hash b" and "fm < 64"
  shows "unat (ic_hash a fm) div 128 = unat (ic_hash (LPFOf b) 0) div 128 + line_of a"
    and "128 dvd unat (ic_hash (LPFOf b) 0)"
proof -
  have "(unat a mod 4294967296) div 4096 = (unat b mod 4294967296) div 4096"
    using arg_cong [OF assms(1), of unat] by (simp only: unat_stamp)
  from page_slot_arith [OF this]
  show "unat (ic_hash a fm) div 128 = unat (ic_hash (LPFOf b) 0) div 128 + line_of a"
    using assms(2) by (simp add: unat_slot unat_page_slot unat_line)
  show "128 dvd unat (ic_hash (LPFOf b) 0)"
    by (simp add: unat_page_slot dvd_mult)
qed

lemma line_of_less: "line_of a < 32"
  by (simp add: unat_line less_mult_imp_div_less)

lemma push_bit_le_if_bit: "bit w n \<Longrightarrow> push_bit n 1 \<le> w" for w :: "'a::len word"
proof -
  assume "bit w n"
  then have "push_bit n 1 = w AND push_bit n 1"
    by (intro bit_word_eqI) (auto simp: bit_simps bit_1_iff)
  then show ?thesis by (metis word_and_le2)
qed

lemma push_bit_mono: "i \<le> j \<Longrightarrow> j < LENGTH('a) \<Longrightarrow> push_bit i (1 :: 'a::len word) \<le> push_bit j 1"
proof -
  assume *: "i \<le> j" "j < LENGTH('a)"
  have "unat (push_bit n (1 :: 'a word)) = 2 ^ n" if "n < LENGTH('a)" for n
    using that by (simp only: unsigned_push_bit_eq unsigned_1) (simp add: nat_bits)
  with * show ?thesis by (simp only: word_le_nat_alt) (simp add: power_increasing)
qed

lemma takeWhile_upt_member:
  "(\<And>j. j \<le> n \<Longrightarrow> P j) \<Longrightarrow> n < m \<Longrightarrow> n \<in> set (takeWhile P [0..<m])"
proof -
  assume P: "\<And>j. j \<le> n \<Longrightarrow> P j" and n: "n < m"
  have "[0..<m] = [0..<Suc n] @ [Suc n..<m]"
    using n upt_add_eq_append [of 0 "Suc n" "m - Suc n"] by simp
  moreover have "\<forall>x \<in> set [0..<Suc n]. P x" using P by auto
  ultimately have "takeWhile P [0..<m] = [0..<Suc n] @ takeWhile P [Suc n..<m]"
    by (simp only: takeWhile_append2)
  then show ?thesis by simp
qed

lemma block_arith:
  fixes e e0 n :: nat
  assumes "e div 128 = e0 div 128 + n" "128 dvd e0"
  shows "e0 + 128 * n \<le> e \<and> e < e0 + 128 * n + 128"
proof -
  obtain q where "e0 = 128 * q" using assms(2) by blast
  with assms(1) div_mult_mod_eq [of e 128] mod_less_divisor [of 128 e] show ?thesis by simp
qed

lemma visited_covers:
  assumes "stamp_hash a = stamp_hash b" "fm < 64" "take_bit (line_of a) tm = 0" "tm AND msk \<noteq> 0"
  shows "unat (ic_hash a fm) \<in> set (smc_visited (unat (ic_hash (LPFOf b) 0)) msk)"
proof -
  let ?n = "line_of a" and ?base = "unat (ic_hash (LPFOf b) 0)" and ?e = "unat (ic_hash a fm)"
  obtain k where k: "bit tm k" "bit msk k"
    using assms(4) by (auto simp: bit_eq_iff bit_and_iff)
  have "\<not> bit (take_bit ?n tm) k" using assms(3) by simp
  then have "?n \<le> k" using k(1) by (simp add: bit_take_bit_iff)
  moreover have "k < 32" using k(1) by (rule bit_imp_le_length [of tm k, simplified])
  ultimately have "push_bit j 1 \<le> msk" if "j \<le> ?n" for j
    using that k(2) push_bit_mono [where ?'a = 32, of j k] push_bit_le_if_bit [of msk k] by force
  then have line: "?n \<in> set (takeWhile (\<lambda>n. push_bit n 1 \<le> msk) [0..<32])"
    using line_of_less by (intro takeWhile_upt_member) auto
  have "?base + 128 * ?n \<le> ?e" "?e < ?base + 128 * ?n + 128"
    using block_arith [OF hash_slot [OF assms(1,2)]] by blast+
  then have "?e \<in> set [?base + 128 * ?n ..< ?base + 128 * ?n + 128]" by simp
  with line show ?thesis by (auto simp: smc_visited_def)
qed

lemma handleSMC_keeps:
  assumes "e < 65536" "pAddr (entry (ic_handleSMC op b msk ic) e) \<noteq> BX_ICACHE_INVALID_PHY_ADDRESS"
  shows "pAddr (entry ic e) = pAddr (entry (ic_handleSMC op b msk ic) e)"
    and "traceMask (entry ic e) = traceMask (entry (ic_handleSMC op b msk ic) e)"
    and "\<not> snd (breakLinks ic)"
proof -
  let ?ic' = "ic_handleSMC op b msk ic"
  obtain ic1 flushed where bl: "breakLinks ic = (ic1, flushed)" by fastforce
  have nf: "\<not> flushed"
    using assms bl by (auto simp: ic_handleSMC_def breakLinks_def Let_def flush_entry split: if_splits)
  then have ne: "entry ic1 n = entry ic n" for n
    using bl by (auto simp: breakLinks_def Let_def split: if_splits)
  define ic2 where "ic2 = (if msk AND 0x1 \<noteq> 0
      then fold (smc_split_step op (stamp_hash b)) [0..<8] ic1 else ic1)"
  have ic': "?ic' = fold (smc_entry_step op (stamp_hash b) msk) (smc_visited (get_entry ic2 (LPFOf b) 0) msk) ic2"
    using bl nf by (simp add: ic_handleSMC_def ic2_def Let_def)
  have "only_invalidates ic1 ic2"
    by (simp add: ic2_def only_invalidates_refl only_invalidates_fold [OF only_invalidates_steps(1)])
  moreover have "only_invalidates ic2 ?ic'"
    unfolding ic' by (rule only_invalidates_fold) (rule only_invalidates_steps)
  ultimately have "only_invalidates ic1 ?ic'" by (rule only_invalidates_trans)
  from only_invalidatesD(1) [OF this assms(2)] only_invalidatesD(2) [OF this, of e] ne nf bl
  show "pAddr (entry ic e) = pAddr (entry ?ic' e)" "traceMask (entry ic e) = traceMask (entry ?ic' e)"
    "\<not> snd (breakLinks ic)" by simp_all
qed

lemma handleSMC_drops:
  assumes fm: "fm < 64" and e: "e = unat (ic_hash a fm)"
    and ad: "pAddr (entry (ic_handleSMC op b msk ic) e) = a" "a \<noteq> BX_ICACHE_INVALID_PHY_ADDRESS"
    and same_page: "stamp_hash a = stamp_hash b"
    and wf: "take_bit (line_of a) (traceMask (entry ic e)) = 0"
  shows "traceMask (entry ic e) AND msk = 0"
proof (rule ccontr)
  assume hit: "traceMask (entry ic e) AND msk \<noteq> 0"
  have "e < 65536" using slot_bound [OF fm] e by simp
  with ad handleSMC_keeps(3) [of e op b msk ic] obtain ic1 where bl: "breakLinks ic = (ic1, False)"
    by (cases "breakLinks ic") auto
  then have ne: "entry ic1 n = entry ic n" for n
    by (auto simp: breakLinks_def Let_def split: if_splits)
  define ic2 where "ic2 = (if msk AND 0x1 \<noteq> 0
      then fold (smc_split_step op (stamp_hash b)) [0..<8] ic1 else ic1)"
  have ic': "ic_handleSMC op b msk ic =
      fold (smc_entry_step op (stamp_hash b) msk) (smc_visited (get_entry ic2 (LPFOf b) 0) msk) ic2"
    using bl by (simp add: ic_handleSMC_def ic2_def Let_def)
  have "only_invalidates ic1 ic2"
    by (simp add: ic2_def only_invalidates_refl only_invalidates_fold [OF only_invalidates_steps(1)])
  from only_invalidatesD(2) [OF this, of e] ne
  have tm: "traceMask (entry ic2 e) = traceMask (entry ic e)" by simp
  from visited_covers [OF same_page fm wf hit] e
  have "e \<in> set (smc_visited (get_entry ic2 (LPFOf b) 0) msk)" by (simp add: get_entry_def)
  from smc_fold_hits [OF this ad(1) [unfolded ic'] same_page] hit tm ad(2) show False by simp
qed

subsection \<open>Coherence of the cache with the page write stamps\<close>

text \<open>
  A cached trace with a nonempty line mask sits in the slot of its address for some fetch
  mode, its mask only names lines from its first line on, and every line of the mask is
  marked in the write stamp of its page.
\<close>

definition slot_ok :: "(Bit32u \<Rightarrow> Bit32u) \<Rightarrow> nat \<Rightarrow> bxICacheEntry_c \<Rightarrow> bool" where
  "slot_ok fg e x \<longleftrightarrow> pAddr x = BX_ICACHE_INVALID_PHY_ADDRESS \<or> traceMask x = 0 \<or>
     (\<exists>fm < 64. e = unat (ic_hash (pAddr x) fm)) \<and> take_bit (line_of (pAddr x)) (traceMask x) = 0 \<and>
     traceMask x AND NOT (fg (stamp_hash (pAddr x))) = 0"

definition icache_coherent :: "(Bit32u \<Rightarrow> Bit32u) \<Rightarrow> bxICache_c \<Rightarrow> bool" where
  "icache_coherent fg ic \<longleftrightarrow> (\<forall>e < BxICacheEntries. slot_ok fg e (entry ic e))"

text \<open>Dropping the traces of the written lines and unmarking the lines keeps the cache coherent.\<close>

lemma handleSMC_coherent:
  assumes coh: "icache_coherent fg ic"
  shows "icache_coherent (fg(stamp_hash b := fg (stamp_hash b) AND NOT msk)) (ic_handleSMC op b msk ic)"
  unfolding icache_coherent_def
proof (intro allI impI)
  fix e :: nat
  assume e: "e < BxICacheEntries"
  let ?ic' = "ic_handleSMC op b msk ic" and ?x = "entry (ic_handleSMC op b msk ic) e"
  show "slot_ok (fg(stamp_hash b := fg (stamp_hash b) AND NOT msk)) e ?x"
  proof (cases "pAddr ?x = BX_ICACHE_INVALID_PHY_ADDRESS \<or> traceMask ?x = 0")
    case False
    then have v: "pAddr ?x \<noteq> BX_ICACHE_INVALID_PHY_ADDRESS" by simp
    note keep = handleSMC_keeps [OF e v]
    from coh e have "slot_ok fg e (entry ic e)" by (simp add: icache_coherent_def)
    with False keep obtain fm where ok: "fm < 64" "e = unat (ic_hash (pAddr ?x) fm)"
      "take_bit (line_of (pAddr ?x)) (traceMask ?x) = 0" "traceMask ?x AND NOT (fg (stamp_hash (pAddr ?x))) = 0"
      by (auto simp: slot_ok_def)
    moreover have "traceMask ?x AND msk = 0" if "stamp_hash (pAddr ?x) = stamp_hash b"
      using handleSMC_drops [OF ok(1,2) refl v that] ok(3) keep(2) by simp
    ultimately show ?thesis by (auto simp: slot_ok_def bit.conj_disj_distrib)
  qed (auto simp: slot_ok_def)
qed

lemma decWriteStamp_coherent:
  assumes "icache_coherent fg ic" "decWriteStamp op b len fg ic = (fg', ic', smc)"
  shows "icache_coherent fg' ic'"
  using assms handleSMC_coherent [OF assms(1), of b "stamp_mask b len" op]
  by (auto simp: decWriteStamp_def Let_def split: if_splits)

lemma decWriteStamp_page_coherent:
  assumes "icache_coherent fg ic" "decWriteStamp_page op b fg ic = (fg', ic', smc)"
  shows "icache_coherent fg' ic'"
proof -
  have "x AND NOT (0xffffffff :: Bit32u) = 0" for x
    by (rule bit_word_eqI) (auto simp: bit_simps bit_mask_literals)
  with handleSMC_coherent [OF assms(1), of b "0xffffffff" op]
  have "icache_coherent (fg(stamp_hash b := 0)) (ic_handleSMC op b 0xffffffff ic)" by metis
  with assms show ?thesis
    by (auto simp: decWriteStamp_page_def Let_def split: if_splits)
qed

text \<open>A coherent cache finds no trace on lines that the stamps do not mark.\<close>

lemma coherent_no_trace:
  assumes "icache_coherent fg ic" "find_entry hcs ic a fm = Some e" "fm < 64" "a \<noteq> BX_ICACHE_INVALID_PHY_ADDRESS"
    "fg (stamp_hash a) AND msk = 0"
  shows "traceMask (entry ic e) AND msk = 0"
proof -
  from find_entry_SomeD [OF assms(2)] have e: "e = unat (ic_hash a fm)" and ad: "pAddr (entry ic e) = a" by auto
  with slot_bound [OF assms(3)] assms(1) have "slot_ok fg e (entry ic e)" by (simp add: icache_coherent_def)
  with ad assms(4) have "traceMask (entry ic e) AND NOT (fg (stamp_hash a)) = 0" by (auto simp: slot_ok_def)
  with assms(5) show ?thesis by (auto simp: bit_eq_iff bit_simps)
qed

text \<open>
  Stores to cached code. After \<open>decWriteStamp\<close> for a store of \<open>len\<close> bytes, a lookup of
  any address of the stored page, in any fetch mode and whether or not \<open>handleSMC\<close> had
  to run, finds no trace that touches the stored lines, and the cache stays coherent
  with the write stamps.
\<close>

theorem decWriteStamp_no_stale_trace:
  assumes coh: "icache_coherent fg ic" and run: "decWriteStamp op b len fg ic = (fg', ic', smc)"
    and found: "find_entry hcs ic' a fm = Some e" and fm: "fm < 64"
    and page: "stamp_hash a = stamp_hash b" "a \<noteq> BX_ICACHE_INVALID_PHY_ADDRESS"
  shows "traceMask (entry ic' e) AND stamp_mask b len = 0 \<and> icache_coherent fg' ic'"
proof
  show coh': "icache_coherent fg' ic'" by (rule decWriteStamp_coherent [OF coh run])
  have fg': "fg' (stamp_hash b) AND stamp_mask b len = 0"
    using run by (auto simp: decWriteStamp_def Let_def bit_eq_iff bit_simps split: if_splits)
  then show "traceMask (entry ic' e) AND stamp_mask b len = 0"
    using coherent_no_trace [OF coh' found fm page(2)] page(1) by simp
qed

text \<open>A cache with one trace of two lines, and a store to the line before it that clears the marked line 0.\<close>

definition wit_icache :: bxICache_c where
  "wit_icache = \<lparr>entry = (\<lambda>n. if n = 0x1080 then \<lparr>pAddr = 0x1080, traceMask = 6, age = 7, tlen = 3, i_ptr = 0\<rparr>
       else \<lparr>pAddr = BX_ICACHE_INVALID_PHY_ADDRESS, traceMask = 0, age = 0, tlen = 0, i_ptr = 0\<rparr>),
     mpool = (\<lambda>_. \<lparr>ilen = 1, ia_opcode = 0, execute1 = Handler 0\<rparr>), mpindex = 3, traceLinkTimeStamp = 0,
     pageSplitIndex = (\<lambda>_. \<lparr>ppf = BX_ICACHE_INVALID_PHY_ADDRESS, e_ptr = 0\<rparr>), nextPageSplitIndex = 0\<rparr>"

definition wit_stamps :: "Bit32u \<Rightarrow> Bit32u" where
  "wit_stamps = (\<lambda>i. if i = 1 then 7 else 0)"

lemma wit_icache_coherent: "icache_coherent wit_stamps wit_icache"
proof -
  have "slot_ok wit_stamps 0x1080 \<lparr>pAddr = 0x1080, traceMask = 6, age = 7, tlen = 3, i_ptr = 0\<rparr>"
    unfolding slot_ok_def by (intro disjI2 conjI exI [of _ 0]) (code_simp+)
  then show ?thesis
    by (simp add: icache_coherent_def wit_icache_def) (simp add: slot_ok_def)
qed

lemma smc_fold_untouched:
  "(\<And>e. traceMask (entry ic e) AND m = 0) \<Longrightarrow> fold (smc_entry_step op px m) es ic = ic"
  by (induction es) (auto simp: smc_entry_step_def)

lemma smc_split_untouched:
  "(\<And>n. ppf (pageSplitIndex ic n) = BX_ICACHE_INVALID_PHY_ADDRESS) \<Longrightarrow> fold (smc_split_step op px) ns ic = ic"
  by (induction ns) (auto simp: smc_split_step_def Let_def)

lemma wit_store:
  "decWriteStamp 0 0x1010 8 wit_stamps wit_icache =
     (wit_stamps(1 := 6), wit_icache\<lparr>traceLinkTimeStamp := 1\<rparr>, True)"
proof -
  have m: "stamp_mask 0x1010 8 = 1" and p: "stamp_hash 0x1010 = 1" by code_simp+
  have "ic_handleSMC 0 0x1010 1 wit_icache = wit_icache\<lparr>traceLinkTimeStamp := 1\<rparr>"
    by (simp add: ic_handleSMC_def breakLinks_def Let_def smc_fold_untouched smc_split_untouched wit_icache_def)
  then show ?thesis
    by (simp add: decWriteStamp_def m p wit_stamps_def Let_def)
qed

theorem decWriteStamp_no_stale_trace_witness:
  "find_entry 7 (fst (snd (decWriteStamp 0 0x1010 8 wit_stamps wit_icache))) 0x1080 0 = Some 0x1080 \<and>
   traceMask (entry (fst (snd (decWriteStamp 0 0x1010 8 wit_stamps wit_icache))) 0x1080) AND stamp_mask 0x1010 8 = 0"
proof -
  have f: "find_entry 7 (wit_icache\<lparr>traceLinkTimeStamp := 1\<rparr>) 0x1080 0 = Some 0x1080" by code_simp
  have "stamp_hash 0x1080 = stamp_hash 0x1010" "(0x1080 :: bx_phy_address) \<noteq> BX_ICACHE_INVALID_PHY_ADDRESS" by code_simp+
  with decWriteStamp_no_stale_trace [OF wit_icache_coherent wit_store f] f show ?thesis
    by (simp add: wit_store)
qed

end
