(* ===== verification/ICacheMiss.thy ===== *)
theory ICacheMiss
  imports ICache
begin

text \<open>
  Building traces: \<open>serveICacheMiss\<close>, \<open>mergeTraces\<close> and \<open>boundaryFetch\<close> of
  \<^verbatim>\<open>bochs/cpu/icache.cc\<close> and \<open>getICacheEntry\<close> of \<^verbatim>\<open>bochs/cpu/cpu.cc\<close>. The decoder
  (\<open>fetchDecode32/64\<close>), \<open>assignHandler\<close> and \<open>prefetch\<close> (the page walk) are parameters;
  \<open>prefetch\<close> returns the new fetch window, or nothing when it faults. The memory behind
  the fetch pointer is the function \<open>eipFetchPtr\<close>.
\<close>

record fetch_window =
  eipFetchPtr :: "nat \<Rightarrow> Bit8u"
  eipPageBias :: bx_address
  eipPageWindowSize :: Bit32u
  pAddrFetchPage :: bx_phy_address

record fetch_cpu =
  iCache :: bxICache_c
  stamps :: "Bit32u \<Rightarrow> Bit32u"
  window :: fetch_window
  fc_rip :: bx_address
  fc_prev_rip :: bx_address
  fc_pAddrStackPage :: bx_phy_address
  fc_espPageWindowSize :: Bit32u
  fc_fetchModeMask :: Bit32u

text \<open>What the build calls: the decoder (return code and instruction, from the bytes up to
  the end of the window), the handler assignment (stop indication), and the page walk.\<close>

record fetch_env =
  fetchDecode :: "Bit8u list \<Rightarrow> bxInstruction_c \<Rightarrow> int \<times> bxInstruction_c"
  assignHandler :: "bxInstruction_c \<Rightarrow> int \<times> bxInstruction_c"
  prefetch :: "bx_address \<Rightarrow> fetch_window option"
  inserted_opcode :: Bit16u
  hypervisor_context_switches :: Bit64u

datatype fetch_result = Fetched nat | Fault

abbreviation upd_entry :: "nat \<Rightarrow> (bxICacheEntry_c \<Rightarrow> bxICacheEntry_c) \<Rightarrow> bxICache_c \<Rightarrow> bxICache_c" where
  "upd_entry e f ic \<equiv> ic\<lparr>entry := (entry ic)(e := f (entry ic e))\<rparr>"

abbreviation upd_pool :: "nat \<Rightarrow> bxInstruction_c \<Rightarrow> bxICache_c \<Rightarrow> bxICache_c" where
  "upd_pool i ins ic \<equiv> ic\<lparr>mpool := (mpool ic)(i := ins)\<rparr>"

text \<open>\<open>memcpy(i, e->i, max_length)\<close>.\<close>

definition pool_copy :: "nat \<Rightarrow> nat \<Rightarrow> nat \<Rightarrow> bxICache_c \<Rightarrow> bxICache_c" where
  "pool_copy dst src len ic =
     ic\<lparr>mpool := (\<lambda>k. if dst \<le> k \<and> k < dst + len then mpool ic (src + (k - dst)) else mpool ic k)\<rparr>"

definition mergeTraces :: "Bit64u \<Rightarrow> Bit32u \<Rightarrow> nat \<Rightarrow> nat \<Rightarrow> bx_phy_address \<Rightarrow> bxICache_c \<Rightarrow> bxICache_c option" where
  "mergeTraces hcs fm ent i paddr ic =
     (case find_entry hcs ic paddr fm of
        Some e \<Rightarrow>
          (let max_length = tlen (entry ic e)
           in if max_length + tlen (entry ic ent) > of_nat BX_MAX_TRACE_LENGTH then None
              else Some (upd_entry ent (\<lambda>x. x\<lparr>tlen := tlen x + max_length,
                                             traceMask := traceMask x OR traceMask (entry ic e)\<rparr>)
                           (pool_copy i (i_ptr (entry ic e)) (unat max_length) ic)))
      | None \<Rightarrow> None)"

text \<open>
  An instruction that crosses the window: the leftover bytes of this page and up to
  15 bytes of the next, decoded together. \<open>None\<close> is \<open>exception(BX_GP_EXCEPTION)\<close> or a
  fault of the page walk; otherwise the window is the one of the next page.
\<close>

definition boundaryFetch ::
    "fetch_env \<Rightarrow> nat \<Rightarrow> Bit32u \<Rightarrow> nat \<Rightarrow> fetch_cpu \<Rightarrow> fetch_cpu option" where
  "boundaryFetch env fetchPtr remainingInPage i cpu =
     (if remainingInPage \<ge> 15 then None
      else (let head = map (\<lambda>j. eipFetchPtr (window cpu) (fetchPtr + j)) [0..<unat remainingInPage]
            in case prefetch env (fc_rip cpu + ucast remainingInPage) of
                 None \<Rightarrow> None
               | Some w \<Rightarrow>
                   (let fetchBufferLimit = (if eipPageWindowSize w < 15 then unat (eipPageWindowSize w) else 15);
                        fetchBuffer = head @ map (eipFetchPtr w) [0..<fetchBufferLimit];
                        (ret, ins) = fetchDecode env fetchBuffer (mpool (iCache cpu) i)
                    in if ret < 0 then None
                       else Some (cpu\<lparr>window := w, fc_rip := fc_prev_rip cpu,
                                      iCache := upd_pool i (snd (assignHandler env ins)) (iCache cpu)\<rparr>))))"

subsection \<open>The trace loop\<close>

record trace_build =
  tb_i :: nat
  tb_fetchPtr :: nat
  tb_pAddr :: bx_phy_address
  tb_pageOffset :: Bit32u
  tb_remainingInPage :: Bit32u
  tb_traceMask :: Bit32u

text \<open>The first instruction crosses the page: the one-instruction page-split trace.\<close>

definition split_trace :: "fetch_env \<Rightarrow> nat \<Rightarrow> trace_build \<Rightarrow> fetch_cpu \<Rightarrow> fetch_result \<times> fetch_cpu" where
  "split_trace env e tb cpu =
     (let cpu1 = cpu\<lparr>iCache := upd_entry e (\<lambda>x. x\<lparr>pAddr := NOT (pAddr x), tlen := 1\<rparr>) (iCache cpu)\<rparr>
      in case boundaryFetch env (tb_fetchPtr tb) (tb_remainingInPage tb) (tb_i tb) cpu1 of
           None \<Rightarrow> (Fault, cpu1)
         | Some cpu2 \<Rightarrow>
             (let ic3 = upd_entry e (\<lambda>x. x\<lparr>pAddr := NOT (pAddr x), traceMask := 0x80000000\<rparr>) (iCache cpu2);
                  fg1 = markICacheMask (stamps cpu2) (pAddr (entry ic3 e)) (traceMask (entry ic3 e));
                  fg2 = markICacheMask fg1 (pAddrFetchPage (window cpu2)) 0x1;
                  ic4 = upd_entry e (\<lambda>x. x\<lparr>tlen := tlen x + 1\<rparr>) ic3;
                  i = tb_i tb + 1;
                  ic5 = upd_pool i (genDummyICacheEntry (inserted_opcode env) (mpool ic4 i)) ic4
              in (Fetched e, cpu2\<lparr>iCache := commit_page_split_trace (pAddrFetchPage (window cpu2)) e ic5,
                                  stamps := fg2\<rparr>)))"

text \<open>The end of the build: line mask, write stamps, the inserted end-of-trace instruction, commit.\<close>

definition finish_trace :: "fetch_env \<Rightarrow> nat \<Rightarrow> trace_build \<Rightarrow> fetch_cpu \<Rightarrow> fetch_result \<times> fetch_cpu" where
  "finish_trace env e tb cpu =
     (let ic1 = upd_entry e (\<lambda>x. x\<lparr>traceMask := traceMask x OR tb_traceMask tb\<rparr>) (iCache cpu);
          fg1 = markICacheMask (stamps cpu) (tb_pAddr tb) (traceMask (entry ic1 e));
          ic2 = upd_entry e (\<lambda>x. x\<lparr>tlen := tlen x + 1\<rparr>) ic1;
          ic3 = upd_pool (tb_i tb) (genDummyICacheEntry (inserted_opcode env) (mpool ic2 (tb_i tb))) ic2
      in (Fetched e, cpu\<lparr>iCache := commit_trace (unat (tlen (entry ic3 e))) ic3, stamps := fg1\<rparr>))"

definition finish_merged :: "nat \<Rightarrow> trace_build \<Rightarrow> bxICache_c \<Rightarrow> fetch_cpu \<Rightarrow> fetch_result \<times> fetch_cpu" where
  "finish_merged e tb ic cpu =
     (let ic1 = upd_entry e (\<lambda>x. x\<lparr>traceMask := traceMask x OR tb_traceMask tb\<rparr>) ic;
          fg1 = markICacheMask (stamps cpu) (tb_pAddr tb) (traceMask (entry ic1 e))
      in (Fetched e, cpu\<lparr>iCache := commit_trace (unat (tlen (entry ic1 e))) ic1, stamps := fg1\<rparr>))"

text \<open>One decoded instruction joins the trace: the masks of its first and last line, the advance.\<close>

definition add_instruction :: "Bit8u \<Rightarrow> trace_build \<Rightarrow> trace_build" where
  "add_instruction iLen tb = tb\<lparr>tb_i := tb_i tb + 1,
     tb_traceMask := (tb_traceMask tb OR push_bit (unat (drop_bit 7 (tb_pageOffset tb))) 1)
                     OR push_bit (unat (drop_bit 7 (tb_pageOffset tb + ucast iLen - 1))) 1,
     tb_remainingInPage := tb_remainingInPage tb - ucast iLen\<rparr>"

definition advance :: "Bit8u \<Rightarrow> trace_build \<Rightarrow> trace_build" where
  "advance iLen tb = tb\<lparr>tb_pAddr := tb_pAddr tb + ucast iLen,
     tb_pageOffset := tb_pageOffset tb + ucast iLen, tb_fetchPtr := tb_fetchPtr tb + unat iLen\<rparr>"

definition trace_step ::
    "fetch_env \<Rightarrow> nat \<Rightarrow> nat \<Rightarrow> trace_build \<Rightarrow> fetch_cpu \<Rightarrow> (fetch_result \<times> fetch_cpu) + (trace_build \<times> fetch_cpu)" where
  "trace_step env e n tb cpu =
     (let bytes = map (\<lambda>j. eipFetchPtr (window cpu) (tb_fetchPtr tb + j)) [0..<unat (tb_remainingInPage tb)];
          (ret, ins) = fetchDecode env bytes (mpool (iCache cpu) (tb_i tb));
          cpu1 = cpu\<lparr>iCache := upd_pool (tb_i tb) ins (iCache cpu)\<rparr>
      in if ret < 0 then Inl (if n > 0 then finish_trace env e tb cpu1 else split_trace env e tb cpu1)
         else
           let (stop, ins1) = assignHandler env ins;
               iLen = ilen ins1;
               cpu2 = cpu\<lparr>iCache := upd_entry e (\<lambda>x. x\<lparr>tlen := tlen x + 1\<rparr>) (upd_pool (tb_i tb) ins1 (iCache cpu))\<rparr>;
               tb1 = add_instruction iLen tb
           in if stop \<noteq> 0 \<or> tb_remainingInPage tb1 = 0 then Inl (finish_trace env e tb1 cpu2)
              else
                let tb2 = advance iLen tb1
                in if tb_remainingInPage tb2 \<ge> 15
                   then (case mergeTraces (hypervisor_context_switches env) (fc_fetchModeMask cpu2) e (tb_i tb2)
                                (tb_pAddr tb2) (iCache cpu2) of
                           Some ic \<Rightarrow> Inl (finish_merged e tb2 ic cpu2)
                         | None \<Rightarrow> Inr (tb2, cpu2))
                   else Inr (tb2, cpu2))"

function trace_loop :: "fetch_env \<Rightarrow> nat \<Rightarrow> nat \<Rightarrow> trace_build \<Rightarrow> fetch_cpu \<Rightarrow> fetch_result \<times> fetch_cpu" where
  "trace_loop env e n tb cpu =
     (if n \<ge> BX_MAX_TRACE_LENGTH then finish_trace env e tb cpu
      else case trace_step env e n tb cpu of
             Inl r \<Rightarrow> r
           | Inr (tb1, cpu1) \<Rightarrow> trace_loop env e (n + 1) tb1 cpu1)"
  by pat_completeness auto
termination
  by (relation "measure (\<lambda>(env, e, n, tb, cpu). BX_MAX_TRACE_LENGTH - n)") auto

declare trace_loop.simps [simp del]

definition serveICacheMiss :: "fetch_env \<Rightarrow> Bit32u \<Rightarrow> bx_phy_address \<Rightarrow> fetch_cpu \<Rightarrow> fetch_result \<times> fetch_cpu" where
  "serveICacheMiss env eipBiased paddr cpu =
     (let e = get_entry (iCache cpu) paddr (fc_fetchModeMask cpu);
          ic1 = alloc_trace e (iCache cpu);
          ic2 = upd_entry e (\<lambda>x. x\<lparr>pAddr := paddr, traceMask := 0, age := hypervisor_context_switches env\<rparr>) ic1;
          tb = \<lparr>tb_i = i_ptr (entry ic2 e), tb_fetchPtr = unat eipBiased, tb_pAddr = paddr,
                tb_pageOffset = PAGE_OFFSET (ucast (ucast paddr :: Bit32u)),
                tb_remainingInPage = eipPageWindowSize (window cpu) - eipBiased, tb_traceMask = 0\<rparr>;
          cpu1 = cpu\<lparr>iCache := ic2,
                     fc_espPageWindowSize := (if PPFOf paddr = fc_pAddrStackPage cpu then 0 else fc_espPageWindowSize cpu)\<rparr>
      in trace_loop env e 0 tb cpu1)"

definition getICacheEntry :: "fetch_env \<Rightarrow> fetch_cpu \<Rightarrow> fetch_result \<times> fetch_cpu" where
  "getICacheEntry env cpu =
     (let eipBiased = fc_rip cpu + eipPageBias (window cpu);
          walked = (if eipBiased \<ge> ucast (eipPageWindowSize (window cpu))
                    then map_option (\<lambda>w. cpu\<lparr>window := w\<rparr>) (prefetch env (fc_rip cpu)) else Some cpu)
      in case walked of
           None \<Rightarrow> (Fault, cpu)
         | Some cpu1 \<Rightarrow>
             (let eipBiased1 = fc_rip cpu1 + eipPageBias (window cpu1);
                  paddr = pAddrFetchPage (window cpu1) + eipBiased1
              in case find_entry (hypervisor_context_switches env) (iCache cpu1) paddr (fc_fetchModeMask cpu1) of
                   Some e \<Rightarrow> (Fetched e, cpu1)
                 | None \<Rightarrow> serveICacheMiss env (ucast eipBiased1) paddr cpu1))"

subsection \<open>Coherence of the trace build\<close>

text \<open>The decoder's contract: it consumes at least one byte and none past the window.\<close>

definition decoder_ok :: "fetch_env \<Rightarrow> bool" where
  "decoder_ok env \<longleftrightarrow> (\<forall>bytes old. 0 \<le> fst (fetchDecode env bytes old) \<longrightarrow>
     0 < unat (ilen (snd (assignHandler env (snd (fetchDecode env bytes old))))) \<and>
     unat (ilen (snd (assignHandler env (snd (fetchDecode env bytes old))))) \<le> length bytes)"

definition stamps_le :: "(Bit32u \<Rightarrow> Bit32u) \<Rightarrow> (Bit32u \<Rightarrow> Bit32u) \<Rightarrow> bool" where
  "stamps_le fg fg' \<longleftrightarrow> (\<forall>i n. bit (fg i) n \<longrightarrow> bit (fg' i) n)"

lemma stamps_le_simps [simp]:
  "stamps_le fg fg" "stamps_le fg (markICacheMask fg a m)"
  "stamps_le fg (markICacheMask (markICacheMask fg a m) b k)"
  by (auto simp: stamps_le_def markICacheMask_def bit_simps)

lemma slot_ok_mono: "slot_ok fg e x \<Longrightarrow> stamps_le fg fg' \<Longrightarrow> slot_ok fg' e x"
proof -
  assume le: "stamps_le fg fg'" and s: "slot_ok fg e x"
  have "m AND NOT (fg i) = 0 \<Longrightarrow> m AND NOT (fg' i) = 0" for m i
    using le unfolding stamps_le_def bit_eq_iff by (auto simp: bit_simps)
  with s show ?thesis by (auto simp: slot_ok_def)
qed

lemma coherent_upd:
  assumes "icache_coherent fg ic" "stamps_le fg fg'"
    "\<And>n. n < 65536 \<Longrightarrow> entry ic' n = entry ic n \<or> slot_ok fg' n (entry ic' n)"
  shows "icache_coherent fg' ic'"
  unfolding icache_coherent_def
proof (intro allI impI)
  fix n :: nat
  assume "n < BxICacheEntries"
  with assms(1) assms(3) [of n] show "slot_ok fg' n (entry ic' n)"
    using slot_ok_mono [OF _ assms(2), of n "entry ic n"] by (force simp: icache_coherent_def)
qed

lemma slot_ok_invalid [simp]: "pAddr x = BX_ICACHE_INVALID_PHY_ADDRESS \<Longrightarrow> slot_ok fg e x"
  "traceMask x = 0 \<Longrightarrow> slot_ok fg e x"
  by (simp_all add: slot_ok_def)

lemma slot_ok_marked:
  assumes "fm < 64" "e = unat (ic_hash (pAddr x) fm)" "take_bit (line_of (pAddr x)) (traceMask x) = 0"
    "stamp_hash a = stamp_hash (pAddr x)"
  shows "slot_ok (markICacheMask fg a (traceMask x)) e x"
  using assms by (auto simp: slot_ok_def markICacheMask_def bit_eq_iff bit_simps)

lemma commit_split_entry:
  "entry (commit_page_split_trace p e ic) n = entry ic n \<or>
   pAddr (entry (commit_page_split_trace p e ic) n) = BX_ICACHE_INVALID_PHY_ADDRESS"
  by (auto simp: commit_page_split_trace_def Let_def)

lemma commit_split_coherent: "icache_coherent fg ic \<Longrightarrow> icache_coherent fg (commit_page_split_trace p e ic)"
proof (erule coherent_upd [OF _ stamps_le_simps(1)])
  fix n
  show "entry (commit_page_split_trace p e ic) n = entry ic n \<or>
        slot_ok fg n (entry (commit_page_split_trace p e ic) n)"
    using commit_split_entry [of p e ic n] by (elim disjE) simp_all
qed

lemma alloc_trace_coherent: "icache_coherent fg ic \<Longrightarrow> icache_coherent fg (alloc_trace e ic)"
proof -
  assume c: "icache_coherent fg ic"
  then have "icache_coherent fg (flushICacheEntries ic)"
    by (simp add: icache_coherent_def flush_entry)
  with c have "icache_coherent fg (if mpindex ic + 33 > 589824 then flushICacheEntries ic else ic)" by simp
  then show ?thesis
    by (auto simp: alloc_trace_def Let_def icache_coherent_def slot_ok_def)
qed

text \<open>Address arithmetic of the advance inside one page.\<close>

lemma unat_PAGE_OFFSET: "unat (PAGE_OFFSET a) = unat a mod 4096"
  by (simp only: PAGE_OFFSET_def and_masks_take_bit unat_bits) (simp add: nat_bits)

lemma line_of_PAGE_OFFSET: "line_of a = unat (drop_bit 7 (PAGE_OFFSET a))"
  by (simp add: line_of_def)

lemma page_arith:
  fixes a l :: nat
  assumes "a mod 4096 + l < 4096"
  shows "(a + l) mod 4096 = a mod 4096 + l" "(a + l) mod 4294967296 div 4096 = a mod 4294967296 div 4096"
proof -
  define q r where "q = a div 4096" and "r = a mod 4096"
  then have a: "a = r + 4096 * q" and "r + l < 4096" using assms by simp_all
  then have "(a + l) div 4096 = a div 4096" "(a + l) mod 4096 = a mod 4096 + l"
    using div_mult_self2 [of 4096 "r + l" q] mod_mult_self2 [of "r + l" 4096 q] by (simp_all add: ac_simps)
  then show "(a + l) mod 4096 = a mod 4096 + l" "(a + l) mod 4294967296 div 4096 = a mod 4294967296 div 4096"
    using mod_page_split(1) [of "a + l" 1048576] mod_page_split(1) [of a 1048576] by simp_all
qed

lemma page_advance:
  fixes p :: bx_phy_address and l :: Bit8u
  assumes "unat (PAGE_OFFSET p) + unat l < 4096"
  shows "PAGE_OFFSET (p + ucast l) = PAGE_OFFSET p + ucast l" "stamp_hash (p + ucast l) = stamp_hash p"
proof -
  have l: "unat (ucast l :: bx_phy_address) = unat l" "unat (ucast l :: Bit32u) = unat l"
    by (rule unat_ucast_up, simp)+
  have u: "unat (p + ucast l) = (unat p + unat l) mod 18446744073709551616"
    by (simp only: unat_word_ariths l) simp
  note arith = page_arith [OF assms [unfolded unat_PAGE_OFFSET]]
  show "PAGE_OFFSET (p + ucast l) = PAGE_OFFSET p + ucast l"
    using arith(1) assms
    by (simp only: word_unat_eq_iff unat_PAGE_OFFSET u unat_word_ariths l) (simp add: mod_mod_cancel)
  show "stamp_hash (p + ucast l) = stamp_hash p"
    using arith(2) by (simp only: word_unat_eq_iff unat_stamp u) (simp add: mod_mod_cancel)
qed

subsection \<open>The loop invariant\<close>

definition coherent_cpu :: "fetch_cpu \<Rightarrow> bool" where
  "coherent_cpu cpu \<longleftrightarrow> icache_coherent (stamps cpu) (iCache cpu)"

text \<open>The trace of entry \<open>e\<close> for the address \<open>p0\<close> is under construction; \<open>tb\<close> is at a later
  instruction of the same page.\<close>

definition build_ok :: "nat \<Rightarrow> bx_phy_address \<Rightarrow> trace_build \<Rightarrow> fetch_cpu \<Rightarrow> bool" where
  "build_ok e p0 tb cpu \<longleftrightarrow> coherent_cpu cpu \<and>
     pAddr (entry (iCache cpu) e) = p0 \<and> traceMask (entry (iCache cpu) e) = 0 \<and>
     stamp_hash (tb_pAddr tb) = stamp_hash p0 \<and> take_bit (line_of p0) (tb_traceMask tb) = 0"

definition in_page :: "bx_phy_address \<Rightarrow> trace_build \<Rightarrow> bool" where
  "in_page p0 tb \<longleftrightarrow> tb_pageOffset tb = PAGE_OFFSET (tb_pAddr tb) \<and> line_of p0 \<le> line_of (tb_pAddr tb) \<and>
     unat (tb_pageOffset tb) + unat (tb_remainingInPage tb) \<le> 4096"

lemma finish_trace_coherent:
  assumes "build_ok e p0 tb cpu" "fm < 64" "e = unat (ic_hash p0 fm)"
  shows "coherent_cpu (snd (finish_trace env e tb cpu))"
proof -
  let ?m = "tb_traceMask tb"
  have "slot_ok (markICacheMask (stamps cpu) (tb_pAddr tb) (traceMask x)) e x"
    if "pAddr x = p0" "traceMask x = ?m" for x
    by (rule slot_ok_marked [OF assms(2)]) (use assms that in \<open>auto simp: build_ok_def\<close>)
  with assms show ?thesis
    by (auto simp: coherent_cpu_def build_ok_def finish_trace_def Let_def commit_trace_def
             intro!: coherent_upd [where ic = "iCache cpu" and fg = "stamps cpu"])
qed

lemma take_bit_0_le: "n \<le> k \<Longrightarrow> take_bit k w = 0 \<Longrightarrow> take_bit n w = 0" for w :: "'a::len word"
  using take_bit_take_bit [of n k w] by (simp add: min_def)

lemma finish_merged_coherent:
  assumes b: "build_ok e p0 tb cpu" and fm: "fm < 64" "e = unat (ic_hash p0 fm)"
    and merge: "mergeTraces hcs fm' e i (tb_pAddr tb) (iCache cpu) = Some ic"
    and line: "line_of p0 \<le> line_of (tb_pAddr tb)"
    and fm': "fm' < 64" and real: "tb_pAddr tb \<noteq> BX_ICACHE_INVALID_PHY_ADDRESS"
  shows "coherent_cpu (snd (finish_merged e tb ic cpu))"
proof -
  obtain e2 where f: "find_entry hcs (iCache cpu) (tb_pAddr tb) fm' = Some e2"
    and ic: "entry ic = (entry (iCache cpu))(e := (entry (iCache cpu) e)\<lparr>
        tlen := tlen (entry (iCache cpu) e) + tlen (entry (iCache cpu) e2),
        traceMask := traceMask (entry (iCache cpu) e) OR traceMask (entry (iCache cpu) e2)\<rparr>)"
    using merge by (auto simp: mergeTraces_def Let_def pool_copy_def split: option.splits if_splits)
  let ?m2 = "traceMask (entry (iCache cpu) e2)" and ?m = "tb_traceMask tb"
  from find_entry_SomeD [OF f] slot_bound [OF fm'] b
  have s2: "slot_ok (stamps cpu) e2 (entry (iCache cpu) e2)" and p2: "pAddr (entry (iCache cpu) e2) = tb_pAddr tb"
    by (auto simp: build_ok_def coherent_cpu_def icache_coherent_def)
  have "take_bit (line_of p0) ?m2 = 0"
  proof (cases "?m2 = 0")
    case False
    with s2 p2 real have "take_bit (line_of (tb_pAddr tb)) ?m2 = 0" by (auto simp: slot_ok_def)
    from take_bit_0_le [OF line this] show ?thesis .
  qed simp
  with b have "take_bit (line_of p0) (?m2 OR ?m) = 0"
    by (auto simp: build_ok_def take_bit_or)
  then have "slot_ok (markICacheMask (stamps cpu) (tb_pAddr tb) (traceMask x)) e x"
    if "pAddr x = p0" "traceMask x = ?m2 OR ?m" for x
    by (intro slot_ok_marked [OF fm(1)]) (use b fm(2) that in \<open>auto simp: build_ok_def\<close>)
  with b show ?thesis
    by (auto simp: coherent_cpu_def build_ok_def finish_merged_def Let_def commit_trace_def ic
             intro!: coherent_upd [where ic = "iCache cpu" and fg = "stamps cpu"])
qed

lemma take_bit_last_line: "take_bit (line_of p) (0x80000000 :: Bit32u) = 0"
proof -
  have "(0x80000000 :: Bit32u) = push_bit 31 1" by code_simp
  then show ?thesis using line_of_less [of p]
    by (simp only: take_bit_push_bit) simp
qed

lemma split_trace_coherent:
  assumes "build_ok e p0 tb cpu" "fm < 64" "e = unat (ic_hash p0 fm)"
  shows "coherent_cpu (snd (split_trace env e tb cpu))"
proof -
  let ?cpu1 = "cpu\<lparr>iCache := upd_entry e (\<lambda>x. x\<lparr>pAddr := NOT (pAddr x), tlen := 1\<rparr>) (iCache cpu)\<rparr>"
  let ?b = "boundaryFetch env (tb_fetchPtr tb) (tb_remainingInPage tb) (tb_i tb) ?cpu1"
  have c1: "coherent_cpu ?cpu1"
    using assms by (auto simp: coherent_cpu_def build_ok_def
        intro!: coherent_upd [where ic = "iCache cpu" and fg = "stamps cpu"])
  show ?thesis
  proof (cases ?b)
    case None
    then show ?thesis using c1 by (simp add: split_trace_def)
  next
    case (Some cpu2)
    then have e2: "entry (iCache cpu2) = (entry (iCache cpu))(e := (entry (iCache cpu) e)\<lparr>pAddr := NOT p0, tlen := 1\<rparr>)"
      and fg2: "stamps cpu2 = stamps cpu"
      using assms(1) by (auto simp: boundaryFetch_def Let_def build_ok_def split: if_splits option.splits prod.splits)
    have "slot_ok (markICacheMask (stamps cpu) p0 0x80000000) e x" if "pAddr x = p0" "traceMask x = 0x80000000" for x
      using slot_ok_marked [OF assms(2), of e x p0 "stamps cpu"] assms(3) that by (simp add: take_bit_last_line)
    then have "slot_ok (markICacheMask (markICacheMask (stamps cpu) p0 0x80000000) q 0x1) e x"
      if "pAddr x = p0" "traceMask x = 0x80000000" for x q
      using that slot_ok_mono stamps_le_simps(2) by blast
    with assms(1) have "icache_coherent (markICacheMask (markICacheMask (stamps cpu) p0 0x80000000) q 0x1) ic"
      if "\<And>n. entry ic n = entry (iCache cpu) n \<or> n = e \<and> pAddr (entry ic n) = p0 \<and> traceMask (entry ic n) = 0x80000000"
      for q ic
      using that by (auto simp: coherent_cpu_def build_ok_def
          intro!: coherent_upd [where ic = "iCache cpu" and fg = "stamps cpu"])
    with Some fg2 e2 assms(1) show ?thesis
      by (auto simp: split_trace_def Let_def coherent_cpu_def build_ok_def intro!: commit_split_coherent)
  qed
qed

lemma add_instruction_mask:
  assumes "in_page p0 tb" "take_bit (line_of p0) (tb_traceMask tb) = 0"
    "0 < unat l" "unat l \<le> unat (tb_remainingInPage tb)"
  shows "take_bit (line_of p0) (tb_traceMask (add_instruction l tb)) = 0"
proof -
  let ?o = "tb_pageOffset tb"
  have l: "unat (ucast l :: Bit32u) = unat l" by (rule unat_ucast_up) simp
  from assms have b: "unat ?o + unat l \<le> 4096" unfolding in_page_def by linarith
  then have "unat (?o + ucast l) = unat ?o + unat l" by (simp add: unat_word_ariths l)
  moreover have "unat (?o + ucast l - 1) = unat (?o + ucast l) - 1"
    using calculation assms(3) by (intro unat_minus_one) auto
  ultimately have "unat ?o \<le> unat (?o + ucast l - 1)" using assms(3) by simp
  then have "unat (drop_bit 7 ?o) \<le> unat (drop_bit 7 (?o + ucast l - 1))"
    by (simp only: unat_drop_bit_eq) (simp add: drop_bit_eq_div div_le_mono)
  moreover have "line_of p0 \<le> unat (drop_bit 7 ?o)"
    using assms(1) by (simp add: in_page_def line_of_PAGE_OFFSET)
  moreover have "take_bit (line_of p0) (push_bit k 1 :: Bit32u) = 0" if "line_of p0 \<le> k" for k
    using that by (simp only: take_bit_push_bit) simp
  ultimately have "take_bit (line_of p0) (push_bit (unat (drop_bit 7 ?o)) 1 :: Bit32u) = 0"
    "take_bit (line_of p0) (push_bit (unat (drop_bit 7 (?o + ucast l - 1))) 1 :: Bit32u) = 0" by simp_all
  with assms(2) show ?thesis by (simp add: add_instruction_def take_bit_or del: push_bit_of_1)
qed

lemma advance_in_page:
  assumes "in_page p0 tb" "unat l \<le> unat (tb_remainingInPage tb)"
    "tb_remainingInPage tb - ucast l \<noteq> 0"
  defines "tb' \<equiv> advance l (add_instruction l tb)"
  shows "in_page p0 tb'" "stamp_hash (tb_pAddr tb') = stamp_hash (tb_pAddr tb)"
proof -
  have l: "unat (ucast l :: Bit32u) = unat l" by (rule unat_ucast_up) simp
  then have le: "(ucast l :: Bit32u) \<le> tb_remainingInPage tb" using assms(2) by (simp add: word_le_nat_alt)
  then have r: "unat (tb_remainingInPage tb - ucast l) = unat (tb_remainingInPage tb) - unat l"
    using l by (simp add: unat_sub)
  have "tb_remainingInPage tb \<noteq> ucast l" using assms(3) by auto
  with le l have lt: "unat l < unat (tb_remainingInPage tb)"
    using assms(2) by (metis le_neq_implies_less word_unat_eq_iff)
  from assms(1) have o: "tb_pageOffset tb = PAGE_OFFSET (tb_pAddr tb)"
    and ln: "line_of p0 \<le> line_of (tb_pAddr tb)"
    and b: "unat (PAGE_OFFSET (tb_pAddr tb)) + unat (tb_remainingInPage tb) \<le> 4096" by (auto simp: in_page_def)
  from b lt have "unat (PAGE_OFFSET (tb_pAddr tb)) + unat l < 4096" by linarith
  note adv = page_advance [OF this]
  have u: "unat (PAGE_OFFSET (tb_pAddr tb + ucast l)) = unat (PAGE_OFFSET (tb_pAddr tb)) + unat l"
    using b lt by (simp add: adv unat_word_ariths l)
  then have "line_of (tb_pAddr tb) \<le> line_of (tb_pAddr tb + ucast l)"
    by (simp add: unat_line unat_PAGE_OFFSET div_le_mono)
  with ln u b r lt show "in_page p0 tb'"
    by (simp add: in_page_def tb'_def advance_def add_instruction_def o adv)
  show "stamp_hash (tb_pAddr tb') = stamp_hash (tb_pAddr tb)"
    by (simp add: tb'_def advance_def add_instruction_def adv)
qed

lemma in_page_real:
  assumes "in_page p0 tb" "15 \<le> tb_remainingInPage tb"
  shows "tb_pAddr tb \<noteq> BX_ICACHE_INVALID_PHY_ADDRESS"
proof
  assume "tb_pAddr tb = BX_ICACHE_INVALID_PHY_ADDRESS"
  moreover have "unat (PAGE_OFFSET BX_ICACHE_INVALID_PHY_ADDRESS) = 4095" by code_simp
  ultimately have "unat (tb_pageOffset tb) = 4095" using assms(1) by (simp add: in_page_def)
  moreover have "15 \<le> unat (tb_remainingInPage tb)" using assms(2) by (simp add: word_le_nat_alt)
  ultimately show False using assms(1) unfolding in_page_def by linarith
qed

lemma trace_step_coherent:
  assumes dec: "decoder_ok env" and fm: "fc_fetchModeMask cpu < 64" "e = unat (ic_hash p0 (fc_fetchModeMask cpu))"
    and b: "build_ok e p0 tb cpu" and pg: "in_page p0 tb"
  shows "case trace_step env e n tb cpu of
           Inl r \<Rightarrow> coherent_cpu (snd r)
         | Inr (tb', cpu') \<Rightarrow> build_ok e p0 tb' cpu' \<and> in_page p0 tb' \<and> fc_fetchModeMask cpu' = fc_fetchModeMask cpu"
proof -
  let ?bytes = "map (\<lambda>j. eipFetchPtr (window cpu) (tb_fetchPtr tb + j)) [0..<unat (tb_remainingInPage tb)]"
  obtain ret ins where d: "fetchDecode env ?bytes (mpool (iCache cpu) (tb_i tb)) = (ret, ins)" by fastforce
  obtain stop ins1 where a: "assignHandler env ins = (stop, ins1)" by fastforce
  have pool: "build_ok e p0 tb (cpu\<lparr>iCache := upd_pool i x (iCache cpu)\<rparr>)" for i x
    using b by (simp add: build_ok_def coherent_cpu_def icache_coherent_def)
  let ?l = "ilen ins1"
  let ?cpu2 = "cpu\<lparr>iCache := upd_entry e (\<lambda>x. x\<lparr>tlen := tlen x + 1\<rparr>) (upd_pool (tb_i tb) ins1 (iCache cpu))\<rparr>"
  let ?tb1 = "add_instruction ?l tb" and ?tb2 = "advance ?l (add_instruction ?l tb)"
  show ?thesis
  proof (cases "ret < 0")
    case True
    then show ?thesis
      using finish_trace_coherent [OF pool fm] split_trace_coherent [OF pool fm] by (simp add: trace_step_def d Let_def)
  next
    case False
    with dec [unfolded decoder_ok_def, rule_format, of ?bytes "mpool (iCache cpu) (tb_i tb)"]
    have l: "0 < unat ?l" "unat ?l \<le> unat (tb_remainingInPage tb)" by (simp_all add: d a)
    have fm2: "fc_fetchModeMask ?cpu2 < 64" "e = unat (ic_hash p0 (fc_fetchModeMask ?cpu2))" using fm by simp_all
    have c2: "coherent_cpu ?cpu2"
      using b by (auto simp: build_ok_def coherent_cpu_def intro!: coherent_upd [where ic = "iCache cpu" and fg = "stamps cpu"])
    with b add_instruction_mask [OF pg _ l] have b1: "build_ok e p0 ?tb1 ?cpu2"
      by (auto simp: build_ok_def add_instruction_def)
    have step: "build_ok e p0 ?tb2 ?cpu2" "in_page p0 ?tb2" if "tb_remainingInPage ?tb1 \<noteq> 0"
    proof -
      have "tb_remainingInPage tb - ucast ?l \<noteq> 0" using that by (simp add: add_instruction_def)
      note adv = advance_in_page [OF pg l(2) this]
      show "in_page p0 ?tb2" by (rule adv)
      show "build_ok e p0 ?tb2 ?cpu2" using b1 b adv(2) by (simp add: build_ok_def advance_def)
    qed
    have merged: "coherent_cpu (snd (finish_merged e ?tb2 ic ?cpu2))"
      if "tb_remainingInPage ?tb1 \<noteq> 0" "15 \<le> tb_remainingInPage ?tb2"
        "mergeTraces (hypervisor_context_switches env) (fc_fetchModeMask ?cpu2) e (tb_i ?tb2) (tb_pAddr ?tb2) (iCache ?cpu2) = Some ic"
      for ic
      using finish_merged_coherent [OF step(1) [OF that(1)] fm2 that(3) _ fm2(1)]
        in_page_real [OF step(2) [OF that(1)] that(2)] step(2) [OF that(1)] by (simp add: in_page_def)
    show ?thesis
      using False step merged finish_trace_coherent [OF b1 fm2]
      by (simp add: trace_step_def d a Let_def split: option.split)
  qed
qed

lemma trace_loop_coherent:
  assumes "decoder_ok env" "fc_fetchModeMask cpu < 64" "e = unat (ic_hash p0 (fc_fetchModeMask cpu))"
    "build_ok e p0 tb cpu" "in_page p0 tb"
  shows "coherent_cpu (snd (trace_loop env e n tb cpu))"
  using assms
proof (induction env e n tb cpu rule: trace_loop.induct)
  case (1 env e n tb cpu)
  note step = trace_step_coherent [OF 1(2-6), of n]
  show ?case
  proof (cases "n \<ge> 32")
    case True
    then show ?thesis using finish_trace_coherent [OF 1(5) 1(3,4)] by (subst trace_loop.simps) simp
  next
    case False
    show ?thesis
    proof (cases "trace_step env e n tb cpu")
      case (Inl r)
      then show ?thesis using step False by (subst trace_loop.simps) simp
    next
      case (Inr s)
      obtain tb' cpu' where s: "s = (tb', cpu')" by fastforce
      with step Inr have ok: "build_ok e p0 tb' cpu'" "in_page p0 tb'" "fc_fetchModeMask cpu' = fc_fetchModeMask cpu"
        by simp_all
      have "coherent_cpu (snd (trace_loop env e (n + 1) tb' cpu'))"
        by (rule 1(1) [OF False Inr s [symmetric]]) (use 1(2-4) ok in simp_all)
      then show ?thesis using False Inr s by (subst trace_loop.simps) simp
    qed
  qed
qed


text \<open>A concrete fetch: every byte is a one-byte instruction, in a 4096 byte window.\<close>

definition wit_env :: fetch_env where
  "wit_env = \<lparr>fetchDecode = (\<lambda>bytes old. if bytes = [] then (- 1, old) else (0, old\<lparr>ilen := 1\<rparr>)),
     assignHandler = (\<lambda>i. (0, i\<lparr>execute1 := Handler 1\<rparr>)), prefetch = (\<lambda>_. None),
     inserted_opcode = 9, hypervisor_context_switches = 7\<rparr>"

definition wit_cpu :: fetch_cpu where
  "wit_cpu = \<lparr>iCache = wit_icache, stamps = wit_stamps,
     window = \<lparr>eipFetchPtr = (\<lambda>_. 0x90), eipPageBias = 0, eipPageWindowSize = 4096, pAddrFetchPage = 0x1000\<rparr>,
     fc_rip = 0x10, fc_prev_rip = 0x10, fc_pAddrStackPage = 0x5000, fc_espPageWindowSize = 0, fc_fetchModeMask = 3\<rparr>"

lemma wit_env_ok: "decoder_ok wit_env"
  by (auto simp: decoder_ok_def wit_env_def Suc_le_eq)


subsection \<open>The instruction pool\<close>

definition pool_ok :: "bxICache_c \<Rightarrow> bool" where
  "pool_ok ic \<longleftrightarrow> mpindex ic \<le> BxICacheMemPool \<and> (\<forall>e. unat (tlen (entry ic e)) \<le> BX_MAX_TRACE_LENGTH + 1)"

text \<open>Only the pool slots of one maximal trace from \<open>base\<close> on may differ.\<close>

definition pool_frame :: "nat \<Rightarrow> bxICache_c \<Rightarrow> bxICache_c \<Rightarrow> bool" where
  "pool_frame base ic ic' \<longleftrightarrow> (\<forall>k. k < base \<or> base + BX_MAX_TRACE_LENGTH < k \<longrightarrow> mpool ic' k = mpool ic k)"

definition building :: "nat \<Rightarrow> nat \<Rightarrow> trace_build \<Rightarrow> bxICache_c \<Rightarrow> bool" where
  "building e n tb ic \<longleftrightarrow> pool_ok ic \<and> mpindex ic + BX_MAX_TRACE_LENGTH + 1 \<le> BxICacheMemPool \<and>
     tb_i tb = mpindex ic + n \<and> unat (tlen (entry ic e)) = n \<and> n \<le> BX_MAX_TRACE_LENGTH"

lemma pool_frame_trans: "pool_frame base a b \<Longrightarrow> pool_frame base b c \<Longrightarrow> pool_frame base a c"
  by (auto simp: pool_frame_def)

lemma unat_Suc_small: "unat t \<le> 32 \<Longrightarrow> unat (t + 1) = unat t + 1" "unat t \<le> 32 \<Longrightarrow> unat (1 + t) = unat t + 1"
  for t :: Bit32u
  by (simp_all add: unat_word_ariths)

lemma finish_trace_pool:
  assumes "building e n tb (iCache cpu)"
  shows "pool_ok (iCache (snd (finish_trace env e tb cpu))) \<and>
         pool_frame (mpindex (iCache cpu)) (iCache cpu) (iCache (snd (finish_trace env e tb cpu)))"
  using assms
  by (auto simp: building_def pool_ok_def pool_frame_def finish_trace_def Let_def commit_trace_def unat_Suc_small)

lemma finish_merged_pool:
  assumes b: "building e n tb (iCache cpu)"
    and m: "mergeTraces hcs fm e (tb_i tb) (tb_pAddr tb) (iCache cpu) = Some ic"
  shows "pool_ok (iCache (snd (finish_merged e tb ic cpu))) \<and>
         pool_frame (mpindex (iCache cpu)) (iCache cpu) (iCache (snd (finish_merged e tb ic cpu)))"
proof -
  obtain e2 where le: "\<not> tlen (entry (iCache cpu) e2) + tlen (entry (iCache cpu) e) > of_nat BX_MAX_TRACE_LENGTH"
    and ic: "ic = upd_entry e (\<lambda>x. x\<lparr>tlen := tlen x + tlen (entry (iCache cpu) e2),
                  traceMask := traceMask x OR traceMask (entry (iCache cpu) e2)\<rparr>)
                  (pool_copy (tb_i tb) (i_ptr (entry (iCache cpu) e2)) (unat (tlen (entry (iCache cpu) e2))) (iCache cpu))"
    using m by (auto simp: mergeTraces_def Let_def split: option.splits if_splits)
  let ?t = "tlen (entry (iCache cpu) e)" and ?t2 = "tlen (entry (iCache cpu) e2)"
  from b have "unat ?t2 \<le> 33" "unat ?t = n" "n \<le> 32" by (auto simp: building_def pool_ok_def)
  then have "unat (?t2 + ?t) = unat ?t2 + n" by (simp add: unat_word_ariths)
  moreover have "unat (?t2 + ?t) \<le> 32" using le by (simp add: word_le_nat_alt not_less)
  ultimately have "unat (?t + ?t2) = n + unat ?t2" "n + unat ?t2 \<le> 32" by (simp_all add: add.commute)
  with b show ?thesis
    by (auto simp: building_def pool_ok_def pool_frame_def finish_merged_def Let_def commit_trace_def ic pool_copy_def)
qed

lemma split_trace_pool:
  assumes b: "building e 0 tb (iCache cpu)"
  shows "pool_ok (iCache (snd (split_trace env e tb cpu))) \<and>
         pool_frame (mpindex (iCache cpu)) (iCache cpu) (iCache (snd (split_trace env e tb cpu)))"
proof -
  let ?cpu1 = "cpu\<lparr>iCache := upd_entry e (\<lambda>x. x\<lparr>pAddr := NOT (pAddr x), tlen := 1\<rparr>) (iCache cpu)\<rparr>"
  show ?thesis
  proof (cases "boundaryFetch env (tb_fetchPtr tb) (tb_remainingInPage tb) (tb_i tb) ?cpu1")
    case None
    with b show ?thesis by (simp add: split_trace_def building_def pool_ok_def pool_frame_def)
  next
    case (Some cpu2)
    then obtain ins where c2: "iCache cpu2 = upd_pool (tb_i tb) ins (iCache ?cpu1)"
      by (auto simp: boundaryFetch_def Let_def split: if_splits option.splits prod.splits)
    have tl: "tlen (entry (commit_page_split_trace p e' ic) k) = tlen (entry ic k)"
      "mpool (commit_page_split_trace p e' ic) = mpool ic"
      "mpindex (commit_page_split_trace p e' ic) = mpindex ic + unat (tlen (entry ic e'))" for p e' ic k
      by (auto simp: commit_page_split_trace_def Let_def)
    let ?r = "iCache (snd (split_trace env e tb cpu))"
    have "tlen (entry ?r k) = (if k = e then 2 else tlen (entry (iCache cpu) k))"
      "mpool ?r = (mpool (iCache cpu))(tb_i tb := ins,
         tb_i tb + 1 := genDummyICacheEntry (inserted_opcode env) (mpool (iCache cpu) (tb_i tb + 1)))"
      "mpindex ?r = mpindex (iCache cpu) + 2" for k
      by (simp_all add: split_trace_def Let_def Some c2 tl)
    with b show ?thesis
      by (simp add: building_def pool_ok_def pool_frame_def)
  qed
qed

lemma trace_step_pool:
  assumes b: "building e n tb (iCache cpu)" and n: "n < 32"
  shows "case trace_step env e n tb cpu of
           Inl r \<Rightarrow> pool_ok (iCache (snd r)) \<and> pool_frame (mpindex (iCache cpu)) (iCache cpu) (iCache (snd r))
         | Inr (tb', cpu') \<Rightarrow> building e (n + 1) tb' (iCache cpu') \<and> mpindex (iCache cpu') = mpindex (iCache cpu) \<and>
                              pool_frame (mpindex (iCache cpu)) (iCache cpu) (iCache cpu')"
proof -
  let ?bytes = "map (\<lambda>j. eipFetchPtr (window cpu) (tb_fetchPtr tb + j)) [0..<unat (tb_remainingInPage tb)]"
  let ?I = "iCache cpu" and ?good = "\<lambda>ic. pool_ok ic \<and> pool_frame (mpindex (iCache cpu)) (iCache cpu) ic"
  obtain ret ins where d: "fetchDecode env ?bytes (mpool ?I (tb_i tb)) = (ret, ins)" by fastforce
  obtain stop ins1 where a: "assignHandler env ins = (stop, ins1)" by fastforce
  define cpu1 where "cpu1 = cpu\<lparr>iCache := upd_pool (tb_i tb) ins ?I\<rparr>"
  define cpu2 where "cpu2 = cpu\<lparr>iCache := upd_entry e (\<lambda>x. x\<lparr>tlen := tlen x + 1\<rparr>) (upd_pool (tb_i tb) ins1 ?I)\<rparr>"
  let ?tb1 = "add_instruction (ilen ins1) tb" and ?tb2 = "advance (ilen ins1) (add_instruction (ilen ins1) tb)"
  have b1: "building e n tb (iCache cpu1)" and f1: "pool_frame (mpindex ?I) ?I (iCache cpu1)"
    and m1: "mpindex (iCache cpu1) = mpindex ?I"
    using b n by (auto simp: cpu1_def building_def pool_ok_def pool_frame_def)
  have b2: "building e (n + 1) ?tb1 (iCache cpu2)" "building e (n + 1) ?tb2 (iCache cpu2)"
    and f2: "pool_frame (mpindex ?I) ?I (iCache cpu2)" and m2: "mpindex (iCache cpu2) = mpindex ?I"
    using b n by (auto simp: cpu2_def building_def pool_ok_def pool_frame_def add_instruction_def advance_def unat_Suc_small)
  have fin1: "?good (iCache (snd (finish_trace env e tb cpu1)))"
    using finish_trace_pool [OF b1] f1 m1 pool_frame_trans by metis
  have spl: "?good (iCache (snd (split_trace env e tb cpu1)))" if "n = 0"
    using split_trace_pool b1 that f1 m1 pool_frame_trans by metis
  have fin2: "?good (iCache (snd (finish_trace env e ?tb1 cpu2)))"
    using finish_trace_pool [OF b2(1)] f2 m2 pool_frame_trans by metis
  have mrg: "?good (iCache (snd (finish_merged e ?tb2 ic cpu2)))"
    if "mergeTraces hcs fm e (tb_i ?tb2) (tb_pAddr ?tb2) (iCache cpu2) = Some ic" for hcs fm ic
    using finish_merged_pool [OF b2(2) that] f2 m2 pool_frame_trans by metis
  have step_eq: "trace_step env e n tb cpu =
      (if ret < 0 then Inl (if n > 0 then finish_trace env e tb cpu1 else split_trace env e tb cpu1)
       else if stop \<noteq> 0 \<or> tb_remainingInPage ?tb1 = 0 then Inl (finish_trace env e ?tb1 cpu2)
       else if tb_remainingInPage ?tb2 \<ge> 15
       then (case mergeTraces (hypervisor_context_switches env) (fc_fetchModeMask cpu2) e (tb_i ?tb2) (tb_pAddr ?tb2) (iCache cpu2) of
               Some ic \<Rightarrow> Inl (finish_merged e ?tb2 ic cpu2) | None \<Rightarrow> Inr (?tb2, cpu2))
       else Inr (?tb2, cpu2))"
    by (simp only: trace_step_def d a Let_def cpu1_def cpu2_def prod.case)
  show ?thesis unfolding step_eq using fin1 spl fin2 mrg b2 f2 m2 by (auto split: option.split)
qed

lemma trace_loop_pool:
  assumes "building e n tb (iCache cpu)"
  shows "pool_ok (iCache (snd (trace_loop env e n tb cpu))) \<and>
         pool_frame (mpindex (iCache cpu)) (iCache cpu) (iCache (snd (trace_loop env e n tb cpu)))"
  using assms
proof (induction env e n tb cpu rule: trace_loop.induct)
  case (1 env e n tb cpu)
  show ?case
  proof (cases "n \<ge> 32")
    case True
    then show ?thesis using finish_trace_pool [OF 1(2)] by (subst (1 2) trace_loop.simps) simp
  next
    case False
    then have n: "n < 32" by simp
    note step = trace_step_pool [OF 1(2) n, of env]
    show ?thesis
    proof (cases "trace_step env e n tb cpu")
      case (Inl r)
      then show ?thesis using step False by (subst (1 2) trace_loop.simps) simp
    next
      case (Inr s)
      obtain tb' cpu' where s: "s = (tb', cpu')" by fastforce
      with step Inr have ok: "building e (n + 1) tb' (iCache cpu')" "mpindex (iCache cpu') = mpindex (iCache cpu)"
        "pool_frame (mpindex (iCache cpu)) (iCache cpu) (iCache cpu')" by simp_all
      have "trace_loop env e n tb cpu = trace_loop env e (n + 1) tb' cpu'"
        using False Inr s by (subst trace_loop.simps) simp
      with 1(1) [OF False Inr s [symmetric] ok(1)] ok(2,3) pool_frame_trans show ?thesis by metis
    qed
  qed
qed

text \<open>
  C36: the instruction pool. A cache miss writes only the pool slots of its own trace, from
  \<open>mpindex\<close> on (from 0 after the flush of a full pool), never past the end of the pool, and leaves
  every other trace's instructions as they were; afterwards the allocation index is
  again inside the pool.
\<close>

theorem serveICacheMiss_pool:
  assumes "pool_ok (iCache cpu)"
  shows "pool_ok (iCache (snd (serveICacheMiss env eipBiased paddr cpu))) \<and>
         pool_frame (if mpindex (iCache cpu) + 33 > BxICacheMemPool then 0 else mpindex (iCache cpu))
           (iCache cpu) (iCache (snd (serveICacheMiss env eipBiased paddr cpu))) \<and>
         (\<forall>k \<ge> BxICacheMemPool. mpool (iCache (snd (serveICacheMiss env eipBiased paddr cpu))) k = mpool (iCache cpu) k)"
proof -
  let ?r = "iCache (snd (serveICacheMiss env eipBiased paddr cpu))"
  let ?base = "if mpindex (iCache cpu) + 33 > BxICacheMemPool then 0 else mpindex (iCache cpu)"
  define e where "e = get_entry (iCache cpu) paddr (fc_fetchModeMask cpu)"
  define ic2 where "ic2 = upd_entry e (\<lambda>x. x\<lparr>pAddr := paddr, traceMask := 0, age := hypervisor_context_switches env\<rparr>)
      (alloc_trace e (iCache cpu))"
  have ic2: "mpool ic2 = mpool (iCache cpu)" "mpindex ic2 = ?base" "i_ptr (entry ic2 e) = ?base" "tlen (entry ic2 e) = 0"
    "pool_ok ic2"
    using assms by (auto simp: ic2_def alloc_trace_def flushICacheEntries_def Let_def pool_ok_def)
  obtain tb cpu1 where run: "serveICacheMiss env eipBiased paddr cpu = trace_loop env e 0 tb cpu1"
    and tb: "tb_i tb = i_ptr (entry ic2 e)" and cpu1: "iCache cpu1 = ic2"
    unfolding serveICacheMiss_def Let_def e_def [symmetric] ic2_def [symmetric] by fastforce
  have "building e 0 tb (iCache cpu1)" using ic2 tb by (auto simp: building_def cpu1)
  from trace_loop_pool [OF this, of env] ic2 run cpu1
  have r: "pool_ok ?r" "pool_frame ?base (iCache cpu) ?r" by (simp_all add: pool_frame_def)
  moreover have "mpool ?r k = mpool (iCache cpu) k" if "k \<ge> BxICacheMemPool" for k
    using r(2) that by (auto simp: pool_frame_def split: if_splits)
  ultimately show ?thesis by blast
qed

theorem serveICacheMiss_pool_witness:
  "pool_ok (iCache (snd (serveICacheMiss wit_env 0x10 0x1010 wit_cpu))) \<and>
   mpool (iCache (snd (serveICacheMiss wit_env 0x10 0x1010 wit_cpu))) 2 = mpool wit_icache 2"
proof -
  have "pool_ok (iCache wit_cpu)" by (simp add: pool_ok_def wit_cpu_def wit_icache_def)
  from serveICacheMiss_pool [OF this, of wit_env "0x10" "0x1010"] show ?thesis
    by (simp add: pool_frame_def wit_cpu_def wit_icache_def)
qed

subsection \<open>Ages\<close>

lemma finish_age:
  "fst (finish_trace env e tb cpu) = Fetched e"
  "age (entry (iCache (snd (finish_trace env e tb cpu))) k) = age (entry (iCache cpu) k)"
  "fst (finish_merged e tb ic cpu) = Fetched e"
  "age (entry (iCache (snd (finish_merged e tb ic cpu))) k) = age (entry ic k)"
  by (simp_all add: finish_trace_def finish_merged_def Let_def commit_trace_def)

lemma merge_age: "mergeTraces hcs fm e i p ic = Some ic' \<Longrightarrow> age (entry ic' k) = age (entry ic k)"
  by (auto simp: mergeTraces_def Let_def pool_copy_def split: option.splits if_splits)

lemma boundaryFetch_entry: "boundaryFetch env p r i cpu = Some cpu' \<Longrightarrow> entry (iCache cpu') = entry (iCache cpu)"
  by (auto simp: boundaryFetch_def Let_def split: if_splits option.splits prod.splits)

lemma split_trace_age:
  "fst (split_trace env e tb cpu) \<noteq> Fetched e \<Longrightarrow> fst (split_trace env e tb cpu) = Fault"
  "age (entry (iCache (snd (split_trace env e tb cpu))) k) = age (entry (iCache cpu) k)"
  by (auto simp: split_trace_def commit_page_split_trace_def Let_def dest!: boundaryFetch_entry split: option.splits)

lemma trace_step_age:
  "trace_step env e n tb cpu = Inl r \<Longrightarrow>
     (fst r = Fault \<or> fst r = Fetched e) \<and> age (entry (iCache (snd r)) k) = age (entry (iCache cpu) k)"
  "trace_step env e n tb cpu = Inr (tb', cpu') \<Longrightarrow> age (entry (iCache cpu') k) = age (entry (iCache cpu) k)"
  by (auto simp: trace_step_def Let_def finish_age split_trace_age merge_age
      split: prod.splits option.splits if_splits)

lemma trace_loop_age:
  "(fst (trace_loop env e n tb cpu) = Fault \<or> fst (trace_loop env e n tb cpu) = Fetched e) \<and>
   age (entry (iCache (snd (trace_loop env e n tb cpu))) k) = age (entry (iCache cpu) k)"
proof (induction env e n tb cpu rule: trace_loop.induct)
  case (1 env e n tb cpu)
  note eq = trace_loop.simps [where env = env and e = e and n = n and tb = tb and cpu = cpu]
  show ?case
  proof (cases "n \<ge> 32")
    case True
    then show ?thesis by (simp only: eq finish_age if_True) simp
  next
    case False
    show ?thesis
    proof (cases "trace_step env e n tb cpu")
      case (Inl r)
      with False trace_step_age(1) [OF Inl] show ?thesis by (simp add: eq)
    next
      case (Inr s)
      obtain tb' cpu' where s: "s = (tb', cpu')" by fastforce
      from 1 [OF False Inr s [symmetric]] trace_step_age(2) [OF Inr [unfolded s]] False Inr s
      show ?thesis by (simp add: eq)
    qed
  qed
qed



end
