(* ===== verification/Cpu.thy ===== *)
theory Cpu
  imports LazyFlags Descriptors ICache
begin

text \<open>
  The part of the emulated CPU the hypervisor glue drives: registers and hidden state,
  EFLAGS (\<^verbatim>\<open>bochs/cpu/flag_ctrl_pro.cc\<close>), pending events and their masks (\<^verbatim>\<open>bochs/cpu/cpu.h\<close>),
  the mode and feature state derived from the control registers (\<^verbatim>\<open>bochs/cpu/proc_ctrl.cc\<close>), the TLB
  flush (\<^verbatim>\<open>bochs/cpu/paging.cc\<close>), the time-stamp counter and the task priority of the local APIC
  (\<^verbatim>\<open>bochs/cpu/apic.cc\<close>). The build has no EVEX, one CPU and no debugger. \<open>BX_PANIC\<close>,
  which reports and lets the code go on, has no effect on the state.
\<close>

subsection \<open>State\<close>

datatype BxCpuMode = BX_MODE_IA32_REAL | BX_MODE_IA32_V8086 | BX_MODE_IA32_PROTECTED | BX_MODE_LONG_COMPAT | BX_MODE_LONG_64

record bx_TLB_entry =
  lpf :: bx_address
  tlb_ppf :: bx_phy_address
  hostPageAddr :: "host_ptr option"
  accessBits :: Bit32u
  tlb_pkey :: Bit32u
  tlb_lpf_mask :: Bit32u
  tlb_memtype :: Bit32u

record floatx80 =
  fraction :: Bit64u
  exp_fp :: Bit16u

record i387_t =
  cwd :: Bit16u
  swd :: Bit16u
  twd :: Bit16u
  foo :: Bit16u
  fip :: bx_address
  fdp :: bx_address
  fcs :: Bit16u
  fds :: Bit16u
  st_space :: "nat \<Rightarrow> floatx80"
  tos :: Bit8u

record bx_local_apic_c =
  task_priority :: Bit32u
  isr_apic :: "nat \<Rightarrow> Bit8u"
  irr_apic :: "nat \<Rightarrow> Bit8u"
  ier_apic :: "nat \<Rightarrow> Bit8u"
  tmr_apic :: "nat \<Rightarrow> Bit8u"
  lapic_base :: bx_phy_address
  lapic_mode :: nat
  xapic :: bool
  xapic_ext :: Bit32u
  apic_id :: Bit32u
  apic_version_id :: Bit32u
  software_enabled :: bool
  spurious_vector :: Bit8u
  focus_disable :: bool
  lapic_ldr :: Bit32u
  dest_format :: Bit32u
  error_status :: Bit32u
  shadow_error_status :: Bit32u
  icr_hi :: Bit32u
  icr_lo :: Bit32u
  lvt :: "nat \<Rightarrow> Bit32u"
  timer_initial :: Bit32u
  timer_current :: Bit32u
  ticksInitial :: Bit64u
  timer_divconf :: Bit32u
  timer_divide_factor :: Bit32u
  timer_active :: bool
  timer_handle :: nat
  vmx_timer_handle :: nat
  vmx_preemption_timer_value :: Bit32u
  vmx_preemption_timer_initial :: Bit64u
  vmx_preemption_timer_fire :: Bit64u
  vmx_preemption_timer_rate :: nat
  vmx_timer_active :: bool
  mwaitx_timer_handle :: nat
  mwaitx_timer_active :: bool
  bus_eois :: "nat list"
  startup_msgs :: "Bit8u list"

record bx_msrs =
  apicbase :: bx_phy_address
  pat :: Bit64u
  star :: Bit64u
  lstar :: Bit64u
  cstar :: Bit64u
  fmask :: Bit32u
  kernelgsbase :: Bit64u
  tsc_aux :: Bit32u
  sysenter_cs_msr :: Bit32u
  sysenter_esp_msr :: bx_address
  sysenter_eip_msr :: bx_address

text \<open>The memory type range registers, which the register exchange leaves alone.\<close>

record bx_mtrrs =
  mtrrphys :: "nat \<Rightarrow> Bit64u"
  mtrrfix64k :: Bit64u
  mtrrfix16k :: "nat \<Rightarrow> Bit64u"
  mtrrfix4k :: "nat \<Rightarrow> Bit64u"
  mtrr_deftype :: Bit32u

text \<open>Control, debug and extended control registers.\<close>

record bx_crs =
  cr0 :: Bit32u
  cr2 :: bx_address
  cr3 :: bx_address
  cr4 :: Bit32u
  efer :: Bit32u
  xcr0 :: Bit32u
  dr :: "nat \<Rightarrow> bx_address"
  dr6 :: Bit32u
  dr7 :: Bit32u

text \<open>What the code reads of the VMX and SVM controls here.\<close>

record bx_guest_ctrls =
  in_vmx_guest :: bool
  external_interrupt_vmexit :: bool
  tsc_scaling :: bool
  tsc_multiplier :: Bit64u
  in_svm_guest :: bool
  svm_v_intr_prio :: Bit8u
  svm_v_tpr :: Bit8u
  svm_v_ignore_tpr :: bool
  svm_v_intr_masking :: bool
  svm_host_if :: bool

text \<open>Events, and the state derived from the control registers.\<close>

record bx_events =
  pending_event :: Bit32u
  event_mask :: Bit32u
  async_event :: Bit32u

datatype BxActivity = BX_ACTIVITY_STATE_ACTIVE | BX_ACTIVITY_STATE_HLT | BX_ACTIVITY_STATE_SHUTDOWN
  | BX_ACTIVITY_STATE_WAIT_FOR_SIPI | BX_ACTIVITY_STATE_MWAIT | BX_ACTIVITY_STATE_MWAIT_IF

text \<open>The state between instructions: sleep, inhibited interrupts, pending debug traps.\<close>

record bx_async =
  activity_state :: BxActivity
  inhibit_mask :: Bit32u
  inhibit_icount :: Bit64u
  icount :: Bit64u
  icount_last_sync :: Bit64u
  debug_trap :: Bit32u
  svm_gif :: bool
  EXT :: bool
  svm_intercept :: "nat \<Rightarrow> bool"
  svm_v_intr_vector :: Bit8u

record bx_modes =
  cpu_mode :: BxCpuMode
  fetchModeMask :: Bit32u
  user_pl :: bool
  sse_ok :: bool
  avx_ok :: bool
  alignment_check_mask :: Bit32u
  pkru :: Bit32u
  rd_pkey :: "nat \<Rightarrow> Bit32u"
  wr_pkey :: "nat \<Rightarrow> Bit32u"

record BX_CPU_C =
  gen_reg :: "nat \<Rightarrow> Bit64u"
  prev_rip :: bx_address
  prev_rsp :: bx_address
  eflags :: Bit32u
  oszapc :: bx_lazyflags_entry
  sregs :: "nat \<Rightarrow> bx_segment_reg_t"
  gdtr :: bx_global_segment_reg_t
  idtr :: bx_global_segment_reg_t
  ldtr :: bx_segment_reg_t
  tr :: bx_segment_reg_t
  crs :: bx_crs
  msr :: bx_msrs
  the_i387 :: i387_t
  vmm :: "nat \<Rightarrow> 128 word"
  mxcsr :: Bit32u
  mxcsr_mask :: Bit32u
  lapic :: bx_local_apic_c
  guest :: bx_guest_ctrls
  events :: bx_events
  async :: bx_async
  modes :: bx_modes
  tsc_last_reset :: Bit64u
  tsc_offset :: Bit64u
  tlb :: "nat \<Rightarrow> bx_TLB_entry"
  mtrrs :: bx_mtrrs
  PDPTR_CACHE :: "nat \<Rightarrow> Bit64u"
  split_large :: bool
  monitor_armed :: bool
  cpu_eipPageWindowSize :: Bit32u
  cpu_espPageWindowSize :: Bit32u
  cpu_iCache :: bxICache_c

abbreviation (input) "BX_64BIT_REG_RAX \<equiv> (0 :: nat)"
abbreviation (input) "BX_64BIT_REG_RSP \<equiv> (4 :: nat)"
abbreviation (input) "BX_64BIT_REG_RIP \<equiv> (16 :: nat)"
abbreviation (input) "BX_SEG_REG_CS \<equiv> (1 :: nat)"

text \<open>The bit accessors of the control registers, and of EFLAGS.\<close>

definition crreg_get :: "Bit32u \<Rightarrow> nat \<Rightarrow> bool" where
  "crreg_get val32 bitnum \<longleftrightarrow> 1 AND drop_bit bitnum val32 \<noteq> 0"

lemma crreg_get_bit [simp]: "crreg_get v n \<longleftrightarrow> bit v n"
  by (simp add: crreg_get_def and.commute [of 1] drop_bit_and_1)

abbreviation "get_PE c \<equiv> crreg_get (cr0 c) 0"
abbreviation "get_EM c \<equiv> crreg_get (cr0 c) 2"
abbreviation "get_TS c \<equiv> crreg_get (cr0 c) 3"
abbreviation "get_WP c \<equiv> crreg_get (cr0 c) 16"
abbreviation "get_AM c \<equiv> crreg_get (cr0 c) 18"
abbreviation "get_OSFXSR c \<equiv> crreg_get (cr4 c) 9"
abbreviation "get_OSXSAVE c \<equiv> crreg_get (cr4 c) 18"
abbreviation "get_PKE c \<equiv> crreg_get (cr4 c) 22"
abbreviation "get_LMA c \<equiv> crreg_get (efer c) 10"

abbreviation "get_TF cpu \<equiv> crreg_get (eflags cpu) 8"
abbreviation "get_IF cpu \<equiv> crreg_get (eflags cpu) 9"
abbreviation "get_RF cpu \<equiv> crreg_get (eflags cpu) 16"
abbreviation "get_VM cpu \<equiv> crreg_get (eflags cpu) 17"
abbreviation "get_AC cpu \<equiv> crreg_get (eflags cpu) 18"

abbreviation (input) "EFlagsIFMask \<equiv> (0x200 :: Bit32u)"
abbreviation (input) "EFlagsIOPLMask \<equiv> (0x3000 :: Bit32u)"
abbreviation (input) "EFlagsNTMask \<equiv> (0x4000 :: Bit32u)"
abbreviation (input) "EFlagsVMMask \<equiv> (0x20000 :: Bit32u)"
abbreviation (input) "EFlagsACMask \<equiv> (0x40000 :: Bit32u)"
abbreviation (input) "EFlagsVIFMask \<equiv> (0x80000 :: Bit32u)"
abbreviation (input) "EFlagsVIPMask \<equiv> (0x100000 :: Bit32u)"
abbreviation (input) "EFlagsIDMask \<equiv> (0x200000 :: Bit32u)"
abbreviation (input) "EFlagsOSZAPCMask \<equiv> (0x8D5 :: Bit32u)"

definition cr0_set32 :: "Bit32u \<Rightarrow> bx_crs \<Rightarrow> bx_crs" where
  "cr0_set32 val c = c\<lparr>cr0 := val OR 0x10\<rparr>"

abbreviation CPL :: "BX_CPU_C \<Rightarrow> Bit8u" where
  "CPL cpu \<equiv> rpl (selector (sregs cpu BX_SEG_REG_CS))"

abbreviation cs_cache :: "BX_CPU_C \<Rightarrow> bx_descriptor_t" where
  "cs_cache cpu \<equiv> cache (sregs cpu BX_SEG_REG_CS)"

abbreviation upd_cs :: "(bx_segment_reg_t \<Rightarrow> bx_segment_reg_t) \<Rightarrow> BX_CPU_C \<Rightarrow> BX_CPU_C" where
  "upd_cs f cpu \<equiv> cpu\<lparr>sregs := (sregs cpu)(BX_SEG_REG_CS := f (sregs cpu BX_SEG_REG_CS))\<rparr>"

abbreviation set_modes :: "(bx_modes \<Rightarrow> bx_modes) \<Rightarrow> BX_CPU_C \<Rightarrow> BX_CPU_C" where
  "set_modes f cpu \<equiv> cpu\<lparr>modes := f (modes cpu)\<rparr>"

subsection \<open>Events\<close>

abbreviation (input) "BX_EVENT_VMX_INTERRUPT_WINDOW_EXITING \<equiv> (0x40 :: Bit32u)"
abbreviation (input) "BX_EVENT_SVM_VIRQ_PENDING \<equiv> (0x100 :: Bit32u)"
abbreviation (input) "BX_EVENT_PENDING_VMX_VIRTUAL_INTR \<equiv> (0x200 :: Bit32u)"
abbreviation (input) "BX_EVENT_PENDING_INTR \<equiv> (0x400 :: Bit32u)"
abbreviation (input) "BX_EVENT_PENDING_LAPIC_INTR \<equiv> (0x800 :: Bit32u)"

definition is_masked_event :: "Bit32u \<Rightarrow> bx_events \<Rightarrow> bool" where
  "is_masked_event event ev \<longleftrightarrow> event_mask ev AND event \<noteq> 0"

definition is_pending :: "Bit32u \<Rightarrow> bx_events \<Rightarrow> bool" where
  "is_pending event ev \<longleftrightarrow> pending_event ev AND event \<noteq> 0"

definition is_unmasked_event_pending :: "Bit32u \<Rightarrow> bx_events \<Rightarrow> bool" where
  "is_unmasked_event_pending event ev \<longleftrightarrow> pending_event ev AND NOT (event_mask ev) AND event \<noteq> 0"

definition unmasked_events_pending :: "bx_events \<Rightarrow> Bit32u" where
  "unmasked_events_pending ev = pending_event ev AND NOT (event_mask ev)"

definition signal_event :: "Bit32u \<Rightarrow> bx_events \<Rightarrow> bx_events" where
  "signal_event event ev =
     (let ev1 = ev\<lparr>pending_event := pending_event ev OR event\<rparr>
      in if \<not> is_masked_event event ev1 then ev1\<lparr>async_event := 1\<rparr> else ev1)"

definition clear_event :: "Bit32u \<Rightarrow> bx_events \<Rightarrow> bx_events" where
  "clear_event event ev = ev\<lparr>pending_event := pending_event ev AND NOT event\<rparr>"

definition mask_event :: "Bit32u \<Rightarrow> bx_events \<Rightarrow> bx_events" where
  "mask_event event ev = ev\<lparr>event_mask := event_mask ev OR event\<rparr>"

definition unmask_event :: "Bit32u \<Rightarrow> bx_events \<Rightarrow> bx_events" where
  "unmask_event event ev =
     (let ev1 = ev\<lparr>event_mask := event_mask ev AND NOT event\<rparr>
      in if is_pending event ev1 then ev1\<lparr>async_event := 1\<rparr> else ev1)"

definition handleInterruptMaskChange :: "BX_CPU_C \<Rightarrow> BX_CPU_C" where
  "handleInterruptMaskChange cpu =
     (let gu = guest cpu; ev = events cpu
      in cpu\<lparr>events :=
           (if get_IF cpu then
              (let ev1 = unmask_event (BX_EVENT_VMX_INTERRUPT_WINDOW_EXITING OR BX_EVENT_PENDING_INTR OR
                             BX_EVENT_PENDING_LAPIC_INTR OR BX_EVENT_PENDING_VMX_VIRTUAL_INTR) ev
               in if in_svm_guest gu \<and> (svm_v_intr_prio gu > svm_v_tpr gu \<or> svm_v_ignore_tpr gu)
                  then unmask_event BX_EVENT_SVM_VIRQ_PENDING ev1 else ev1)
            else if in_vmx_guest gu \<and> external_interrupt_vmexit gu then
              unmask_event (BX_EVENT_PENDING_INTR OR BX_EVENT_PENDING_LAPIC_INTR)
                (mask_event (BX_EVENT_VMX_INTERRUPT_WINDOW_EXITING OR BX_EVENT_PENDING_VMX_VIRTUAL_INTR) ev)
            else if in_svm_guest gu \<and> svm_v_intr_masking gu then
              mask_event BX_EVENT_SVM_VIRQ_PENDING
                (if \<not> svm_host_if gu then mask_event (BX_EVENT_PENDING_INTR OR BX_EVENT_PENDING_LAPIC_INTR) ev else ev)
            else
              mask_event (BX_EVENT_VMX_INTERRUPT_WINDOW_EXITING OR BX_EVENT_PENDING_INTR OR
                          BX_EVENT_PENDING_LAPIC_INTR OR BX_EVENT_PENDING_VMX_VIRTUAL_INTR OR
                          BX_EVENT_SVM_VIRQ_PENDING) ev)\<rparr>)"

subsection \<open>Modes\<close>

fun mode_code :: "BxCpuMode \<Rightarrow> nat" where
  "mode_code BX_MODE_IA32_REAL = 0"
| "mode_code BX_MODE_IA32_V8086 = 1"
| "mode_code BX_MODE_IA32_PROTECTED = 2"
| "mode_code BX_MODE_LONG_COMPAT = 3"
| "mode_code BX_MODE_LONG_64 = 4"

definition protected_mode :: "BX_CPU_C \<Rightarrow> bool" where
  "protected_mode cpu \<longleftrightarrow> mode_code (cpu_mode (modes cpu)) \<ge> mode_code BX_MODE_IA32_PROTECTED"

definition long_mode :: "BX_CPU_C \<Rightarrow> bool" where
  "long_mode cpu \<longleftrightarrow> get_LMA (crs cpu)"

definition invalidate_prefetch_q :: "BX_CPU_C \<Rightarrow> BX_CPU_C" where
  "invalidate_prefetch_q cpu = cpu\<lparr>cpu_eipPageWindowSize := 0\<rparr>"

definition invalidate_stack_cache :: "BX_CPU_C \<Rightarrow> BX_CPU_C" where
  "invalidate_stack_cache cpu = cpu\<lparr>cpu_espPageWindowSize := 0\<rparr>"

definition updateFetchModeMask :: "BX_CPU_C \<Rightarrow> BX_CPU_C" where
  "updateFetchModeMask cpu = set_modes (\<lambda>m. m\<lparr>
     fetchModeMask := push_bit 3 (b2u (avx_ok m)) OR push_bit 2 (b2u (sse_ok m)) OR
                      push_bit 1 (b2u (cpu_mode m = BX_MODE_LONG_64)) OR d_b (cs_cache cpu),
     user_pl := (CPL cpu = 3)\<rparr>) cpu"

definition handleAlignmentCheck :: "BX_CPU_C \<Rightarrow> BX_CPU_C" where
  "handleAlignmentCheck cpu = set_modes (\<lambda>m. m\<lparr>alignment_check_mask :=
     (if CPL cpu = 3 \<and> get_AM (crs cpu) \<and> get_AC cpu then 0xF else 0)\<rparr>) cpu"

definition handleSseModeChange :: "BX_CPU_C \<Rightarrow> BX_CPU_C" where
  "handleSseModeChange cpu =
     updateFetchModeMask (set_modes (\<lambda>m. m\<lparr>sse_ok :=
       (if get_TS (crs cpu) then False
        else if get_EM (crs cpu) \<or> \<not> get_OSFXSR (crs cpu) then False else True)\<rparr>) cpu)"

abbreviation (input) "BX_XCR0_SSE_MASK \<equiv> (0x2 :: Bit32u)"
abbreviation (input) "BX_XCR0_YMM_MASK \<equiv> (0x4 :: Bit32u)"

definition handleAvxModeChange :: "BX_CPU_C \<Rightarrow> BX_CPU_C" where
  "handleAvxModeChange cpu =
     updateFetchModeMask (set_modes (\<lambda>m. m\<lparr>avx_ok :=
       (if get_TS (crs cpu) then False
        else if \<not> protected_mode cpu \<or> \<not> get_OSXSAVE (crs cpu) \<or>
                NOT (xcr0 (crs cpu)) AND (BX_XCR0_SSE_MASK OR BX_XCR0_YMM_MASK) \<noteq> 0 then False
        else True)\<rparr>) cpu)"

abbreviation (input) "TLB_SysReadOK \<equiv> (0x01 :: Bit32u)"
abbreviation (input) "TLB_UserReadOK \<equiv> (0x02 :: Bit32u)"
abbreviation (input) "TLB_SysWriteOK \<equiv> (0x04 :: Bit32u)"
abbreviation (input) "TLB_UserWriteOK \<equiv> (0x08 :: Bit32u)"

text \<open>The rights of one protection key, and \<open>set_PKRU\<close>, which stores RAX, not its argument.\<close>

definition pkey_rights :: "BX_CPU_C \<Rightarrow> Bit32u \<Rightarrow> nat \<Rightarrow> Bit32u \<times> Bit32u" where
  "pkey_rights cpu pkru_a i =
     (let ok = TLB_SysReadOK OR TLB_UserReadOK OR TLB_SysWriteOK OR TLB_UserWriteOK
      in if long_mode cpu \<and> get_PKE (crs cpu) then
           (let (rd1, wr1) = (if pkru_a AND push_bit (i * 2) 1 \<noteq> 0
                              then (ok AND NOT (TLB_UserReadOK OR TLB_UserWriteOK),
                                    ok AND NOT (TLB_UserReadOK OR TLB_UserWriteOK)) else (ok, ok));
                wr2 = (if pkru_a AND push_bit (i * 2 + 1) 1 \<noteq> 0
                       then (let w = wr1 AND NOT TLB_UserWriteOK
                             in if get_WP (crs cpu) then w AND NOT TLB_SysWriteOK else w)
                       else wr1)
            in (rd1, wr2))
         else (ok, ok))"

definition set_PKRU :: "Bit32u \<Rightarrow> BX_CPU_C \<Rightarrow> BX_CPU_C" where
  "set_PKRU pkru_a cpu = set_modes (\<lambda>m. m\<lparr>
     pkru := ucast (gen_reg cpu BX_64BIT_REG_RAX),
     rd_pkey := (\<lambda>i. if i < 16 then fst (pkey_rights cpu pkru_a i) else rd_pkey m i),
     wr_pkey := (\<lambda>i. if i < 16 then snd (pkey_rights cpu pkru_a i) else wr_pkey m i)\<rparr>) cpu"

definition BX_CLEAR_64BIT_HIGH :: "nat \<Rightarrow> BX_CPU_C \<Rightarrow> BX_CPU_C" where
  "BX_CLEAR_64BIT_HIGH index cpu =
     cpu\<lparr>gen_reg := (gen_reg cpu)(index := gen_reg cpu index AND 0xffffffff)\<rparr>"

definition handleCpuModeChange :: "BX_CPU_C \<Rightarrow> BX_CPU_C" where
  "handleCpuModeChange cpu =
     (let cpu1 =
        (if get_LMA (crs cpu) then
           invalidate_stack_cache
             (if l (cs_cache cpu) \<noteq> 0 then set_modes (\<lambda>m. m\<lparr>cpu_mode := BX_MODE_LONG_64\<rparr>) cpu
              else BX_CLEAR_64BIT_HIGH BX_64BIT_REG_RSP (BX_CLEAR_64BIT_HIGH BX_64BIT_REG_RIP
                     (set_modes (\<lambda>m. m\<lparr>cpu_mode := BX_MODE_LONG_COMPAT\<rparr>) cpu)))
         else if get_PE (crs cpu) then
           (if get_VM cpu
            then upd_cs (\<lambda>s. s\<lparr>selector := (selector s)\<lparr>rpl := 3\<rparr>\<rparr>)
                   (set_modes (\<lambda>m. m\<lparr>cpu_mode := BX_MODE_IA32_V8086\<rparr>) cpu)
            else set_modes (\<lambda>m. m\<lparr>cpu_mode := BX_MODE_IA32_PROTECTED\<rparr>) cpu)
         else
           upd_cs (\<lambda>s. s\<lparr>cache := (cache s)\<lparr>p := 1, segment := 1, type_d := BX_DATA_READ_WRITE_ACCESSED\<rparr>,
                        selector := (selector s)\<lparr>rpl := 0\<rparr>\<rparr>)
             (set_modes (\<lambda>m. m\<lparr>cpu_mode := BX_MODE_IA32_REAL\<rparr>) cpu));
          cpu2 = handleAvxModeChange (updateFetchModeMask cpu1)
      in set_PKRU (pkru (modes cpu2)) cpu2)"

subsection \<open>EFLAGS\<close>

definition setEFlagsOSZAPC :: "Bit32u \<Rightarrow> bx_lazyflags_entry \<Rightarrow> bx_lazyflags_entry" where
  "setEFlagsOSZAPC flags32 lf =
     set_CF (1 AND drop_bit 0 flags32) (set_PF (1 AND drop_bit 2 flags32) (set_AF (1 AND drop_bit 4 flags32)
       (set_ZF (1 AND drop_bit 6 flags32) (set_SF (1 AND drop_bit 7 flags32) (set_OF (1 AND drop_bit 11 flags32) lf)))))"

definition force_flags :: "BX_CPU_C \<Rightarrow> BX_CPU_C \<times> Bit32u" where
  "force_flags cpu =
     (let lf = oszapc cpu;
          newflags = getB_CF lf OR push_bit 2 (getB_PF lf) OR push_bit 4 (getB_AF lf) OR
                     push_bit 6 (getB_ZF lf) OR push_bit 7 (getB_SF lf) OR push_bit 11 (getB_OF lf);
          fl = (eflags cpu AND NOT EFlagsOSZAPCMask) OR (newflags AND EFlagsOSZAPCMask)
      in (cpu\<lparr>eflags := fl\<rparr>, fl))"

definition read_eflags :: "BX_CPU_C \<Rightarrow> BX_CPU_C \<times> Bit32u" where
  "read_eflags cpu = force_flags cpu"

definition setEFlags :: "Bit32u \<Rightarrow> BX_CPU_C \<Rightarrow> BX_CPU_C" where
  "setEFlags new_eflags0 cpu =
     (let old = eflags cpu;
          new_eflags = (if long_mode cpu then new_eflags0 AND NOT EFlagsVMMask else new_eflags0);
          cpu1 = cpu\<lparr>eflags := new_eflags, oszapc := setEFlagsOSZAPC new_eflags (oszapc cpu)\<rparr>;
          cpu2 = (if get_RF cpu1 then invalidate_prefetch_q cpu1 else cpu1);
          cpu3 = (if get_TF cpu2 then cpu2\<lparr>events := (events cpu2)\<lparr>async_event := 1\<rparr>\<rparr> else cpu2);
          cpu4 = (if (old XOR new_eflags) AND EFlagsIFMask \<noteq> 0 then handleInterruptMaskChange cpu3 else cpu3);
          cpu5 = handleAlignmentCheck cpu4
      in if (old XOR new_eflags) AND EFlagsVMMask \<noteq> 0 then handleCpuModeChange cpu5 else cpu5)"

definition writeEFlags :: "Bit32u \<Rightarrow> Bit32u \<Rightarrow> BX_CPU_C \<Rightarrow> BX_CPU_C" where
  "writeEFlags flags changeMask0 cpu =
     (let supportMask = 0x00037fd5 OR (EFlagsIDMask OR EFlagsACMask) OR (EFlagsVIPMask OR EFlagsVIFMask);
          changeMask = changeMask0 AND supportMask;
          (cpu1, cur) = read_eflags cpu
      in setEFlags ((cur AND NOT changeMask) OR (flags AND changeMask)) cpu1)"

definition write_flags :: "Bit16u \<Rightarrow> bool \<Rightarrow> bool \<Rightarrow> BX_CPU_C \<Rightarrow> BX_CPU_C" where
  "write_flags flags change_IOPL change_IF cpu =
     (let m1 = 0x0dd5 OR EFlagsNTMask;
          m2 = (if change_IOPL then m1 OR EFlagsIOPLMask else m1);
          m3 = (if change_IF then m2 OR EFlagsIFMask else m2)
      in writeEFlags (ucast flags) m3 cpu)"

subsection \<open>TLB, time-stamp counter, local APIC\<close>

definition BX_INVALID_TLB_ENTRY :: bx_address where
  "BX_INVALID_TLB_ENTRY = 0xffffffffffffffff"

abbreviation (input) "BX_TLB_SIZE \<equiv> (1024 :: nat)"

definition tlb_invalidate :: "bx_TLB_entry \<Rightarrow> bx_TLB_entry" where
  "tlb_invalidate e = e\<lparr>lpf := BX_INVALID_TLB_ENTRY, accessBits := 0\<rparr>"

definition TLB_flush :: "BX_CPU_C \<Rightarrow> BX_CPU_C" where
  "TLB_flush cpu =
     (let cpu1 = invalidate_stack_cache (invalidate_prefetch_q cpu)
      in cpu1\<lparr>tlb := (\<lambda>n. if n < BX_TLB_SIZE then tlb_invalidate (tlb cpu1 n) else tlb cpu1 n),
              split_large := False, monitor_armed := False,
              cpu_iCache := fst (breakLinks (cpu_iCache cpu1))\<rparr>)"

text \<open>\<open>time_ticks\<close> is the clock of \<open>bx_pc_system\<close>.\<close>

definition get_TSC :: "Bit64u \<Rightarrow> BX_CPU_C \<Rightarrow> Bit64u" where
  "get_TSC time_ticks cpu =
     (let tsc = time_ticks - tsc_last_reset cpu;
          tsc1 = (if in_vmx_guest (guest cpu) \<and> tsc_scaling (guest cpu)
                  then drop_bit 48 (tsc * tsc_multiplier (guest cpu)) else tsc)
      in tsc1 + tsc_offset cpu)"

definition set_TSC :: "Bit64u \<Rightarrow> Bit64u \<Rightarrow> BX_CPU_C \<Rightarrow> BX_CPU_C" where
  "set_TSC time_ticks newval cpu = cpu\<lparr>tsc_last_reset := time_ticks - newval\<rparr>"

text \<open>The highest enabled vector of an interrupt array; \<open>None\<close> is the -1 of the source.\<close>

definition highest_priority_int :: "(nat \<Rightarrow> Bit8u) \<Rightarrow> bx_local_apic_c \<Rightarrow> nat option" where
  "highest_priority_int arr la =
     find (\<lambda>i. ier_apic la i \<noteq> 0 \<and> arr i \<noteq> 0) (rev [0x10..<0x100])"

definition service_local_apic :: "BX_CPU_C \<Rightarrow> BX_CPU_C" where
  "service_local_apic cpu =
     (let la = lapic cpu
      in if is_pending BX_EVENT_PENDING_LAPIC_INTR (events cpu) then cpu
         else case highest_priority_int (irr_apic la) la of
                None \<Rightarrow> cpu
              | Some first_irr \<Rightarrow>
                  if (case highest_priority_int (isr_apic la) la of
                        Some first_isr \<Rightarrow> first_irr \<le> first_isr | None \<Rightarrow> False) then cpu
                  else if (of_nat first_irr :: Bit32u) AND 0xf0 \<le> task_priority la AND 0xf0 then cpu
                  else cpu\<lparr>events := signal_event BX_EVENT_PENDING_LAPIC_INTR (events cpu)\<rparr>)"

definition set_tpr :: "Bit8u \<Rightarrow> BX_CPU_C \<Rightarrow> BX_CPU_C" where
  "set_tpr priority cpu =
     (let cpu1 = cpu\<lparr>lapic := (lapic cpu)\<lparr>task_priority := ucast priority\<rparr>\<rparr>
      in if (ucast priority :: Bit32u) < task_priority (lapic cpu) then service_local_apic cpu1 else cpu1)"

definition get_cr8 :: "BX_CPU_C \<Rightarrow> Bit32u" where
  "get_cr8 cpu = ucast (drop_bit 4 (ucast (task_priority (lapic cpu)) :: Bit8u)) AND 0xf"

end
