(* ===== verification/CpuProps.thy ===== *)
theory CpuProps
  imports Cpu
begin

text \<open>
  Properties of the CPU operations: no deliverable event is lost, EFLAGS read back as they
  were written, and the derived mode state is the one the control registers define.
\<close>

subsection \<open>Events\<close>

text \<open>
  The contract the event users rely on: whenever an event is pending and not masked, the
  CPU loop is told to look (\<open>async_event\<close> is nonzero). Any sequence of the four operations keeps it.
\<close>

datatype event_op = Signal Bit32u | Clear Bit32u | Mask Bit32u | Unmask Bit32u

locale event_unit =
  fixes deliverable :: "'s \<Rightarrow> bool" and wake :: "'s \<Rightarrow> bool" and single :: "Bit32u \<Rightarrow> bool"
    and sig clr msk unm :: "Bit32u \<Rightarrow> 's \<Rightarrow> 's"
  assumes sig_ok: "(deliverable s \<longrightarrow> wake s) \<Longrightarrow> single e \<Longrightarrow> deliverable (sig e s) \<longrightarrow> wake (sig e s)"
    and clr_ok: "(deliverable s \<longrightarrow> wake s) \<Longrightarrow> deliverable (clr e s) \<longrightarrow> wake (clr e s)"
    and msk_ok: "(deliverable s \<longrightarrow> wake s) \<Longrightarrow> deliverable (msk e s) \<longrightarrow> wake (msk e s)"
    and unm_ok: "(deliverable s \<longrightarrow> wake s) \<Longrightarrow> deliverable (unm e s) \<longrightarrow> wake (unm e s)"
begin

fun run1 :: "event_op \<Rightarrow> 's \<Rightarrow> 's" where
  "run1 (Signal e) = sig e"
| "run1 (Clear e) = clr e"
| "run1 (Mask e) = msk e"
| "run1 (Unmask e) = unm e"

lemma run_ok:
  "(deliverable s \<longrightarrow> wake s) \<Longrightarrow> (\<And>e. Signal e \<in> set cs \<Longrightarrow> single e) \<Longrightarrow>
     deliverable (fold run1 cs s) \<longrightarrow> wake (fold run1 cs s)"
proof (induction cs arbitrary: s)
  case (Cons c cs)
  have "deliverable (run1 c s) \<longrightarrow> wake (run1 c s)"
    using Cons.prems by (cases c) (simp_all add: sig_ok clr_ok msk_ok unm_ok)
  with Cons show ?case by simp
qed simp

end

fun event_step :: "event_op \<Rightarrow> bx_events \<Rightarrow> bx_events" where
  "event_step (Signal e) = signal_event e"
| "event_step (Clear e) = clear_event e"
| "event_step (Mask e) = mask_event e"
| "event_step (Unmask e) = unmask_event e"

lemma word_and_0_iff: "a AND b = 0 \<longleftrightarrow> (\<forall>n < LENGTH('a). bit a n \<longrightarrow> \<not> bit b n)" for a b :: "'a::len word"
  by (auto simp: bit_eq_iff bit_simps)

text \<open>\<open>signal_event\<close> looks at the mask of all signalled events at once, so it wakes the CPU
  only when none of them is masked; the users signal one event at a time.\<close>

definition one_event :: "Bit32u \<Rightarrow> bool" where
  "one_event e \<longleftrightarrow> (\<exists>n < 32. e = push_bit n 1)"

lemma one_event_bits: "one_event e \<Longrightarrow> bit e n \<Longrightarrow> bit e k \<Longrightarrow> n = k"
  by (auto simp: one_event_def bit_simps bit_1_iff simp del: push_bit_of_1)

lemma deliverable_iff: "unmasked_events_pending ev \<noteq> 0 \<longleftrightarrow> (\<exists>n < 32. bit (pending_event ev) n \<and> \<not> bit (event_mask ev) n)"
  by (auto simp: unmasked_events_pending_def bit_eq_iff bit_simps)

interpretation eu: event_unit "\<lambda>ev. unmasked_events_pending ev \<noteq> 0" "\<lambda>ev. async_event ev \<noteq> 0"
    one_event signal_event clear_event mask_event unmask_event
proof
  fix s e
  assume ok: "unmasked_events_pending s \<noteq> 0 \<longrightarrow> async_event s \<noteq> 0"
  show "unmasked_events_pending (signal_event e s) \<noteq> 0 \<longrightarrow> async_event (signal_event e s) \<noteq> 0"
    if one: "one_event e"
  proof (cases "is_masked_event e s")
    case True
    then obtain k where k: "bit (event_mask s) k" "bit e k" by (auto simp: is_masked_event_def word_and_0_iff)
    then have "bit (event_mask s) n" if "bit e n" for n using one_event_bits [OF one that, of k] by simp
    with ok True show ?thesis
      by (auto simp: signal_event_def is_masked_event_def Let_def deliverable_iff bit_simps)
  qed (simp add: signal_event_def is_masked_event_def Let_def)
  show "unmasked_events_pending (clear_event e s) \<noteq> 0 \<longrightarrow> async_event (clear_event e s) \<noteq> 0"
    using ok by (auto simp: clear_event_def deliverable_iff bit_simps)
  show "unmasked_events_pending (mask_event e s) \<noteq> 0 \<longrightarrow> async_event (mask_event e s) \<noteq> 0"
    using ok by (auto simp: mask_event_def deliverable_iff bit_simps)
  show "unmasked_events_pending (unmask_event e s) \<noteq> 0 \<longrightarrow> async_event (unmask_event e s) \<noteq> 0"
    using ok by (auto simp: unmask_event_def is_pending_def Let_def deliverable_iff word_and_0_iff bit_simps)
qed

definition events_ok :: "bx_events \<Rightarrow> bool" where
  "events_ok ev \<longleftrightarrow> (unmasked_events_pending ev \<noteq> 0 \<longrightarrow> async_event ev \<noteq> 0)"

lemma events_ok_steps [inv_intros]:
  "events_ok ev \<Longrightarrow> one_event e \<Longrightarrow> events_ok (signal_event e ev)"
  "events_ok ev \<Longrightarrow> events_ok (clear_event e ev)"
  "events_ok ev \<Longrightarrow> events_ok (mask_event e ev)"
  "events_ok ev \<Longrightarrow> events_ok (unmask_event e ev)"
  using eu.sig_ok [of ev e] eu.clr_ok [of ev e] eu.msk_ok [of ev e] eu.unm_ok [of ev e]
  by (auto simp: events_ok_def)

lemma events_ok_async [inv_intros]: "events_ok (ev\<lparr>async_event := 1\<rparr>)"
  by (simp add: events_ok_def)

lemma one_event_lapic: "one_event BX_EVENT_PENDING_LAPIC_INTR"
proof -
  have "(0x800 :: Bit32u) = push_bit 11 1" by code_simp
  then show ?thesis unfolding one_event_def by (intro exI [of _ 11]) simp
qed

lemma events_ok_mask_change: "events_ok (events cpu) \<Longrightarrow> events_ok (events (handleInterruptMaskChange cpu))"
  by (auto simp: handleInterruptMaskChange_def Let_def intro!: inv_intros)

text \<open>The handlers of the derived state touch neither events nor flags.\<close>

lemma modes_only:
  "\<exists>m. updateFetchModeMask cpu = cpu\<lparr>modes := m\<rparr>"
  "\<exists>m. handleAlignmentCheck cpu = cpu\<lparr>modes := m\<rparr>"
  "\<exists>m. handleSseModeChange cpu = cpu\<lparr>modes := m\<rparr>"
  "\<exists>m. handleAvxModeChange cpu = cpu\<lparr>modes := m\<rparr>"
  "\<exists>m. set_PKRU v cpu = cpu\<lparr>modes := m\<rparr>"
  by (auto simp: updateFetchModeMask_def handleAlignmentCheck_def handleSseModeChange_def
      handleAvxModeChange_def set_PKRU_def)

lemma handleCpuModeChange_frame:
  "events (handleCpuModeChange cpu) = events cpu" "eflags (handleCpuModeChange cpu) = eflags cpu"
  "oszapc (handleCpuModeChange cpu) = oszapc cpu" "crs (handleCpuModeChange cpu) = crs cpu"
  by (simp_all add: handleCpuModeChange_def Let_def handleAvxModeChange_def updateFetchModeMask_def set_PKRU_def
      BX_CLEAR_64BIT_HIGH_def invalidate_stack_cache_def)

lemma handleAlignmentCheck_frame:
  "events (handleAlignmentCheck cpu) = events cpu" "eflags (handleAlignmentCheck cpu) = eflags cpu"
  "oszapc (handleAlignmentCheck cpu) = oszapc cpu" "crs (handleAlignmentCheck cpu) = crs cpu"
  by (simp_all add: handleAlignmentCheck_def)

lemma handleInterruptMaskChange_frame:
  "eflags (handleInterruptMaskChange cpu) = eflags cpu"
  "oszapc (handleInterruptMaskChange cpu) = oszapc cpu" "crs (handleInterruptMaskChange cpu) = crs cpu"
  by (simp_all add: handleInterruptMaskChange_def Let_def)

lemmas mode_frames = handleCpuModeChange_frame handleAlignmentCheck_frame handleInterruptMaskChange_frame

lemma setEFlags_events_ok: "events_ok (events cpu) \<Longrightarrow> events_ok (events (setEFlags f cpu))"
  by (auto simp: setEFlags_def Let_def mode_frames invalidate_prefetch_q_def
      intro!: events_ok_mask_change inv_intros)

lemma set_tpr_events_ok: "events_ok (events cpu) \<Longrightarrow> events_ok (events (set_tpr pr cpu))"
  by (auto simp: set_tpr_def service_local_apic_def Let_def split: option.split
      intro!: inv_intros one_event_lapic)

text \<open>
  C35: no deliverable event is lost. If every pending unmasked event has woken the CPU loop
  before, the same holds after writing EFLAGS (which may unmask interrupts), after
  changing the task priority (which may raise the local APIC's interrupt), and after any
  sequence of signalling, clearing, masking and unmasking single events.
\<close>

theorem events_never_lost:
  assumes "events_ok (events cpu)" and "\<forall>c \<in> set cs. \<forall>e. c = Signal e \<longrightarrow> one_event e"
  shows "events_ok (events (setEFlags f cpu)) \<and> events_ok (events (set_tpr pr cpu)) \<and>
         events_ok (fold event_step cs (events cpu))"
proof -
  have "event_step c = eu.run1 c" for c by (cases c) simp_all
  then have "event_step = eu.run1" by blast
  moreover have "one_event e" if "Signal e \<in> set cs" for e using assms(2) that by blast
  ultimately have "events_ok (fold event_step cs (events cpu))"
    using eu.run_ok [of "events cpu" cs] assms(1) by (simp add: events_ok_def)
  then show ?thesis using assms(1) by (simp add: setEFlags_events_ok set_tpr_events_ok)
qed

text \<open>A CPU in 64 bit mode with an interrupt pending but masked.\<close>

definition wit_segment :: bx_segment_reg_t where
  "wit_segment = \<lparr>selector = \<lparr>value_sel = 0x10, index_sel = 2, ti = 0, rpl = 0\<rparr>, cache = zero_descriptor\<lparr>l := 1\<rparr>\<rparr>"

definition wit_lapic :: bx_local_apic_c where
  "wit_lapic = \<lparr>task_priority = 0x20, isr_apic = (\<lambda>_. 0), irr_apic = (\<lambda>_. 0), ier_apic = (\<lambda>_. 1), tmr_apic = (\<lambda>_. 0),
     lapic_base = 0xfee00000, lapic_mode = 2, xapic = True, xapic_ext = 0, apic_id = 0, apic_version_id = 0x00050014,
     software_enabled = True, spurious_vector = 0xff, focus_disable = False, lapic_ldr = 0, dest_format = 0xf,
     error_status = 0, shadow_error_status = 0, icr_hi = 0, icr_lo = 0, lvt = (\<lambda>_. 0x10000), timer_initial = 0,
     timer_current = 0, ticksInitial = 0, timer_divconf = 0, timer_divide_factor = 1, timer_active = False,
     timer_handle = 1, vmx_timer_handle = 2, vmx_preemption_timer_value = 0, vmx_preemption_timer_initial = 0,
     vmx_preemption_timer_fire = 0, vmx_preemption_timer_rate = 0, vmx_timer_active = False, mwaitx_timer_handle = 3,
     mwaitx_timer_active = False, bus_eois = [], startup_msgs = []\<rparr>"

definition wit_bx_cpu :: BX_CPU_C where
  "wit_bx_cpu = \<lparr>gen_reg = (\<lambda>i. of_nat i), prev_rip = 16, prev_rsp = 4, eflags = 0x2, oszapc = \<lparr>result = 1, auxbits = 0\<rparr>,
     sregs = (\<lambda>_. wit_segment), gdtr = \<lparr>base_gs = 0, limit_gs = 0\<rparr>, idtr = \<lparr>base_gs = 0, limit_gs = 0\<rparr>,
     ldtr = wit_segment, tr = wit_segment,
     crs = \<lparr>cr0 = 0x80000011, cr2 = 0, cr3 = 0x1000, cr4 = 0x20, efer = 0x500, xcr0 = 1, dr = (\<lambda>_. 0), dr6 = 0, dr7 = 0x400\<rparr>,
     msr = \<lparr>apicbase = 0xfee00900, pat = 0, star = 0, lstar = 0, cstar = 0, fmask = 0, kernelgsbase = 0, tsc_aux = 0,
            sysenter_cs_msr = 0, sysenter_esp_msr = 0, sysenter_eip_msr = 0\<rparr>,
     the_i387 = \<lparr>cwd = 0x37f, swd = 0, twd = 0xffff, foo = 0, fip = 0, fdp = 0, fcs = 0, fds = 0,
                 st_space = (\<lambda>_. \<lparr>fraction = 0, exp_fp = 0\<rparr>), tos = 3\<rparr>,
     vmm = (\<lambda>_. 0), mxcsr = 0x1f80, mxcsr_mask = 0xffff,
     lapic = wit_lapic,
     guest = \<lparr>in_vmx_guest = False, external_interrupt_vmexit = False, tsc_scaling = False, tsc_multiplier = 0,
              in_svm_guest = False, svm_v_intr_prio = 0, svm_v_tpr = 0, svm_v_ignore_tpr = False,
              svm_v_intr_masking = False, svm_host_if = False\<rparr>,
     events = \<lparr>pending_event = 0x400, event_mask = 0xF40, async_event = 0\<rparr>,
     async = \<lparr>activity_state = BX_ACTIVITY_STATE_ACTIVE, inhibit_mask = 0, inhibit_icount = 0, icount = 1, icount_last_sync = 1, debug_trap = 0,
              svm_gif = True, EXT = False, svm_intercept = (\<lambda>_. False), svm_v_intr_vector = 0\<rparr>,
     modes = \<lparr>cpu_mode = BX_MODE_LONG_64, fetchModeMask = 2, user_pl = False, sse_ok = False, avx_ok = False,
              alignment_check_mask = 0, pkru = 0, rd_pkey = (\<lambda>_. 15), wr_pkey = (\<lambda>_. 15)\<rparr>,
     tsc_last_reset = 0, tsc_offset = 0, tlb = (\<lambda>_. \<lparr>lpf = 0x1000, tlb_ppf = 0x1000, hostPageAddr = None, accessBits = 1, tlb_pkey = 0,
       tlb_lpf_mask = 0xfff, tlb_memtype = 0\<rparr>), mtrrs = \<lparr>mtrrphys = (\<lambda>_. 0), mtrrfix64k = 0, mtrrfix16k = (\<lambda>_. 0), mtrrfix4k = (\<lambda>_. 0), mtrr_deftype = 0\<rparr>,
     PDPTR_CACHE = (\<lambda>_. 0), split_large = False,
     monitor_armed = True, cpu_eipPageWindowSize = 4096, cpu_espPageWindowSize = 4096, cpu_iCache = wit_icache\<rparr>"

theorem events_never_lost_witness:
  "async_event (events (setEFlags 0x202 wit_bx_cpu)) = 1 \<and>
   events_ok (fold event_step [Unmask 0x400, Clear 0x400, Signal 0x800] (events wit_bx_cpu))"
proof -
  have ev: "events wit_bx_cpu = \<lparr>pending_event = 0x400, event_mask = 0xF40, async_event = 0\<rparr>" by (simp add: wit_bx_cpu_def)
  have "events_ok (events wit_bx_cpu)" unfolding ev events_ok_def by code_simp
  moreover have "\<forall>c \<in> set [Unmask 0x400, Clear 0x400, Signal 0x800]. \<forall>e. c = Signal e \<longrightarrow> one_event e"
    using one_event_lapic by simp
  ultimately have "events_ok (fold event_step [Unmask 0x400, Clear 0x400, Signal 0x800] (events wit_bx_cpu))"
    using events_never_lost [of wit_bx_cpu "[Unmask 0x400, Clear 0x400, Signal 0x800]"] by blast
  moreover have "async_event (events (setEFlags 0x202 wit_bx_cpu)) = 1"
    by (simp add: setEFlags_def Let_def mode_frames handleInterruptMaskChange_def invalidate_prefetch_q_def unmask_event_def
        is_pending_def wit_bx_cpu_def long_mode_def)
  ultimately show ?thesis by blast
qed

subsection \<open>EFLAGS\<close>

fun flag_pos :: "arith_flag \<Rightarrow> nat" where
  "flag_pos CF = 0"
| "flag_pos PF = 2"
| "flag_pos AF = 4"
| "flag_pos ZF = 6"
| "flag_pos SF = 7"
| "flag_pos OF = 11"

lemma bit_and_1: "1 AND drop_bit n w = b2u (bit w n)" for w :: Bit32u
  by (simp add: and.commute [of 1] drop_bit_and_1 b2u_def)

lemma lf_get_setEFlagsOSZAPC: "lf_get fl (setEFlagsOSZAPC f lf) = bit f (flag_pos fl)"
proof -
  have "setEFlagsOSZAPC f lf = fold (\<lambda>fl. lf_set fl (bit f (flag_pos fl))) [OF, SF, ZF, AF, PF, CF] lf"
    by (simp add: setEFlagsOSZAPC_def bit_and_1 flip: drop_bit_0)
  moreover have "fl \<in> set [OF, SF, ZF, AF, PF, CF]" by (cases fl) simp_all
  ultimately show ?thesis by (simp only: lf.get_write_all if_True) (subst lf.get_write_all, simp_all)
qed

lemma getB_lf_get:
  "getB_CF lf = b2u (lf_get CF lf)" "getB_PF lf = b2u (lf_get PF lf)" "getB_AF lf = b2u (lf_get AF lf)"
  "getB_ZF lf = b2u (lf_get ZF lf)" "getB_SF lf = b2u (lf_get SF lf)" "getB_OF lf = b2u (lf_get OF lf)"
  by (simp_all add: getB_bits)

lemma setEFlags_state:
  "eflags (setEFlags f cpu) = (if long_mode cpu then f AND NOT 0x20000 else f)"
  "oszapc (setEFlags f cpu) = setEFlagsOSZAPC (if long_mode cpu then f AND NOT 0x20000 else f) (oszapc cpu)"
  "crs (setEFlags f cpu) = crs cpu"
  by (simp_all add: setEFlags_def Let_def mode_frames invalidate_prefetch_q_def)

lemma bit_oszapc_mask: "bit (0x8D5 :: Bit32u) n \<longleftrightarrow> n \<in> {0, 2, 4, 6, 7, 11}"
proof -
  have eq: "(0x8D5 :: Bit32u) = push_bit 0 1 OR push_bit 2 1 OR push_bit 4 1 OR push_bit 6 1 OR push_bit 7 1 OR push_bit 11 1"
    by simp
  show ?thesis unfolding eq by (auto simp: bit_simps bit_1_iff simp del: push_bit_of_1)
qed

lemma bit_split_oszapc:
  "bit (x AND NOT 0x8D5) n \<longleftrightarrow> bit x n \<and> n \<notin> {0, 2, 4, 6, 7, 11}"
  "bit (x AND 0x8D5) n \<longleftrightarrow> bit x n \<and> n \<in> {0, 2, 4, 6, 7, 11}" for x :: Bit32u
  using bit_imp_le_length [of x n]
  by (simp_all only: bit_and_iff bit_not_iff bit_oszapc_mask) (auto simp: possible_bit_def)

lemma bit_force_flags:
  "bit (snd (force_flags cpu)) n \<longleftrightarrow>
     (if n = 0 then lf_get CF (oszapc cpu) else if n = 2 then lf_get PF (oszapc cpu)
      else if n = 4 then lf_get AF (oszapc cpu) else if n = 6 then lf_get ZF (oszapc cpu)
      else if n = 7 then lf_get SF (oszapc cpu) else if n = 11 then lf_get OF (oszapc cpu)
      else bit (eflags cpu) n)"
  by (simp only: force_flags_def Let_def getB_lf_get snd_conv bit_or_iff bit_split_oszapc)
     (auto simp: bit_push_bit_iff simp del: lf_get.simps)

lemma bit_clear_VM: "bit (x AND NOT 0x20000) n \<longleftrightarrow> bit x n \<and> n \<noteq> 17" for x :: Bit32u
proof -
  have vm: "(0x20000 :: Bit32u) = push_bit 17 1" by simp
  show ?thesis
    using bit_imp_le_length [of x n]
    unfolding vm by (auto simp: bit_simps bit_1_iff simp del: push_bit_of_1)
qed

lemma read_after_setEFlags:
  "snd (read_eflags (setEFlags f cpu)) = (if long_mode cpu then f AND NOT 0x20000 else f)" (is "_ = ?f")
proof (rule bit_word_eqI)
  fix n
  assume "n < LENGTH(32)"
  then show "bit (snd (read_eflags (setEFlags f cpu))) n = bit ?f n"
    unfolding read_eflags_def
    by (simp only: bit_force_flags setEFlags_state lf_get_setEFlagsOSZAPC flag_pos.simps) simp
qed

text \<open>
  EFLAGS writes. After \<open>writeEFlags\<close> a read returns, bit by bit, the new value where the change
  mask asks for it and the bit is a supported flag, and the old value elsewhere,
  although the six arithmetic flags live in the lazy representation; in long mode VM is cleared.
\<close>

theorem writeEFlags_read_back:
  "bit (snd (read_eflags (writeEFlags flags changeMask cpu))) n \<longleftrightarrow>
     (if long_mode cpu \<and> n = 17 then False
      else if bit changeMask n \<and> bit (0x003f7fd5 :: Bit32u) n then bit flags n
      else bit (snd (read_eflags cpu)) n)"
proof -
  have sup: "0x00037fd5 OR (0x200000 OR 0x40000) OR (0x100000 OR 0x80000) = (0x003f7fd5 :: Bit32u)" by simp
  have lm: "long_mode (fst (read_eflags cpu)) = long_mode cpu"
    by (simp add: read_eflags_def force_flags_def Let_def long_mode_def)
  let ?m = "changeMask AND 0x003f7fd5"
  let ?new = "(snd (read_eflags cpu) AND NOT ?m) OR (flags AND ?m)"
  have "writeEFlags flags changeMask cpu = setEFlags ?new (fst (read_eflags cpu))"
    by (simp only: writeEFlags_def Let_def sup case_prod_beta)
  then have r: "snd (read_eflags (writeEFlags flags changeMask cpu)) = (if long_mode cpu then ?new AND NOT 0x20000 else ?new)"
    by (simp only: read_after_setEFlags lm)
  have new: "bit ?new n \<longleftrightarrow> (if bit changeMask n \<and> bit (0x003f7fd5 :: Bit32u) n then bit flags n else bit (snd (read_eflags cpu)) n)"
    using bit_imp_le_length [of "snd (read_eflags cpu)" n]
    by (auto simp only: bit_or_iff bit_and_iff bit_not_iff possible_bit_word if_split)
  show ?thesis by (cases "long_mode cpu") (simp_all only: r if_True if_False bit_clear_VM new, auto)
qed

end
