(* ===== verification/HvContext.thy ===== *)
theory HvContext
  imports CpuProps
begin

text \<open>
  The register exchange with the hypervisor: \<open>set_context\<close> and \<open>get_context\<close> of \<^verbatim>\<open>bochs/main.cc\<close>. The
  context structure groups its equally treated members into arrays (general
  registers, segments, debug, XMM and x87 registers, in the order of both sides); a
  64 bit member stands for the \<open>Reg64\<close> view of the register union and \<open>Reg32\<close> is its low half.
\<close>

subsection \<open>The context structure\<close>

record whv_segment =
  Base :: Bit64u
  Limit :: Bit32u
  Selector :: Bit16u
  Attributes :: Bit16u

record whv_table =
  Table_Base :: Bit64u
  Table_Limit :: Bit16u

record whv_fp =
  Mantissa :: Bit64u
  BiasedExponent :: "15 word"
  Sign :: "1 word"

record whv_fp_control =
  FpControl :: Bit16u
  FpStatus :: Bit16u
  FpTag :: Bit8u
  LastFpOp :: Bit16u
  LastFpRip :: Bit64u

record whv_xmm_control =
  LastFpRdp :: Bit64u
  XmmStatusControl :: Bit32u
  XmmStatusControlMask :: Bit32u

record whvp_msrs =
  c_tsc :: Bit64u
  c_efer :: Bit64u
  c_kernel_gs_base :: Bit64u
  c_apic_base :: Bit64u
  c_pat :: Bit64u
  c_sysenter_cs :: Bit64u
  c_sysenter_eip :: Bit64u
  c_sysenter_esp :: Bit64u
  c_star :: Bit64u
  c_lstar :: Bit64u
  c_cstar :: Bit64u
  c_sfmask :: Bit64u
  c_tsc_aux :: Bit64u

record whvp_crs =
  c_cr0 :: Bit64u
  c_cr2 :: Bit64u
  c_cr3 :: Bit64u
  c_cr4 :: Bit64u
  c_cr8 :: Bit64u
  c_dr :: "nat \<Rightarrow> Bit64u"
  c_dr6 :: Bit64u
  c_dr7 :: Bit64u
  c_xcr0 :: Bit64u

record whvp_context =
  c_gpr :: "nat \<Rightarrow> Bit64u"
  c_rip :: Bit64u
  c_rflags :: Bit64u
  c_sregs :: "nat \<Rightarrow> whv_segment"
  c_ldtr :: whv_segment
  c_tr :: whv_segment
  c_idtr :: whv_table
  c_gdtr :: whv_table
  c_crs :: whvp_crs
  c_xmm :: "nat \<Rightarrow> 128 word"
  c_st :: "nat \<Rightarrow> whv_fp"
  c_fp_control :: whv_fp_control
  c_xmm_control :: whv_xmm_control
  c_msrs :: whvp_msrs

abbreviation low32 :: "Bit64u \<Rightarrow> Bit32u" where "low32 w \<equiv> ucast w"

definition Segment_Present :: "whv_segment \<Rightarrow> Bit32u" where
  "Segment_Present s = ucast (drop_bit 7 (Attributes s) AND 1)"

text \<open>The second view of the last-instruction and last-data pointer unions.\<close>

definition LastFpEip :: "Bit64u \<Rightarrow> Bit32u" where
  "LastFpEip u = ucast u"

definition LastFpCs :: "Bit64u \<Rightarrow> Bit16u" where
  "LastFpCs u = ucast (drop_bit 32 u)"

definition put_EipCs :: "Bit32u \<Rightarrow> Bit16u \<Rightarrow> Bit64u \<Rightarrow> Bit64u" where
  "put_EipCs eip cs u = (u AND 0xffff000000000000) OR ucast eip OR push_bit 32 (ucast cs)"

subsection \<open>Loading the context\<close>

text \<open>What \<open>set_context\<close> changes: the CPU and the counter that ages the instruction cache.\<close>

record hv_state =
  hv_cpu :: BX_CPU_C
  hv_switches :: Bit64u

definition SET_SEGMENT_FULL :: "whv_segment \<Rightarrow> bx_segment_reg_t \<Rightarrow> bx_segment_reg_t" where
  "SET_SEGMENT_FULL s bochs_seg =
     fst (set_segment_ar_data bochs_seg (Segment_Present s) (Selector s) (Base s) (Limit s) (Attributes s))"

definition SET_FP_REG :: "whv_fp \<Rightarrow> floatx80" where
  "SET_FP_REG f = \<lparr>fraction = Mantissa f, exp_fp = ucast (BiasedExponent f) OR push_bit 15 (ucast (Sign f))\<rparr>"

definition load_gprs :: "whvp_context \<Rightarrow> BX_CPU_C \<Rightarrow> BX_CPU_C" where
  "load_gprs ctx cpu = cpu\<lparr>
     gen_reg := (\<lambda>i. if i < 16 then c_gpr ctx i else if i = BX_64BIT_REG_RIP then c_rip ctx else gen_reg cpu i),
     prev_rsp := c_gpr ctx BX_64BIT_REG_RSP, prev_rip := c_rip ctx\<rparr>"

definition load_segments :: "whvp_context \<Rightarrow> BX_CPU_C \<Rightarrow> BX_CPU_C" where
  "load_segments ctx cpu = cpu\<lparr>
     sregs := (\<lambda>i. if i < 6 then SET_SEGMENT_FULL (c_sregs ctx i) (sregs cpu i) else sregs cpu i),
     ldtr := SET_SEGMENT_FULL (c_ldtr ctx) (ldtr cpu), tr := SET_SEGMENT_FULL (c_tr ctx) (tr cpu),
     idtr := \<lparr>base_gs = Table_Base (c_idtr ctx), limit_gs = Table_Limit (c_idtr ctx)\<rparr>,
     gdtr := \<lparr>base_gs = Table_Base (c_gdtr ctx), limit_gs = Table_Limit (c_gdtr ctx)\<rparr>\<rparr>"

text \<open>The control registers before the task priority, and the debug registers and XCR0 after it.\<close>

definition load_crs :: "whvp_crs \<Rightarrow> BX_CPU_C \<Rightarrow> BX_CPU_C" where
  "load_crs c cpu =
     (let cpu1 = cpu\<lparr>crs := (cr0_set32 (low32 (c_cr0 c)) (crs cpu))\<lparr>
                       cr2 := c_cr2 c, cr3 := c_cr3 c, cr4 := low32 (c_cr4 c)\<rparr>\<rparr>;
          cpu2 = set_tpr (ucast (push_bit 4 (low32 (c_cr8 c) AND 0xf))) cpu1
      in cpu2\<lparr>crs := (crs cpu2)\<lparr>
           dr := (\<lambda>i. if i < 4 then c_dr c i else dr (crs cpu2) i),
           dr6 := low32 (c_dr6 c), dr7 := low32 (c_dr7 c), xcr0 := low32 (c_xcr0 c)\<rparr>\<rparr>)"

definition load_fpu :: "whvp_context \<Rightarrow> BX_CPU_C \<Rightarrow> BX_CPU_C" where
  "load_fpu ctx cpu =
     (let fc = c_fp_control ctx; xc = c_xmm_control ctx;
          f1 = (the_i387 cpu)\<lparr>
            st_space := (\<lambda>i. if i < 8 then SET_FP_REG (c_st ctx i) else st_space (the_i387 cpu) i),
            cwd := FpControl fc, swd := FpStatus fc, twd := ucast (FpTag fc), foo := LastFpOp fc\<rparr>;
          f2 = (if get_LMA (crs cpu) then f1\<lparr>fip := LastFpRip fc\<rparr>
                else f1\<lparr>fip := ucast (LastFpEip (LastFpRip fc)), fcs := LastFpCs (LastFpRip fc)\<rparr>);
          f3 = (if get_LMA (crs cpu) then f2\<lparr>fdp := LastFpRdp xc\<rparr>
                else f2\<lparr>fdp := ucast (LastFpEip (LastFpRdp xc)), fds := LastFpCs (LastFpRdp xc)\<rparr>)
      in cpu\<lparr>vmm := (\<lambda>i. if i < 16 then c_xmm ctx i else vmm cpu i), the_i387 := f3,
             mxcsr := XmmStatusControl xc, mxcsr_mask := XmmStatusControlMask xc\<rparr>)"

definition load_msrs :: "Bit64u \<Rightarrow> whvp_msrs \<Rightarrow> BX_CPU_C \<Rightarrow> BX_CPU_C" where
  "load_msrs time_ticks c cpu =
     (let cpu1 = set_TSC time_ticks (c_tsc c) cpu
      in cpu1\<lparr>crs := (crs cpu1)\<lparr>efer := low32 (c_efer c)\<rparr>,
              msr := \<lparr>apicbase = c_apic_base c, pat = c_pat c, star = c_star c, lstar = c_lstar c, cstar = c_cstar c,
                      fmask = low32 (c_sfmask c), kernelgsbase = c_kernel_gs_base c, tsc_aux = low32 (c_tsc_aux c),
                      sysenter_cs_msr = low32 (c_sysenter_cs c), sysenter_esp_msr = c_sysenter_esp c,
                      sysenter_eip_msr = c_sysenter_eip c\<rparr>\<rparr>)"

definition refresh_modes :: "BX_CPU_C \<Rightarrow> BX_CPU_C" where
  "refresh_modes cpu =
     handleAvxModeChange (handleSseModeChange (handleCpuModeChange (handleAlignmentCheck (TLB_flush cpu))))"

definition load_context :: "Bit64u \<Rightarrow> whvp_context \<Rightarrow> BX_CPU_C \<Rightarrow> BX_CPU_C" where
  "load_context time_ticks ctx cpu =
     load_msrs time_ticks (c_msrs ctx) (load_fpu ctx (load_crs (c_crs ctx) (load_segments ctx
       (setEFlags (low32 (c_rflags ctx)) (load_gprs ctx cpu)))))"

definition set_context :: "Bit64u \<Rightarrow> whvp_context \<Rightarrow> hv_state \<Rightarrow> hv_state" where
  "set_context time_ticks ctx st =
     \<lparr>hv_cpu = refresh_modes (load_context time_ticks ctx (hv_cpu st)), hv_switches = hv_switches st + 1\<rparr>"

subsection \<open>Reading the context\<close>

definition GET_SEGMENT_FULL :: "bx_segment_reg_t \<Rightarrow> whv_segment" where
  "GET_SEGMENT_FULL bochs_seg = \<lparr>
     Base = base (cache bochs_seg), Limit = limit_scaled (cache bochs_seg),
     Selector = value_sel (selector bochs_seg),
     Attributes = ucast (drop_bit 8 (get_descriptor_h (cache bochs_seg)) AND 0xffff)\<rparr>"

definition FPU_read_regi :: "i387_t \<Rightarrow> nat \<Rightarrow> floatx80" where
  "FPU_read_regi f stnr = st_space f ((unat (tos f) + stnr) mod 8)"

definition get_status_word :: "i387_t \<Rightarrow> Bit16u" where
  "get_status_word f = (swd f AND NOT 0x3800 AND 0xFFFF) OR (push_bit 11 (ucast (tos f)) AND 0x3800)"

definition GET_FP_REG :: "floatx80 \<Rightarrow> whv_fp" where
  "GET_FP_REG r = \<lparr>Mantissa = fraction r, BiasedExponent = ucast (exp_fp r AND 0x7fff),
     Sign = ucast (drop_bit 15 (exp_fp r) AND 1)\<rparr>"

definition get_fp_control :: "BX_CPU_C \<Rightarrow> whv_fp_control \<Rightarrow> whv_fp_control" where
  "get_fp_control cpu old =
     (let f = the_i387 cpu
      in \<lparr>FpControl = cwd f, FpStatus = get_status_word f, FpTag = ucast (twd f), LastFpOp = foo f,
          LastFpRip = (if get_LMA (crs cpu) then fip f else put_EipCs (ucast (fip f)) (fcs f) (LastFpRip old))\<rparr>)"

definition get_xmm_control :: "BX_CPU_C \<Rightarrow> whv_xmm_control \<Rightarrow> whv_xmm_control" where
  "get_xmm_control cpu old =
     (let f = the_i387 cpu
      in \<lparr>LastFpRdp = (if get_LMA (crs cpu) then fdp f else put_EipCs (ucast (fdp f)) (fds f) (LastFpRdp old)),
          XmmStatusControl = mxcsr cpu, XmmStatusControlMask = mxcsr_mask cpu\<rparr>)"

text \<open>The register state is read, and EFLAGS are forced into \<open>eflags\<close> as a side effect.\<close>

definition get_context :: "Bit64u \<Rightarrow> whvp_context \<Rightarrow> BX_CPU_C \<Rightarrow> whvp_context \<times> BX_CPU_C" where
  "get_context time_ticks old cpu =
     (let (cpu1, fl) = read_eflags cpu
      in (\<lparr>c_gpr = (\<lambda>i. if i < 16 then gen_reg cpu i else c_gpr old i),
           c_rip = gen_reg cpu BX_64BIT_REG_RIP,
           c_rflags = ucast fl,
           c_sregs = (\<lambda>i. if i < 6 then GET_SEGMENT_FULL (sregs cpu1 i) else c_sregs old i),
           c_ldtr = GET_SEGMENT_FULL (ldtr cpu1), c_tr = GET_SEGMENT_FULL (tr cpu1),
           c_idtr = \<lparr>Table_Base = base_gs (idtr cpu1), Table_Limit = limit_gs (idtr cpu1)\<rparr>,
           c_gdtr = \<lparr>Table_Base = base_gs (gdtr cpu1), Table_Limit = limit_gs (gdtr cpu1)\<rparr>,
           c_crs = \<lparr>c_cr0 = ucast (cr0 (crs cpu1)), c_cr2 = cr2 (crs cpu1), c_cr3 = cr3 (crs cpu1),
                    c_cr4 = ucast (cr4 (crs cpu1)), c_cr8 = ucast (get_cr8 cpu1),
                    c_dr = (\<lambda>i. if i < 4 then dr (crs cpu1) i else c_dr (c_crs old) i),
                    c_dr6 = ucast (dr6 (crs cpu1)), c_dr7 = ucast (dr7 (crs cpu1)), c_xcr0 = ucast (xcr0 (crs cpu1))\<rparr>,
           c_xmm = (\<lambda>i. if i < 16 then vmm cpu1 i else c_xmm old i),
           c_st = (\<lambda>i. if i < 8 then GET_FP_REG (FPU_read_regi (the_i387 cpu1) i) else c_st old i),
           c_fp_control = get_fp_control cpu1 (c_fp_control old),
           c_xmm_control = get_xmm_control cpu1 (c_xmm_control old),
           c_msrs = \<lparr>c_tsc = get_TSC time_ticks cpu1, c_efer = ucast (efer (crs cpu1)),
                     c_kernel_gs_base = kernelgsbase (msr cpu1), c_apic_base = apicbase (msr cpu1), c_pat = pat (msr cpu1),
                     c_sysenter_cs = ucast (sysenter_cs_msr (msr cpu1)), c_sysenter_eip = sysenter_eip_msr (msr cpu1),
                     c_sysenter_esp = sysenter_esp_msr (msr cpu1), c_star = star (msr cpu1), c_lstar = lstar (msr cpu1),
                     c_cstar = cstar (msr cpu1), c_sfmask = ucast (fmask (msr cpu1)), c_tsc_aux = ucast (tsc_aux (msr cpu1))\<rparr>\<rparr>,
          cpu1))"

end
