(* ===== verification/HvProps.thy ===== *)
theory HvProps
  imports HvContext
begin

text \<open>
  What a context switch does to the emulated CPU: the registers the hypervisor hands over are
  the registers it gets back, the derived state follows the new registers, and every cache
  of translated state is dropped.
\<close>

subsection \<open>Frames\<close>

lemmas mode_defs = updateFetchModeMask_def handleAlignmentCheck_def handleSseModeChange_def handleAvxModeChange_def
  set_PKRU_def handleCpuModeChange_def BX_CLEAR_64BIT_HIGH_def invalidate_stack_cache_def invalidate_prefetch_q_def
  TLB_flush_def

lemma handleCpuModeChange_keeps:
  "prev_rip (handleCpuModeChange cpu) = prev_rip cpu" "prev_rsp (handleCpuModeChange cpu) = prev_rsp cpu"
  "gdtr (handleCpuModeChange cpu) = gdtr cpu" "idtr (handleCpuModeChange cpu) = idtr cpu"
  "ldtr (handleCpuModeChange cpu) = ldtr cpu" "tr (handleCpuModeChange cpu) = tr cpu"
  "msr (handleCpuModeChange cpu) = msr cpu" "the_i387 (handleCpuModeChange cpu) = the_i387 cpu"
  "vmm (handleCpuModeChange cpu) = vmm cpu" "mxcsr (handleCpuModeChange cpu) = mxcsr cpu"
  "mxcsr_mask (handleCpuModeChange cpu) = mxcsr_mask cpu" "lapic (handleCpuModeChange cpu) = lapic cpu"
  "guest (handleCpuModeChange cpu) = guest cpu" "tsc_last_reset (handleCpuModeChange cpu) = tsc_last_reset cpu"
  "tsc_offset (handleCpuModeChange cpu) = tsc_offset cpu" "tlb (handleCpuModeChange cpu) = tlb cpu"
  "cpu_eipPageWindowSize (handleCpuModeChange cpu) = cpu_eipPageWindowSize cpu"
  "cpu_iCache (handleCpuModeChange cpu) = cpu_iCache cpu"
  by (simp_all add: mode_defs Let_def)

lemma handleCpuModeChange_gen_reg:
  "gen_reg (handleCpuModeChange cpu) i =
     (if get_LMA (crs cpu) \<and> l (cs_cache cpu) = 0 \<and> (i = 4 \<or> i = 16) then gen_reg cpu i AND 0xffffffff else gen_reg cpu i)"
  by (auto simp: mode_defs Let_def)

lemma handleCpuModeChange_sregs:
  "sregs (handleCpuModeChange cpu) i =
     (if i = 1 \<and> \<not> get_LMA (crs cpu) then
        (if get_PE (crs cpu)
         then (if get_VM cpu then (sregs cpu 1)\<lparr>selector := (selector (sregs cpu 1))\<lparr>rpl := 3\<rparr>\<rparr> else sregs cpu 1)
         else (sregs cpu 1)\<lparr>cache := (cs_cache cpu)\<lparr>p := 1, segment := 1, type_d := 3\<rparr>,
                            selector := (selector (sregs cpu 1))\<lparr>rpl := 0\<rparr>\<rparr>)
      else sregs cpu i)"
  by (auto simp: mode_defs Let_def)

text \<open>What \<open>setEFlags\<close> can change before the mode handlers run.\<close>

lemma mask_change_events: "\<exists>ev. handleInterruptMaskChange cpu = cpu\<lparr>events := ev\<rparr>"
  unfolding handleInterruptMaskChange_def Let_def by blast

lemma setEFlags_steps:
  obtains w ev m ef os where
    "setEFlags f cpu = handleCpuModeChange (cpu\<lparr>eflags := ef, oszapc := os, cpu_eipPageWindowSize := w, events := ev, modes := m\<rparr>) \<or>
     setEFlags f cpu = cpu\<lparr>eflags := ef, oszapc := os, cpu_eipPageWindowSize := w, events := ev, modes := m\<rparr>"
proof -
  let ?f = "if long_mode cpu then f AND NOT EFlagsVMMask else f"
  define c1 where "c1 = cpu\<lparr>eflags := ?f, oszapc := setEFlagsOSZAPC ?f (oszapc cpu)\<rparr>"
  define c2 where "c2 = (if get_RF c1 then invalidate_prefetch_q c1 else c1)"
  define c3 where "c3 = (if get_TF c2 then c2\<lparr>events := (events c2)\<lparr>async_event := 1\<rparr>\<rparr> else c2)"
  define c4 where "c4 = (if (eflags cpu XOR ?f) AND EFlagsIFMask \<noteq> 0 then handleInterruptMaskChange c3 else c3)"
  have s: "setEFlags f cpu = handleCpuModeChange (handleAlignmentCheck c4) \<or> setEFlags f cpu = handleAlignmentCheck c4"
    unfolding setEFlags_def Let_def c4_def c3_def c2_def c1_def by argo
  obtain w where c2: "c2 = c1\<lparr>cpu_eipPageWindowSize := w\<rparr>"
    by (cases "get_RF c1") (auto simp: c2_def invalidate_prefetch_q_def intro: that [of "cpu_eipPageWindowSize c1"])
  obtain ev where c3: "c3 = c2\<lparr>events := ev\<rparr>" by (cases "get_TF c2") (auto simp: c3_def intro: that [of "events c2"])
  obtain ev' where c4: "c4 = c3\<lparr>events := ev'\<rparr>"
    using mask_change_events [of c3] by (cases "(eflags cpu XOR ?f) AND EFlagsIFMask \<noteq> 0") (auto simp: c4_def intro: that [of "events c3"])
  obtain m where "handleAlignmentCheck c4 = c4\<lparr>modes := m\<rparr>" using modes_only(2) by blast
  then have "handleAlignmentCheck c4 = cpu\<lparr>eflags := ?f, oszapc := setEFlagsOSZAPC ?f (oszapc cpu), cpu_eipPageWindowSize := w, events := ev', modes := m\<rparr>"
    using c4 c3 c2 by (simp add: c1_def)
  with s show ?thesis by (intro that) simp
qed

lemma setEFlags_keeps:
  "prev_rip (setEFlags f cpu) = prev_rip cpu" "prev_rsp (setEFlags f cpu) = prev_rsp cpu"
  "msr (setEFlags f cpu) = msr cpu" "the_i387 (setEFlags f cpu) = the_i387 cpu"
  "vmm (setEFlags f cpu) = vmm cpu" "mxcsr (setEFlags f cpu) = mxcsr cpu"
  "mxcsr_mask (setEFlags f cpu) = mxcsr_mask cpu" "lapic (setEFlags f cpu) = lapic cpu"
  "guest (setEFlags f cpu) = guest cpu" "tsc_last_reset (setEFlags f cpu) = tsc_last_reset cpu"
  "tsc_offset (setEFlags f cpu) = tsc_offset cpu" "tlb (setEFlags f cpu) = tlb cpu"
  "cpu_iCache (setEFlags f cpu) = cpu_iCache cpu"
  by (rule setEFlags_steps [of f cpu], auto simp: handleCpuModeChange_keeps)+

lemma setEFlags_gen_reg:
  "\<not> (long_mode cpu \<and> get_VM cpu) \<Longrightarrow> gen_reg (setEFlags f cpu) = gen_reg cpu"
proof -
  assume vm: "\<not> (long_mode cpu \<and> get_VM cpu)"
  have "(eflags cpu XOR (f AND NOT 0x20000)) AND 0x20000 = 0" if "long_mode cpu"
  proof -
    have v: "(0x20000 :: Bit32u) = push_bit 17 1" by simp
    have "\<not> bit (eflags cpu) 17" using vm that by simp
    then show ?thesis unfolding v by (intro bit_word_eqI) (auto simp: bit_simps bit_1_iff simp del: push_bit_of_1)
  qed
  then show ?thesis
    by (auto simp: setEFlags_def Let_def handleCpuModeChange_gen_reg handleAlignmentCheck_def mode_frames
      handleInterruptMaskChange_def invalidate_prefetch_q_def long_mode_def fun_eq_iff)
qed

lemma set_tpr_keeps:
  "set_tpr v cpu = cpu\<lparr>lapic := (lapic cpu)\<lparr>task_priority := ucast v\<rparr>, events := events (set_tpr v cpu)\<rparr>"
  by (simp add: set_tpr_def service_local_apic_def Let_def split: option.split)

subsection \<open>The loaded registers\<close>

lemma set_tpr_frame [simp]:
  "gen_reg (set_tpr v cpu) = gen_reg cpu" "eflags (set_tpr v cpu) = eflags cpu" "oszapc (set_tpr v cpu) = oszapc cpu"
  "prev_rip (set_tpr v cpu) = prev_rip cpu" "prev_rsp (set_tpr v cpu) = prev_rsp cpu"
  "sregs (set_tpr v cpu) = sregs cpu" "gdtr (set_tpr v cpu) = gdtr cpu" "idtr (set_tpr v cpu) = idtr cpu"
  "ldtr (set_tpr v cpu) = ldtr cpu" "tr (set_tpr v cpu) = tr cpu" "crs (set_tpr v cpu) = crs cpu"
  "msr (set_tpr v cpu) = msr cpu" "the_i387 (set_tpr v cpu) = the_i387 cpu" "guest (set_tpr v cpu) = guest cpu"
  "lapic (set_tpr v cpu) = (lapic cpu)\<lparr>task_priority := ucast v\<rparr>" "vmm (set_tpr v cpu) = vmm cpu"
  "tsc_last_reset (set_tpr v cpu) = tsc_last_reset cpu" "tsc_offset (set_tpr v cpu) = tsc_offset cpu"
  "tlb (set_tpr v cpu) = tlb cpu" "modes (set_tpr v cpu) = modes cpu" "cpu_iCache (set_tpr v cpu) = cpu_iCache cpu"
  by (subst set_tpr_keeps, simp)+

lemmas load_defs = load_gprs_def load_segments_def load_crs_def load_fpu_def load_msrs_def set_TSC_def cr0_set32_def

lemma long_mode_load_gprs [simp]: "long_mode (load_gprs ctx cpu) = long_mode cpu"
  by (simp add: long_mode_def load_gprs_def)

lemma load_context_regs:
  "prev_rip (load_context t ctx cpu) = c_rip ctx" "prev_rsp (load_context t ctx cpu) = c_gpr ctx 4"
  "gdtr (load_context t ctx cpu) = \<lparr>base_gs = Table_Base (c_gdtr ctx), limit_gs = Table_Limit (c_gdtr ctx)\<rparr>"
  "idtr (load_context t ctx cpu) = \<lparr>base_gs = Table_Base (c_idtr ctx), limit_gs = Table_Limit (c_idtr ctx)\<rparr>"
  "i < 16 \<Longrightarrow> vmm (load_context t ctx cpu) i = c_xmm ctx i"
  "mxcsr (load_context t ctx cpu) = XmmStatusControl (c_xmm_control ctx)"
  "mxcsr_mask (load_context t ctx cpu) = XmmStatusControlMask (c_xmm_control ctx)"
  "guest (load_context t ctx cpu) = guest cpu" "tsc_offset (load_context t ctx cpu) = tsc_offset cpu"
  "tsc_last_reset (load_context t ctx cpu) = t - c_tsc (c_msrs ctx)"
  "task_priority (lapic (load_context t ctx cpu)) = ucast (ucast (push_bit 4 (low32 (c_cr8 (c_crs ctx)) AND 0xf)) :: Bit8u)"
  by (simp_all add: load_context_def load_defs Let_def setEFlags_keeps)

lemma load_context_msr:
  "msr (load_context t ctx cpu) = \<lparr>apicbase = c_apic_base (c_msrs ctx), pat = c_pat (c_msrs ctx), star = c_star (c_msrs ctx),
     lstar = c_lstar (c_msrs ctx), cstar = c_cstar (c_msrs ctx), fmask = low32 (c_sfmask (c_msrs ctx)),
     kernelgsbase = c_kernel_gs_base (c_msrs ctx), tsc_aux = low32 (c_tsc_aux (c_msrs ctx)),
     sysenter_cs_msr = low32 (c_sysenter_cs (c_msrs ctx)), sysenter_esp_msr = c_sysenter_esp (c_msrs ctx),
     sysenter_eip_msr = c_sysenter_eip (c_msrs ctx)\<rparr>"
  by (simp add: load_context_def load_msrs_def Let_def)

lemma load_context_crs:
  "cr0 (crs (load_context t ctx cpu)) = low32 (c_cr0 (c_crs ctx)) OR 0x10"
  "cr2 (crs (load_context t ctx cpu)) = c_cr2 (c_crs ctx)" "cr3 (crs (load_context t ctx cpu)) = c_cr3 (c_crs ctx)"
  "cr4 (crs (load_context t ctx cpu)) = low32 (c_cr4 (c_crs ctx))" "efer (crs (load_context t ctx cpu)) = low32 (c_efer (c_msrs ctx))"
  "xcr0 (crs (load_context t ctx cpu)) = low32 (c_xcr0 (c_crs ctx))"
  "i < 4 \<Longrightarrow> dr (crs (load_context t ctx cpu)) i = c_dr (c_crs ctx) i"
  "dr6 (crs (load_context t ctx cpu)) = low32 (c_dr6 (c_crs ctx))" "dr7 (crs (load_context t ctx cpu)) = low32 (c_dr7 (c_crs ctx))"
  by (simp_all add: load_context_def load_defs Let_def)

lemma load_context_flags:
  "eflags (load_context t ctx cpu) = (if long_mode cpu then low32 (c_rflags ctx) AND NOT 0x20000 else low32 (c_rflags ctx))"
  "oszapc (load_context t ctx cpu) = setEFlagsOSZAPC
     (if long_mode cpu then low32 (c_rflags ctx) AND NOT 0x20000 else low32 (c_rflags ctx)) (oszapc cpu)"
proof -
  have o: "oszapc (load_gprs ctx cpu) = oszapc cpu" by (simp add: load_gprs_def)
  have "eflags (load_context t ctx cpu) = eflags (setEFlags (low32 (c_rflags ctx)) (load_gprs ctx cpu))"
    "oszapc (load_context t ctx cpu) = oszapc (setEFlags (low32 (c_rflags ctx)) (load_gprs ctx cpu))"
    by (simp_all add: load_context_def load_msrs_def load_fpu_def load_crs_def load_segments_def set_TSC_def Let_def)
  then show "eflags (load_context t ctx cpu) = (if long_mode cpu then low32 (c_rflags ctx) AND NOT 0x20000 else low32 (c_rflags ctx))"
    "oszapc (load_context t ctx cpu) = setEFlagsOSZAPC
     (if long_mode cpu then low32 (c_rflags ctx) AND NOT 0x20000 else low32 (c_rflags ctx)) (oszapc cpu)"
    by (simp_all only: setEFlags_state long_mode_load_gprs o)
qed

lemma load_context_gen_reg:
  assumes "\<not> (long_mode cpu \<and> get_VM cpu)"
  shows "gen_reg (load_context t ctx cpu) i = (if i < 16 then c_gpr ctx i else if i = 16 then c_rip ctx else gen_reg cpu i)"
proof -
  have "gen_reg (load_context t ctx cpu) = gen_reg (setEFlags (low32 (c_rflags ctx)) (load_gprs ctx cpu))"
    by (simp add: load_context_def load_msrs_def load_fpu_def load_crs_def load_segments_def set_TSC_def Let_def)
  also have "\<dots> = gen_reg (load_gprs ctx cpu)"
    using assms by (intro setEFlags_gen_reg) (simp add: load_gprs_def long_mode_def)
  finally show ?thesis by (simp add: load_gprs_def)
qed

lemma load_context_segments:
  "\<exists>s. i < 6 \<longrightarrow> sregs (load_context t ctx cpu) i = SET_SEGMENT_FULL (c_sregs ctx i) s"
  "\<exists>s. ldtr (load_context t ctx cpu) = SET_SEGMENT_FULL (c_ldtr ctx) s"
  "\<exists>s. tr (load_context t ctx cpu) = SET_SEGMENT_FULL (c_tr ctx) s"
  by (auto simp: load_context_def load_msrs_def load_fpu_def load_crs_def load_segments_def set_TSC_def Let_def)

lemma load_context_fpu:
  "tos (the_i387 (load_context t ctx cpu)) = tos (the_i387 cpu)"
  "i < 8 \<Longrightarrow> st_space (the_i387 (load_context t ctx cpu)) i = SET_FP_REG (c_st ctx i)"
  "cwd (the_i387 (load_context t ctx cpu)) = FpControl (c_fp_control ctx)"
  "swd (the_i387 (load_context t ctx cpu)) = FpStatus (c_fp_control ctx)"
  "twd (the_i387 (load_context t ctx cpu)) = ucast (FpTag (c_fp_control ctx))"
  "foo (the_i387 (load_context t ctx cpu)) = LastFpOp (c_fp_control ctx)"
  by (simp_all add: load_context_def load_msrs_def load_fpu_def load_crs_def load_segments_def set_TSC_def Let_def
      setEFlags_keeps load_gprs_def)

subsection \<open>The refresh\<close>

lemma refresh_keeps:
  "prev_rip (refresh_modes cpu) = prev_rip cpu" "prev_rsp (refresh_modes cpu) = prev_rsp cpu"
  "gdtr (refresh_modes cpu) = gdtr cpu" "idtr (refresh_modes cpu) = idtr cpu"
  "ldtr (refresh_modes cpu) = ldtr cpu" "tr (refresh_modes cpu) = tr cpu"
  "msr (refresh_modes cpu) = msr cpu" "the_i387 (refresh_modes cpu) = the_i387 cpu"
  "vmm (refresh_modes cpu) = vmm cpu" "mxcsr (refresh_modes cpu) = mxcsr cpu"
  "mxcsr_mask (refresh_modes cpu) = mxcsr_mask cpu" "lapic (refresh_modes cpu) = lapic cpu"
  "guest (refresh_modes cpu) = guest cpu" "tsc_last_reset (refresh_modes cpu) = tsc_last_reset cpu"
  "tsc_offset (refresh_modes cpu) = tsc_offset cpu" "crs (refresh_modes cpu) = crs cpu"
  "eflags (refresh_modes cpu) = eflags cpu" "oszapc (refresh_modes cpu) = oszapc cpu" "events (refresh_modes cpu) = events cpu"
  by (simp_all add: refresh_modes_def handleCpuModeChange_keeps handleCpuModeChange_frame handleAvxModeChange_def
      handleSseModeChange_def updateFetchModeMask_def handleAlignmentCheck_def TLB_flush_def Let_def
      invalidate_stack_cache_def invalidate_prefetch_q_def)

lemma refresh_gen_reg:
  "gen_reg (refresh_modes cpu) i =
     (if get_LMA (crs cpu) \<and> l (cs_cache cpu) = 0 \<and> (i = 4 \<or> i = 16) then gen_reg cpu i AND 0xffffffff else gen_reg cpu i)"
  by (auto simp: refresh_modes_def handleCpuModeChange_gen_reg handleAvxModeChange_def
      handleSseModeChange_def updateFetchModeMask_def handleAlignmentCheck_def TLB_flush_def Let_def
      invalidate_stack_cache_def invalidate_prefetch_q_def)

lemma refresh_sregs:
  "sregs (refresh_modes cpu) i =
     (if i = 1 \<and> \<not> get_LMA (crs cpu) then
        (if get_PE (crs cpu)
         then (if get_VM cpu then (sregs cpu 1)\<lparr>selector := (selector (sregs cpu 1))\<lparr>rpl := 3\<rparr>\<rparr> else sregs cpu 1)
         else (sregs cpu 1)\<lparr>cache := (cs_cache cpu)\<lparr>p := 1, segment := 1, type_d := 3\<rparr>,
                            selector := (selector (sregs cpu 1))\<lparr>rpl := 0\<rparr>\<rparr>)
      else sregs cpu i)"
  by (simp add: refresh_modes_def handleCpuModeChange_sregs handleAvxModeChange_def
      handleSseModeChange_def updateFetchModeMask_def handleAlignmentCheck_def TLB_flush_def Let_def
      invalidate_stack_cache_def invalidate_prefetch_q_def)

subsection \<open>Round trip\<close>

text \<open>What the hypervisor reads back after handing over a context, without a step in between.\<close>

definition switch_roundtrip :: "Bit64u \<Rightarrow> whvp_context \<Rightarrow> whvp_context \<Rightarrow> hv_state \<Rightarrow> whvp_context" where
  "switch_roundtrip t old ctx st = fst (get_context t old (hv_cpu (set_context t ctx st)))"

text \<open>EFER.LMA is set and the code segment is not a 64 bit one.\<close>

definition compat_ctx :: "whvp_context \<Rightarrow> bool" where
  "compat_ctx ctx \<longleftrightarrow> bit (c_efer (c_msrs ctx)) 10 \<and> \<not> bit (Attributes (c_sregs ctx 1)) 13"

lemma get_context_sel:
  fixes cpu :: BX_CPU_C and t :: Bit64u and old :: whvp_context
  defines "r \<equiv> fst (get_context t old cpu)"
  shows "i < 16 \<Longrightarrow> c_gpr r i = gen_reg cpu i" "c_rip r = gen_reg cpu 16" "c_rflags r = ucast (snd (read_eflags cpu))"
    "i < 6 \<Longrightarrow> c_sregs r i = GET_SEGMENT_FULL (sregs cpu i)" "c_ldtr r = GET_SEGMENT_FULL (ldtr cpu)"
    "c_tr r = GET_SEGMENT_FULL (tr cpu)"
    "c_idtr r = \<lparr>Table_Base = base_gs (idtr cpu), Table_Limit = limit_gs (idtr cpu)\<rparr>"
    "c_gdtr r = \<lparr>Table_Base = base_gs (gdtr cpu), Table_Limit = limit_gs (gdtr cpu)\<rparr>"
    "i < 16 \<Longrightarrow> c_xmm r i = vmm cpu i" "i < 8 \<Longrightarrow> c_st r i = GET_FP_REG (FPU_read_regi (the_i387 cpu) i)"
    "XmmStatusControl (c_xmm_control r) = mxcsr cpu" "XmmStatusControlMask (c_xmm_control r) = mxcsr_mask cpu"
    "FpControl (c_fp_control r) = cwd (the_i387 cpu)" "FpStatus (c_fp_control r) = get_status_word (the_i387 cpu)"
    "FpTag (c_fp_control r) = ucast (twd (the_i387 cpu))" "LastFpOp (c_fp_control r) = foo (the_i387 cpu)"
  by (simp_all add: r_def get_context_def read_eflags_def force_flags_def Let_def get_xmm_control_def get_fp_control_def)

lemma get_context_crs:
  fixes cpu :: BX_CPU_C and t :: Bit64u and old :: whvp_context
  defines "r \<equiv> c_crs (fst (get_context t old cpu))"
  shows "c_cr0 r = ucast (cr0 (crs cpu))" "c_cr2 r = cr2 (crs cpu)" "c_cr3 r = cr3 (crs cpu)" "c_cr4 r = ucast (cr4 (crs cpu))"
    "c_cr8 r = ucast (get_cr8 cpu)" "c_dr r i = (if i < 4 then dr (crs cpu) i else c_dr (c_crs old) i)" "c_dr6 r = ucast (dr6 (crs cpu))"
    "c_dr7 r = ucast (dr7 (crs cpu))" "c_xcr0 r = ucast (xcr0 (crs cpu))"
  by (simp_all add: r_def get_context_def read_eflags_def force_flags_def Let_def get_cr8_def)

lemma get_context_msrs:
  fixes cpu :: BX_CPU_C and t :: Bit64u and old :: whvp_context
  defines "r \<equiv> c_msrs (fst (get_context t old cpu))"
  shows "c_tsc r = get_TSC t cpu" "c_efer r = ucast (efer (crs cpu))" "c_kernel_gs_base r = kernelgsbase (msr cpu)"
    "c_apic_base r = apicbase (msr cpu)" "c_pat r = pat (msr cpu)" "c_sysenter_cs r = ucast (sysenter_cs_msr (msr cpu))"
    "c_sysenter_eip r = sysenter_eip_msr (msr cpu)" "c_sysenter_esp r = sysenter_esp_msr (msr cpu)" "c_star r = star (msr cpu)"
    "c_lstar r = lstar (msr cpu)" "c_cstar r = cstar (msr cpu)" "c_sfmask r = ucast (fmask (msr cpu))"
    "c_tsc_aux r = ucast (tsc_aux (msr cpu))"
  by (simp_all add: r_def get_context_def read_eflags_def force_flags_def Let_def get_TSC_def)

lemma cs_long_bit:
  assumes "bit (Attributes (c_sregs ctx 1)) 4"
  shows "l (cs_cache (load_context t ctx cpu)) = b2u (bit (Attributes (c_sregs ctx 1)) 13)"
proof -
  obtain s where "sregs (load_context t ctx cpu) 1 = SET_SEGMENT_FULL (c_sregs ctx 1) s"
    using load_context_segments(1) [of 1 t ctx cpu] by (auto simp del: One_nat_def)
  then show ?thesis
    using assms set_segment_cache(10) [of "Segment_Present (c_sregs ctx 1)" "Attributes (c_sregs ctx 1)"]
    by (simp add: SET_SEGMENT_FULL_def seg_loadable_def del: One_nat_def)
qed

lemma cr8_roundtrip:
  assumes "task_priority (lapic cpu) = ucast (ucast (push_bit 4 (low32 v AND 0xf)) :: Bit8u)"
  shows "(ucast (get_cr8 cpu) :: Bit64u) = v AND 0xf"
  by (rule bit_word_eqI) (auto simp: get_cr8_def assms bit_simps bit_mask_literals bit_240)

lemmas switch_simps = set_context_def refresh_keeps load_context_regs load_context_crs load_context_msr

text \<open>
  C8: the context switch round trip, registers. The hypervisor reads back exactly the general registers,
  instruction pointer, descriptor tables, control, debug and extended control registers, XMM
  state, MSRs and (outside nested guests) time-stamp counter it handed over; the differences are
  the ones the hardware makes (CR0.ET reads as one, 32 bit registers, the four bits of CR8,
  RIP and RSP cut to 32 bits in compatibility mode) and one the code makes:
  RFLAGS.VM is dropped when the context before the switch was in long mode.
\<close>

theorem switch_roundtrip_registers:
  assumes vm: "\<not> (long_mode (hv_cpu st) \<and> get_VM (hv_cpu st))"
    and cs: "bit (Attributes (c_sregs ctx 1)) 4"
    and tsc: "\<not> in_vmx_guest (guest (hv_cpu st))" "tsc_offset (hv_cpu st) = 0"
  shows "(\<forall>i < 16. c_gpr (switch_roundtrip t old ctx st) i =
             (if compat_ctx ctx \<and> i = 4 then c_gpr ctx 4 AND 0xffffffff else c_gpr ctx i)) \<and>
         c_rip (switch_roundtrip t old ctx st) = (if compat_ctx ctx then c_rip ctx AND 0xffffffff else c_rip ctx) \<and>
         c_rflags (switch_roundtrip t old ctx st) =
             ucast (if long_mode (hv_cpu st) then low32 (c_rflags ctx) AND NOT 0x20000 else low32 (c_rflags ctx)) \<and>
         c_idtr (switch_roundtrip t old ctx st) = c_idtr ctx \<and> c_gdtr (switch_roundtrip t old ctx st) = c_gdtr ctx \<and>
         (\<forall>i < 16. c_xmm (switch_roundtrip t old ctx st) i = c_xmm ctx i) \<and>
         c_crs (switch_roundtrip t old ctx st) = (c_crs ctx)\<lparr>
             c_cr0 := ucast (low32 (c_cr0 (c_crs ctx)) OR 0x10), c_cr4 := ucast (low32 (c_cr4 (c_crs ctx))),
             c_cr8 := c_cr8 (c_crs ctx) AND 0xf, c_dr := (\<lambda>i. if i < 4 then c_dr (c_crs ctx) i else c_dr (c_crs old) i),
             c_dr6 := ucast (low32 (c_dr6 (c_crs ctx))), c_dr7 := ucast (low32 (c_dr7 (c_crs ctx))),
             c_xcr0 := ucast (low32 (c_xcr0 (c_crs ctx)))\<rparr> \<and>
         c_msrs (switch_roundtrip t old ctx st) = (c_msrs ctx)\<lparr>
             c_efer := ucast (low32 (c_efer (c_msrs ctx))), c_sysenter_cs := ucast (low32 (c_sysenter_cs (c_msrs ctx))),
             c_sfmask := ucast (low32 (c_sfmask (c_msrs ctx))), c_tsc_aux := ucast (low32 (c_tsc_aux (c_msrs ctx)))\<rparr>"
proof -
  let ?cpu = "refresh_modes (load_context t ctx (hv_cpu st))" and ?r = "switch_roundtrip t old ctx st"
  have r: "?r = fst (get_context t old ?cpu)" by (simp add: switch_roundtrip_def set_context_def)
  have compat: "get_LMA (crs (load_context t ctx (hv_cpu st))) \<and> l (cs_cache (load_context t ctx (hv_cpu st))) = 0 \<longleftrightarrow> compat_ctx ctx"
    by (simp add: cs_long_bit [OF cs] load_context_crs compat_ctx_def bit_simps del: One_nat_def)
  have gr: "gen_reg ?cpu i = (if compat_ctx ctx \<and> (i = 4 \<or> i = 16) then gen_reg (load_context t ctx (hv_cpu st)) i AND 0xffffffff
      else gen_reg (load_context t ctx (hv_cpu st)) i)" for i
    unfolding refresh_gen_reg using compat by auto
  have "snd (read_eflags ?cpu) =
      (if long_mode (hv_cpu st) then low32 (c_rflags ctx) AND NOT 0x20000 else low32 (c_rflags ctx))" (is "_ = ?f")
    by (rule bit_word_eqI)
       (simp only: read_eflags_def bit_force_flags refresh_keeps load_context_flags lf_get_setEFlagsOSZAPC flag_pos.simps, simp)
  moreover have "c_crs ?r = (c_crs ctx)\<lparr>
             c_cr0 := ucast (low32 (c_cr0 (c_crs ctx)) OR 0x10), c_cr4 := ucast (low32 (c_cr4 (c_crs ctx))),
             c_cr8 := c_cr8 (c_crs ctx) AND 0xf, c_dr := (\<lambda>i. if i < 4 then c_dr (c_crs ctx) i else c_dr (c_crs old) i),
             c_dr6 := ucast (low32 (c_dr6 (c_crs ctx))), c_dr7 := ucast (low32 (c_dr7 (c_crs ctx))),
             c_xcr0 := ucast (low32 (c_xcr0 (c_crs ctx)))\<rparr>"
    unfolding r using cr8_roundtrip [of ?cpu "c_cr8 (c_crs ctx)"]
    by (intro whvp_crs.equality) (simp_all add: get_context_crs switch_simps fun_eq_iff)
  moreover have "c_msrs ?r = (c_msrs ctx)\<lparr>
             c_efer := ucast (low32 (c_efer (c_msrs ctx))), c_sysenter_cs := ucast (low32 (c_sysenter_cs (c_msrs ctx))),
             c_sfmask := ucast (low32 (c_sfmask (c_msrs ctx))), c_tsc_aux := ucast (low32 (c_tsc_aux (c_msrs ctx)))\<rparr>"
    using tsc unfolding r
    by (intro whvp_msrs.equality) (simp_all add: get_context_msrs switch_simps get_TSC_def)
  ultimately show ?thesis
    using vm by (simp add: r get_context_sel gr switch_simps load_context_gen_reg)
qed

lemma segment_roundtrip:
  assumes "seg_loadable (Segment_Present s) (Attributes s)"
  shows "Selector (GET_SEGMENT_FULL (SET_SEGMENT_FULL s g0)) = Selector s"
    "Base (GET_SEGMENT_FULL (SET_SEGMENT_FULL s g0)) = Base s" "Limit (GET_SEGMENT_FULL (SET_SEGMENT_FULL s g0)) = Limit s"
    "n < 8 \<or> 12 \<le> n \<Longrightarrow> bit (Attributes (GET_SEGMENT_FULL (SET_SEGMENT_FULL s g0))) n = bit (Attributes s) n"
proof -
  show "Selector (GET_SEGMENT_FULL (SET_SEGMENT_FULL s g0)) = Selector s"
    "Base (GET_SEGMENT_FULL (SET_SEGMENT_FULL s g0)) = Base s" "Limit (GET_SEGMENT_FULL (SET_SEGMENT_FULL s g0)) = Limit s"
    by (simp_all add: GET_SEGMENT_FULL_def SET_SEGMENT_FULL_def set_segment_selector set_segment_cache [OF assms] parse_selector_def)
  assume n: "n < 8 \<or> 12 \<le> n"
  show "bit (Attributes (GET_SEGMENT_FULL (SET_SEGMENT_FULL s g0))) n = bit (Attributes s) n"
  proof (cases "n < 16")
    case True
    from set_segment_attributes [OF assms True n] True show ?thesis
      by (simp add: GET_SEGMENT_FULL_def SET_SEGMENT_FULL_def bit_ucast_iff bit_and_iff bit_mask_literals)
  qed (use bit_imp_le_length in fastforce)
qed


subsection \<open>The x87 state\<close>

lemma bit_32767: "bit (32767 :: int) n \<longleftrightarrow> n < 15"
proof -
  have "(32767 :: int) = mask 15" by (simp add: mask_eq_exp_minus_1)
  then show ?thesis by (simp only: bit_mask_iff possible_bit_def) simp
qed

lemma fp_reg_roundtrip: "GET_FP_REG (SET_FP_REG f) = f"
proof (rule whv_fp.equality)
  show "BiasedExponent (GET_FP_REG (SET_FP_REG f)) = BiasedExponent f"
    by (rule bit_word_eqI) (auto simp: GET_FP_REG_def SET_FP_REG_def bit_simps bit_32767)
  show "Sign (GET_FP_REG (SET_FP_REG f)) = Sign f"
    by (rule bit_word_eqI) (auto simp: GET_FP_REG_def SET_FP_REG_def bit_simps bit_1_iff dest: bit_imp_le_length)
qed (simp_all add: GET_FP_REG_def SET_FP_REG_def)

text \<open>
  The context switch round trip, x87 state. Control word, opcode, the eight tag bits and the value of each
  register survive, but the registers are written by position and read back relative
  to the top of stack the CPU had before the switch, which \<open>set_context\<close> never loads: register \<open>i\<close>
  comes back as register \<open>(tos + i) mod 8\<close> and the status word comes back with the old top.
\<close>

theorem switch_roundtrip_fpu:
  assumes "i < 8"
  shows "c_st (switch_roundtrip t old ctx st) i = c_st ctx ((unat (tos (the_i387 (hv_cpu st))) + i) mod 8) \<and>
         FpControl (c_fp_control (switch_roundtrip t old ctx st)) = FpControl (c_fp_control ctx) \<and>
         FpTag (c_fp_control (switch_roundtrip t old ctx st)) = FpTag (c_fp_control ctx) \<and>
         LastFpOp (c_fp_control (switch_roundtrip t old ctx st)) = LastFpOp (c_fp_control ctx) \<and>
         FpStatus (c_fp_control (switch_roundtrip t old ctx st)) =
           (FpStatus (c_fp_control ctx) AND NOT 0x3800) OR (push_bit 11 (ucast (tos (the_i387 (hv_cpu st)))) AND 0x3800)"
proof -
  have "(NOT 0x3800 AND 0xFFFF :: Bit16u) = NOT 0x3800" by code_simp
  then have "get_status_word f = (swd f AND NOT 0x3800) OR (push_bit 11 (ucast (tos f)) AND 0x3800)" for f
    unfolding get_status_word_def by (simp only:)
  moreover have "ucast (ucast x :: Bit16u) = x" for x :: Bit8u
    by (rule bit_word_eqI) (auto simp: bit_simps)
  ultimately show ?thesis
    using assms
    by (simp add: switch_roundtrip_def set_context_def get_context_sel refresh_keeps load_context_fpu
        FPU_read_regi_def fp_reg_roundtrip)
qed

subsection \<open>Derived state\<close>

text \<open>The mode the control registers, EFLAGS.VM and the code segment define.\<close>

definition mode_of :: "bool \<Rightarrow> bool \<Rightarrow> bool \<Rightarrow> bool \<Rightarrow> BxCpuMode" where
  "mode_of lma pe vm csl =
     (if lma then (if csl then BX_MODE_LONG_64 else BX_MODE_LONG_COMPAT)
      else if pe then (if vm then BX_MODE_IA32_V8086 else BX_MODE_IA32_PROTECTED) else BX_MODE_IA32_REAL)"

text \<open>The derived state agrees with the registers it is derived from.\<close>

definition derived_ok :: "BX_CPU_C \<Rightarrow> bool" where
  "derived_ok cpu \<longleftrightarrow> (let m = modes cpu; c = crs cpu in
     cpu_mode m = mode_of (get_LMA c) (get_PE c) (get_VM cpu) (l (cs_cache cpu) \<noteq> 0) \<and>
     sse_ok m = (\<not> get_TS c \<and> \<not> get_EM c \<and> get_OSFXSR c) \<and>
     avx_ok m = (\<not> get_TS c \<and> (get_LMA c \<or> get_PE c \<and> \<not> get_VM cpu) \<and> get_OSXSAVE c \<and> bit (xcr0 c) 1 \<and> bit (xcr0 c) 2) \<and>
     user_pl m = (CPL cpu = 3) \<and>
     fetchModeMask m = push_bit 3 (b2u (avx_ok m)) OR push_bit 2 (b2u (sse_ok m)) OR
                       push_bit 1 (b2u (cpu_mode m = BX_MODE_LONG_64)) OR d_b (cs_cache cpu))"

lemma xcr0_avx: "NOT x AND 6 = 0 \<longleftrightarrow> bit x (Suc 0) \<and> bit x 2" for x :: Bit32u
proof -
  have six: "(6 :: Bit32u) = push_bit 1 1 OR push_bit 2 1" by simp
  have "NOT x AND 6 = 0 \<longleftrightarrow> (\<forall>n < 32. \<not> bit x n \<longrightarrow> n \<noteq> 1 \<and> n \<noteq> 2)"
    unfolding six word_and_0_iff by (auto simp: bit_simps bit_1_iff simp del: push_bit_of_1 One_nat_def)
  moreover have "bit x 1 \<and> bit x 2" if h: "\<forall>n < 32. \<not> bit x n \<longrightarrow> n \<noteq> 1 \<and> n \<noteq> 2"
    using h [rule_format, of 1] h [rule_format, of 2] by auto
  ultimately show ?thesis by auto
qed

lemma refresh_derived_ok: "derived_ok (refresh_modes cpu)"
proof -
  define cpu1 where "cpu1 = handleCpuModeChange (handleAlignmentCheck (TLB_flush cpu))"
  have "cpu_mode (modes cpu1) = mode_of (get_LMA (crs cpu1)) (get_PE (crs cpu1)) (get_VM cpu1) (l (cs_cache cpu1) \<noteq> 0)"
    by (simp add: cpu1_def handleCpuModeChange_def Let_def handleAvxModeChange_def updateFetchModeMask_def set_PKRU_def
        BX_CLEAR_64BIT_HIGH_def invalidate_stack_cache_def mode_of_def)
  then show ?thesis
    unfolding refresh_modes_def cpu1_def [symmetric]
    by (auto simp: derived_ok_def Let_def handleAvxModeChange_def handleSseModeChange_def updateFetchModeMask_def
        protected_mode_def mode_of_def xcr0_avx)
qed

lemma less_64_bits:
  fixes w :: Bit32u
  assumes "\<And>n. 6 \<le> n \<Longrightarrow> \<not> bit w n"
  shows "w < 64"
proof -
  have "take_bit 6 w = w"
    by (rule bit_word_eqI) (use assms in \<open>auto simp: bit_take_bit_iff not_le [symmetric]\<close>)
  then have "unat w = take_bit 6 (unat w)" by (metis unsigned_take_bit_eq)
  then have "unat w = unat w mod 64" by (simp add: take_bit_eq_mod)
  then have "unat w < 64" by (metis mod_less_divisor zero_less_numeral)
  then show ?thesis by (simp add: word_less_nat_alt)
qed

lemma fetch_mask_bound:
  assumes "k \<le> 1"
  shows "push_bit 3 (b2u a) OR push_bit 2 (b2u b) OR push_bit 1 (b2u c) OR k < (64 :: Bit32u)"
proof (rule less_64_bits)
  fix n :: nat
  assume n: "6 \<le> n"
  have "unat k \<le> 1" using assms by (simp add: word_le_nat_alt)
  then have "unat k = 0 \<or> unat k = 1" by linarith
  then have "k = 0 \<or> k = 1" by (auto simp: word_unat_eq_iff)
  then have "\<not> bit k n" using n by (auto simp: bit_1_iff)
  then show "\<not> bit (push_bit 3 (b2u a) OR push_bit 2 (b2u b) OR push_bit 1 (b2u c) OR k) n"
    using n by (simp only: bit_or_iff bit_push_bit_iff bit_b2u) auto
qed

text \<open>
  C10: after a context switch the derived state is the one the new registers define: processor
  mode, SSE and AVX availability, user privilege and the fetch mode that selects cached
  traces (always one of the 64 the instruction cache tells apart when the code segment's
  D bit is a bit). The protection-key register is not kept: it becomes the low half of RAX.
\<close>

theorem switch_derived_state:
  "derived_ok (hv_cpu (set_context t ctx st)) \<and>
   (d_b (cs_cache (hv_cpu (set_context t ctx st))) \<le> 1 \<longrightarrow> fetchModeMask (modes (hv_cpu (set_context t ctx st))) < 64) \<and>
   pkru (modes (hv_cpu (set_context t ctx st))) = ucast (gen_reg (hv_cpu (set_context t ctx st)) 0)"
proof -
  let ?cpu = "hv_cpu (set_context t ctx st)"
  have d: "derived_ok ?cpu" by (simp add: set_context_def refresh_derived_ok)
  have "fetchModeMask (modes ?cpu) = push_bit 3 (b2u (avx_ok (modes ?cpu))) OR push_bit 2 (b2u (sse_ok (modes ?cpu))) OR
      push_bit 1 (b2u (cpu_mode (modes ?cpu) = BX_MODE_LONG_64)) OR d_b (cs_cache ?cpu)"
    using d by (simp only: derived_ok_def Let_def)
  then have "d_b (cs_cache ?cpu) \<le> 1 \<longrightarrow> fetchModeMask (modes ?cpu) < 64" using fetch_mask_bound by metis
  moreover have "pkru (modes ?cpu) = ucast (gen_reg ?cpu 0)"
    by (simp add: set_context_def refresh_modes_def handleAvxModeChange_def handleSseModeChange_def
        updateFetchModeMask_def handleCpuModeChange_def set_PKRU_def Let_def)
  ultimately show ?thesis using d by blast
qed

subsection \<open>Caches\<close>

lemma word_less_inc: "w < - 1 \<Longrightarrow> w < w + 1" for w :: Bit64u
proof -
  assume "w < - 1"
  then have "unat w < unat (- 1 :: Bit64u)" by (simp only: word_less_nat_alt)
  also have "\<dots> = 18446744073709551615" by (simp only: unsigned_minus_1_eq_mask) (simp add: mask_eq_exp_minus_1)
  finally show ?thesis by (simp add: word_less_nat_alt unat_word_ariths)
qed

lemma breakLinks_age: "age (entry (fst (breakLinks ic)) k) = age (entry ic k)"
  by (simp add: breakLinks_def flushICacheEntries_def Let_def)

lemma refresh_windows:
  "cpu_eipPageWindowSize (refresh_modes cpu) = 0" "cpu_espPageWindowSize (refresh_modes cpu) = 0"
  "\<not> monitor_armed (refresh_modes cpu)"
proof -
  have "cpu_espPageWindowSize c = 0 \<Longrightarrow> cpu_espPageWindowSize (handleCpuModeChange c) = 0"
    "monitor_armed (handleCpuModeChange c) = monitor_armed c" for c
    by (simp_all add: mode_defs Let_def)
  then show "cpu_eipPageWindowSize (refresh_modes cpu) = 0" "cpu_espPageWindowSize (refresh_modes cpu) = 0"
    "\<not> monitor_armed (refresh_modes cpu)"
    by (simp_all add: refresh_modes_def handleAvxModeChange_def handleSseModeChange_def updateFetchModeMask_def
        handleCpuModeChange_keeps handleAlignmentCheck_def TLB_flush_def invalidate_stack_cache_def
        invalidate_prefetch_q_def Let_def)
qed

text \<open>
  C11: after a context switch nothing translated for the old context is used: every TLB entry is invalid, the
  prefetch and stack windows are empty, the monitor is disarmed, and no instruction-cache
  lookup hits as long as no entry claims an age past the counter.
\<close>

theorem switch_drops_caches:
  assumes "\<forall>k. age (entry (cpu_iCache (hv_cpu st)) k) \<le> hv_switches st" and "hv_switches st < - 1"
  shows "(\<forall>n < 1024. lpf (tlb (hv_cpu (set_context t ctx st)) n) = BX_INVALID_TLB_ENTRY \<and>
                     accessBits (tlb (hv_cpu (set_context t ctx st)) n) = 0) \<and>
         cpu_eipPageWindowSize (hv_cpu (set_context t ctx st)) = 0 \<and>
         cpu_espPageWindowSize (hv_cpu (set_context t ctx st)) = 0 \<and>
         \<not> monitor_armed (hv_cpu (set_context t ctx st)) \<and>
         find_entry (hv_switches (set_context t ctx st)) (cpu_iCache (hv_cpu (set_context t ctx st))) paddr fm = None"
proof -
  let ?cpu = "hv_cpu (set_context t ctx st)"
  have "age (entry (cpu_iCache ?cpu) k) = age (entry (cpu_iCache (hv_cpu st)) k)" for k
    by (simp add: set_context_def refresh_modes_def handleAvxModeChange_def handleSseModeChange_def
        updateFetchModeMask_def handleCpuModeChange_keeps handleAlignmentCheck_def TLB_flush_def Let_def breakLinks_age
        invalidate_stack_cache_def invalidate_prefetch_q_def load_context_def load_defs setEFlags_keeps)
  moreover have "hv_switches st < hv_switches st + 1" by (rule word_less_inc [OF assms(2)])
  ultimately have "age (entry (cpu_iCache ?cpu) k) \<noteq> hv_switches st + 1" for k
    using assms(1) by (metis leD)
  then have "find_entry (hv_switches st + 1) (cpu_iCache ?cpu) paddr fm = None" by (simp add: find_entry_def Let_def)
  moreover have "lpf (tlb ?cpu n) = BX_INVALID_TLB_ENTRY \<and> accessBits (tlb ?cpu n) = 0" if "n < 1024" for n
    using that by (simp add: set_context_def refresh_modes_def handleAvxModeChange_def handleSseModeChange_def
        updateFetchModeMask_def handleCpuModeChange_keeps handleAlignmentCheck_def TLB_flush_def Let_def tlb_invalidate_def)
  ultimately show ?thesis by (simp add: set_context_def refresh_windows)
qed

subsection \<open>A concrete switch\<close>

definition wit_ctx :: whvp_context where
  "wit_ctx = \<lparr>c_gpr = (\<lambda>i. 0x100000000 + of_nat i), c_rip = 0xfffff80000001000, c_rflags = 0x246,
     c_sregs = (\<lambda>i. if i = 1 then \<lparr>Base = 0, Limit = 0xffffffff, Selector = 0x10, Attributes = 0xa09b\<rparr>
                     else \<lparr>Base = 0, Limit = 0xffffffff, Selector = 0x18, Attributes = 0xc093\<rparr>),
     c_ldtr = \<lparr>Base = 0, Limit = 0, Selector = 0, Attributes = 0\<rparr>,
     c_tr = \<lparr>Base = 0x5000, Limit = 0x67, Selector = 0x40, Attributes = 0x8b\<rparr>,
     c_idtr = \<lparr>Table_Base = 0x6000, Table_Limit = 0xfff\<rparr>, c_gdtr = \<lparr>Table_Base = 0x7000, Table_Limit = 0x57\<rparr>,
     c_crs = \<lparr>c_cr0 = 0x80050033, c_cr2 = 7, c_cr3 = 0x1ab000, c_cr4 = 0x406f8, c_cr8 = 2, c_dr = (\<lambda>_. 0),
              c_dr6 = 0xffff0ff0, c_dr7 = 0x400, c_xcr0 = 7\<rparr>,
     c_xmm = (\<lambda>i. of_nat i), c_st = (\<lambda>i. \<lparr>Mantissa = of_nat i, BiasedExponent = 0x3fff, Sign = 0\<rparr>),
     c_fp_control = \<lparr>FpControl = 0x37f, FpStatus = 0, FpTag = 0xff, LastFpOp = 0, LastFpRip = 0\<rparr>,
     c_xmm_control = \<lparr>LastFpRdp = 0, XmmStatusControl = 0x1f80, XmmStatusControlMask = 0xffff\<rparr>,
     c_msrs = \<lparr>c_tsc = 1000, c_efer = 0xd01, c_kernel_gs_base = 1, c_apic_base = 0xfee00900, c_pat = 6, c_sysenter_cs = 0,
               c_sysenter_eip = 0, c_sysenter_esp = 0, c_star = 3, c_lstar = 4, c_cstar = 5, c_sfmask = 0x4700, c_tsc_aux = 0\<rparr>\<rparr>"

definition wit_hv :: hv_state where
  "wit_hv = \<lparr>hv_cpu = wit_bx_cpu, hv_switches = 7\<rparr>"

theorem switch_roundtrip_registers_witness:
  "c_rip (switch_roundtrip 50 wit_ctx wit_ctx wit_hv) = 0xfffff80000001000 \<and>
   c_gpr (switch_roundtrip 50 wit_ctx wit_ctx wit_hv) 4 = 0x100000004"
proof -
  have 1: "\<not> (long_mode (hv_cpu wit_hv) \<and> get_VM (hv_cpu wit_hv))" "\<not> in_vmx_guest (guest (hv_cpu wit_hv))"
    "tsc_offset (hv_cpu wit_hv) = 0" by (simp_all add: wit_hv_def wit_bx_cpu_def)
  have 2: "bit (Attributes (c_sregs wit_ctx 1)) 4" "\<not> compat_ctx wit_ctx" by (simp_all add: wit_ctx_def compat_ctx_def)
  from switch_roundtrip_registers [OF 1(1) 2(1) 1(2,3), of 50 wit_ctx] 2(2) show ?thesis
    by (simp add: wit_ctx_def)
qed


text \<open>With the stack top at 3 before the switch, the x87 registers come back rotated by three.\<close>

theorem switch_roundtrip_fpu_witness:
  "Mantissa (c_st (switch_roundtrip 50 wit_ctx wit_ctx wit_hv) 0) = 3 \<and> Mantissa (c_st wit_ctx 0) = 0 \<and>
   FpStatus (c_fp_control (switch_roundtrip 50 wit_ctx wit_ctx wit_hv)) = 0x1800"
  using switch_roundtrip_fpu [of 0 50 wit_ctx wit_ctx wit_hv] by (simp add: wit_ctx_def wit_hv_def wit_bx_cpu_def)

theorem switch_derived_state_witness:
  "derived_ok (hv_cpu (set_context 50 wit_ctx wit_hv)) \<and>
   pkru (modes (hv_cpu (set_context 50 wit_ctx wit_hv))) = 0"
proof -
  have "gen_reg (hv_cpu (set_context 50 wit_ctx wit_hv)) 0 = 0x100000000"
    by (simp add: set_context_def refresh_gen_reg load_context_gen_reg wit_hv_def) (simp add: wit_bx_cpu_def wit_ctx_def load_context_gen_reg)
  with switch_derived_state [of 50 wit_ctx wit_hv] show ?thesis by simp
qed

theorem switch_drops_caches_witness:
  "lpf (tlb (hv_cpu (set_context 50 wit_ctx wit_hv)) 5) = BX_INVALID_TLB_ENTRY \<and>
   find_entry (hv_switches (set_context 50 wit_ctx wit_hv)) (cpu_iCache (hv_cpu (set_context 50 wit_ctx wit_hv))) 0x1080 0 = None"
proof -
  have "\<forall>k. age (entry (cpu_iCache (hv_cpu wit_hv)) k) \<le> hv_switches wit_hv" "hv_switches wit_hv < - 1"
    by (simp_all add: wit_hv_def wit_bx_cpu_def wit_icache_def)
  from switch_drops_caches [OF this, of 50 wit_ctx "0x1080" 0] show ?thesis by simp
qed

end
