(* ===== verification/PcSystem.thy ===== *)
theory PcSystem
  imports Prelude
begin

text \<open>
  The clock and timer framework, \<^verbatim>\<open>bochs/pc_system.cc\<close> and \<^verbatim>\<open>bochs/pc_system.h\<close>. Time is counted in
  ticks; one 32 bit countdown runs towards the earliest active timer. The \<open>ips=1000000\<close> the
  hypervisor integration insists on makes a microsecond one tick (\<open>m_ips\<close> is 1.0). A timer
  callback is a number; what callbacks do is the parameter \<open>cb\<close>, a function on the pair of the
  device state and the timer state.
\<close>

record pc_timer =
  inUse :: bool
  period :: Bit64u
  timeToFire :: Bit64u
  active :: bool
  continuous :: bool
  funct :: "nat option"
  param :: Bit32u

record pc_system =
  timer :: "nat \<Rightarrow> pc_timer"
  numTimers :: nat
  triggeredTimer :: nat
  currCountdown :: Bit32u
  currCountdownPeriod :: Bit32u
  ticksTotal :: Bit64u
  lastTimeUsec :: Bit64u
  usecSinceLast :: Bit64u
  HRQ :: bool
  kill_bochs_request :: bool

type_synonym 'd dev_state = "'d \<times> pc_system"
type_synonym 'd callbacks = "nat \<Rightarrow> 'd dev_state \<Rightarrow> 'd dev_state"

abbreviation (input) "BX_MAX_TIMERS \<equiv> (64 :: nat)"
abbreviation (input) "NullTimerInterval \<equiv> (0xffffffff :: Bit64u)"
abbreviation (input) "MinAllowableTimerPeriod \<equiv> (1 :: Bit64u)"
abbreviation (input) "BX_MAX_BIT64S \<equiv> (0x7fffffffffffffff :: Bit64u)"

abbreviation upd_timer :: "nat \<Rightarrow> (pc_timer \<Rightarrow> pc_timer) \<Rightarrow> pc_system \<Rightarrow> pc_system" where
  "upd_timer i f s \<equiv> s\<lparr>timer := (timer s)(i := f (timer s i))\<rparr>"

subsection \<open>Operations\<close>

text \<open>The callback numbers of the null timer and of the benchmark timer.\<close>

abbreviation (input) "nullTimer_id \<equiv> (0 :: nat)"
abbreviation (input) "benchmarkTimer_id \<equiv> (1 :: nat)"

text \<open>The constructor, on the zero-initialised static object, then \<open>initialize\<close>.\<close>

definition bx_pc_system_c :: "pc_system \<Rightarrow> pc_system" where
  "bx_pc_system_c s = upd_timer 0 (\<lambda>t. t\<lparr>inUse := True, period := NullTimerInterval, active := True,
      continuous := True, funct := Some nullTimer_id\<rparr>) (s\<lparr>ticksTotal := 0, numTimers := 1\<rparr>)"

definition initialize :: "pc_system \<Rightarrow> pc_system" where
  "initialize s = upd_timer 0 (\<lambda>t. t\<lparr>timeToFire := NullTimerInterval\<rparr>)
     (s\<lparr>ticksTotal := 0, currCountdown := 0xffffffff, currCountdownPeriod := 0xffffffff, lastTimeUsec := 0,
        usecSinceLast := 0, triggeredTimer := 0, HRQ := False, kill_bochs_request := False\<rparr>)"

definition time_ticks :: "pc_system \<Rightarrow> Bit64u" where
  "time_ticks s = ticksTotal s + ucast (currCountdownPeriod s - currCountdown s)"

definition getNumCpuTicksLeftNextEvent :: "pc_system \<Rightarrow> Bit32u" where
  "getNumCpuTicksLeftNextEvent s = currCountdown s"

text \<open>The new timer may fire before the current countdown ends: shorten the countdown.\<close>

definition skew :: "Bit64u \<Rightarrow> pc_system \<Rightarrow> pc_system" where
  "skew ticks s =
     (if ticks < ucast (currCountdown s)
      then s\<lparr>currCountdownPeriod := currCountdownPeriod s - (currCountdown s - ucast ticks),
             currCountdown := ucast ticks\<rparr>
      else s)"

fun free_slot :: "pc_system \<Rightarrow> nat \<Rightarrow> nat \<Rightarrow> nat" where
  "free_slot s i 0 = i"
| "free_slot s i (Suc k) = (if \<not> inUse (timer s i) then i else free_slot s (i + 1) k)"

definition register_timer_ticks :: "nat option \<Rightarrow> Bit64u \<Rightarrow> bool \<Rightarrow> bool \<Rightarrow> pc_system \<Rightarrow> pc_system \<times> int" where
  "register_timer_ticks f ticks0 continuous_a active_a s =
     (let ticks = (if ticks0 < MinAllowableTimerPeriod then MinAllowableTimerPeriod else ticks0);
          i = free_slot s 1 (numTimers s - 1)
      in if numTimers s \<ge> BX_MAX_TIMERS then (s, - 1)
         else (let s1 = upd_timer i (\<lambda>t. t\<lparr>inUse := True, period := ticks, timeToFire := time_ticks s + ticks,
                          active := active_a, continuous := continuous_a, funct := f, param := 0\<rparr>) s;
                   s2 = (if active_a then skew ticks s1 else s1);
                   s3 = (if i = numTimers s then s2\<lparr>numTimers := numTimers s2 + 1\<rparr> else s2)
               in (s3, int i)))"

definition register_timer :: "nat option \<Rightarrow> Bit32u \<Rightarrow> bool \<Rightarrow> bool \<Rightarrow> pc_system \<Rightarrow> pc_system \<times> int" where
  "register_timer f useconds continuous_a active_a s = register_timer_ticks f (ucast useconds) continuous_a active_a s"

definition activate_timer_ticks :: "nat \<Rightarrow> Bit64u \<Rightarrow> bool \<Rightarrow> pc_system \<Rightarrow> pc_system" where
  "activate_timer_ticks i ticks0 continuous_a s =
     (let ticks = (if ticks0 < MinAllowableTimerPeriod then MinAllowableTimerPeriod else ticks0)
      in skew ticks (upd_timer i (\<lambda>t. t\<lparr>period := ticks, timeToFire := time_ticks s + ticks,
           active := True, continuous := continuous_a\<rparr>) s))"

definition activate_timer :: "nat \<Rightarrow> Bit32u \<Rightarrow> bool \<Rightarrow> pc_system \<Rightarrow> pc_system" where
  "activate_timer i useconds continuous_a s =
     (if useconds = 0 then activate_timer_ticks i (period (timer s i)) continuous_a s
      else (let ticks0 = ucast useconds;
                ticks = (if ticks0 < MinAllowableTimerPeriod then MinAllowableTimerPeriod else ticks0)
            in activate_timer_ticks i ticks continuous_a (upd_timer i (\<lambda>t. t\<lparr>period := ticks\<rparr>) s)))"

text \<open>\<open>to_ticks\<close> is the floating-point conversion \<open>(Bit64u)(double(nseconds) * m_ips / 1000.0)\<close>.\<close>

definition activate_timer_nsec :: "(Bit64u \<Rightarrow> Bit64u) \<Rightarrow> nat \<Rightarrow> Bit64u \<Rightarrow> bool \<Rightarrow> pc_system \<Rightarrow> pc_system" where
  "activate_timer_nsec to_ticks i nseconds continuous_a s =
     (if nseconds = 0 then activate_timer_ticks i (period (timer s i)) continuous_a s
      else (let ticks0 = to_ticks nseconds;
                ticks = (if ticks0 < MinAllowableTimerPeriod then MinAllowableTimerPeriod else ticks0)
            in activate_timer_ticks i ticks continuous_a (upd_timer i (\<lambda>t. t\<lparr>period := ticks\<rparr>) s)))"

definition deactivate_timer :: "nat \<Rightarrow> pc_system \<Rightarrow> pc_system" where
  "deactivate_timer i s = upd_timer i (\<lambda>t. t\<lparr>active := False\<rparr>) s"

definition unregisterTimer :: "nat \<Rightarrow> pc_system \<Rightarrow> pc_system \<times> bool" where
  "unregisterTimer timerIndex s =
     (if active (timer s timerIndex) then (s, False)
      else (let s1 = upd_timer timerIndex (\<lambda>t. t\<lparr>inUse := False, period := BX_MAX_BIT64S,
                       timeToFire := BX_MAX_BIT64S, continuous := False, funct := None\<rparr>) s
            in (if timerIndex = numTimers s1 - 1 then s1\<lparr>numTimers := numTimers s1 - 1\<rparr> else s1, True)))"

definition setTimerParam :: "nat \<Rightarrow> Bit32u \<Rightarrow> pc_system \<Rightarrow> pc_system" where
  "setTimerParam timerIndex v s = upd_timer timerIndex (\<lambda>t. t\<lparr>param := v\<rparr>) s"

definition triggeredTimerParam :: "pc_system \<Rightarrow> Bit32u" where
  "triggeredTimerParam s = param (timer s (triggeredTimer s))"

text \<open>\<open>now_usec\<close> is the value of \<open>time_usec()\<close>.\<close>

definition time_usec_sequential :: "Bit64u \<Rightarrow> pc_system \<Rightarrow> pc_system \<times> Bit64u" where
  "time_usec_sequential now_usec s =
     (let s1 = (if now_usec \<noteq> lastTimeUsec s then
                  (let diff_usec = now_usec - lastTimeUsec s; s0 = s\<lparr>lastTimeUsec := now_usec\<rparr>
                   in if diff_usec \<ge> usecSinceLast s0 then s0\<lparr>usecSinceLast := 0\<rparr>
                      else s0\<lparr>usecSinceLast := usecSinceLast s0 - diff_usec\<rparr>)
                else s);
          s2 = s1\<lparr>usecSinceLast := usecSinceLast s1 + 1\<rparr>
      in (s2, now_usec + usecSinceLast s2))"

subsection \<open>The countdown event\<close>

record scan_state =
  sc_timer :: "nat \<Rightarrow> pc_timer"
  sc_triggered :: "nat \<Rightarrow> bool"
  sc_min :: Bit64u
  sc_first :: nat
  sc_last :: nat

text \<open>One iteration of the scan over the timers, at the time \<open>now\<close>.\<close>

definition scan_timer :: "Bit64u \<Rightarrow> nat \<Rightarrow> scan_state \<Rightarrow> scan_state" where
  "scan_timer now i s0 =
     (let s = s0\<lparr>sc_triggered := (sc_triggered s0)(i := False)\<rparr>; t = sc_timer s i
      in if \<not> active t then s
         else if now = timeToFire t then
           (let s1 = s\<lparr>sc_triggered := (sc_triggered s)(i := True)\<rparr>;
                s2 = (if \<not> continuous t then s1\<lparr>sc_timer := (sc_timer s1)(i := t\<lparr>active := False\<rparr>)\<rparr>
                      else (let ttf = timeToFire t + period t;
                                s1b = s1\<lparr>sc_timer := (sc_timer s1)(i := t\<lparr>timeToFire := ttf\<rparr>)\<rparr>
                            in if ttf < sc_min s1b then s1b\<lparr>sc_min := ttf\<rparr> else s1b));
                s3 = (if i < sc_first s2 then s2\<lparr>sc_first := i\<rparr> else s2)
            in s3\<lparr>sc_last := i\<rparr>)
         else if timeToFire t < sc_min s then s\<lparr>sc_min := timeToFire t\<rparr> else s)"

definition scan_timers :: "Bit64u \<Rightarrow> pc_system \<Rightarrow> scan_state" where
  "scan_timers now s = fold (scan_timer now) [0..<numTimers s]
     \<lparr>sc_timer = timer s, sc_triggered = (\<lambda>_. False), sc_min = - 1, sc_first = numTimers s, sc_last = 0\<rparr>"

text \<open>The first half of \<open>countdownEvent\<close>: new time, rescheduled timers, new countdown.\<close>

definition advance_period :: "pc_system \<Rightarrow> pc_system \<times> scan_state" where
  "advance_period s =
     (let now = ticksTotal s + ucast (currCountdownPeriod s);
          sc = scan_timers now s;
          cd = ucast (sc_min sc - now)
      in (s\<lparr>ticksTotal := now, timer := sc_timer sc, currCountdownPeriod := cd, currCountdown := cd\<rparr>, sc))"

definition call_timer :: "'d callbacks \<Rightarrow> (nat \<Rightarrow> bool) \<Rightarrow> nat \<Rightarrow> 'd dev_state \<Rightarrow> 'd dev_state" where
  "call_timer cb triggered i ds =
     (case funct (timer (snd ds) i) of
        Some h \<Rightarrow> if triggered i
                  then (let (d1, s1) = cb h (fst ds, (snd ds)\<lparr>triggeredTimer := i\<rparr>)
                        in (d1, s1\<lparr>triggeredTimer := 0\<rparr>))
                  else ds
      | None \<Rightarrow> ds)"

definition countdownEvent :: "'d callbacks \<Rightarrow> 'd dev_state \<Rightarrow> 'd dev_state" where
  "countdownEvent cb ds =
     (let (s1, sc) = advance_period (snd ds)
      in fold (call_timer cb (sc_triggered sc)) [sc_first sc..<sc_last sc + 1] (fst ds, s1))"

definition tick1 :: "'d callbacks \<Rightarrow> 'd dev_state \<Rightarrow> 'd dev_state" where
  "tick1 cb ds =
     (let s = (snd ds)\<lparr>currCountdown := currCountdown (snd ds) - 1\<rparr>
      in if currCountdown s = 0 then countdownEvent cb (fst ds, s) else (fst ds, s))"

text \<open>The loop of \<open>tickn\<close>; \<open>None\<close> when the fuel runs out, which the contract of the callbacks excludes.\<close>

fun tickn_loop :: "'d callbacks \<Rightarrow> nat \<Rightarrow> Bit32u \<Rightarrow> 'd dev_state \<Rightarrow> 'd dev_state option" where
  "tickn_loop cb 0 n ds = None"
| "tickn_loop cb (Suc fuel) n ds =
     (if n \<ge> currCountdown (snd ds)
      then tickn_loop cb fuel (n - currCountdown (snd ds)) (countdownEvent cb (fst ds, (snd ds)\<lparr>currCountdown := 0\<rparr>))
      else Some (fst ds, (snd ds)\<lparr>currCountdown := currCountdown (snd ds) - n\<rparr>))"

definition tickn :: "'d callbacks \<Rightarrow> Bit32u \<Rightarrow> 'd dev_state \<Rightarrow> 'd dev_state option" where
  "tickn cb n ds = tickn_loop cb (unat n + 1) n ds"

subsection \<open>The scan\<close>

definition fires :: "Bit64u \<Rightarrow> pc_timer \<Rightarrow> bool" where
  "fires now t \<longleftrightarrow> active t \<and> timeToFire t = now"

definition resched :: "Bit64u \<Rightarrow> pc_timer \<Rightarrow> pc_timer" where
  "resched now t = (if fires now t then (if continuous t then t\<lparr>timeToFire := timeToFire t + period t\<rparr> else t\<lparr>active := False\<rparr>) else t)"

definition scan_inv :: "Bit64u \<Rightarrow> pc_system \<Rightarrow> nat \<Rightarrow> scan_state \<Rightarrow> bool" where
  "scan_inv now s n sc \<longleftrightarrow>
     sc_timer sc = (\<lambda>i. if i < n then resched now (timer s i) else timer s i) \<and>
     sc_triggered sc = (\<lambda>i. i < n \<and> fires now (timer s i)) \<and>
     (\<forall>i < n. active (resched now (timer s i)) \<longrightarrow> sc_min sc \<le> timeToFire (resched now (timer s i))) \<and>
     (sc_min sc = - 1 \<or> (\<exists>i < n. active (resched now (timer s i)) \<and> sc_min sc = timeToFire (resched now (timer s i)))) \<and>
     (\<forall>i < n. fires now (timer s i) \<longrightarrow> sc_first sc \<le> i \<and> i \<le> sc_last sc) \<and>
     ((\<exists>i < n. fires now (timer s i)) \<or> sc_last sc = 0) \<and> sc_last sc \<le> n \<and>
     ((\<exists>i < n. fires now (timer s i)) \<or> sc_first sc = numTimers s)"

lemma scan_timer_cases:
  "scan_timer now n sc = sc\<lparr>sc_timer := (sc_timer sc)(n := resched now (sc_timer sc n)),
     sc_triggered := (sc_triggered sc)(n := fires now (sc_timer sc n)),
     sc_min := (if active (resched now (sc_timer sc n)) \<and> timeToFire (resched now (sc_timer sc n)) < sc_min sc
                then timeToFire (resched now (sc_timer sc n)) else sc_min sc),
     sc_first := (if fires now (sc_timer sc n) \<and> n < sc_first sc then n else sc_first sc),
     sc_last := (if fires now (sc_timer sc n) then n else sc_last sc)\<rparr>"
  by (auto simp: scan_timer_def fires_def resched_def Let_def)

lemma scan_inv_step:
  assumes "scan_inv now s n sc"
  shows "scan_inv now s (Suc n) (scan_timer now n sc)"
proof -
  have t: "sc_timer sc n = timer s n" using assms by (simp add: scan_inv_def)
  show ?thesis
    using assms unfolding scan_timer_cases t scan_inv_def
    by (intro conjI) (simp_all add: fun_eq_iff less_Suc_eq, auto)
qed

lemma scan_timers_inv: "scan_inv now s (numTimers s) (scan_timers now s)"
proof -
  have "scan_inv now s n (fold (scan_timer now) [0..<n]
     \<lparr>sc_timer = timer s, sc_triggered = (\<lambda>_. False), sc_min = - 1, sc_first = numTimers s, sc_last = 0\<rparr>)" for n
    by (induction n) (simp_all add: scan_inv_step, simp add: scan_inv_def)
  then show ?thesis by (simp add: scan_timers_def)
qed

subsection \<open>The timer invariant\<close>

text \<open>
  The countdown ends at or before the earliest active timer, so no timer can be passed over; the null timer
  keeps the period inside 32 bits; periods and deadlines stay far from the 64 bit limit.
\<close>

definition timer_ok :: "nat \<Rightarrow> pc_timer \<Rightarrow> bool" where
  "timer_ok deadline t \<longleftrightarrow> active t \<longrightarrow>
     deadline \<le> unat (timeToFire t) \<and> 1 \<le> unat (period t) \<and> unat (period t) \<le> 2 ^ 62 \<and> unat (timeToFire t) \<le> 2 ^ 63"

definition period_end :: "pc_system \<Rightarrow> nat" where
  "period_end s = unat (ticksTotal s) + unat (currCountdownPeriod s)"

definition pc_ok0 :: "pc_system \<Rightarrow> bool" where
  "pc_ok0 s \<longleftrightarrow> unat (currCountdown s) \<le> unat (currCountdownPeriod s) \<and>
     1 \<le> numTimers s \<and> numTimers s \<le> BX_MAX_TIMERS \<and>
     (\<forall>i < numTimers s. timer_ok (period_end s) (timer s i)) \<and>
     active (timer s 0) \<and> continuous (timer s 0) \<and> period (timer s 0) = NullTimerInterval \<and> inUse (timer s 0) \<and>
     unat (timeToFire (timer s 0)) \<le> unat (ticksTotal s) + 0xffffffff"

definition pc_ok :: "pc_system \<Rightarrow> bool" where
  "pc_ok s \<longleftrightarrow> pc_ok0 s \<and> 0 < unat (currCountdown s)"

text \<open>The time as an unbounded number.\<close>

definition now_ticks :: "pc_system \<Rightarrow> nat" where
  "now_ticks s = unat (ticksTotal s) + (unat (currCountdownPeriod s) - unat (currCountdown s))"

lemma unat_time_ticks:
  assumes "pc_ok0 s" "now_ticks s < 2 ^ 63"
  shows "unat (time_ticks s) = now_ticks s"
proof -
  have "unat (currCountdownPeriod s - currCountdown s) = unat (currCountdownPeriod s) - unat (currCountdown s)"
    using assms(1) by (simp add: pc_ok0_def unat_sub word_le_nat_alt)
  moreover have "unat (ucast (currCountdownPeriod s - currCountdown s) :: Bit64u) = unat (currCountdownPeriod s - currCountdown s)"
    by (rule unat_ucast_up) simp
  ultimately show ?thesis using assms(2)
    by (simp add: time_ticks_def now_ticks_def unat_word_ariths)
qed

lemma resched_ok:
  assumes "timer_ok d t" "d = unat now" "unat now \<le> 2 ^ 62"
  shows "active (resched now t) \<Longrightarrow> d < unat (timeToFire (resched now t))"
    and "timer_ok d (resched now t)"
proof -
  have sum: "unat (now + period t) = unat now + unat (period t)" if "active t"
    using assms that by (simp add: timer_ok_def unat_word_ariths)
  have "(active (resched now t) \<longrightarrow> d < unat (timeToFire (resched now t))) \<and> timer_ok d (resched now t)"
  proof (cases "fires now t")
    case True
    then have a: "active t" "timeToFire t = now" by (auto simp: fires_def)
    with assms have per: "1 \<le> unat (period t)" "unat (period t) \<le> 2 ^ 62" by (auto simp: timer_ok_def)
    have "unat (now + period t) \<le> 2 ^ 63" using sum [OF a(1)] per(2) assms(3) by simp
    with True a per sum assms(2) show ?thesis by (simp add: resched_def timer_ok_def)
  next
    case False
    then have "active t \<Longrightarrow> unat (timeToFire t) \<noteq> d" using assms(2) False by (simp add: fires_def word_unat_eq_iff)
    with False assms(1) show ?thesis by (auto simp: resched_def timer_ok_def)
  qed
  then show "active (resched now t) \<Longrightarrow> d < unat (timeToFire (resched now t))" "timer_ok d (resched now t)" by blast+
qed

lemma advance_period_ok:
  assumes ok: "pc_ok0 s" and cd: "currCountdown s = 0" and bound: "period_end s \<le> 2 ^ 62"
  defines "s' \<equiv> fst (advance_period s)"
  shows "pc_ok s'" "now_ticks s' = now_ticks s" "unat (ticksTotal s') = period_end s"
    "timer s' = (\<lambda>i. if i < numTimers s then resched (ticksTotal s') (timer s i) else timer s i)"
    "sc_triggered (snd (advance_period s)) = (\<lambda>i. i < numTimers s \<and> fires (ticksTotal s') (timer s i))"
proof -
  define now where "now = ticksTotal s + ucast (currCountdownPeriod s)"
  define sc where "sc = scan_timers now s"
  have "unat (ucast (currCountdownPeriod s) :: Bit64u) = unat (currCountdownPeriod s)" by (rule unat_ucast_up) simp
  then have now: "unat now = period_end s" using bound
    by (simp add: now_def period_end_def unat_word_ariths)
  have inv: "scan_inv now s (numTimers s) sc" unfolding sc_def by (rule scan_timers_inv)
  have s': "s' = s\<lparr>ticksTotal := now, timer := sc_timer sc, currCountdownPeriod := ucast (sc_min sc - now),
      currCountdown := ucast (sc_min sc - now)\<rparr>"
    by (simp add: s'_def advance_period_def Let_def now_def sc_def)
  have tm: "timer s' = (\<lambda>i. if i < numTimers s then resched now (timer s i) else timer s i)"
    using inv by (simp add: s' scan_inv_def)
  have t0: "active (resched now (timer s 0))" "continuous (resched now (timer s 0))" "0 < numTimers s"
    "period (resched now (timer s 0)) = NullTimerInterval" "inUse (resched now (timer s 0))"
    using ok by (auto simp: pc_ok0_def resched_def)
  have "unat (timeToFire (timer s 0)) \<le> unat (ticksTotal s) + 0xffffffff" "timer_ok (unat now) (timer s 0)"
    using ok now by (auto simp: pc_ok0_def)
  then have t0_ttf: "unat (timeToFire (resched now (timer s 0))) \<le> unat now + 0xffffffff"
    using now bound ok by (auto simp: resched_def fires_def unat_word_ariths period_end_def pc_ok0_def)
  have each: "active (resched now (timer s i)) \<Longrightarrow> unat now < unat (timeToFire (resched now (timer s i)))"
    "timer_ok (unat now) (resched now (timer s i))" if "i < numTimers s" for i
    using resched_ok [of "unat now" "timer s i" now] ok that now bound by (auto simp: pc_ok0_def)
  have min0: "sc_min sc \<le> timeToFire (resched now (timer s 0))"
    using inv t0 by (simp add: scan_inv_def)
  then have min_le: "unat (sc_min sc) \<le> unat now + 0xffffffff" using t0_ttf by (simp add: word_le_nat_alt)
  have "unat (- 1 :: Bit64u) = 18446744073709551615"
    by (simp only: unsigned_minus_1_eq_mask) (simp add: mask_eq_exp_minus_1)
  then have min_gt: "unat now < unat (sc_min sc)"
    using inv each(1) now bound by (auto simp: scan_inv_def)
  then have "unat (sc_min sc - now) = unat (sc_min sc) - unat now" by (simp add: unat_sub word_le_nat_alt)
  then have cd': "unat (ucast (sc_min sc - now) :: Bit32u) = unat (sc_min sc) - unat now"
    using min_le by (simp only: unsigned_ucast_eq) (simp add: take_bit_eq_mod)
  have tt: "ticksTotal s' = now" by (simp add: s')
  show "timer s' = (\<lambda>i. if i < numTimers s then resched (ticksTotal s') (timer s i) else timer s i)"
    using tm by (simp only: tt)
  show "sc_triggered (snd (advance_period s)) = (\<lambda>i. i < numTimers s \<and> fires (ticksTotal s') (timer s i))"
    using inv by (simp add: s' scan_inv_def advance_period_def Let_def now_def [symmetric] sc_def [symmetric])
  show "unat (ticksTotal s') = period_end s" using now by (simp add: s')
  show "now_ticks s' = now_ticks s" using now cd by (simp add: s' now_ticks_def period_end_def)
  have "timer_ok (unat (sc_min sc)) (resched now (timer s i))" if "i < numTimers s" for i
    using inv each(2) [OF that] that by (auto simp: scan_inv_def timer_ok_def word_le_nat_alt)
  then show "pc_ok s'"
    using ok t0 t0_ttf min_gt tm cd' by (simp add: pc_ok_def pc_ok0_def s' period_end_def)
qed

subsection \<open>Timer operations keep the invariant and the time\<close>

text \<open>What a device may do to the timers from a callback or at any other moment.\<close>

lemma skew_simps [simp]:
  "timer (skew ticks s) = timer s" "numTimers (skew ticks s) = numTimers s" "ticksTotal (skew ticks s) = ticksTotal s"
  by (simp_all add: skew_def)

lemma skew_countdown:
  assumes "unat (currCountdown s) \<le> unat (currCountdownPeriod s)"
  shows "unat (currCountdown (skew ticks s)) = min (unat (currCountdown s)) (unat ticks)"
    "unat (currCountdownPeriod (skew ticks s)) =
       unat (currCountdownPeriod s) - (unat (currCountdown s) - min (unat (currCountdown s)) (unat ticks))"
proof -
  have "unat (currCountdown (skew ticks s)) = min (unat (currCountdown s)) (unat ticks) \<and>
    unat (currCountdownPeriod (skew ticks s)) =
       unat (currCountdownPeriod s) - (unat (currCountdown s) - min (unat (currCountdown s)) (unat ticks))"
  proof (cases "ticks < ucast (currCountdown s)")
    case True
    then have lt: "unat ticks < unat (currCountdown s)"
      by (simp add: word_less_nat_alt unat_ucast_up)
    moreover have "unat (currCountdown s) < 4294967296" using unat_less_exp [of "currCountdown s"] by simp
    ultimately have t: "unat (ucast ticks :: Bit32u) = unat ticks"
      by (simp only: unsigned_ucast_eq) (simp add: take_bit_eq_mod)
    have d: "unat (currCountdown s - ucast ticks) = unat (currCountdown s) - unat ticks"
      using lt t by (simp add: unat_sub word_le_nat_alt)
    have "unat (currCountdownPeriod s - (currCountdown s - ucast ticks)) =
        unat (currCountdownPeriod s) - (unat (currCountdown s) - unat ticks)"
      using assms lt d by (simp add: unat_sub word_le_nat_alt)
    with True lt t show ?thesis by (simp add: skew_def)
  next
    case False
    then have "unat (currCountdown s) \<le> unat ticks" by (simp add: word_less_nat_alt unat_ucast_up)
    with False assms show ?thesis by (simp add: skew_def)
  qed
  then show "unat (currCountdown (skew ticks s)) = min (unat (currCountdown s)) (unat ticks)"
    "unat (currCountdownPeriod (skew ticks s)) =
       unat (currCountdownPeriod s) - (unat (currCountdown s) - min (unat (currCountdown s)) (unat ticks))" by blast+
qed

lemma timer_ok_mono: "timer_ok d t \<Longrightarrow> d' \<le> d \<Longrightarrow> timer_ok d' t"
  by (auto simp: timer_ok_def)

text \<open>Scheduling a timer \<open>ticks\<close> from now and shortening the countdown when needed.\<close>

lemma schedule_ok:
  assumes ok: "pc_ok s" and now: "now_ticks s \<le> 2 ^ 62" and i: "0 < i"
    and t: "1 \<le> unat ticks" "unat ticks \<le> 2 ^ 62"
    and f: "timeToFire (f (timer s i)) = time_ticks s + ticks" "period (f (timer s i)) = ticks"
  shows "pc_ok (skew ticks (upd_timer i f s))" "now_ticks (skew ticks (upd_timer i f s)) = now_ticks s"
    "timer_ok (period_end (skew ticks (upd_timer i f s))) (f (timer s i))"
proof -
  let ?s1 = "upd_timer i f s"
  let ?s2 = "skew ticks ?s1"
  have ok0: "pc_ok0 s" and cd: "0 < unat (currCountdown s)" using ok by (auto simp: pc_ok_def)
  then have le: "unat (currCountdown ?s1) \<le> unat (currCountdownPeriod ?s1)" by (simp add: pc_ok0_def)
  note sk = skew_countdown [OF le, of ticks]
  have "unat (time_ticks s) = now_ticks s" using ok0 now by (intro unat_time_ticks) simp_all
  then have fire: "unat (timeToFire (f (timer s i))) = now_ticks s + unat ticks"
    using now t(2) f(1) by (simp add: unat_word_ariths)
  have e1: "period_end ?s2 \<le> now_ticks s + unat ticks" and e2: "period_end ?s2 \<le> period_end s"
    and n2: "now_ticks ?s2 = now_ticks s"
    using le sk by (simp_all add: period_end_def now_ticks_def)
  show "now_ticks ?s2 = now_ticks s" by (rule n2)
  show new: "timer_ok (period_end ?s2) (f (timer s i))"
    using e1 fire f(2) t now by (simp add: timer_ok_def)
  have "timer_ok (period_end ?s2) (timer ?s2 k)" if "k < numTimers s" for k
    using new ok0 that e2 timer_ok_mono [OF _ e2] by (auto simp: pc_ok0_def)
  moreover have "unat (currCountdown ?s2) \<le> unat (currCountdownPeriod ?s2)" "0 < unat (currCountdown ?s2)"
    using sk le cd t(1) by (simp_all add: min_def)
  ultimately show "pc_ok ?s2"
    using ok0 i by (simp add: pc_ok_def pc_ok0_def)
qed

lemma activate_timer_ticks_ok:
  assumes "pc_ok s" "now_ticks s \<le> 2 ^ 62" "0 < i" "unat ticks \<le> 2 ^ 62"
  shows "pc_ok (activate_timer_ticks i ticks c s)" "now_ticks (activate_timer_ticks i ticks c s) = now_ticks s"
proof -
  define tk where "tk = (if ticks < 1 then 1 else ticks)"
  have tk: "1 \<le> unat tk" "unat tk \<le> 2 ^ 62" using assms(4) by (auto simp: tk_def word_less_nat_alt)
  have "activate_timer_ticks i ticks c s = skew tk (upd_timer i (\<lambda>t. t\<lparr>period := tk, timeToFire := time_ticks s + tk,
       active := True, continuous := c\<rparr>) s)"
    by (simp add: activate_timer_ticks_def tk_def Let_def)
  with schedule_ok [OF assms(1-3) tk, of "\<lambda>t. t\<lparr>period := tk, timeToFire := time_ticks s + tk,
       active := True, continuous := c\<rparr>"]
  show "pc_ok (activate_timer_ticks i ticks c s)" "now_ticks (activate_timer_ticks i ticks c s) = now_ticks s" by simp_all
qed

lemma deactivate_timer_ok:
  assumes "pc_ok s" "0 < i"
  shows "pc_ok (deactivate_timer i s)" "now_ticks (deactivate_timer i s) = now_ticks s"
  using assms by (auto simp: pc_ok_def pc_ok0_def deactivate_timer_def period_end_def now_ticks_def timer_ok_def)

lemma unregisterTimer_ok:
  assumes "pc_ok s" "0 < i"
  shows "pc_ok (fst (unregisterTimer i s))" "now_ticks (fst (unregisterTimer i s)) = now_ticks s"
  using assms
  by (auto simp: pc_ok_def pc_ok0_def unregisterTimer_def period_end_def now_ticks_def timer_ok_def Let_def)

lemma free_slot_range: "i \<le> free_slot s i k" "free_slot s i k \<le> i + k"
  by (induction s i k rule: free_slot.induct) auto

lemma pc_ok_grow:
  assumes "pc_ok s" "numTimers s < 64" "timer_ok (period_end s) (timer s (numTimers s))"
  shows "pc_ok (s\<lparr>numTimers := numTimers s + 1\<rparr>)"
  using assms by (auto simp: pc_ok_def pc_ok0_def period_end_def less_Suc_eq)

lemma inactive_ok:
  assumes "pc_ok s" "0 < i" "\<not> active (f (timer s i))"
  shows "pc_ok (upd_timer i f s)" "timer_ok d (f (timer s i))"
  using assms by (auto simp: pc_ok_def pc_ok0_def period_end_def timer_ok_def)

lemma register_timer_ticks_ok:
  assumes ok: "pc_ok s" "now_ticks s \<le> 2 ^ 62" and tks: "unat ticks \<le> 2 ^ 62"
  shows "pc_ok (fst (register_timer_ticks h ticks c a s))" "now_ticks (fst (register_timer_ticks h ticks c a s)) = now_ticks s"
proof -
  define tk where "tk = (if ticks < 1 then 1 else ticks)"
  have tk: "1 \<le> unat tk" "unat tk \<le> 2 ^ 62" using tks by (auto simp: tk_def word_less_nat_alt)
  define i where "i = free_slot s 1 (numTimers s - 1)"
  have i: "0 < i" "i \<le> numTimers s"
    using free_slot_range [where s = s and i = 1 and k = "numTimers s - 1"] ok by (auto simp: i_def pc_ok_def pc_ok0_def)
  define f :: "pc_timer \<Rightarrow> pc_timer" where "f = (\<lambda>t. t\<lparr>inUse := True, period := tk, timeToFire := time_ticks s + tk,
                          active := a, continuous := c, funct := h, param := 0\<rparr>)"
  define s2 where "s2 = (if a then skew tk (upd_timer i f s) else upd_timer i f s)"
  have s2: "pc_ok s2" "now_ticks s2 = now_ticks s" "timer_ok (period_end s2) (timer s2 i)" "numTimers s2 = numTimers s"
    using schedule_ok [OF ok i(1) tk, of f] inactive_ok [OF ok(1) i(1), of f]
    by (auto simp: s2_def f_def now_ticks_def)
  have r: "fst (register_timer_ticks h ticks c a s) =
      (if numTimers s \<ge> 64 then s else if i = numTimers s then s2\<lparr>numTimers := numTimers s2 + 1\<rparr> else s2)"
    unfolding register_timer_ticks_def Let_def tk_def i_def f_def s2_def by (simp only: if_distrib [of fst] fst_conv)
  show "pc_ok (fst (register_timer_ticks h ticks c a s))"
    using ok s2 pc_ok_grow [OF s2(1)] by (auto simp: r)
  show "now_ticks (fst (register_timer_ticks h ticks c a s)) = now_ticks s"
    using s2(2) by (simp add: r now_ticks_def)
qed

subsection \<open>Callbacks\<close>

text \<open>
  The contract between the timer framework and the devices: a callback may use the timer
  operations, but it keeps the timer invariant and does not move the clock.
\<close>

locale timer_callbacks =
  fixes cb :: "'d callbacks" and limit :: nat
  assumes cb_ok: "pc_ok (snd ds) \<Longrightarrow> now_ticks (snd ds) \<le> limit \<Longrightarrow> pc_ok (snd (cb h ds))"
    and cb_time: "pc_ok (snd ds) \<Longrightarrow> now_ticks (snd ds) \<le> limit \<Longrightarrow> now_ticks (snd (cb h ds)) = now_ticks (snd ds)"
    and limit: "limit + 0x100000000 \<le> 2 ^ 62"
begin

lemma call_timer_ok:
  assumes "pc_ok (snd ds)" "now_ticks (snd ds) \<le> limit"
  shows "pc_ok (snd (call_timer cb tr i ds))" "now_ticks (snd (call_timer cb tr i ds)) = now_ticks (snd ds)"
proof -
  have frame: "pc_ok (s\<lparr>triggeredTimer := k\<rparr>) = pc_ok s" "now_ticks (s\<lparr>triggeredTimer := k\<rparr>) = now_ticks s" for s k
    by (simp_all add: pc_ok_def pc_ok0_def now_ticks_def period_end_def)
  show "pc_ok (snd (call_timer cb tr i ds))" "now_ticks (snd (call_timer cb tr i ds)) = now_ticks (snd ds)"
    using assms cb_ok [of "(fst ds, (snd ds)\<lparr>triggeredTimer := i\<rparr>)"] cb_time [of "(fst ds, (snd ds)\<lparr>triggeredTimer := i\<rparr>)"]
    by (auto simp: call_timer_def frame Let_def case_prod_beta split: option.split)
qed

lemma call_timers_ok:
  assumes "pc_ok (snd ds)" "now_ticks (snd ds) \<le> limit"
  shows "pc_ok (snd (fold (call_timer cb tr) is ds)) \<and> now_ticks (snd (fold (call_timer cb tr) is ds)) = now_ticks (snd ds)"
  using assms by (induction "is" arbitrary: ds) (simp_all add: call_timer_ok)

lemma countdownEvent_ok:
  assumes ok: "pc_ok0 s" "currCountdown s = 0" and time: "now_ticks s \<le> limit"
  shows "pc_ok (snd (countdownEvent cb (d, s)))" "now_ticks (snd (countdownEvent cb (d, s))) = now_ticks s"
proof -
  have "period_end s = now_ticks s" using ok(2) by (simp add: period_end_def now_ticks_def)
  then have "period_end s \<le> 2 ^ 62" using time limit by linarith
  note adv = advance_period_ok [OF ok this]
  obtain s1 sc where a: "advance_period s = (s1, sc)" by fastforce
  have "countdownEvent cb (d, s) = fold (call_timer cb (sc_triggered sc)) [sc_first sc..<sc_last sc + 1] (d, s1)"
    by (simp add: countdownEvent_def a)
  with call_timers_ok [of "(d, s1)"] adv(1,2) time a
  show "pc_ok (snd (countdownEvent cb (d, s)))" "now_ticks (snd (countdownEvent cb (d, s))) = now_ticks s" by simp_all
qed

lemma tickn_loop_returns:
  assumes "pc_ok (snd ds)" "now_ticks (snd ds) + unat n \<le> limit" "unat n < fuel"
  shows "\<exists>ds'. tickn_loop cb fuel n ds = Some ds' \<and> pc_ok (snd ds') \<and> now_ticks (snd ds') = now_ticks (snd ds) + unat n"
  using assms
proof (induction fuel arbitrary: n ds)
  case (Suc fuel)
  let ?s = "snd ds" and ?c = "currCountdown (snd ds)"
  have ok: "pc_ok0 ?s" "0 < unat ?c" using Suc.prems(1) by (auto simp: pc_ok_def)
  show ?case
  proof (cases "n \<ge> ?c")
    case True
    let ?z = "?s\<lparr>currCountdown := 0\<rparr>"
    have le: "unat ?c \<le> unat n" using True by (simp add: word_le_nat_alt)
    have "unat ?c \<le> unat (currCountdownPeriod ?s)" using ok(1) by (simp add: pc_ok0_def)
    then have "now_ticks ?s + unat ?c = period_end ?s" by (simp add: now_ticks_def period_end_def)
    moreover have "now_ticks ?z = period_end ?s" by (simp add: now_ticks_def period_end_def)
    moreover have "pc_ok0 ?z" using ok(1) by (simp add: pc_ok0_def period_end_def)
    ultimately have s0: "pc_ok0 ?z" "now_ticks ?z = now_ticks ?s + unat ?c" by simp_all
    have ev: "pc_ok (snd (countdownEvent cb (fst ds, ?z)))" "now_ticks (snd (countdownEvent cb (fst ds, ?z))) = now_ticks ?z"
      using countdownEvent_ok [OF s0(1)] s0(2) Suc.prems(2) le by auto
    have sub: "unat (n - ?c) = unat n - unat ?c" using le by (simp add: unat_sub word_le_nat_alt)
    with Suc.prems(2,3) le ok(2) s0(2) ev
    have "\<exists>ds'. tickn_loop cb fuel (n - ?c) (countdownEvent cb (fst ds, ?z)) = Some ds' \<and> pc_ok (snd ds') \<and>
        now_ticks (snd ds') = now_ticks (snd (countdownEvent cb (fst ds, ?z))) + unat (n - ?c)"
      by (intro Suc.IH) auto
    with True sub ev(2) s0(2) le show ?thesis by simp
  next
    case False
    then have lt: "unat n < unat ?c" by (simp add: word_le_nat_alt not_le)
    then have "unat (?c - n) = unat ?c - unat n" by (simp add: unat_sub word_le_nat_alt)
    with False lt ok show ?thesis
      by (auto simp: pc_ok_def pc_ok0_def period_end_def now_ticks_def)
  qed
qed simp

end

text \<open>The callbacks of the framework itself: the null timer does nothing, the benchmark timer asks to quit.\<close>

definition pc_callback :: "bool callbacks" where
  "pc_callback h ds =
     (if h = benchmarkTimer_id then (True, (snd ds)\<lparr>kill_bochs_request := True\<rparr>) else ds)"

interpretation pcb: timer_callbacks pc_callback "2 ^ 61"
proof
  fix ds :: "bool dev_state" and h
  assume "pc_ok (snd ds)"
  then show "pc_ok (snd (pc_callback h ds))" "now_ticks (snd (pc_callback h ds)) = now_ticks (snd ds)"
    by (simp_all add: pc_callback_def pc_ok_def pc_ok0_def now_ticks_def period_end_def)
qed simp

text \<open>
  C33: the clock. With callbacks that keep the timer contract, \<open>tickn n\<close> always returns, keeps the timer
  invariant, and advances \<open>time_ticks\<close> by exactly \<open>n\<close>, however many countdown events
  and callbacks run on the way.
\<close>

theorem tickn_advances_time:
  assumes "timer_callbacks cb limit" and "pc_ok s" "now_ticks s + unat n \<le> limit"
  shows "\<exists>d' s'. tickn cb n (d, s) = Some (d', s') \<and> pc_ok s' \<and> unat (time_ticks s') = unat (time_ticks s) + unat n"
proof -
  from timer_callbacks.tickn_loop_returns [OF assms(1), of "(d, s)" n "unat n + 1"] assms(2,3)
  obtain d' s' where r: "tickn cb n (d, s) = Some (d', s')" "pc_ok s'" "now_ticks s' = now_ticks s + unat n"
    by (auto simp: tickn_def)
  have "limit + 0x100000000 \<le> 2 ^ 62" using assms(1) by (simp add: timer_callbacks_def)
  then have b: "now_ticks s < 2 ^ 63" "now_ticks s' < 2 ^ 63" using assms(3) r(3) by simp_all
  then have "unat (time_ticks s') = now_ticks s'" "unat (time_ticks s) = now_ticks s"
    using unat_time_ticks assms(2) r(2) by (auto simp: pc_ok_def)
  with r show ?thesis by auto
qed

definition wit_pc :: pc_system where
  "wit_pc = fst (register_timer (Some benchmarkTimer_id) 5 False True (initialize (bx_pc_system_c
     \<lparr>timer = (\<lambda>_. \<lparr>inUse = False, period = 0, timeToFire = 0, active = False, continuous = False, funct = None, param = 0\<rparr>),
      numTimers = 0, triggeredTimer = 0, currCountdown = 0, currCountdownPeriod = 0, ticksTotal = 0, lastTimeUsec = 0,
      usecSinceLast = 0, HRQ = False, kill_bochs_request = False\<rparr>)))"

lemma initialize_ok: "pc_ok (initialize (bx_pc_system_c s))"
  by (auto simp: pc_ok_def pc_ok0_def timer_ok_def period_end_def initialize_def bx_pc_system_c_def)

theorem tickn_advances_time_witness:
  "\<exists>d' s'. tickn pc_callback 7 (False, wit_pc) = Some (d', s') \<and> unat (time_ticks s') = unat (time_ticks wit_pc) + 7"
proof -
  have "pc_ok wit_pc" unfolding wit_pc_def register_timer_def
    by (rule register_timer_ticks_ok) (simp_all add: initialize_ok, simp add: now_ticks_def initialize_def)
  moreover have "now_ticks wit_pc = 0"
    unfolding wit_pc_def register_timer_def
    by (subst register_timer_ticks_ok) (simp_all add: initialize_ok, simp_all add: now_ticks_def initialize_def)
  ultimately show ?thesis
    using tickn_advances_time [OF pcb.timer_callbacks_axioms, of wit_pc 7 False] by auto
qed


lemma wit_pc_fields:
  "currCountdownPeriod wit_pc = 5" "ticksTotal wit_pc = 0" "numTimers wit_pc = 2"
  "active (timer wit_pc 1)" "timeToFire (timer wit_pc 1) = 5"
  by (simp_all add: wit_pc_def register_timer_def register_timer_ticks_def initialize_def bx_pc_system_c_def skew_def
      time_ticks_def Let_def)


subsection \<open>Sequential time\<close>

lemma usec_seq_arith:
  assumes "time_usec_sequential t s = (s', r)" "unat t + unat (usecSinceLast s) + 2 < 2 ^ 64"
  shows "lastTimeUsec s' = t" "unat r = unat t + unat (usecSinceLast s')" "unat (usecSinceLast s') \<le> unat (usecSinceLast s) + 1"
    "unat (usecSinceLast s') = (if t = lastTimeUsec s then unat (usecSinceLast s) + 1
       else unat (usecSinceLast s) - unat (t - lastTimeUsec s) + 1)"
proof -
  let ?u = "usecSinceLast s" and ?d = "t - lastTimeUsec s"
  have sub: "unat (?u - ?d) = unat ?u - unat ?d" if "?d < ?u" using that by (simp add: unat_sub)
  have inc: "unat (w + 1) = unat w + 1" if "unat w + 1 < 2 ^ 64" for w :: Bit64u
    using that by (simp add: unat_word_ariths)
  have s': "lastTimeUsec s' = t" "usecSinceLast s' = (if t = lastTimeUsec s then ?u else if ?d \<ge> ?u then 0 else ?u - ?d) + 1"
    "r = t + usecSinceLast s'"
    using assms(1) by (auto simp: time_usec_sequential_def Let_def split: if_splits)
  show "lastTimeUsec s' = t" by (rule s')
  show u: "unat (usecSinceLast s') = (if t = lastTimeUsec s then unat ?u + 1 else unat ?u - unat ?d + 1)"
    using assms(2) sub inc [of ?u] inc [of "?u - ?d"] by (auto simp: s'(2) word_le_nat_alt not_le word_less_nat_alt)
  then show le: "unat (usecSinceLast s') \<le> unat ?u + 1" by simp
  have "unat t + unat (usecSinceLast s') < 2 ^ 64" using assms(2) le by linarith
  then show "unat r = unat t + unat (usecSinceLast s')"
    by (simp add: s'(3) unat_word_ariths)
qed

text \<open>
  Sequential time: two successive readings of the sequential microsecond clock, of which the second is not
  taken at an earlier time, always return strictly increasing values, even inside one
  microsecond and after readings that ran ahead of the clock.
\<close>

lemma time_usec_sequential_increases:
  assumes r1: "time_usec_sequential t1 s = (s1, v1)" and r2: "time_usec_sequential t2 s1 = (s2, v2)"
    and le: "t1 \<le> t2" and bound: "unat t2 + unat (usecSinceLast s) + 3 < 2 ^ 64"
  shows "v1 < v2"
proof -
  have le': "unat t1 \<le> unat t2" using le by (simp add: word_le_nat_alt)
  have b1: "unat t1 + unat (usecSinceLast s) + 2 < 2 ^ 64" using bound le' by linarith
  note a1 = usec_seq_arith [OF r1 b1]
  have b2: "unat t2 + unat (usecSinceLast s1) + 2 < 2 ^ 64" using bound a1(3) by linarith
  note a2 = usec_seq_arith [OF r2 b2]
  have d: "unat (t2 - t1) = unat t2 - unat t1" using le by (simp add: unat_sub)
  have v: "unat v1 = unat t1 + unat (usecSinceLast s1)" "unat v2 = unat t2 + unat (usecSinceLast s2)"
    by (rule a1(2), rule a2(2))
  have u: "unat (usecSinceLast s2) = (if t2 = t1 then unat (usecSinceLast s1) + 1
    else unat (usecSinceLast s1) - (unat t2 - unat t1) + 1)"
    using a2(4) by (simp only: a1(1) d)
  have "unat v1 < unat v2"
  proof (cases "t2 = t1")
    case True
    then show ?thesis unfolding v u by simp
  next
    case False
    then show ?thesis unfolding v u using le' by simp
  qed
  then show ?thesis by (simp add: word_less_nat_alt)
qed

end
