(* ===== verification/Pic.thy ===== *)
theory Pic
  imports Prelude
begin

text \<open>
  The pair of 8259 interrupt controllers, \<^verbatim>\<open>bochs/iodev/pic.cc\<close> and \<^verbatim>\<open>bochs/iodev/pic.h\<close>. One
  \<open>bx_pic_t\<close> per chip; the INT pin of the slave drives input 2 of the master and the INT pin of
  the master drives the INTR line of the processor, the field \<open>INTR\<close> here. The calls that forward
  an interrupt line to the I/O APIC are recorded in \<open>ioapic_levels\<close>, and a \<open>BX_PANIC\<close>, after which
  the code goes on, in \<open>pic_panics\<close>. The register bytes keep their width; \<open>irq\<close>,
  \<open>lowest_priority\<close> and \<open>byte_expected\<close>, which the code only compares and counts, are numbers.
\<close>

record bx_pic_t =
  single_PIC :: Bit8u
  interrupt_offset :: Bit8u
  slave_connect_mask :: Bit8u
  sfnm :: Bit8u
  buffered_mode :: Bit8u
  master_slave :: Bit8u
  auto_eoi :: bool
  imr :: Bit8u
  isr :: Bit8u
  irr :: Bit8u
  read_reg_select :: bool
  irq :: nat
  lowest_priority :: nat
  INT_pin :: bool
  IRQ_in :: Bit8u
  in_init :: bool
  requires_4 :: bool
  byte_expected :: nat
  special_mask :: bool
  polled :: bool
  rotate_on_autoeoi :: bool
  edge_level :: Bit8u

datatype pic_panic = SingleMode | LevelMode | BadOCW2 Bit32u | BadInit | Not8086 | BadRead

record bx_pic_c =
  master_pic :: bx_pic_t
  slave_pic :: bx_pic_t
  INTR :: bool
  ioapic_present :: bool
  ioapic_levels :: "(nat \<times> bool) list"
  pic_panics :: "pic_panic list"

abbreviation upd_master :: "(bx_pic_t \<Rightarrow> bx_pic_t) \<Rightarrow> bx_pic_c \<Rightarrow> bx_pic_c" where
  "upd_master f s \<equiv> s\<lparr>master_pic := f (master_pic s)\<rparr>"

abbreviation upd_slave :: "(bx_pic_t \<Rightarrow> bx_pic_t) \<Rightarrow> bx_pic_c \<Rightarrow> bx_pic_c" where
  "upd_slave f s \<equiv> s\<lparr>slave_pic := f (slave_pic s)\<rparr>"

definition panic_at :: "pic_panic \<Rightarrow> bx_pic_c \<Rightarrow> bx_pic_c" where
  "panic_at p s = s\<lparr>pic_panics := pic_panics s @ [p]\<rparr>"

subsection \<open>Operations\<close>

definition init_chip :: "Bit8u \<Rightarrow> Bit8u \<Rightarrow> Bit8u \<Rightarrow> bx_pic_t" where
  "init_chip offset connect ms = \<lparr>single_PIC = 0, interrupt_offset = offset, slave_connect_mask = connect,
     sfnm = 0, buffered_mode = 0, master_slave = ms, auto_eoi = False, imr = 0xFF, isr = 0, irr = 0,
     read_reg_select = False, irq = 0, lowest_priority = 7, INT_pin = False, IRQ_in = 0, in_init = False,
     requires_4 = False, byte_expected = 0, special_mask = False, polled = False,
     rotate_on_autoeoi = False, edge_level = 0\<rparr>"

definition init :: "bx_pic_c \<Rightarrow> bx_pic_c" where
  "init s = s\<lparr>master_pic := init_chip 0x08 0x04 1, slave_pic := init_chip 0x70 0x02 0\<rparr>"

text \<open>The step every loop over the eight inputs takes: one up, and from 7 back to 0.\<close>

definition next_irq :: "nat \<Rightarrow> nat" where
  "next_irq i = (if i + 1 > 7 then 0 else i + 1)"

text \<open>
  \<open>clear_highest_interrupt\<close>: the \<open>do\<close> loop, with the number of rounds left. Eight rounds bring
  the index back to where it started, which ends the loop.
\<close>

fun clear_loop :: "nat \<Rightarrow> nat \<Rightarrow> nat \<Rightarrow> bx_pic_t \<Rightarrow> bx_pic_t" where
  "clear_loop 0 i hp pic = pic"
| "clear_loop (Suc k) i hp pic =
     (if bit (isr pic) i then pic\<lparr>isr := unset_bit i (isr pic)\<rparr>
      else if next_irq i = hp then pic
      else clear_loop k (next_irq i) hp pic)"

definition clear_highest_interrupt :: "bx_pic_t \<Rightarrow> bx_pic_t" where
  "clear_highest_interrupt pic = (let hp = next_irq (lowest_priority pic) in clear_loop 8 hp hp pic)"

text \<open>
  The two loops of \<open>service_master_pic\<close>: the search for the first input in service, and the
  search for the first request before it.
\<close>

fun in_service_loop :: "nat \<Rightarrow> Bit8u \<Rightarrow> nat \<Rightarrow> nat" where
  "in_service_loop 0 sv m = m"
| "in_service_loop (Suc k) sv m = (if bit sv m then m else in_service_loop k sv (next_irq m))"

fun request_loop :: "nat \<Rightarrow> bool \<Rightarrow> Bit8u \<Rightarrow> Bit8u \<Rightarrow> nat \<Rightarrow> nat \<Rightarrow> nat option" where
  "request_loop 0 special sv reqs i max_irq = None"
| "request_loop (Suc k) special sv reqs i max_irq =
     (if \<not> (special \<and> bit sv i) \<and> bit reqs i then Some i
      else if next_irq i = max_irq then None
      else request_loop k special sv reqs (next_irq i) max_irq)"

text \<open>
  The request a chip signals, if any; both service functions have this body. Their panic for an
  index above 7 is left out: the loop before it wraps at 7 (\<open>next_irq_less\<close> below).
\<close>

definition select_irq :: "bx_pic_t \<Rightarrow> nat option" where
  "select_irq pic =
     (let highest_priority = next_irq (lowest_priority pic);
          max_irq = (if special_mask pic then highest_priority
                     else if isr pic \<noteq> 0 then in_service_loop 8 (isr pic) highest_priority
                     else highest_priority);
          unmasked_requests = irr pic AND NOT (imr pic)
      in if INT_pin pic then None
         else if \<not> special_mask pic \<and> isr pic \<noteq> 0 \<and> max_irq = highest_priority then None
         else if unmasked_requests \<noteq> 0
           then request_loop 8 (special_mask pic) (isr pic) unmasked_requests highest_priority max_irq
         else None)"

definition raise_INTR :: "bx_pic_c \<Rightarrow> bx_pic_c" where
  "raise_INTR s = s\<lparr>INTR := True\<rparr>"

definition clear_INTR :: "bx_pic_c \<Rightarrow> bx_pic_c" where
  "clear_INTR s = s\<lparr>INTR := False\<rparr>"

definition service_master_pic :: "bx_pic_c \<Rightarrow> bx_pic_c" where
  "service_master_pic s =
     (case select_irq (master_pic s) of
        None \<Rightarrow> s
      | Some i \<Rightarrow> raise_INTR (upd_master (\<lambda>m. m\<lparr>INT_pin := True, irq := i\<rparr>) s))"

definition ioapic_set_irq_level :: "nat \<Rightarrow> bool \<Rightarrow> bx_pic_c \<Rightarrow> bx_pic_c" where
  "ioapic_set_irq_level n level s =
     (if ioapic_present s \<and> n \<noteq> 2 then s\<lparr>ioapic_levels := ioapic_levels s @ [(n, level)]\<rparr> else s)"

definition raise_line :: "Bit8u \<Rightarrow> bx_pic_t \<Rightarrow> bx_pic_t" where
  "raise_line msk pic = pic\<lparr>IRQ_in := IRQ_in pic OR msk, irr := irr pic OR msk\<rparr>"

definition lower_line :: "Bit8u \<Rightarrow> bx_pic_t \<Rightarrow> bx_pic_t" where
  "lower_line msk pic = pic\<lparr>IRQ_in := IRQ_in pic AND NOT msk, irr := irr pic AND NOT msk\<rparr>"

text \<open>
  \<open>raise_irq\<close> and \<open>service_slave_pic\<close> call each other: the slave asks for input 2 of the master,
  which is not one of its own, so the recursion is one level deep and is written out.
\<close>

definition raise_master :: "nat \<Rightarrow> bx_pic_c \<Rightarrow> bx_pic_c" where
  "raise_master irq_no s =
     (let msk = push_bit (irq_no mod 8) 1 in
      if IRQ_in (master_pic s) AND msk = 0 then service_master_pic (upd_master (raise_line msk) s) else s)"

definition service_slave_pic :: "bx_pic_c \<Rightarrow> bx_pic_c" where
  "service_slave_pic s =
     (case select_irq (slave_pic s) of
        None \<Rightarrow> s
      | Some i \<Rightarrow> raise_master 2 (ioapic_set_irq_level 2 True (upd_slave (\<lambda>m. m\<lparr>INT_pin := True, irq := i\<rparr>) s)))"

definition raise_irq :: "nat \<Rightarrow> bx_pic_c \<Rightarrow> bx_pic_c" where
  "raise_irq irq_no s0 =
     (let s = ioapic_set_irq_level irq_no True s0; msk = push_bit (irq_no mod 8) 1 in
      if irq_no \<le> 7 then raise_master irq_no s
      else if irq_no \<le> 15 \<and> IRQ_in (slave_pic s) AND msk = 0
        then service_slave_pic (upd_slave (raise_line msk) s)
      else s)"

definition lower_irq :: "nat \<Rightarrow> bx_pic_c \<Rightarrow> bx_pic_c" where
  "lower_irq irq_no s0 =
     (let s = ioapic_set_irq_level irq_no False s0; msk = push_bit (irq_no mod 8) 1 in
      if irq_no \<le> 7 \<and> IRQ_in (master_pic s) AND msk \<noteq> 0 then upd_master (lower_line msk) s
      else if 7 < irq_no \<and> irq_no \<le> 15 \<and> IRQ_in (slave_pic s) AND msk \<noteq> 0 then upd_slave (lower_line msk) s
      else s)"

definition set_mode :: "bool \<Rightarrow> Bit8u \<Rightarrow> bx_pic_c \<Rightarrow> bx_pic_c" where
  "set_mode ma_sl mode s =
     (if ma_sl then upd_master (\<lambda>m. m\<lparr>edge_level := mode\<rparr>) s else upd_slave (\<lambda>m. m\<lparr>edge_level := mode\<rparr>) s)"

text \<open>The acknowledge cycle of one chip: the request becomes an input in service.\<close>

definition ack_chip :: "bx_pic_t \<Rightarrow> bx_pic_t" where
  "ack_chip pic0 =
     (let pic = (if bit (edge_level pic0) (irq pic0) then pic0
                 else pic0\<lparr>irr := unset_bit (irq pic0) (irr pic0)\<rparr>)
      in if \<not> auto_eoi pic then pic\<lparr>isr := set_bit (irq pic) (isr pic)\<rparr>
         else if rotate_on_autoeoi pic then pic\<lparr>lowest_priority := irq pic\<rparr>
         else pic)"

definition IAC :: "bx_pic_c \<Rightarrow> bx_pic_c \<times> Bit8u" where
  "IAC s0 =
     (let s1 = upd_master (\<lambda>m. m\<lparr>INT_pin := False\<rparr>) (clear_INTR s0) in
      if irr (master_pic s1) = 0 then (s1, interrupt_offset (master_pic s1) + 7)
      else let s2 = upd_master ack_chip s1 in
        if irq (master_pic s2) \<noteq> 2
        then (service_master_pic s2, of_nat (irq (master_pic s2)) + interrupt_offset (master_pic s2))
        else let s3 = upd_master (\<lambda>m. m\<lparr>IRQ_in := unset_bit 2 (IRQ_in m)\<rparr>)
                        (upd_slave (\<lambda>m. m\<lparr>INT_pin := False\<rparr>) s2) in
          if irr (slave_pic s3) = 0 then (s3, interrupt_offset (slave_pic s3) + 7)
          else (service_master_pic (service_slave_pic (upd_slave ack_chip s3)),
                of_nat (irq (slave_pic s3)) + interrupt_offset (slave_pic s3)))"

subsection \<open>The I/O ports\<close>

definition read_irq :: "bx_pic_t \<Rightarrow> nat \<Rightarrow> Bit32u" where
  "read_irq pic io_len =
     (if io_len = 1 then of_nat (irq pic) else push_bit 8 (of_nat (irq pic)) OR of_nat (irq pic))"

definition read :: "Bit32u \<Rightarrow> nat \<Rightarrow> bx_pic_c \<Rightarrow> bx_pic_c \<times> Bit32u" where
  "read address io_len s =
     (if (address = 0x20 \<or> address = 0x21) \<and> polled (master_pic s)
      then let s' = service_master_pic (upd_master (\<lambda>m. (clear_highest_interrupt m)\<lparr>polled := False\<rparr>) s)
           in (s', read_irq (master_pic s') io_len)
      else if (address = 0xa0 \<or> address = 0xa1) \<and> polled (slave_pic s)
      then let s' = service_slave_pic (upd_slave (\<lambda>m. (clear_highest_interrupt m)\<lparr>polled := False\<rparr>) s)
           in (s', read_irq (slave_pic s') io_len)
      else if address = 0x20
        then (s, ucast (if read_reg_select (master_pic s) then isr (master_pic s) else irr (master_pic s)))
      else if address = 0x21 then (s, ucast (imr (master_pic s)))
      else if address = 0xA0
        then (s, ucast (if read_reg_select (slave_pic s) then isr (slave_pic s) else irr (slave_pic s)))
      else if address = 0xA1 then (s, ucast (imr (slave_pic s)))
      else (panic_at BadRead s, 0))"

text \<open>The first initialisation command, on the chip it is written to, with its two panics.\<close>

definition icw1_chip :: "Bit32u \<Rightarrow> bx_pic_t \<Rightarrow> bx_pic_t" where
  "icw1_chip val pic = pic\<lparr>in_init := True, requires_4 := bit val 0, byte_expected := 2, imr := 0, isr := 0,
     irr := 0, lowest_priority := 7, INT_pin := False, auto_eoi := False, rotate_on_autoeoi := False\<rparr>"

definition icw1_panics :: "Bit32u \<Rightarrow> bx_pic_c \<Rightarrow> bx_pic_c" where
  "icw1_panics val s =
     (let s1 = (if bit val 1 then panic_at SingleMode s else s)
      in if bit val 3 then panic_at LevelMode s1 else s1)"

text \<open>The third operation command: what it sets on the chip, and whether the chip is served.\<close>

definition ocw3_chip :: "Bit32u \<Rightarrow> bx_pic_t \<Rightarrow> bx_pic_t" where
  "ocw3_chip val pic0 =
     (let special = drop_bit 5 (val AND 0x60); read_op = val AND 0x03 in
      if bit val 2 then pic0\<lparr>polled := True\<rparr>
      else let pic = (if read_op = 2 then pic0\<lparr>read_reg_select := False\<rparr>
                      else if read_op = 3 then pic0\<lparr>read_reg_select := True\<rparr> else pic0)
           in if special = 2 then pic\<lparr>special_mask := False\<rparr>
              else if special = 3 then pic\<lparr>special_mask := True\<rparr> else pic)"

definition ocw3_serves :: "Bit32u \<Rightarrow> bool" where
  "ocw3_serves val \<longleftrightarrow> \<not> bit val 2 \<and> drop_bit 5 (val AND 0x60) = 3"

text \<open>The second operation command: the chip after it and whether it is served; no result is a panic.\<close>

definition ocw2_chip :: "Bit32u \<Rightarrow> bx_pic_t \<Rightarrow> (bx_pic_t \<times> bool) option" where
  "ocw2_chip val pic =
     (if val = 0x00 \<or> val = 0x80 then Some (pic\<lparr>rotate_on_autoeoi := (val \<noteq> 0)\<rparr>, False)
      else if val = 0xA0 \<or> val = 0x20
        then let pic1 = clear_highest_interrupt pic
             in Some (if val = 0xA0 then pic1\<lparr>lowest_priority := next_irq (lowest_priority pic1)\<rparr> else pic1, True)
      else if val = 0x40 then Some (pic, False)
      else if 0x60 \<le> val \<and> val \<le> 0x67
        then Some (pic\<lparr>isr := unset_bit (unat (val - 0x60)) (isr pic)\<rparr>, True)
      else if 0xC0 \<le> val \<and> val \<le> 0xC7 then Some (pic\<lparr>lowest_priority := unat (val - 0xC0)\<rparr>, False)
      else if 0xE0 \<le> val \<and> val \<le> 0xE7
        then Some (pic\<lparr>isr := unset_bit (unat (val - 0xE0)) (isr pic), lowest_priority := unat (val - 0xE0)\<rparr>, True)
      else if val = 0x02 then Some (pic, False)
      else None)"

text \<open>
  The data port. Inside an initialisation sequence the byte is the command expected and the
  result says whether the code returns at once; otherwise it is the new mask.
\<close>

definition icw_chip :: "Bit32u \<Rightarrow> bx_pic_t \<Rightarrow> bx_pic_t \<times> pic_panic option \<times> bool" where
  "icw_chip val pic =
     (if byte_expected pic = 2
        then (pic\<lparr>interrupt_offset := ucast (val AND 0xf8), byte_expected := 3\<rparr>, None, True)
      else if byte_expected pic = 3
        then (if requires_4 pic then pic\<lparr>byte_expected := 4\<rparr> else pic\<lparr>in_init := False\<rparr>, None, True)
      else if byte_expected pic = 4
        then (pic\<lparr>auto_eoi := bit val 1, in_init := False\<rparr>, if bit val 0 then None else Some Not8086, True)
      else (pic, Some BadInit, False))"

definition write_master_cmd :: "Bit32u \<Rightarrow> bx_pic_c \<Rightarrow> bx_pic_c" where
  "write_master_cmd val s =
     (if bit val 4 then clear_INTR (icw1_panics val (upd_master (icw1_chip val) s))
      else if val AND 0x18 = 0x08
        then (if ocw3_serves val then service_master_pic else id) (upd_master (ocw3_chip val) s)
      else case ocw2_chip val (master_pic s) of
             None \<Rightarrow> panic_at (BadOCW2 val) s
           | Some (m, serve) \<Rightarrow> (if serve then service_master_pic else id) (s\<lparr>master_pic := m\<rparr>))"

definition write_slave_cmd :: "Bit32u \<Rightarrow> bx_pic_c \<Rightarrow> bx_pic_c" where
  "write_slave_cmd val s =
     (if bit val 4
        then icw1_panics val (upd_master (\<lambda>m. m\<lparr>IRQ_in := unset_bit 2 (IRQ_in m)\<rparr>) (upd_slave (icw1_chip val) s))
      else if val AND 0x18 = 0x08
        then (if ocw3_serves val then service_slave_pic else id) (upd_slave (ocw3_chip val) s)
      else case ocw2_chip val (slave_pic s) of
             None \<Rightarrow> panic_at (BadOCW2 val) s
           | Some (m, serve) \<Rightarrow> (if serve then service_slave_pic else id) (s\<lparr>slave_pic := m\<rparr>))"

definition panic_opt :: "pic_panic option \<Rightarrow> bx_pic_c \<Rightarrow> bx_pic_c" where
  "panic_opt p s = (case p of None \<Rightarrow> s | Some e \<Rightarrow> panic_at e s)"

definition write_master_data :: "Bit32u \<Rightarrow> bx_pic_c \<Rightarrow> bx_pic_c" where
  "write_master_data val s =
     (let (m, p, ret) = (if in_init (master_pic s) then icw_chip val (master_pic s) else (master_pic s, None, False));
          s1 = panic_opt p (s\<lparr>master_pic := m\<rparr>)
      in if ret then s1 else service_master_pic (upd_master (\<lambda>m. m\<lparr>imr := ucast val\<rparr>) s1))"

definition write_slave_data :: "Bit32u \<Rightarrow> bx_pic_c \<Rightarrow> bx_pic_c" where
  "write_slave_data val s =
     (let (m, p, ret) = (if in_init (slave_pic s) then icw_chip val (slave_pic s) else (slave_pic s, None, False));
          s1 = panic_opt p (s\<lparr>slave_pic := m\<rparr>)
      in if ret then s1 else service_slave_pic (upd_slave (\<lambda>m. m\<lparr>imr := ucast val\<rparr>) s1))"

definition pic_write :: "Bit32u \<Rightarrow> Bit32u \<Rightarrow> bx_pic_c \<Rightarrow> bx_pic_c" where
  "pic_write address val s =
     (if address = 0x20 then write_master_cmd val s
      else if address = 0x21 then write_master_data val s
      else if address = 0xA0 then write_slave_cmd val s
      else if address = 0xA1 then write_slave_data val s
      else s)"

end
