(* ===== verification/PicProps.thy ===== *)
theory PicProps
  imports Pic
begin

text \<open>
  Properties of the interrupt controllers: the loops as searches in the rotating priority
  order, priority resolution against its specification, the invariant of every reachable
  state, the delivery of an interrupt from its line to the acknowledge cycle, and the
  interface \<open>irq_lines\<close> through which devices use the controllers.
\<close>

subsection \<open>The loops as searches in priority order\<close>

text \<open>
  Inputs are served in the order \<open>hp\<close>, \<open>hp + 1\<close>, ..., wrapping at 7. Each loop is the first hit of
  a search along that order, and its eight rounds are enough for every start and every stop.
\<close>

abbreviation pos :: "nat \<Rightarrow> nat \<Rightarrow> nat" where
  "pos hp d \<equiv> (hp + d) mod 8"

definition rank :: "nat \<Rightarrow> nat \<Rightarrow> nat" where
  "rank lowest i = (i + 7 - lowest) mod 8"

lemma next_irq_less [simp, intro]: "next_irq i < 8"
  by (simp add: next_irq_def)

lemma next_irq_pos: "next_irq (pos hp d) = pos hp (Suc d)"
proof -
  have "next_irq x = Suc x mod 8" if "x < 8" for x using that by (auto simp: next_irq_def mod_Suc)
  then show ?thesis by (simp add: mod_Suc_eq)
qed

lemma next_irq_lowest: "l \<le> 7 \<Longrightarrow> next_irq l = pos l 1"
  by (auto simp: next_irq_def mod_Suc)

lemma mod8: "x < 16 \<Longrightarrow> x mod 8 = (if x < 8 then x else x - 8)" for x :: nat
  by (simp add: le_mod_geq)

lemma next_irq_cases: "l \<le> 7 \<Longrightarrow> next_irq l = (if l = 7 then 0 else l + 1)"
  by (simp add: next_irq_def)

lemma pos_inj:
  assumes "d < 8" "e < 8" "pos hp d = pos hp e"
  shows "d = e"
proof -
  have "(hp mod 8 + d) mod 8 = (hp mod 8 + e) mod 8" using assms(3) by (simp add: mod_add_left_eq)
  moreover have "hp mod 8 < 8" by simp
  ultimately show ?thesis using assms(1,2) mod8 [of "hp mod 8 + d"] mod8 [of "hp mod 8 + e"]
    by (simp split: if_splits)
qed

lemma rank_pos: "l \<le> 7 \<Longrightarrow> d < 8 \<Longrightarrow> rank l (pos (next_irq l) d) = d"
  using mod8 [of "l + 1 + d"] by (auto simp: rank_def next_irq_cases mod8)

lemma pos_rank: "l \<le> 7 \<Longrightarrow> i < 8 \<Longrightarrow> pos (next_irq l) (rank l i) = i"
  using mod8 [of "i + 7 - l"] by (auto simp: rank_def next_irq_cases mod8)

lemma rank_less [simp]: "rank l i < 8"
  by (simp add: rank_def)

lemma find_upt_step:
  "a < b \<Longrightarrow> find P (map f [a..<b]) = (if P (f a) then Some (f a) else find P (map f [Suc a..<b]))"
  by (simp add: upt_conv_Cons)

lemma request_loop_find:
  assumes "d < e" "e \<le> d + k" "e \<le> 8"
  shows "request_loop k sp sv rq (pos hp d) (pos hp e)
    = find (\<lambda>i. \<not> (sp \<and> bit sv i) \<and> bit rq i) (map (pos hp) [d..<e])"
  using assms
proof (induction k arbitrary: d)
  case (Suc k)
  show ?case
  proof (cases "Suc d = e")
    case True
    then show ?thesis by (simp add: next_irq_pos find_upt_step)
  next
    case False
    have "Suc d \<noteq> e mod 8" using False Suc.prems by (cases "e = 8") simp_all
    then have ne: "pos hp (Suc d) \<noteq> pos hp e"
      using False Suc.prems pos_inj [of "Suc d" "e mod 8" hp] by (auto simp: mod_add_right_eq)
    show ?thesis using Suc.prems False ne Suc.IH [of "Suc d"]
      by (auto simp: next_irq_pos find_upt_step [of d e])
  qed
qed simp

lemma clear_loop_find:
  assumes "hp < 8" "d < 8" "8 \<le> d + k"
  shows "clear_loop k (pos hp d) hp pic =
    (case find (bit (isr pic)) (map (pos hp) [d..<8]) of None \<Rightarrow> pic | Some i \<Rightarrow> pic\<lparr>isr := unset_bit i (isr pic)\<rparr>)"
  using assms
proof (induction k arbitrary: d)
  case (Suc k)
  show ?case
  proof (cases "d = 7")
    case True
    have "next_irq (pos hp 7) = hp" using Suc.prems(1) next_irq_pos [of hp 7] by simp
    then show ?thesis using True by (simp add: find_upt_step)
  next
    case False
    then have "pos hp (Suc d) \<noteq> hp" using Suc.prems pos_inj [of "Suc d" 0 hp] by auto
    then show ?thesis using Suc.prems False Suc.IH [of "Suc d"] by (simp add: next_irq_pos find_upt_step)
  qed
qed simp

lemma in_service_loop_find:
  assumes "d < 8" "8 \<le> d + k" "find (bit sv) (map (pos hp) [d..<8]) = Some m"
  shows "in_service_loop k sv (pos hp d) = m"
  using assms
proof (induction k arbitrary: d)
  case (Suc k)
  show ?case
  proof (cases "bit sv (pos hp d)")
    case True
    then show ?thesis using Suc.prems find_upt_step [of d 8 "bit sv" "pos hp"] by simp
  next
    case False
    then have f: "find (bit sv) (map (pos hp) [Suc d..<8]) = Some m"
      using Suc.prems find_upt_step [of d 8 "bit sv" "pos hp"] by simp
    moreover from f have "Suc d < 8" by (cases "Suc d < 8") auto
    ultimately show ?thesis using Suc.prems False Suc.IH [of "Suc d"] by (simp add: next_irq_pos)
  qed
qed simp

lemma find_pos_None:
  assumes "l \<le> 7" "e \<le> 8"
  shows "find P (map (pos (next_irq l)) [0..<e]) = None \<longleftrightarrow> (\<forall>j<8. rank l j < e \<longrightarrow> \<not> P j)"
proof -
  have "find P (map (pos (next_irq l)) [0..<e]) = None \<longleftrightarrow> (\<forall>d<e. \<not> P (pos (next_irq l) d))"
    by (auto simp: find_None_iff)
  also have "\<dots> \<longleftrightarrow> (\<forall>j<8. rank l j < e \<longrightarrow> \<not> P j)" (is "?L \<longleftrightarrow> ?R")
  proof
    assume ?L then show ?R using pos_rank [OF assms(1)] by metis
  next
    assume R: ?R
    show ?L
    proof (intro allI impI)
      fix d assume "d < e"
      then show "\<not> P (pos (next_irq l) d)" using R rank_pos [OF assms(1), of d] assms(2) by simp
    qed
  qed
  finally show ?thesis .
qed

lemma find_pos_Some:
  assumes "l \<le> 7" "e \<le> 8"
  shows "find P (map (pos (next_irq l)) [0..<e]) = Some i \<longleftrightarrow>
    i < 8 \<and> rank l i < e \<and> P i \<and> (\<forall>j<8. rank l j < rank l i \<longrightarrow> \<not> P j)" (is "?L \<longleftrightarrow> ?R")
proof
  assume ?L
  then obtain d where d: "d < e" "i = pos (next_irq l) d" "P i" "\<forall>c<d. \<not> P (pos (next_irq l) c)"
    by (auto simp: find_Some_iff)
  then have r: "rank l i = d" using rank_pos [OF assms(1), of d] assms(2) by simp
  show ?R
  proof (intro conjI allI impI)
    fix j :: nat assume "j < 8" "rank l j < rank l i"
    then show "\<not> P j" using d(4) pos_rank [OF assms(1), of j] r by metis
  qed (use d r in auto)
next
  assume R: ?R
  then have i: "pos (next_irq l) (rank l i) = i" using pos_rank [OF assms(1)] by simp
  have "\<not> P (pos (next_irq l) c)" if "c < rank l i" for c
    using R that rank_pos [OF assms(1), of c] assms(2) by simp
  then show ?L using R i by (auto simp: find_Some_iff intro!: exI [of _ "rank l i"])
qed

lemma byte_nonzero: "w \<noteq> 0 \<longleftrightarrow> (\<exists>i<8. bit w i)" for w :: Bit8u
proof
  assume "w \<noteq> 0"
  then obtain n where "bit w n" by (metis bit_0_eq bit_eqI bot_apply bot_bool_def)
  then show "\<exists>i<8. bit w i" using bit_imp_le_length [of w n] by auto
qed auto

subsection \<open>Priority resolution\<close>

text \<open>The requests a chip may signal, in the words of the data sheet.\<close>

definition eligible :: "bx_pic_t \<Rightarrow> nat \<Rightarrow> bool" where
  "eligible pic i \<longleftrightarrow> bit (irr pic) i \<and> \<not> bit (imr pic) i \<and>
     (if special_mask pic then \<not> bit (isr pic) i
      else \<forall>j<8. bit (isr pic) j \<longrightarrow> rank (lowest_priority pic) i < rank (lowest_priority pic) j)"

definition wins :: "bx_pic_t \<Rightarrow> nat \<Rightarrow> bool" where
  "wins pic i \<longleftrightarrow> i < 8 \<and> eligible pic i \<and>
     (\<forall>j<8. eligible pic j \<longrightarrow> rank (lowest_priority pic) i \<le> rank (lowest_priority pic) j)"

lemma in_service_first:
  assumes "l \<le> 7" "sv \<noteq> 0" "m = in_service_loop 8 sv (next_irq l)"
  shows "m < 8" "bit sv m" "\<forall>j<8. bit sv j \<longrightarrow> rank l m \<le> rank l j"
proof -
  obtain i where i: "find (bit sv) (map (pos (next_irq l)) [0..<8]) = Some i"
    using find_pos_None [OF assms(1), of 8 "bit sv"] assms(2) byte_nonzero [of sv]
    by (cases "find (bit sv) (map (pos (next_irq l)) [0..<8])") auto
  have "m = i" using in_service_loop_find [of 0 8 sv "next_irq l" i] i assms(3) by simp
  then show "m < 8" "bit sv m" "\<forall>j<8. bit sv j \<longrightarrow> rank l m \<le> rank l j"
    using i find_pos_Some [OF assms(1), of 8 "bit sv" i] by (auto simp: not_less [symmetric])
qed

lemma request_loop_upto:
  assumes "l \<le> 7" "m < 8"
  shows "request_loop 8 sp sv rq (next_irq l) m =
    find (\<lambda>i. \<not> (sp \<and> bit sv i) \<and> bit rq i)
      (map (pos (next_irq l)) [0..<(if rank l m = 0 then 8 else rank l m)])"
proof -
  let ?e = "if rank l m = 0 then 8 else rank l m"
  have "pos (next_irq l) ?e = m" using pos_rank [OF assms] by (auto split: if_splits)
  moreover have "?e \<le> 8" using less_imp_le [OF rank_less [of l m]] by simp
  ultimately show ?thesis using request_loop_find [of 0 ?e 8 sp sv rq "next_irq l"] by simp
qed

lemma rank_next: "l \<le> 7 \<Longrightarrow> rank l (next_irq l) = 0"
  using rank_pos [of l 0] by simp

lemma rank_inj: "l \<le> 7 \<Longrightarrow> i < 8 \<Longrightarrow> j < 8 \<Longrightarrow> rank l i = rank l j \<Longrightarrow> i = j"
  using pos_rank by metis

text \<open>How far down the order the code looks: to the first input in service, or all the way.\<close>

definition limit :: "bx_pic_t \<Rightarrow> nat" where
  "limit pic = (if special_mask pic \<or> isr pic = 0 then 8
     else rank (lowest_priority pic) (in_service_loop 8 (isr pic) (next_irq (lowest_priority pic))))"

abbreviation requested :: "bx_pic_t \<Rightarrow> nat \<Rightarrow> bool" where
  "requested pic i \<equiv> \<not> (special_mask pic \<and> bit (isr pic) i) \<and> bit (irr pic AND NOT (imr pic)) i"

lemma limit_le [simp]: "limit pic \<le> 8"
  using less_imp_le [OF rank_less] by (simp add: limit_def)

lemma select_irq_find:
  assumes l: "lowest_priority pic \<le> 7"
  shows "select_irq pic = (if INT_pin pic then None
    else find (requested pic) (map (pos (next_irq (lowest_priority pic))) [0..<limit pic]))"
proof -
  let ?l = "lowest_priority pic"
  have none: "find (requested pic) xs = None" if "irr pic AND NOT (imr pic) = 0" for xs
    by (simp add: find_None_iff that)
  have bot: "find bot xs = None" for xs :: "nat list" by (simp add: find_None_iff)
  have top: "rank ?l i = 0 \<longleftrightarrow> i = next_irq ?l" if "i < 8" for i
    using that rank_next [OF l] rank_inj [OF l that next_irq_less [of ?l]] by auto
  have m: "in_service_loop 8 (isr pic) (next_irq ?l) < 8" if "isr pic \<noteq> 0"
    using in_service_first(1) [OF l that refl] .
  show ?thesis
  proof (cases "special_mask pic \<or> isr pic = 0")
    case True
    then show ?thesis
      using none request_loop_upto [OF l next_irq_less] rank_next [OF l] by (auto simp: select_irq_def limit_def Let_def)
  next
    case False
    then show ?thesis
      using none top [OF m] request_loop_upto [OF l m] rank_next [OF l]
      by (auto simp: select_irq_def limit_def Let_def bot)
  qed
qed

lemma eligible_iff:
  assumes l: "lowest_priority pic \<le> 7" and i: "i < 8"
  shows "eligible pic i \<longleftrightarrow> requested pic i \<and> rank (lowest_priority pic) i < limit pic"
proof (cases "special_mask pic \<or> isr pic = 0")
  case True
  then show ?thesis using i by (auto simp: eligible_def limit_def bit_simps)
next
  case False
  note m = in_service_first [OF l _ refl, of "isr pic"]
  show ?thesis using False i m by (auto simp: eligible_def limit_def bit_simps dest: order_less_le_trans)
qed

lemma select_irq_wins:
  assumes l: "lowest_priority pic \<le> 7"
  shows "select_irq pic = Some i \<longleftrightarrow> \<not> INT_pin pic \<and> wins pic i"
proof -
  let ?r = "rank (lowest_priority pic)"
  have "(i < 8 \<and> ?r i < limit pic \<and> requested pic i \<and> (\<forall>j<8. ?r j < ?r i \<longrightarrow> \<not> requested pic j))
    \<longleftrightarrow> (i < 8 \<and> eligible pic i \<and> (\<forall>j<8. ?r j < ?r i \<longrightarrow> \<not> eligible pic j))"
    using eligible_iff [OF l] by (meson order_less_trans)
  then show ?thesis
    using find_pos_Some [OF l limit_le] by (auto simp: select_irq_find [OF l] wins_def not_less [symmetric])
qed

lemma wins_unique: "lowest_priority pic \<le> 7 \<Longrightarrow> wins pic i \<Longrightarrow> wins pic j \<Longrightarrow> i = j"
  by (metis wins_def rank_inj order_antisym)

lemma select_irq_None:
  assumes l: "lowest_priority pic \<le> 7"
  shows "select_irq pic = None \<longleftrightarrow> INT_pin pic \<or> (\<forall>i<8. \<not> eligible pic i)"
  using find_pos_None [OF l limit_le] eligible_iff [OF l] by (auto simp: select_irq_find [OF l])

text \<open>
  C29: interrupt priority. The controller signals an interrupt exactly when its INT pin is free
  and some request is unmasked and not blocked by an interrupt in service, and then it
  signals the one of highest priority in the rotating order; otherwise nothing changes.
\<close>

theorem service_master_pic_priority:
  assumes "lowest_priority (master_pic s) \<le> 7"
  shows "(INT_pin (master_pic s) \<or> (\<forall>i<8. \<not> eligible (master_pic s) i) \<longrightarrow> service_master_pic s = s) \<and>
    (\<not> INT_pin (master_pic s) \<and> wins (master_pic s) i \<longrightarrow>
       service_master_pic s = s\<lparr>master_pic := (master_pic s)\<lparr>INT_pin := True, irq := i\<rparr>, INTR := True\<rparr>) \<and>
    (\<not> INT_pin (master_pic s) \<and> (\<exists>i<8. eligible (master_pic s) i) \<longrightarrow> (\<exists>i. wins (master_pic s) i))"
proof (intro conjI impI)
  assume "INT_pin (master_pic s) \<or> (\<forall>i<8. \<not> eligible (master_pic s) i)"
  then show "service_master_pic s = s" by (simp add: service_master_pic_def select_irq_None [OF assms, THEN iffD2])
next
  assume "\<not> INT_pin (master_pic s) \<and> wins (master_pic s) i"
  then have "select_irq (master_pic s) = Some i" using select_irq_wins [OF assms] by simp
  then show "service_master_pic s = s\<lparr>master_pic := (master_pic s)\<lparr>INT_pin := True, irq := i\<rparr>, INTR := True\<rparr>"
    by (simp add: service_master_pic_def raise_INTR_def)
next
  assume "\<not> INT_pin (master_pic s) \<and> (\<exists>i<8. eligible (master_pic s) i)"
  then show "\<exists>i. wins (master_pic s) i"
    using select_irq_None [OF assms] select_irq_wins [OF assms] by (metis option.exhaust)
qed

lemma clear_highest_find:
  assumes "lowest_priority pic \<le> 7"
  shows "clear_highest_interrupt pic =
    (case find (bit (isr pic)) (map (pos (next_irq (lowest_priority pic))) [0..<8]) of
       None \<Rightarrow> pic | Some i \<Rightarrow> pic\<lparr>isr := unset_bit i (isr pic)\<rparr>)"
  using clear_loop_find [of "next_irq (lowest_priority pic)" 0 8 pic] by (simp add: clear_highest_interrupt_def Let_def)

subsection \<open>Invariant\<close>

text \<open>
  Every chip has an input number and a lowest priority between 0 and 7 and, inside an
  initialisation sequence, expects one of the bytes 2 to 4; INTR mirrors the INT pin of the
  master; a slave that asks for service holds input 2 of the master high.
\<close>

definition chip_ok :: "bx_pic_t \<Rightarrow> bool" where
  "chip_ok pic \<longleftrightarrow> irq pic < 8 \<and> lowest_priority pic \<le> 7 \<and> (in_init pic \<longrightarrow> byte_expected pic \<in> {2, 3, 4})"

definition pic_base :: "bx_pic_c \<Rightarrow> bool" where
  "pic_base s \<longleftrightarrow> chip_ok (master_pic s) \<and> chip_ok (slave_pic s) \<and> INTR s = INT_pin (master_pic s) \<and>
     BadInit \<notin> set (pic_panics s)"

definition pic_inv :: "bx_pic_c \<Rightarrow> bool" where
  "pic_inv s \<longleftrightarrow> pic_base s \<and> (INT_pin (slave_pic s) \<longrightarrow> bit (IRQ_in (master_pic s)) 2)"

datatype pic_op = Raise nat | Lower nat | Mode bool Bit8u | Ack | In Bit32u nat | Out Bit32u Bit32u

fun pic_step :: "pic_op \<Rightarrow> bx_pic_c \<Rightarrow> bx_pic_c" where
  "pic_step (Raise n) s = raise_irq n s"
| "pic_step (Lower n) s = lower_irq n s"
| "pic_step (Mode m e) s = set_mode m e s"
| "pic_step Ack s = fst (IAC s)"
| "pic_step (In a n) s = fst (read a n s)"
| "pic_step (Out a v) s = pic_write a v s"

text \<open>Devices drive every input but the cascade input 2.\<close>

fun device_op :: "pic_op \<Rightarrow> bool" where
  "device_op (Raise n) = (n \<noteq> 2)"
| "device_op (Lower n) = (n \<noteq> 2)"
| "device_op _ = True"

inductive pic_reach :: "bx_pic_c \<Rightarrow> bool" where
  start: "\<not> INTR s \<Longrightarrow> pic_panics s = [] \<Longrightarrow> pic_reach (init s)"
| step: "pic_reach s \<Longrightarrow> device_op opn \<Longrightarrow> pic_reach (pic_step opn s)"

lemma chip_ok_updates [simp]:
  "chip_ok (pic\<lparr>INT_pin := b\<rparr>) = chip_ok pic" "chip_ok (pic\<lparr>isr := w\<rparr>) = chip_ok pic"
  "chip_ok (pic\<lparr>irr := w\<rparr>) = chip_ok pic" "chip_ok (pic\<lparr>imr := w\<rparr>) = chip_ok pic"
  "chip_ok (pic\<lparr>IRQ_in := w\<rparr>) = chip_ok pic" "chip_ok (pic\<lparr>polled := b\<rparr>) = chip_ok pic"
  "chip_ok (pic\<lparr>edge_level := w\<rparr>) = chip_ok pic" "chip_ok (pic\<lparr>special_mask := b\<rparr>) = chip_ok pic"
  "chip_ok (pic\<lparr>read_reg_select := b\<rparr>) = chip_ok pic" "chip_ok (pic\<lparr>rotate_on_autoeoi := b\<rparr>) = chip_ok pic"
  by (simp_all add: chip_ok_def)

lemma select_irq_less: "chip_ok pic \<Longrightarrow> select_irq pic = Some i \<Longrightarrow> i < 8"
  using select_irq_wins [of pic i] by (simp add: chip_ok_def wins_def)

lemma clear_highest_keeps:
  "\<exists>w. clear_highest_interrupt pic = pic\<lparr>isr := w\<rparr>"
proof -
  have "\<exists>w. clear_loop k i hp pic = pic\<lparr>isr := w\<rparr>" for k i hp
    by (induction k arbitrary: i) (auto intro: exI [of _ "isr pic"])
  then show ?thesis by (simp add: clear_highest_interrupt_def Let_def)
qed

lemma service_master_frame [simp]:
  "slave_pic (service_master_pic s) = slave_pic s"
  "pic_panics (service_master_pic s) = pic_panics s"
  "IRQ_in (master_pic (service_master_pic s)) = IRQ_in (master_pic s)"
  by (auto simp: service_master_pic_def raise_INTR_def split: option.split)

lemma service_master_base: "pic_base s \<Longrightarrow> pic_base (service_master_pic s)"
  using select_irq_less [of "master_pic s"]
  by (auto simp: service_master_pic_def raise_INTR_def pic_base_def chip_ok_def split: option.split)

lemma bit_mask8: "m < 8 \<Longrightarrow> bit (2 ^ m :: Bit8u) k \<longleftrightarrow> k = m"
  by (auto simp: bit_simps)

lemma mask8_clear: "m < 8 \<Longrightarrow> w AND 2 ^ m = 0 \<longleftrightarrow> \<not> bit w m" for w :: Bit8u
  using and_pow2_eq_0 [of m w] by (simp add: push_bit_of_1)

lemma raise_master_frame [simp]:
  "slave_pic (raise_master n s) = slave_pic s"
  "pic_panics (raise_master n s) = pic_panics s"
  by (auto simp: raise_master_def Let_def)

lemma raise_master_level:
  "bit (IRQ_in (master_pic (raise_master n s))) k \<longleftrightarrow> bit (IRQ_in (master_pic s)) k \<or> k = n mod 8"
  by (auto simp: raise_master_def Let_def raise_line_def bit_or_iff bit_mask8 mask8_clear)

lemma raise_master_base: "pic_base s \<Longrightarrow> pic_base (raise_master n s)"
  using service_master_base [of "upd_master (raise_line (push_bit (n mod 8) 1)) s"]
  by (auto simp: raise_master_def Let_def pic_base_def raise_line_def)

lemma ioapic_frame [simp]:
  "master_pic (ioapic_set_irq_level n b s) = master_pic s" "slave_pic (ioapic_set_irq_level n b s) = slave_pic s"
  "pic_panics (ioapic_set_irq_level n b s) = pic_panics s" "INTR (ioapic_set_irq_level n b s) = INTR s"
  by (simp_all add: ioapic_set_irq_level_def)

lemma ioapic_base [simp]: "pic_base (ioapic_set_irq_level n b s) = pic_base s"
  by (simp add: pic_base_def)

lemma service_slave_inv:
  assumes "pic_inv s"
  shows "pic_inv (service_slave_pic s)"
proof (cases "select_irq (slave_pic s)")
  case (Some i)
  let ?s = "ioapic_set_irq_level 2 True (upd_slave (\<lambda>m. m\<lparr>INT_pin := True, irq := i\<rparr>) s)"
  have "i < 8" using select_irq_less [OF _ Some] assms by (simp add: pic_inv_def pic_base_def)
  then have "pic_base ?s" using assms by (simp add: pic_inv_def pic_base_def chip_ok_def)
  then have "pic_base (raise_master 2 ?s)" by (rule raise_master_base)
  then show ?thesis using Some raise_master_level [of 2 ?s 2] by (simp add: service_slave_pic_def pic_inv_def)
qed (use assms in \<open>simp add: service_slave_pic_def\<close>)

lemma service_master_inv: "pic_inv s \<Longrightarrow> pic_inv (service_master_pic s)"
  using service_master_base by (simp add: pic_inv_def)

lemma raise_master_inv: "pic_inv s \<Longrightarrow> pic_inv (raise_master n s)"
  using raise_master_base [of s n] raise_master_level [of n s 2] by (simp add: pic_inv_def)

lemma raise_irq_inv: "pic_inv s \<Longrightarrow> pic_inv (raise_irq n s)"
  using service_slave_inv [of "upd_slave (raise_line (push_bit (n mod 8) 1)) (ioapic_set_irq_level n True s)"]
    raise_master_inv [of "ioapic_set_irq_level n True s" n]
  by (auto simp: raise_irq_def Let_def pic_inv_def pic_base_def raise_line_def)

lemma lower_irq_inv: "pic_inv s \<Longrightarrow> n \<noteq> 2 \<Longrightarrow> pic_inv (lower_irq n s)"
  by (cases "n < 8") (auto simp: lower_irq_def Let_def pic_inv_def pic_base_def lower_line_def bit_and_iff bit_not_iff_eq bit_mask8)

lemma set_mode_inv: "pic_inv s \<Longrightarrow> pic_inv (set_mode b e s)"
  by (simp add: set_mode_def pic_inv_def pic_base_def)

lemma ack_chip_ok: "chip_ok pic \<Longrightarrow> chip_ok (ack_chip pic)"
  by (auto simp: ack_chip_def Let_def chip_ok_def)

lemma ack_chip_frame [simp]:
  "INT_pin (ack_chip pic) = INT_pin pic" "IRQ_in (ack_chip pic) = IRQ_in pic" "irq (ack_chip pic) = irq pic"
  "interrupt_offset (ack_chip pic) = interrupt_offset pic"
  by (simp_all add: ack_chip_def Let_def)

lemma IAC_inv:
  assumes "pic_inv s"
  shows "pic_inv (fst (IAC s))"
proof -
  let ?s1 = "upd_master (\<lambda>m. m\<lparr>INT_pin := False\<rparr>) (clear_INTR s)"
  let ?s2 = "upd_master ack_chip ?s1"
  let ?s3 = "upd_master (\<lambda>m. m\<lparr>IRQ_in := unset_bit 2 (IRQ_in m)\<rparr>) (upd_slave (\<lambda>m. m\<lparr>INT_pin := False\<rparr>) ?s2)"
  have s1: "pic_inv ?s1" using assms by (simp add: pic_inv_def pic_base_def clear_INTR_def)
  have s2: "pic_inv ?s2"
    using s1 ack_chip_ok by (simp add: pic_inv_def pic_base_def)
  then have s3: "pic_inv ?s3" by (simp add: pic_inv_def pic_base_def)
  then have "pic_inv (upd_slave ack_chip ?s3)" using ack_chip_ok by (simp add: pic_inv_def pic_base_def)
  then have "pic_inv (service_master_pic (service_slave_pic (upd_slave ack_chip ?s3)))"
    by (intro service_master_inv service_slave_inv)
  then show ?thesis using s1 s3 service_master_inv [OF s2] by (simp add: IAC_def Let_def)
qed

lemma clear_highest_ok [simp]: "chip_ok (clear_highest_interrupt pic) = chip_ok pic"
  using clear_highest_keeps [of pic] by auto

lemma clear_highest_frame [simp]:
  "INT_pin (clear_highest_interrupt pic) = INT_pin pic" "IRQ_in (clear_highest_interrupt pic) = IRQ_in pic"
  "lowest_priority (clear_highest_interrupt pic) = lowest_priority pic"
  "irr (clear_highest_interrupt pic) = irr pic" "imr (clear_highest_interrupt pic) = imr pic"
  "special_mask (clear_highest_interrupt pic) = special_mask pic"
  using clear_highest_keeps [of pic] by auto

lemma read_inv:
  assumes "pic_inv s"
  shows "pic_inv (fst (read a n s))"
proof -
  let ?c = "\<lambda>m. (clear_highest_interrupt m)\<lparr>polled := False\<rparr>"
  have "pic_inv (upd_master ?c s)" "pic_inv (upd_slave ?c s)" "pic_inv (panic_at BadRead s)"
    using assms by (simp_all add: pic_inv_def pic_base_def panic_at_def)
  then show ?thesis
    using assms service_master_inv [of "upd_master ?c s"] service_slave_inv [of "upd_slave ?c s"]
    by (auto simp: read_def Let_def)
qed

lemma icw1_chip_ok [simp]: "chip_ok pic \<Longrightarrow> chip_ok (icw1_chip v pic)"
  by (simp add: icw1_chip_def chip_ok_def)

lemma ocw3_chip_ok [simp]:
  "chip_ok (ocw3_chip v pic) = chip_ok pic" "INT_pin (ocw3_chip v pic) = INT_pin pic"
  "IRQ_in (ocw3_chip v pic) = IRQ_in pic"
  by (auto simp: ocw3_chip_def Let_def)

lemma ocw2_chip_ok:
  assumes "ocw2_chip v pic = Some (m, b)" "chip_ok pic"
  shows "chip_ok m" "INT_pin m = INT_pin pic" "IRQ_in m = IRQ_in pic"
proof -
  have le: "unat (v - c) \<le> 7" if "c \<le> v" "v \<le> c + 7" "unat c + 7 < 2 ^ 32" for c :: Bit32u
  proof -
    have "unat (c + 7) = unat c + 7" using that(3) by (simp add: unat_word_ariths)
    then show ?thesis using that(1,2) by (simp add: unat_sub word_le_nat_alt)
  qed
  have lp: "chip_ok (p\<lparr>lowest_priority := x\<rparr>)" if "chip_ok p" "x \<le> 7" for p x
    using that by (simp add: chip_ok_def)
  have nx: "next_irq i \<le> 7" for i using next_irq_less [of i] by linarith
  have "(case ocw2_chip v pic of None \<Rightarrow> True
      | Some (m, b) \<Rightarrow> chip_ok m \<and> INT_pin m = INT_pin pic \<and> IRQ_in m = IRQ_in pic)"
    using assms(2) le [of "0xC0"] le [of "0xE0"]
    unfolding ocw2_chip_def Let_def by (simp add: lp nx)
  then have "chip_ok m \<and> INT_pin m = INT_pin pic \<and> IRQ_in m = IRQ_in pic" using assms(1) by simp
  then show "chip_ok m" "INT_pin m = INT_pin pic" "IRQ_in m = IRQ_in pic" by simp_all
qed

lemma icw1_panics_frame [simp]:
  "master_pic (icw1_panics v s) = master_pic s" "slave_pic (icw1_panics v s) = slave_pic s"
  "INTR (icw1_panics v s) = INTR s" "BadInit \<in> set (pic_panics (icw1_panics v s)) \<longleftrightarrow> BadInit \<in> set (pic_panics s)"
  by (simp_all add: icw1_panics_def panic_at_def Let_def)

lemma write_master_cmd_inv:
  assumes "pic_inv s"
  shows "pic_inv (write_master_cmd v s)"
proof -
  have icw: "pic_inv (clear_INTR (icw1_panics v (upd_master (icw1_chip v) s)))"
    using assms by (simp add: pic_inv_def pic_base_def clear_INTR_def) (simp add: icw1_chip_def)
  have o3: "pic_inv (upd_master (ocw3_chip v) s)" using assms by (simp add: pic_inv_def pic_base_def)
  have o2: "pic_inv (s\<lparr>master_pic := m\<rparr>)" if "ocw2_chip v (master_pic s) = Some (m, b)" for m b
    using ocw2_chip_ok [OF that] assms by (simp add: pic_inv_def pic_base_def)
  have p: "pic_inv (panic_at (BadOCW2 v) s)" using assms by (simp add: pic_inv_def pic_base_def panic_at_def)
  show ?thesis
    using icw o3 o2 p service_master_inv [OF o3] service_master_inv [OF o2]
    by (auto simp: write_master_cmd_def split: option.split)
qed

lemma write_slave_cmd_inv:
  assumes "pic_inv s"
  shows "pic_inv (write_slave_cmd v s)"
proof -
  have icw: "pic_inv (icw1_panics v (upd_master (\<lambda>m. m\<lparr>IRQ_in := unset_bit 2 (IRQ_in m)\<rparr>) (upd_slave (icw1_chip v) s)))"
    using assms by (simp add: pic_inv_def pic_base_def) (simp add: icw1_chip_def)
  have o3: "pic_inv (upd_slave (ocw3_chip v) s)" using assms by (simp add: pic_inv_def pic_base_def)
  have o2: "pic_inv (s\<lparr>slave_pic := m\<rparr>)" if "ocw2_chip v (slave_pic s) = Some (m, b)" for m b
    using ocw2_chip_ok [OF that] assms by (simp add: pic_inv_def pic_base_def)
  have p: "pic_inv (panic_at (BadOCW2 v) s)" using assms by (simp add: pic_inv_def pic_base_def panic_at_def)
  show ?thesis
    using icw o3 o2 p service_slave_inv [OF o3] service_slave_inv [OF o2]
    by (auto simp: write_slave_cmd_def split: option.split)
qed

lemma icw_chip_ok:
  assumes "icw_chip v pic = (m, p, r)" "chip_ok pic" "in_init pic"
  shows "chip_ok m" "INT_pin m = INT_pin pic" "IRQ_in m = IRQ_in pic" "p \<noteq> Some BadInit" "r"
  using assms by (auto simp: icw_chip_def chip_ok_def split: if_splits)

lemma panic_opt_inv: "pic_inv s \<Longrightarrow> p \<noteq> Some BadInit \<Longrightarrow> pic_inv (panic_opt p s)"
  by (auto simp: panic_opt_def pic_inv_def pic_base_def panic_at_def split: option.split)

lemma write_master_data_inv:
  assumes "pic_inv s"
  shows "pic_inv (write_master_data v s)"
proof (cases "in_init (master_pic s)")
  case True
  obtain m p r where c: "icw_chip v (master_pic s) = (m, p, r)" by (cases "icw_chip v (master_pic s)") auto
  have ok: "chip_ok (master_pic s)" using assms by (simp add: pic_inv_def pic_base_def)
  note i = icw_chip_ok [OF c ok True]
  have "pic_inv (s\<lparr>master_pic := m\<rparr>)" using assms i(1-3) by (simp add: pic_inv_def pic_base_def)
  then show ?thesis using c True i(4,5) panic_opt_inv by (simp add: write_master_data_def)
next
  case False
  have "pic_inv (upd_master (\<lambda>m. m\<lparr>imr := ucast v\<rparr>) s)" using assms by (simp add: pic_inv_def pic_base_def)
  then show ?thesis using False service_master_inv by (simp add: write_master_data_def panic_opt_def)
qed

lemma write_slave_data_inv:
  assumes "pic_inv s"
  shows "pic_inv (write_slave_data v s)"
proof (cases "in_init (slave_pic s)")
  case True
  obtain m p r where c: "icw_chip v (slave_pic s) = (m, p, r)" by (cases "icw_chip v (slave_pic s)") auto
  have ok: "chip_ok (slave_pic s)" using assms by (simp add: pic_inv_def pic_base_def)
  note i = icw_chip_ok [OF c ok True]
  have "pic_inv (s\<lparr>slave_pic := m\<rparr>)" using assms i(1-3) by (simp add: pic_inv_def pic_base_def)
  then show ?thesis using c True i(4,5) panic_opt_inv by (simp add: write_slave_data_def)
next
  case False
  have "pic_inv (upd_slave (\<lambda>m. m\<lparr>imr := ucast v\<rparr>) s)" using assms by (simp add: pic_inv_def pic_base_def)
  then show ?thesis using False service_slave_inv by (simp add: write_slave_data_def panic_opt_def)
qed

lemmas pic_op_inv = raise_irq_inv lower_irq_inv set_mode_inv IAC_inv read_inv
  write_master_cmd_inv write_slave_cmd_inv write_master_data_inv write_slave_data_inv

lemma pic_step_inv: "pic_inv s \<Longrightarrow> device_op opn \<Longrightarrow> pic_inv (pic_step opn s)"
  by (cases opn) (auto simp: pic_write_def intro: pic_op_inv)

text \<open>
  C30: interrupt controller invariant. In every state the controllers reach from power-on
  by line changes, port accesses and acknowledge cycles, INTR equals the INT pin of the
  master, a slave asking for service holds the cascade input high, the priority state is in
  range, and the unexpected-initialisation-byte panic has never been raised.
\<close>

theorem pic_reach_inv:
  assumes "pic_reach s"
  shows "INTR s = INT_pin (master_pic s) \<and>
    (INT_pin (slave_pic s) \<longrightarrow> bit (IRQ_in (master_pic s)) 2) \<and>
    irq (master_pic s) < 8 \<and> irq (slave_pic s) < 8 \<and>
    lowest_priority (master_pic s) \<le> 7 \<and> lowest_priority (slave_pic s) \<le> 7 \<and>
    BadInit \<notin> set (pic_panics s)"
proof -
  have "pic_inv s" using assms
  proof induction
    case (start s)
    then show ?case by (simp add: pic_inv_def pic_base_def init_def init_chip_def chip_ok_def)
  qed (rule pic_step_inv)
  then show ?thesis by (simp add: pic_inv_def pic_base_def chip_ok_def)
qed

definition wit_pic :: bx_pic_c where
  "wit_pic = \<lparr>master_pic = init_chip 8 4 1, slave_pic = init_chip 0x70 2 0, INTR = False,
     ioapic_present = False, ioapic_levels = [], pic_panics = []\<rparr>"

theorem pic_reach_inv_witness:
  "INTR (pic_step (Raise 0) (pic_step (Out 0x21 0xfe) (init wit_pic))) =
   INT_pin (master_pic (pic_step (Raise 0) (pic_step (Out 0x21 0xfe) (init wit_pic))))"
proof -
  have "pic_reach (init wit_pic)" by (rule pic_reach.start) (simp_all add: wit_pic_def)
  then have "pic_reach (pic_step (Raise 0) (pic_step (Out 0x21 0xfe) (init wit_pic)))"
    by (intro pic_reach.step) simp_all
  then show ?thesis using pic_reach_inv by blast
qed

theorem service_master_pic_priority_witness:
  "service_master_pic (upd_master (\<lambda>m. m\<lparr>imr := 0, irr := 0x0a\<rparr>) wit_pic) =
   (upd_master (\<lambda>m. m\<lparr>imr := 0, irr := 0x0a, INT_pin := True, irq := 1\<rparr>) wit_pic)\<lparr>INTR := True\<rparr>"
proof -
  let ?s = "upd_master (\<lambda>m. m\<lparr>imr := 0, irr := 0x0a\<rparr>) wit_pic"
  have fld: "irr (master_pic ?s) = 0x0a" "imr (master_pic ?s) = 0" "isr (master_pic ?s) = 0"
    "lowest_priority (master_pic ?s) = 7" "\<not> INT_pin (master_pic ?s)" "\<not> special_mask (master_pic ?s)"
    by (simp_all add: wit_pic_def init_chip_def)
  have e: "eligible (master_pic ?s) i \<longleftrightarrow> bit (0x0a :: Bit8u) i" for i
    unfolding eligible_def fld using fld(6) by simp
  have b0: "0 < j" if "bit (0x0a :: Bit8u) j" for j using that by (cases j) simp_all
  have "wins (master_pic ?s) 1"
    unfolding wins_def e fld using b0 by (auto simp: rank_def Suc_le_eq)
  then show ?thesis using service_master_pic_priority [of ?s 1] fld by simp
qed

subsection \<open>Delivery and end of interrupt\<close>

lemma service_master_wins:
  assumes "lowest_priority (master_pic s) \<le> 7" "\<not> INT_pin (master_pic s)" "wins (master_pic s) i"
  shows "service_master_pic s = s\<lparr>master_pic := (master_pic s)\<lparr>INT_pin := True, irq := i\<rparr>, INTR := True\<rparr>"
proof -
  have "select_irq (master_pic s) = Some i" using select_irq_wins [OF assms(1)] assms(2,3) by simp
  then show ?thesis by (simp add: service_master_pic_def raise_INTR_def)
qed

lemma service_master_regs [simp]:
  "isr (master_pic (service_master_pic s)) = isr (master_pic s)"
  "irr (master_pic (service_master_pic s)) = irr (master_pic s)"
  "imr (master_pic (service_master_pic s)) = imr (master_pic s)"
  "lowest_priority (master_pic (service_master_pic s)) = lowest_priority (master_pic s)"
  "special_mask (master_pic (service_master_pic s)) = special_mask (master_pic s)"
  "interrupt_offset (master_pic (service_master_pic s)) = interrupt_offset (master_pic s)"
  by (auto simp: service_master_pic_def raise_INTR_def split: option.split)

text \<open>A line of the master goes up: the state with the request recorded, then signalled.\<close>

lemma raise_irq_master:
  assumes "n \<le> 7" "\<not> bit (IRQ_in (master_pic s)) n" "lowest_priority (master_pic s) \<le> 7"
    "\<not> INT_pin (master_pic s)" "wins (raise_line (push_bit n 1) (master_pic s)) n"
  shows "raise_irq n s = (ioapic_set_irq_level n True s)\<lparr>
    master_pic := (raise_line (push_bit n 1) (master_pic s))\<lparr>INT_pin := True, irq := n\<rparr>, INTR := True\<rparr>"
proof -
  let ?s = "upd_master (raise_line (push_bit n 1)) (ioapic_set_irq_level n True s)"
  have "n mod 8 = n" using assms(1) by simp
  then have r: "raise_irq n s = service_master_pic ?s"
    using assms(1,2) mask8_clear [of n "IRQ_in (master_pic s)"] by (simp add: raise_irq_def raise_master_def Let_def)
  show ?thesis unfolding r
    using service_master_wins [of ?s n] assms by (simp add: raise_line_def)
qed

text \<open>A raised input of the master that wins is the one the acknowledge cycle answers with.\<close>

lemma raise_then_ack:
  assumes "n \<le> 7" "n \<noteq> 2" "\<not> bit (IRQ_in (master_pic s)) n" "lowest_priority (master_pic s) \<le> 7"
    "\<not> INT_pin (master_pic s)" "wins (raise_line (push_bit n 1) (master_pic s)) n"
  shows "INTR (raise_irq n s)" "snd (IAC (raise_irq n s)) = interrupt_offset (master_pic s) + of_nat n"
proof -
  have b: "bit (irr (raise_line (push_bit n 1) (master_pic s))) n" using assms(6) by (simp add: wins_def eligible_def)
  then have nz: "irr (raise_line (push_bit n 1) (master_pic s)) \<noteq> 0" by auto
  note r = raise_irq_master [OF assms(1,3-6)]
  show "INTR (raise_irq n s)" "snd (IAC (raise_irq n s)) = interrupt_offset (master_pic s) + of_nat n"
    using nz b assms(2) unfolding r
    by (auto simp: IAC_def Let_def clear_INTR_def ack_chip_def raise_line_def bit_simps add.commute)
qed

text \<open>
  Delivery of a master interrupt. When input n of the master goes high, wins the
  priority resolution and no interrupt is waiting, the next acknowledge cycle returns its
  vector, marks it in service unless automatic end of interrupt is set, and drops the
  request unless the input is level triggered.
\<close>

theorem irq_delivery_master:
  assumes "n \<le> 7" "n \<noteq> 2" "\<not> bit (IRQ_in (master_pic s)) n" "lowest_priority (master_pic s) \<le> 7"
    "\<not> INT_pin (master_pic s)" "wins (raise_line (push_bit n 1) (master_pic s)) n"
  shows "INTR (raise_irq n s) \<and>
    snd (IAC (raise_irq n s)) = interrupt_offset (master_pic s) + of_nat n \<and>
    isr (master_pic (fst (IAC (raise_irq n s)))) =
      (if auto_eoi (master_pic s) then isr (master_pic s) else set_bit n (isr (master_pic s))) \<and>
    (bit (irr (master_pic (fst (IAC (raise_irq n s))))) n \<longleftrightarrow> bit (edge_level (master_pic s)) n)"
proof -
  let ?m = "raise_line (push_bit n 1) (master_pic s)"
  have b: "bit (irr ?m) n" using assms(6) by (simp add: wins_def eligible_def)
  then have nz: "irr ?m \<noteq> 0" by auto
  note r = raise_irq_master [OF assms(1,3-6)]
  show ?thesis
    using nz b assms(2) raise_then_ack [OF assms] unfolding r
    by (auto simp: IAC_def Let_def clear_INTR_def ack_chip_def raise_line_def bit_simps)
qed

text \<open>Clearing the highest interrupt removes one bit, the best ranked in service.\<close>

lemma clear_highest_first:
  assumes "lowest_priority pic \<le> 7" "i < 8" "bit (isr pic) i"
    "\<And>j. j < 8 \<Longrightarrow> bit (isr pic) j \<Longrightarrow> rank (lowest_priority pic) i \<le> rank (lowest_priority pic) j"
  shows "clear_highest_interrupt pic = pic\<lparr>isr := unset_bit i (isr pic)\<rparr>"
proof -
  have "find (bit (isr pic)) (map (pos (next_irq (lowest_priority pic))) [0..<8]) = Some i"
    using find_pos_Some [OF assms(1), of 8 "bit (isr pic)" i] assms(2-4) rank_less [of "lowest_priority pic" i]
    by (auto simp: not_less [symmetric])
  then show ?thesis using clear_highest_find [OF assms(1)] by simp
qed

lemma eoi_master:
  "isr (master_pic (pic_write 0x20 0x20 s)) = isr (clear_highest_interrupt (master_pic s))"
  by (simp add: pic_write_def write_master_cmd_def ocw2_chip_def Let_def)

text \<open>
  End of interrupt. In fully nested mode, acknowledging the interrupt that won and then
  writing the non-specific end-of-interrupt command restores the in-service register: the
  command retires exactly the interrupt acknowledged last.
\<close>

theorem ack_eoi_roundtrip:
  assumes "n \<le> 7" "n \<noteq> 2" "\<not> bit (IRQ_in (master_pic s)) n" "lowest_priority (master_pic s) \<le> 7"
    "\<not> INT_pin (master_pic s)" "wins (raise_line (push_bit n 1) (master_pic s)) n"
    "\<not> special_mask (master_pic s)" "\<not> auto_eoi (master_pic s)"
  shows "isr (master_pic (pic_write 0x20 0x20 (fst (IAC (raise_irq n s))))) = isr (master_pic s)"
proof -
  let ?t = "fst (IAC (raise_irq n s))" and ?l = "lowest_priority (master_pic s)"
  have nz: "irr (raise_line (push_bit n 1) (master_pic s)) \<noteq> 0"
    using assms(6) by (auto simp: wins_def eligible_def)
  have t: "isr (master_pic ?t) = set_bit n (isr (master_pic s))" "lowest_priority (master_pic ?t) = ?l"
    using nz assms(2,8) unfolding raise_irq_master [OF assms(1,3-6)]
    by (auto simp: IAC_def Let_def clear_INTR_def ack_chip_def raise_line_def)
  have before: "rank ?l n < rank ?l j" if "j < 8" "bit (isr (master_pic s)) j" for j
    using assms(6,7) that by (simp add: wins_def eligible_def raise_line_def)
  then have new: "\<not> bit (isr (master_pic s)) n" using before [of n] assms(1) by auto
  have "clear_highest_interrupt (master_pic ?t) = (master_pic ?t)\<lparr>isr := unset_bit n (isr (master_pic ?t))\<rparr>"
    using clear_highest_first [of "master_pic ?t" n] assms(1,4) before unfolding t
    by (auto simp: bit_simps intro: less_imp_le)
  then have "isr (master_pic (pic_write 0x20 0x20 ?t)) = unset_bit n (set_bit n (isr (master_pic s)))"
    by (simp add: eoi_master t)
  also have "\<dots> = isr (master_pic s)" using new by (auto intro: bit_word_eqI simp: bit_simps)
  finally show ?thesis .
qed

text \<open>A line of the slave goes up: the slave signals it and raises the cascade input.\<close>

lemma raise_irq_slave:
  assumes n: "8 \<le> n" "n \<le> 15" and s: "\<not> bit (IRQ_in (slave_pic s)) (n - 8)" "lowest_priority (slave_pic s) \<le> 7"
    "\<not> INT_pin (slave_pic s)" "wins (raise_line (push_bit (n - 8) 1) (slave_pic s)) (n - 8)"
    and m: "\<not> bit (IRQ_in (master_pic s)) 2" "lowest_priority (master_pic s) \<le> 7"
    "\<not> INT_pin (master_pic s)" "wins (raise_line 4 (master_pic s)) 2"
  shows "raise_irq n s = (ioapic_set_irq_level n True s)\<lparr>
    slave_pic := (raise_line (push_bit (n - 8) 1) (slave_pic s))\<lparr>INT_pin := True, irq := n - 8\<rparr>,
    master_pic := (raise_line 4 (master_pic s))\<lparr>INT_pin := True, irq := 2\<rparr>, INTR := True\<rparr>"
proof -
  let ?q = "raise_line (push_bit (n - 8) 1) (slave_pic s)"
  let ?s = "(ioapic_set_irq_level n True s)\<lparr>slave_pic := ?q\<rparr>"
  let ?t = "?s\<lparr>slave_pic := ?q\<lparr>INT_pin := True, irq := n - 8\<rparr>\<rparr>"
  have md: "n mod 8 = n - 8" using n by (simp add: le_mod_geq)
  then have r: "raise_irq n s = service_slave_pic ?s"
    using n s(1) mask8_clear [of "n - 8" "IRQ_in (slave_pic s)"] by (simp add: raise_irq_def Let_def)
  have "select_irq ?q = Some (n - 8)" using select_irq_wins [of ?q] s(2-4) by (simp add: raise_line_def)
  then have "service_slave_pic ?s = raise_master 2 ?t"
    by (simp add: service_slave_pic_def ioapic_set_irq_level_def)
  also have "\<dots> = service_master_pic (upd_master (raise_line 4) ?t)"
    using m(1) mask8_clear [of 2 "IRQ_in (master_pic s)"] by (simp add: raise_master_def Let_def)
  finally show ?thesis unfolding r
    using service_master_wins [of "upd_master (raise_line 4) ?t" 2] m by (simp add: raise_line_def)
qed

text \<open>
  Delivery of a slave interrupt. When input n of the slave goes high and wins there,
  and the cascade input wins on the master, the next acknowledge cycle returns the slave's
  vector, marks the input in service on the slave and the cascade input on the master, and
  releases the cascade line.
\<close>

theorem irq_delivery_slave:
  assumes "8 \<le> n" "n \<le> 15" "\<not> bit (IRQ_in (slave_pic s)) (n - 8)" "lowest_priority (slave_pic s) \<le> 7"
    "\<not> INT_pin (slave_pic s)" "wins (raise_line (push_bit (n - 8) 1) (slave_pic s)) (n - 8)"
    "\<not> bit (IRQ_in (master_pic s)) 2" "lowest_priority (master_pic s) \<le> 7"
    "\<not> INT_pin (master_pic s)" "wins (raise_line 4 (master_pic s)) 2"
    "\<not> auto_eoi (master_pic s)" "\<not> auto_eoi (slave_pic s)"
  shows "snd (IAC (raise_irq n s)) = interrupt_offset (slave_pic s) + of_nat (n - 8) \<and>
    bit (isr (master_pic (fst (IAC (raise_irq n s))))) 2 \<and>
    isr (slave_pic (fst (IAC (raise_irq n s)))) = set_bit (n - 8) (isr (slave_pic s))"
proof -
  let ?q = "raise_line (push_bit (n - 8) 1) (slave_pic s)" and ?m = "raise_line 4 (master_pic s)"
  have "bit (irr ?q) (n - 8)" "bit (irr ?m) 2" using assms(6,10) by (simp_all add: wins_def eligible_def)
  then have nz: "irr ?q \<noteq> 0" "irr ?m \<noteq> 0" by auto
  have sv: "isr (slave_pic (service_slave_pic t)) = isr (slave_pic t)"
    "isr (master_pic (service_slave_pic t)) = isr (master_pic t)" for t
    by (auto simp: service_slave_pic_def raise_master_def raise_line_def ioapic_set_irq_level_def Let_def split: option.split)
  show ?thesis
    using nz assms(11,12) unfolding raise_irq_slave [OF assms(1-10)]
    by (auto simp: IAC_def Let_def clear_INTR_def sv ack_chip_def raise_line_def bit_simps add.commute)
qed

definition wit_pic1 :: bx_pic_c where
  "wit_pic1 = upd_master (\<lambda>m. m\<lparr>imr := 0, isr := 0x20\<rparr>) wit_pic"

lemma wit_pic1_wins: "wins (raise_line (push_bit 1 1) (master_pic wit_pic1)) 1"
proof -
  let ?m = "raise_line (push_bit 1 1) (master_pic wit_pic1)"
  have f: "irr ?m = 2" "imr ?m = 0" "isr ?m = 0x20" "lowest_priority ?m = 7" "\<not> special_mask ?m"
    by (simp_all add: wit_pic1_def wit_pic_def init_chip_def raise_line_def)
  have b2: "bit (2 :: Bit8u) j \<longleftrightarrow> j = 1" for j using bit_mask8 [of 1 j] by simp
  have b5: "bit (0x20 :: Bit8u) j \<longleftrightarrow> j = 5" for j using bit_mask8 [of 5 j] by simp
  show ?thesis unfolding wins_def eligible_def f b2 b5 using f(5) by (auto simp: rank_def)
qed

theorem irq_delivery_master_witness:
  "snd (IAC (raise_irq 1 wit_pic1)) = 9"
  using irq_delivery_master [of 1 wit_pic1] wit_pic1_wins by (simp add: wit_pic1_def wit_pic_def init_chip_def)

theorem ack_eoi_roundtrip_witness:
  "isr (master_pic (pic_write 0x20 0x20 (fst (IAC (raise_irq 1 wit_pic1))))) = 0x20"
  using ack_eoi_roundtrip [of 1 wit_pic1] wit_pic1_wins by (simp add: wit_pic1_def wit_pic_def init_chip_def)

definition wit_pic2 :: bx_pic_c where
  "wit_pic2 = upd_master (\<lambda>m. m\<lparr>imr := 0\<rparr>) (upd_slave (\<lambda>m. m\<lparr>imr := 0\<rparr>) wit_pic)"

theorem irq_delivery_slave_witness:
  "snd (IAC (raise_irq 14 wit_pic2)) = 0x76"
proof -
  let ?q = "raise_line (push_bit (14 - 8) 1) (slave_pic wit_pic2)" and ?m = "raise_line 4 (master_pic wit_pic2)"
  have f: "irr ?q = 0x40" "imr ?q = 0" "isr ?q = 0" "lowest_priority ?q = 7" "\<not> special_mask ?q"
    "irr ?m = 4" "imr ?m = 0" "isr ?m = 0" "lowest_priority ?m = 7" "\<not> special_mask ?m"
    by (simp_all add: wit_pic2_def wit_pic_def init_chip_def raise_line_def)
  have b6: "bit (0x40 :: Bit8u) j \<longleftrightarrow> j = 6" for j using bit_mask8 [of 6 j] by simp
  have b2: "bit (4 :: Bit8u) j \<longleftrightarrow> j = 2" for j using bit_mask8 [of 2 j] by simp
  have "wins ?q (14 - 8)" unfolding wins_def eligible_def f b6 by auto
  moreover have "wins ?m 2" unfolding wins_def eligible_def f b2 by auto
  ultimately show ?thesis
    using irq_delivery_slave [of 14 wit_pic2] by (simp add: wit_pic2_def wit_pic_def init_chip_def)
qed

subsection \<open>The interface the devices use\<close>

text \<open>
  What a device relies on when it drives an interrupt line: the controller stays sound, the
  line has the level last driven, and the other lines keep theirs.
\<close>

locale irq_lines =
  fixes ok :: "'s \<Rightarrow> bool" and line :: "nat \<Rightarrow> bool"
    and up :: "nat \<Rightarrow> 's \<Rightarrow> 's" and down :: "nat \<Rightarrow> 's \<Rightarrow> 's" and level :: "'s \<Rightarrow> nat \<Rightarrow> bool"
  assumes up_ok: "ok s \<Longrightarrow> line n \<Longrightarrow> ok (up n s)"
    and down_ok: "ok s \<Longrightarrow> line n \<Longrightarrow> ok (down n s)"
    and level_up: "line n \<Longrightarrow> line m \<Longrightarrow> level (up n s) m \<longleftrightarrow> m = n \<or> level s m"
    and level_down: "line n \<Longrightarrow> line m \<Longrightarrow> level (down n s) m \<longleftrightarrow> m \<noteq> n \<and> level s m"
begin

text \<open>A device drives its line through a sequence of levels.\<close>

definition drive :: "nat \<Rightarrow> bool \<Rightarrow> 's \<Rightarrow> 's" where
  "drive n b s = (if b then up n s else down n s)"

lemma drive_ok: "ok s \<Longrightarrow> line n \<Longrightarrow> ok (fold (drive n) bs s)"
  by (induction bs arbitrary: s) (simp_all add: drive_def up_ok down_ok)

lemma drive_level: "line n \<Longrightarrow> level (fold (drive n) (bs @ [b]) s) n \<longleftrightarrow> b"
  by (simp add: drive_def level_up level_down)

lemma drive_others: "line n \<Longrightarrow> line m \<Longrightarrow> m \<noteq> n \<Longrightarrow> level (fold (drive n) bs s) m \<longleftrightarrow> level s m"
  by (induction bs arbitrary: s) (simp_all add: drive_def level_up level_down)

end

definition device_line :: "nat \<Rightarrow> bool" where
  "device_line n \<longleftrightarrow> n < 16 \<and> n \<noteq> 2"

definition line_level :: "bx_pic_c \<Rightarrow> nat \<Rightarrow> bool" where
  "line_level s n = bit (if n < 8 then IRQ_in (master_pic s) else IRQ_in (slave_pic s)) (n mod 8)"

lemma service_slave_level:
  "IRQ_in (slave_pic (service_slave_pic s)) = IRQ_in (slave_pic s)"
  "k \<noteq> 2 \<Longrightarrow> bit (IRQ_in (master_pic (service_slave_pic s))) k \<longleftrightarrow> bit (IRQ_in (master_pic s)) k"
  by (auto simp: service_slave_pic_def raise_master_level split: option.split)

lemma raise_irq_level:
  assumes "device_line n" "device_line m"
  shows "line_level (raise_irq n s) m \<longleftrightarrow> m = n \<or> line_level s m"
proof (cases "n < 8")
  case True
  then show ?thesis using assms raise_master_level [of n "ioapic_set_irq_level n True s"]
    by (auto simp: line_level_def device_line_def raise_irq_def Let_def)
next
  case False
  have mn: "m mod 8 = n mod 8 \<longleftrightarrow> m = n" if "\<not> m < 8"
    using that False assms by (auto simp: device_line_def le_mod_geq)
  show ?thesis using assms False mn
    by (auto simp: line_level_def device_line_def raise_irq_def Let_def service_slave_level raise_line_def
        bit_or_iff bit_mask8 mask8_clear)
qed

lemma lower_irq_level:
  assumes "device_line n" "device_line m"
  shows "line_level (lower_irq n s) m \<longleftrightarrow> m \<noteq> n \<and> line_level s m"
proof -
  have mn: "m mod 8 = n mod 8 \<longleftrightarrow> m = n" if "m < 8 \<longleftrightarrow> n < 8"
    using that assms by (auto simp: device_line_def le_mod_geq split: if_splits)
  show ?thesis using assms mn
    by (auto simp: line_level_def device_line_def lower_irq_def Let_def lower_line_def
        bit_and_iff bit_not_iff_eq bit_mask8 mask8_clear)
qed

interpretation pic_lines: irq_lines pic_inv device_line raise_irq lower_irq line_level
  by unfold_locales (simp_all add: raise_irq_inv lower_irq_inv device_line_def raise_irq_level lower_irq_level)

end
