(* ===== verification/Pit82c54.thy ===== *)
theory Pit82c54
  imports Prelude
begin

text \<open>
  The 82C54 interval timer chip, \<^verbatim>\<open>bochs/iodev/pit82c54.cc\<close>: three counters with six
  counting modes, their programming and latch protocol, and the batch clock
  \<open>clock_multiple\<close>. The calls of a counter's OUT handler are recorded in order in \<open>out_events\<close>; a
  counter without handler records none. \<open>BX_ERROR\<close> only prints.
\<close>

datatype rw_status = LSByte | MSByte | LSByte_multiple | MSByte_multiple

record counter_type =
  GATE :: bool
  OUTpin :: bool
  count :: Bit32u
  outlatch :: Bit16u
  inlatch :: Bit16u
  status_latch :: Bit8u
  rw_mode :: Bit8u
  cmode :: Bit8u
  bcd_mode :: bool
  null_count :: bool
  count_LSB_latched :: bool
  count_MSB_latched :: bool
  status_latched :: bool
  count_binary :: Bit32u
  triggerGATE :: bool
  write_state :: rw_status
  read_state :: rw_status
  count_written :: bool
  first_pass :: bool
  state_bit_1 :: bool
  state_bit_2 :: bool
  next_change_time :: Bit32u
  out_handler :: bool
  out_events :: "bool list"

record pit_82C54 =
  counter :: "nat \<Rightarrow> counter_type"
  controlword :: Bit8u

subsection \<open>The counting element\<close>

definition latch_counter :: "counter_type \<Rightarrow> counter_type" where
  "latch_counter c =
     (if count_LSB_latched c \<or> count_MSB_latched c then c
      else case read_state c of
        MSByte \<Rightarrow> c\<lparr>outlatch := ucast (count c AND 0xFFFF), count_MSB_latched := True\<rparr>
      | LSByte \<Rightarrow> c\<lparr>outlatch := ucast (count c AND 0xFFFF), count_LSB_latched := True\<rparr>
      | LSByte_multiple \<Rightarrow> c\<lparr>outlatch := ucast (count c AND 0xFFFF), count_LSB_latched := True, count_MSB_latched := True\<rparr>
      | MSByte_multiple \<Rightarrow> c\<lparr>read_state := LSByte_multiple, outlatch := ucast (count c AND 0xFFFF),
                              count_LSB_latched := True, count_MSB_latched := True\<rparr>)"

definition set_OUT :: "bool \<Rightarrow> counter_type \<Rightarrow> counter_type" where
  "set_OUT data c =
     (if OUTpin c \<noteq> data
      then c\<lparr>OUTpin := data, out_events := (if out_handler c then out_events c @ [data] else out_events c)\<rparr>
      else c)"

definition set_binary_to_count :: "counter_type \<Rightarrow> counter_type" where
  "set_binary_to_count c = c\<lparr>count_binary :=
     (if bcd_mode c
      then 1 * (drop_bit 0 (count c) AND 0xF) + 10 * (drop_bit 4 (count c) AND 0xF)
         + 100 * (drop_bit 8 (count c) AND 0xF) + 1000 * (drop_bit 12 (count c) AND 0xF)
      else count c)\<rparr>"

definition set_count :: "Bit32u \<Rightarrow> counter_type \<Rightarrow> counter_type" where
  "set_count data c = set_binary_to_count (c\<lparr>count := data AND 0xFFFF\<rparr>)"

text \<open>The digits of a binary count, as \<open>set_count_to_binary\<close> packs them.\<close>

definition bcd_digits :: "Bit32u \<Rightarrow> Bit32u" where
  "bcd_digits b = push_bit 0 (b div 1 mod 10) OR push_bit 4 (b div 10 mod 10)
     OR push_bit 8 (b div 100 mod 10) OR push_bit 12 (b div 1000 mod 10)"

definition set_count_to_binary :: "counter_type \<Rightarrow> counter_type" where
  "set_count_to_binary c = c\<lparr>count := (if bcd_mode c then bcd_digits (count_binary c) else count_binary c)\<rparr>"

definition decrement :: "counter_type \<Rightarrow> counter_type" where
  "decrement c =
     (if count c = 0
      then (if bcd_mode c then c\<lparr>count := 0x9999, count_binary := 9999\<rparr>
            else c\<lparr>count := 0xFFFF, count_binary := 0xFFFF\<rparr>)
      else set_count_to_binary (c\<lparr>count_binary := count_binary c - 1\<rparr>))"

function (sequential) decrement_multiple :: "Bit32u \<Rightarrow> counter_type \<Rightarrow> counter_type" where
  "decrement_multiple cycles c =
     (if cycles = 0 then c
      else if cycles \<le> count_binary c
        then set_count_to_binary (c\<lparr>count_binary := count_binary c - cycles\<rparr>)
      else decrement_multiple (cycles - (count_binary c + 1))
             (decrement (set_count_to_binary (c\<lparr>count_binary := count_binary c - count_binary c\<rparr>))))"
  by pat_completeness auto

lemma less_diff_succ:
  fixes n b :: "'a::len word"
  assumes "\<not> n \<le> b"
  shows "unat (n - (b + 1)) = unat n - unat b - 1" "unat (n - (b + 1)) < unat n"
proof -
  have lt: "unat b < unat n" using assms by (simp add: word_le_nat_alt)
  have "unat n < 2 ^ LENGTH('a)" by (rule unsigned_less)
  then have "Suc (unat b) < 2 ^ LENGTH('a)" using lt by linarith
  then have s: "unat (b + 1) = unat b + 1" by (simp add: unat_word_ariths)
  then have "b + 1 \<le> n" using lt by (simp add: word_le_nat_alt)
  then show "unat (n - (b + 1)) = unat n - unat b - 1" using s by (simp add: unat_sub)
  then show "unat (n - (b + 1)) < unat n" using lt by simp
qed

termination decrement_multiple
  by (relation "measure (\<lambda>(n, c). unat n)") (use less_diff_succ(2) in auto)

declare decrement_multiple.simps [simp del]

subsection \<open>One clock, by mode\<close>

text \<open>The wait until a counter runs out; a count of zero asks for the very next clock.\<close>

definition count_wait :: "counter_type \<Rightarrow> Bit32u" where
  "count_wait c = (if count_binary c = 0 then 1 else count_binary c AND 0xFFFF)"

definition load_count :: "counter_type \<Rightarrow> counter_type" where
  "load_count c = set_count (ucast (inlatch c)) c"

definition clock_mode0 :: "counter_type \<Rightarrow> counter_type" where
  "clock_mode0 c =
     (if count_written c
      then if null_count c
        then let c1 = load_count c
             in c1\<lparr>next_change_time := (if GATE c1 then count_wait c1 else 0), null_count := False\<rparr>
        else if GATE c \<and> write_state c \<noteq> MSByte_multiple
          then let c1 = decrement c
               in if \<not> OUTpin c1
                  then let c2 = c1\<lparr>next_change_time := count_binary c1 AND 0xFFFF\<rparr>
                       in if count c2 = 0 then set_OUT True c2 else c2
                  else c1\<lparr>next_change_time := 0\<rparr>
          else c\<lparr>next_change_time := 0\<rparr>
      else c\<lparr>next_change_time := 0\<rparr>)\<lparr>triggerGATE := False\<rparr>"

definition clock_mode1 :: "counter_type \<Rightarrow> counter_type" where
  "clock_mode1 c =
     (if count_written c
      then if triggerGATE c
        then let c1 = load_count c
             in set_OUT False (c1\<lparr>next_change_time := count_wait c1, null_count := False\<rparr>)
        else let c1 = decrement c
             in if \<not> OUTpin c1
                then let c2 = c1\<lparr>next_change_time := count_wait c1\<rparr>
                     in if count c2 = 0 then set_OUT True c2 else c2
                else c1\<lparr>next_change_time := 0\<rparr>
      else c\<lparr>next_change_time := 0\<rparr>)\<lparr>triggerGATE := False\<rparr>"

definition clock_mode2 :: "counter_type \<Rightarrow> counter_type" where
  "clock_mode2 c =
     (if count_written c
      then if triggerGATE c \<or> first_pass c
        then let c1 = load_count c;
                 c2 = c1\<lparr>next_change_time := (count_binary c1 - 1) AND 0xFFFF, null_count := False\<rparr>;
                 c3 = (if \<not> OUTpin c2 then set_OUT True c2 else c2)
             in c3\<lparr>first_pass := False\<rparr>
        else if GATE c
          then let c1 = decrement c;
                   c2 = c1\<lparr>next_change_time := (count_binary c1 - 1) AND 0xFFFF\<rparr>
               in if count c2 = 1 then (set_OUT False (c2\<lparr>next_change_time := 1\<rparr>))\<lparr>first_pass := True\<rparr> else c2
          else c\<lparr>next_change_time := 0\<rparr>
      else c\<lparr>next_change_time := 0\<rparr>)\<lparr>triggerGATE := False\<rparr>"

text \<open>Mode 3 counts down by two and swaps OUT at the end of each half.\<close>

definition short_half :: "counter_type \<Rightarrow> bool" where
  "short_half c \<longleftrightarrow> \<not> OUTpin c \<or> \<not> state_bit_1 c"

definition square_wait :: "counter_type \<Rightarrow> Bit32u" where
  "square_wait c =
     (if short_half c then (if count_binary c div 2 - 1 = 0 then 1 else (count_binary c div 2 - 1) AND 0xFFFF)
      else (if count_binary c div 2 = 0 then 1 else (count_binary c div 2) AND 0xFFFF))"

definition square_swap :: "counter_type \<Rightarrow> counter_type" where
  "square_swap c = (if \<not> OUTpin c then set_OUT True c
     else if OUTpin c \<and> \<not> first_pass c then set_OUT False c else c)"

definition square_load :: "counter_type \<Rightarrow> counter_type" where
  "square_load c =
     (let c1 = (set_count (ucast (inlatch c AND 0xFFFE)) c)\<lparr>state_bit_1 := bit (inlatch c) 0\<rparr>
      in (square_swap (c1\<lparr>next_change_time := square_wait c1, null_count := False\<rparr>))
           \<lparr>state_bit_2 := False, first_pass := False\<rparr>)"

definition square_next :: "counter_type \<Rightarrow> Bit32u" where
  "square_next c = (if short_half c then (count_binary c div 2 - 1) AND 0xFFFF else (count_binary c div 2) AND 0xFFFF)"

definition square_count :: "counter_type \<Rightarrow> counter_type" where
  "square_count c =
     (let c1 = decrement (decrement c);
          c2 = c1\<lparr>next_change_time := square_next c1\<rparr>;
          c3 = (if count c2 = 0 then c2\<lparr>state_bit_2 := True, next_change_time := 1\<rparr> else c2)
      in if count c3 = 2 \<and> short_half c3
         then c3\<lparr>state_bit_2 := True, next_change_time := 1\<rparr> else c3)"

definition clock_mode3 :: "counter_type \<Rightarrow> counter_type" where
  "clock_mode3 c =
     (if count_written c
      then if (triggerGATE c \<or> first_pass c \<or> state_bit_2 c) \<and> GATE c then square_load c
        else if GATE c then square_count c
        else c\<lparr>next_change_time := 0\<rparr>
      else c\<lparr>next_change_time := 0\<rparr>)\<lparr>triggerGATE := False\<rparr>"

text \<open>The strobe modes 4 and 5 share the count down to the strobe.\<close>

definition strobe_count :: "counter_type \<Rightarrow> counter_type" where
  "strobe_count c =
     (let c1 = decrement c
      in if first_pass c1
         then let c2 = c1\<lparr>next_change_time := count_binary c1 AND 0xFFFF\<rparr>
              in if count c2 = 0
                 then (set_OUT False c2)\<lparr>next_change_time := 1, first_pass := False\<rparr> else c2
         else c1\<lparr>next_change_time := 0\<rparr>)"

definition clock_mode4 :: "counter_type \<Rightarrow> counter_type" where
  "clock_mode4 c0 =
     (if count_written c0
      then let c = (if \<not> OUTpin c0 then set_OUT True c0 else c0)
           in if null_count c
              then let c1 = load_count c
                   in c1\<lparr>next_change_time := (if GATE c1 then count_wait c1 else 0), null_count := False, first_pass := True\<rparr>
              else if GATE c then strobe_count c
              else c\<lparr>next_change_time := 0\<rparr>
      else c0\<lparr>next_change_time := 0\<rparr>)\<lparr>triggerGATE := False\<rparr>"

definition clock_mode5 :: "counter_type \<Rightarrow> counter_type" where
  "clock_mode5 c0 =
     (if count_written c0
      then let c = (if \<not> OUTpin c0 then set_OUT True c0 else c0)
           in if triggerGATE c
              then let c1 = load_count c
                   in c1\<lparr>next_change_time := count_wait c1, null_count := False, first_pass := True\<rparr>
              else strobe_count c
      else c0\<lparr>next_change_time := 0\<rparr>)\<lparr>triggerGATE := False\<rparr>"

definition pit_clock :: "counter_type \<Rightarrow> counter_type" where
  "pit_clock c =
     (if cmode c = 0 then clock_mode0 c
      else if cmode c = 1 then clock_mode1 c
      else if cmode c = 2 then clock_mode2 c
      else if cmode c = 3 then clock_mode3 c
      else if cmode c = 4 then clock_mode4 c
      else if cmode c = 5 then clock_mode5 c
      else c\<lparr>next_change_time := 0, triggerGATE := False\<rparr>)"

subsection \<open>Many clocks at once\<close>

text \<open>With no change ahead only the count moves, if the mode lets it.\<close>

definition idle_clocks :: "Bit32u \<Rightarrow> counter_type \<Rightarrow> counter_type" where
  "idle_clocks cycles c =
     (if count_written c
      then if cmode c = 0
           then if GATE c \<and> write_state c \<noteq> MSByte_multiple then decrement_multiple cycles c else c
           else if cmode c = 1 then decrement_multiple cycles c
           else if cmode c = 2 then if \<not> first_pass c \<and> GATE c then decrement_multiple cycles c else c
           else if cmode c = 3 then if \<not> first_pass c \<and> GATE c then decrement_multiple (2 * cycles) c else c
           else if cmode c = 4 then if GATE c then decrement_multiple cycles c else c
           else if cmode c = 5 then decrement_multiple cycles c
           else c
      else c)"

text \<open>What one clock of the batch takes off the count.\<close>

definition per_clock :: "counter_type \<Rightarrow> Bit32u" where
  "per_clock c = (if cmode c = 3 then 2 else 1)"

function (sequential) clock_loop :: "Bit32u \<Rightarrow> counter_type \<Rightarrow> counter_type" where
  "clock_loop cycles c =
     (if cycles = 0 then c
      else if next_change_time c = 0 then idle_clocks cycles c
      else if cmode c > 5 then c
      else if next_change_time c > cycles
        then (decrement_multiple (cycles * per_clock c) c)\<lparr>next_change_time := next_change_time c - cycles\<rparr>
      else clock_loop (cycles - next_change_time c)
             (pit_clock (decrement_multiple ((next_change_time c - 1) * per_clock c) c)))"
  by pat_completeness auto

termination clock_loop
proof (relation "measure (\<lambda>(n, c). unat n)")
  fix cycles :: Bit32u and c :: counter_type
  assume n: "next_change_time c \<noteq> 0" "\<not> cycles < next_change_time c"
  then have "next_change_time c \<le> cycles" by (simp add: not_less)
  moreover have "0 < unat (next_change_time c)" using n(1) by (simp add: unat_gt_0)
  ultimately show "((cycles - next_change_time c, pit_clock (decrement_multiple ((next_change_time c - 1) * per_clock c) c)),
      (cycles, c)) \<in> measure (\<lambda>(n, c). unat n)"
    by (simp add: unat_sub word_le_nat_alt)
qed simp

declare clock_loop.simps [simp del]

abbreviation upd_counter :: "nat \<Rightarrow> (counter_type \<Rightarrow> counter_type) \<Rightarrow> pit_82C54 \<Rightarrow> pit_82C54" where
  "upd_counter i f p \<equiv> p\<lparr>counter := (counter p)(i := f (counter p i))\<rparr>"

definition clock_multiple :: "nat \<Rightarrow> Bit32u \<Rightarrow> pit_82C54 \<Rightarrow> pit_82C54" where
  "clock_multiple cnum cycles p = (if cnum > 2 then p else upd_counter cnum (clock_loop cycles) p)"

definition clock_all :: "Bit32u \<Rightarrow> pit_82C54 \<Rightarrow> pit_82C54" where
  "clock_all cycles p = clock_multiple 2 cycles (clock_multiple 1 cycles (clock_multiple 0 cycles p))"

subsection \<open>Registers\<close>

definition pit_init_counter :: "counter_type \<Rightarrow> counter_type" where
  "pit_init_counter c = c\<lparr>read_state := LSByte, write_state := LSByte, GATE := True, OUTpin := True,
     triggerGATE := False, cmode := 4, first_pass := False, bcd_mode := False, count := 0, count_binary := 0,
     state_bit_1 := False, state_bit_2 := False, null_count := False, rw_mode := 1, count_written := True,
     count_LSB_latched := False, count_MSB_latched := False, status_latched := False, next_change_time := 0,
     out_handler := False\<rparr>"

definition pit_init :: "pit_82C54 \<Rightarrow> pit_82C54" where
  "pit_init p = p\<lparr>counter := (\<lambda>i. if i < 3 then pit_init_counter (counter p i) else counter p i)\<rparr>"

definition read_counter :: "counter_type \<Rightarrow> counter_type \<times> Bit8u" where
  "read_counter c =
     (if status_latched c
      then if count_MSB_latched c \<and> read_state c = MSByte_multiple then (c, 0)
           else (c\<lparr>status_latched := False\<rparr>, status_latch c)
      else if count_LSB_latched c
        then ((if read_state c = LSByte_multiple then c\<lparr>read_state := MSByte_multiple\<rparr> else c)\<lparr>count_LSB_latched := False\<rparr>,
              ucast (outlatch c AND 0xFF))
      else if count_MSB_latched c
        then ((if read_state c = MSByte_multiple then c\<lparr>read_state := LSByte_multiple\<rparr> else c)\<lparr>count_MSB_latched := False\<rparr>,
              ucast (drop_bit 8 (outlatch c) AND 0xFF))
      else if read_state c = LSByte \<or> read_state c = LSByte_multiple
        then (if read_state c = LSByte_multiple then c\<lparr>read_state := MSByte_multiple\<rparr> else c,
              ucast (count c AND 0xFF))
      else (if read_state c = MSByte_multiple then c\<lparr>read_state := LSByte_multiple\<rparr> else c,
            ucast (drop_bit 8 (count c) AND 0xFF)))"

definition pit_read :: "Bit8u \<Rightarrow> pit_82C54 \<Rightarrow> pit_82C54 \<times> Bit8u" where
  "pit_read address p =
     (if address > 3 then (p, 0)
      else if address = 3 then (p, 0)
      else let (c, v) = read_counter (counter p (unat address)) in (upd_counter (unat address) (\<lambda>_. c) p, v))"

definition status_byte :: "counter_type \<Rightarrow> Bit8u" where
  "status_byte c = push_bit 7 (of_bool (OUTpin c)) OR push_bit 6 (of_bool (null_count c))
     OR push_bit 4 (rw_mode c AND 3) OR push_bit 1 (cmode c AND 7) OR of_bool (bcd_mode c)"

definition read_back :: "Bit8u \<Rightarrow> counter_type \<Rightarrow> counter_type" where
  "read_back cw c0 =
     (let c = (if \<not> bit cw 5 then latch_counter c0 else c0)
      in if \<not> bit cw 4 \<and> \<not> status_latched c then c\<lparr>status_latch := status_byte c, status_latched := True\<rparr> else c)"

definition program_counter :: "Bit8u \<Rightarrow> Bit8u \<Rightarrow> bool \<Rightarrow> counter_type \<Rightarrow> counter_type" where
  "program_counter RW M BCD c =
     (let c1 = c\<lparr>null_count := True, count_LSB_latched := False, count_MSB_latched := False,
                 status_latched := False, inlatch := 0, count_written := False, first_pass := True,
                 rw_mode := RW, bcd_mode := BCD, cmode := M\<rparr>;
          c2 = (if RW = 1 then c1\<lparr>read_state := LSByte, write_state := LSByte\<rparr>
                else if RW = 2 then c1\<lparr>read_state := MSByte, write_state := MSByte\<rparr>
                else if RW = 3 then c1\<lparr>read_state := LSByte_multiple, write_state := LSByte_multiple\<rparr>
                else c1)
      in (set_OUT (M \<noteq> 0) c2)\<lparr>next_change_time := 0\<rparr>)"

definition control_write :: "Bit8u \<Rightarrow> pit_82C54 \<Rightarrow> pit_82C54" where
  "control_write data p0 =
     (let p = p0\<lparr>controlword := data\<rparr>;
          SC = drop_bit 6 data AND 3; RW = drop_bit 4 data AND 3; M = drop_bit 1 data AND 7; BCD = data AND 1
      in if SC = 3
         then p\<lparr>counter := (\<lambda>i. if i \<le> 2 \<and> bit M i then read_back data (counter p i) else counter p i)\<rparr>
         else if RW = 0 then upd_counter (unat SC) latch_counter p
         else upd_counter (unat SC) (program_counter RW M (BCD > 0)) p)"

text \<open>Writing an initial count: the byte, then the mode's reaction to it.\<close>

definition write_byte :: "Bit8u \<Rightarrow> counter_type \<Rightarrow> counter_type" where
  "write_byte data c = (case write_state c of
       LSByte_multiple \<Rightarrow> c\<lparr>inlatch := ucast data, write_state := MSByte_multiple\<rparr>
     | LSByte \<Rightarrow> c\<lparr>inlatch := ucast data, count_written := True\<rparr>
     | MSByte_multiple \<Rightarrow> c\<lparr>write_state := LSByte_multiple, inlatch := inlatch c OR push_bit 8 (ucast data),
                            count_written := True\<rparr>
     | MSByte \<Rightarrow> c\<lparr>inlatch := push_bit 8 (ucast data), count_written := True\<rparr>)"

definition count_write :: "Bit8u \<Rightarrow> counter_type \<Rightarrow> counter_type" where
  "count_write data c0 =
     (let c1 = write_byte data c0;
          c = (if count_written c1 \<and> write_state c1 \<noteq> MSByte_multiple
               then set_count (ucast (inlatch c1)) (c1\<lparr>null_count := True\<rparr>) else c1)
      in if cmode c = 0
         then (if write_state c = MSByte_multiple then set_OUT False c else c)\<lparr>next_change_time := 1\<rparr>
         else if cmode c = 1 \<or> cmode c = 5
         then (if triggerGATE c then c\<lparr>next_change_time := 1\<rparr> else c)
         else if cmode c = 2 \<or> cmode c = 6 \<or> cmode c = 3 \<or> cmode c = 7 \<or> cmode c = 4
         then c\<lparr>next_change_time := 1\<rparr>
         else c)"

definition pit_write :: "Bit8u \<Rightarrow> Bit8u \<Rightarrow> pit_82C54 \<Rightarrow> pit_82C54" where
  "pit_write address data p =
     (if address > 3 then p
      else if address = 3 then control_write data p
      else upd_counter (unat address) (count_write data) p)"

definition gate_change :: "bool \<Rightarrow> counter_type \<Rightarrow> counter_type" where
  "gate_change data c0 =
     (let c1 = c0\<lparr>GATE := data\<rparr>; c = (if data then c1\<lparr>triggerGATE := True\<rparr> else c1)
      in if cmode c = 0
         then c\<lparr>next_change_time :=
            (if data \<and> count_written c
             then if null_count c then 1
                  else if \<not> OUTpin c \<and> write_state c \<noteq> MSByte_multiple then count_wait c else 0
             else if null_count c then 1 else 0)\<rparr>
         else if cmode c = 1 \<or> cmode c = 5
         then (if data \<and> count_written c then c\<lparr>next_change_time := 1\<rparr> else c)
         else if cmode c = 2
         then (if \<not> data then (set_OUT True c)\<lparr>next_change_time := 0\<rparr>
               else c\<lparr>next_change_time := (if count_written c then 1 else 0)\<rparr>)
         else if cmode c = 3
         then (if \<not> data then (set_OUT True c)\<lparr>first_pass := True, next_change_time := 0\<rparr>
               else c\<lparr>next_change_time := (if count_written c then 1 else 0)\<rparr>)
         else if cmode c = 4
         then c\<lparr>next_change_time :=
            (if \<not> OUTpin c \<or> null_count c then 1
             else if data \<and> count_written c then (if first_pass c then count_wait c else 0) else 0)\<rparr>
         else c)"

definition set_GATE :: "nat \<Rightarrow> bool \<Rightarrow> pit_82C54 \<Rightarrow> pit_82C54" where
  "set_GATE cnum data p =
     (if cnum > 2 \<or> GATE (counter p cnum) = data then p else upd_counter cnum (gate_change data) p)"

definition read_OUT :: "nat \<Rightarrow> pit_82C54 \<Rightarrow> bool" where
  "read_OUT cnum p \<longleftrightarrow> cnum \<le> 2 \<and> OUTpin (counter p cnum)"

definition read_GATE :: "nat \<Rightarrow> pit_82C54 \<Rightarrow> bool" where
  "read_GATE cnum p \<longleftrightarrow> cnum \<le> 2 \<and> GATE (counter p cnum)"

definition get_clock_event_time :: "nat \<Rightarrow> pit_82C54 \<Rightarrow> Bit32u" where
  "get_clock_event_time cnum p = (if cnum > 2 then 0 else next_change_time (counter p cnum))"

definition get_next_event_time :: "pit_82C54 \<Rightarrow> Bit32u" where
  "get_next_event_time p =
     (let time0 = get_clock_event_time 0 p; time1 = get_clock_event_time 1 p; time2 = get_clock_event_time 2 p;
          out1 = (if time1 \<noteq> 0 \<and> time1 < time0 then time1 else time0)
      in if time2 \<noteq> 0 \<and> time2 < out1 then time2 else out1)"

definition get_inlatch :: "nat \<Rightarrow> pit_82C54 \<Rightarrow> Bit16u" where
  "get_inlatch n p = inlatch (counter p n)"

definition new_count_ready :: "nat \<Rightarrow> pit_82C54 \<Rightarrow> bool" where
  "new_count_ready n p \<longleftrightarrow> write_state (counter p n) \<noteq> MSByte_multiple"

definition get_mode :: "nat \<Rightarrow> pit_82C54 \<Rightarrow> Bit8u" where
  "get_mode n p = cmode (counter p n)"

definition set_OUT_handler :: "nat \<Rightarrow> bool \<Rightarrow> pit_82C54 \<Rightarrow> pit_82C54" where
  "set_OUT_handler n h p = upd_counter n (\<lambda>c. c\<lparr>out_handler := h\<rparr>) p"

end
