(* ===== verification/Pit82c54Props.thy ===== *)
theory Pit82c54Props
  imports Pit82c54
begin

text \<open>
  Properties of the timer chip: batch decrements against single ones, independence of the
  clock from how time is cut into batches, the rate generator of the system timer from its
  programming to its pulses, and the latch protocol.
\<close>

subsection \<open>The count down\<close>

text \<open>Counting moves \<open>count\<close> and \<open>count_binary\<close> only.\<close>

lemma set_count_to_binary_frame: "\<exists>x. set_count_to_binary c = c\<lparr>count := x\<rparr>"
  by (auto simp: set_count_to_binary_def)

lemma decrement_frame: "\<exists>x y. decrement c = c\<lparr>count := x, count_binary := y\<rparr>"
proof (cases "count c = 0")
  case False
  let ?b = "count_binary c - 1"
  have "decrement c = c\<lparr>count := (if bcd_mode c then bcd_digits ?b else ?b), count_binary := ?b\<rparr>"
    using False by (simp add: decrement_def set_count_to_binary_def)
  then show ?thesis by blast
qed (auto simp: decrement_def)

lemma set_binary_frame: "\<exists>x y. set_count_to_binary (c\<lparr>count_binary := b\<rparr>) = c\<lparr>count := x, count_binary := y\<rparr>"
proof -
  have "set_count_to_binary (c\<lparr>count_binary := b\<rparr>) =
      c\<lparr>count := (if bcd_mode c then bcd_digits b else b), count_binary := b\<rparr>"
    by (simp add: set_count_to_binary_def)
  then show ?thesis by blast
qed

lemma frame_trans:
  "\<exists>x y. d = c\<lparr>count := x, count_binary := y\<rparr> \<Longrightarrow> \<exists>x y. e = d\<lparr>count := x, count_binary := y\<rparr> \<Longrightarrow>
   \<exists>x y. e = c\<lparr>count := x, count_binary := y\<rparr>" for c d e :: counter_type
  by (elim exE) (rule exI, rule exI, simp)

lemma decrement_multiple_frame: "\<exists>x y. decrement_multiple n c = c\<lparr>count := x, count_binary := y\<rparr>"
proof (induction n c rule: decrement_multiple.induct)
  case (1 n c)
  have c: "\<exists>x y. c = c\<lparr>count := x, count_binary := y\<rparr>" by (rule exI [of _ "count c"], rule exI [of _ "count_binary c"]) simp
  let ?z = "set_count_to_binary (c\<lparr>count_binary := count_binary c - count_binary c\<rparr>)"
  have "\<exists>x y. decrement ?z = c\<lparr>count := x, count_binary := y\<rparr>"
    by (rule frame_trans [OF set_binary_frame decrement_frame])
  then show ?case
    using 1 c set_binary_frame [of "count_binary c - n" c] frame_trans [of "decrement ?z" c "decrement_multiple (n - (count_binary c + 1)) (decrement ?z)"]
    by (subst decrement_multiple.simps) presburger
qed

lemma decrement_multiple_fields [simp]:
  "GATE (decrement_multiple n c) = GATE c" "OUTpin (decrement_multiple n c) = OUTpin c"
  "inlatch (decrement_multiple n c) = inlatch c" "cmode (decrement_multiple n c) = cmode c"
  "bcd_mode (decrement_multiple n c) = bcd_mode c" "null_count (decrement_multiple n c) = null_count c"
  "triggerGATE (decrement_multiple n c) = triggerGATE c" "write_state (decrement_multiple n c) = write_state c"
  "count_written (decrement_multiple n c) = count_written c" "first_pass (decrement_multiple n c) = first_pass c"
  "next_change_time (decrement_multiple n c) = next_change_time c" "out_events (decrement_multiple n c) = out_events c"
  "out_handler (decrement_multiple n c) = out_handler c"
  using decrement_multiple_frame [of n c] by auto

lemma decrement_multiple_0 [simp]: "decrement_multiple 0 c = c"
  by (subst decrement_multiple.simps) simp

lemma decrement_multiple_le:
  "n \<noteq> 0 \<Longrightarrow> n \<le> count_binary c \<Longrightarrow>
   decrement_multiple n c = set_count_to_binary (c\<lparr>count_binary := count_binary c - n\<rparr>)"
  by (subst decrement_multiple.simps) simp

abbreviation wrapped :: "counter_type \<Rightarrow> counter_type" where
  "wrapped c \<equiv> decrement (set_count_to_binary (c\<lparr>count_binary := 0\<rparr>))"

lemma decrement_multiple_gt:
  "\<not> n \<le> count_binary c \<Longrightarrow> decrement_multiple n c = decrement_multiple (n - (count_binary c + 1)) (wrapped c)"
  by (subst decrement_multiple.simps) auto

lemma wrapped_again [simp]: "wrapped (set_count_to_binary (c\<lparr>count_binary := b\<rparr>)) = wrapped c"
  by (simp add: set_count_to_binary_def)

lemma unat_plus_small: "unat a + unat b < 2 ^ LENGTH('a) \<Longrightarrow> unat (a + b) = unat a + unat b"
  for a b :: "'a::len word"
  by (simp add: unat_word_ariths)

text \<open>A batch of decrements may be split anywhere.\<close>

lemma decrement_multiple_add:
  assumes "unat a + unat b < 2 ^ 32"
  shows "decrement_multiple (a + b) c = decrement_multiple b (decrement_multiple a c)"
  using assms
proof (induction a c rule: decrement_multiple.induct)
  case (1 a c)
  let ?cb = "count_binary c"
  have ab: "unat (a + b) = unat a + unat b" using unat_plus_small [of a b] 1(2) by simp
  show ?case
  proof (cases "a = 0")
    case False
    show ?thesis
    proof (cases "a \<le> ?cb")
      case True
      let ?c' = "set_count_to_binary (c\<lparr>count_binary := ?cb - a\<rparr>)"
      have c': "decrement_multiple a c = ?c'" using False True by (rule decrement_multiple_le)
      have cb': "count_binary ?c' = ?cb - a" by (simp add: set_count_to_binary_def)
      have sub: "unat (?cb - a) = unat ?cb - unat a" using True by (simp add: unat_sub)
      consider "b = 0" | "b \<noteq> 0" "a + b \<le> ?cb" | "b \<noteq> 0" "\<not> a + b \<le> ?cb" by blast
      then show ?thesis
      proof cases
        case 1
        then show ?thesis using c' by simp
      next
        case 2
        then have "b \<le> ?cb - a" using ab sub by (simp add: word_le_nat_alt)
        moreover have "a + b \<noteq> 0" using 2(1) ab by (metis add_eq_0_iff_both_eq_0 unat_eq_zero)
        ultimately show ?thesis unfolding c' using 2 cb'
          by (simp add: decrement_multiple_le) (simp add: set_count_to_binary_def algebra_simps)
      next
        case 3
        then have nb: "\<not> b \<le> count_binary ?c'" using ab sub True cb' by (simp add: word_le_nat_alt)
        have "a + b - (?cb + 1) = b - (count_binary ?c' + 1)" by (simp add: cb')
        then show ?thesis
          by (simp only: c' decrement_multiple_gt [OF 3(2)] decrement_multiple_gt [OF nb] wrapped_again)
      qed
    next
      case gt: False
      have "unat ?cb < unat a" using gt by (simp add: word_le_nat_alt)
      then have gt': "\<not> a + b \<le> ?cb" using ab by (simp add: word_le_nat_alt)
      have "unat (a - (?cb + 1)) + unat b < 2 ^ 32" using less_diff_succ(2) [OF gt] 1(2) by linarith
      then have "decrement_multiple ((a - (?cb + 1)) + b) (wrapped c)
          = decrement_multiple b (decrement_multiple (a - (?cb + 1)) (wrapped c))"
        using 1(1) [OF False gt] by simp
      moreover have "a + b - (?cb + 1) = (a - (?cb + 1)) + b" by simp
      ultimately show ?thesis by (simp only: decrement_multiple_gt [OF gt'] decrement_multiple_gt [OF gt])
    qed
  qed simp
qed

text \<open>A count and its binary value that agree.\<close>

definition consistent :: "counter_type \<Rightarrow> bool" where
  "consistent c \<longleftrightarrow> (if bcd_mode c then count_binary c \<le> 9999 \<and> count c = bcd_digits (count_binary c)
     else count_binary c \<le> 0xFFFF \<and> count c = count_binary c)"

lemma consistent_sctb: "consistent c \<Longrightarrow> set_count_to_binary c = c"
  by (simp add: consistent_def set_count_to_binary_def split: if_splits)

lemma bcd_digits_0 [simp]: "bcd_digits 0 = 0"
  by (simp add: bcd_digits_def)

lemma unat_lit: "unat (10 :: Bit32u) = 10" "unat (100 :: Bit32u) = 100" "unat (1000 :: Bit32u) = 1000"
  "unat (9999 :: Bit32u) = 9999"
  by simp_all

lemma digit_less: "(d :: Bit32u) mod 10 < 16"
  by (simp add: word_less_nat_alt unat_mod order.strict_trans [OF mod_less_divisor])

lemma digit_push: "d < 16 \<Longrightarrow> k \<le> 12 \<Longrightarrow> push_bit k d = 0 \<Longrightarrow> d = 0" for d :: Bit32u
proof -
  assume d: "d < 16" and k: "k \<le> 12" and z: "push_bit k d = 0"
  have "\<not> bit d n" for n
  proof
    assume b: "bit d n"
    have "n < 4"
    proof -
      have "unat d < 2 ^ 4" using d by (simp add: word_less_nat_alt)
      then have "take_bit 4 d = d"
        by (metis take_bit_nat_eq_self unsigned_take_bit_eq word_unat_eq_iff)
      then show ?thesis using b by (metis bit_take_bit_iff)
    qed
    then have "bit (push_bit k d) (n + k)" using b k by (simp add: bit_simps)
    then show False using z by simp
  qed
  then show "d = 0" by (auto intro: bit_word_eqI)
qed

lemma nat_digits_0:
  fixes n :: nat
  assumes "n div 1 mod 10 = 0" "n div 10 mod 10 = 0" "n div 100 mod 10 = 0" "n div 1000 mod 10 = 0" "n \<le> 9999"
  shows "n = 0"
proof -
  obtain q1 where q1: "n = 10 * q1" using assms(1) by (auto simp: mod_eq_0_iff_dvd dvd_def)
  then obtain q2 where q2: "q1 = 10 * q2" using assms(2) by (auto simp: mod_eq_0_iff_dvd dvd_def)
  then obtain q3 where q3: "q2 = 10 * q3" using assms(3) q1 by (auto simp: mod_eq_0_iff_dvd dvd_def)
  have "q3 mod 10 = 0" using assms(4) q1 q2 q3 by simp
  moreover have "q3 < 10" using assms(5) q1 q2 q3 by simp
  ultimately show ?thesis using q1 q2 q3 by simp
qed

lemma bcd_digits_eq_0:
  assumes "b \<le> 9999" "bcd_digits b = 0"
  shows "b = 0"
proof -
  have z: "b div 1 mod 10 = 0" "b div 10 mod 10 = 0" "b div 100 mod 10 = 0" "b div 1000 mod 10 = 0"
    using assms(2) digit_push [OF digit_less, of 0 "b div 1"] digit_push [OF digit_less, of 4 "b div 10"]
      digit_push [OF digit_less, of 8 "b div 100"] digit_push [OF digit_less, of 12 "b div 1000"]
    by (simp_all add: bcd_digits_def or_eq_0_iff)
  have "unat b div 1 mod 10 = 0" "unat b div 10 mod 10 = 0" "unat b div 100 mod 10 = 0" "unat b div 1000 mod 10 = 0"
    using z [THEN arg_cong [of _ _ unat]] by (simp_all add: unat_mod unat_div)
  moreover have "unat b \<le> 9999" using assms(1) by (simp add: word_le_nat_alt)
  ultimately have "unat b = 0" by (rule nat_digits_0)
  then show ?thesis by (simp add: unat_eq_zero)
qed

lemma bcd_9999: "bcd_digits 9999 = 0x9999"
  by (simp add: bcd_digits_def)

lemma consistent_decrement:
  assumes "consistent c"
  shows "consistent (decrement c)" "decrement_multiple 1 c = decrement c"
proof -
  have z: "count c = 0 \<longleftrightarrow> count_binary c = 0"
    using assms bcd_digits_eq_0 by (auto simp: consistent_def split: if_splits)
  have le: "count_binary c - 1 \<le> count_binary c" if "count_binary c \<noteq> 0"
    using that by (simp add: word_le_nat_alt unat_minus_one)
  show "consistent (decrement c)"
  proof (cases "count c = 0")
    case True
    then show ?thesis using assms by (simp add: consistent_def decrement_def bcd_9999)
  next
    case False
    then have "count_binary c - 1 \<le> count_binary c" using le z by simp
    then show ?thesis using assms False
      by (auto simp: consistent_def decrement_def set_count_to_binary_def intro: order_trans split: if_splits)
  qed
  show "decrement_multiple 1 c = decrement c"
  proof (cases "count c = 0")
    case True
    then have b: "count_binary c = 0" using z by simp
    then have "decrement_multiple 1 c = wrapped c"
      using decrement_multiple_gt [of 1 c] by simp
    also have "c\<lparr>count_binary := 0\<rparr> = c" using b by (simp flip: b)
    finally show ?thesis using consistent_sctb [OF assms] by simp
  next
    case False
    then have "1 \<le> count_binary c" using z by (simp add: word_le_nat_alt Suc_le_eq unat_gt_0)
    then show ?thesis using False by (simp add: decrement_multiple_le decrement_def)
  qed
qed

text \<open>
  Batch counting. On a count that agrees with its binary value, in binary or decimal
  mode, taking n clocks off at once is the same as n single decrements, through every wrap
  around, and leaves such a count.
\<close>

theorem decrement_multiple_iterates:
  assumes "consistent c"
  shows "decrement_multiple n c = (decrement ^^ unat n) c \<and> consistent (decrement_multiple n c)"
proof -
  have "decrement_multiple (of_nat k) c = (decrement ^^ k) c \<and> consistent ((decrement ^^ k) c)"
    if "k < 2 ^ 32" for k
    using that
  proof (induction k)
    case (Suc k)
    then have "unat (of_nat k :: Bit32u) + unat (1 :: Bit32u) < 2 ^ 32" by (simp add: unat_of_nat take_bit_nat_eq_self)
    then have "decrement_multiple (of_nat k + 1) c = decrement_multiple 1 (decrement_multiple (of_nat k) c)"
      by (rule decrement_multiple_add)
    then show ?case using Suc consistent_decrement [of "(decrement ^^ k) c"] by (simp add: add.commute)
  qed (use assms in simp)
  from this [of "unat n"] show ?thesis using unat_less_exp [of n] by simp
qed

subsection \<open>Batches of clocks\<close>

text \<open>A clock ignores the old wait and computes a new one.\<close>

lemma set_count_next [simp]:
  "set_count v (c\<lparr>next_change_time := x\<rparr>) = (set_count v c)\<lparr>next_change_time := x\<rparr>"
  by (simp add: set_count_def set_binary_to_count_def)

lemma sctb_next [simp]:
  "set_count_to_binary (c\<lparr>next_change_time := x\<rparr>) = (set_count_to_binary c)\<lparr>next_change_time := x\<rparr>"
  by (simp add: set_count_to_binary_def)

lemma decrement_next [simp]: "decrement (c\<lparr>next_change_time := x\<rparr>) = (decrement c)\<lparr>next_change_time := x\<rparr>"
  by (simp add: decrement_def set_count_to_binary_def)

lemma set_OUT_next [simp]: "set_OUT b (c\<lparr>next_change_time := x\<rparr>) = (set_OUT b c)\<lparr>next_change_time := x\<rparr>"
  by (simp add: set_OUT_def)

lemma load_count_next [simp]: "load_count (c\<lparr>next_change_time := x\<rparr>) = (load_count c)\<lparr>next_change_time := x\<rparr>"
  by (simp add: load_count_def)

lemma set_OUT_fields [simp]:
  "count (set_OUT b c) = count c" "count_binary (set_OUT b c) = count_binary c" "GATE (set_OUT b c) = GATE c"
  "null_count (set_OUT b c) = null_count c" "triggerGATE (set_OUT b c) = triggerGATE c"
  "first_pass (set_OUT b c) = first_pass c" "inlatch (set_OUT b c) = inlatch c"
  "count_written (set_OUT b c) = count_written c" "cmode (set_OUT b c) = cmode c"
  "bcd_mode (set_OUT b c) = bcd_mode c" "write_state (set_OUT b c) = write_state c"
  "next_change_time (set_OUT b c) = next_change_time c" "OUTpin (set_OUT b c) = b"
  by (auto simp: set_OUT_def)

lemma clock_mode0_next: "clock_mode0 (c\<lparr>next_change_time := x\<rparr>) = clock_mode0 c"
  by (simp add: clock_mode0_def Let_def count_wait_def)

lemma clock_mode1_next: "clock_mode1 (c\<lparr>next_change_time := x\<rparr>) = clock_mode1 c"
  by (simp add: clock_mode1_def Let_def count_wait_def)

lemma clock_mode2_next: "clock_mode2 (c\<lparr>next_change_time := x\<rparr>) = clock_mode2 c"
  by (simp add: clock_mode2_def Let_def)

lemma square_aux_next [simp]:
  "short_half (c\<lparr>next_change_time := x\<rparr>) = short_half c" "square_wait (c\<lparr>next_change_time := x\<rparr>) = square_wait c"
  "square_next (c\<lparr>next_change_time := x\<rparr>) = square_next c"
  "square_swap (c\<lparr>next_change_time := x\<rparr>) = (square_swap c)\<lparr>next_change_time := x\<rparr>"
  by (simp_all add: short_half_def square_wait_def square_next_def square_swap_def)

lemma square_load_next: "square_load (c\<lparr>next_change_time := x\<rparr>) = square_load c"
proof -
  let ?f = "\<lambda>d. (set_count (ucast (inlatch c AND 0xFFFE)) d)\<lparr>state_bit_1 := bit (inlatch c) 0\<rparr>"
  have f: "?f (c\<lparr>next_change_time := x\<rparr>) = (?f c)\<lparr>next_change_time := x\<rparr>" by simp
  have "square_wait (?f (c\<lparr>next_change_time := x\<rparr>)) = square_wait (?f c)"
    unfolding f by (rule square_aux_next)
  then show ?thesis by (simp add: square_load_def Let_def f)
qed

lemma square_count_next: "square_count (c\<lparr>next_change_time := x\<rparr>) = square_count c"
  by (simp add: square_count_def Let_def [of "decrement (decrement c)"]
      Let_def [of "(decrement (decrement c))\<lparr>next_change_time := x\<rparr>"])

lemma strobe_count_next: "strobe_count (c\<lparr>next_change_time := x\<rparr>) = strobe_count c"
  by (simp add: strobe_count_def Let_def)

lemma clock_mode3_next: "clock_mode3 (c\<lparr>next_change_time := x\<rparr>) = clock_mode3 c"
  by (simp add: clock_mode3_def square_load_next square_count_next)

lemma clock_mode4_next: "clock_mode4 (c\<lparr>next_change_time := x\<rparr>) = clock_mode4 c"
  by (simp add: clock_mode4_def strobe_count_next Let_def count_wait_def)

lemma clock_mode5_next: "clock_mode5 (c\<lparr>next_change_time := x\<rparr>) = clock_mode5 c"
  by (simp add: clock_mode5_def strobe_count_next Let_def count_wait_def)

lemmas clock_modes_next = clock_mode0_next clock_mode1_next clock_mode2_next clock_mode3_next
  clock_mode4_next clock_mode5_next

lemma clock_next [simp]: "pit_clock (c\<lparr>next_change_time := x\<rparr>) = pit_clock c"
  by (simp add: pit_clock_def clock_modes_next)

lemma decrement_multiple_next:
  "decrement_multiple n (c\<lparr>next_change_time := x\<rparr>) = (decrement_multiple n c)\<lparr>next_change_time := x\<rparr>"
proof (induction n c rule: decrement_multiple.induct)
  case (1 n c)
  have z: "set_count_to_binary (c\<lparr>next_change_time := x, count_binary := b\<rparr>)
      = (set_count_to_binary (c\<lparr>count_binary := b\<rparr>))\<lparr>next_change_time := x\<rparr>" for b
    by (simp add: set_count_to_binary_def)
  show ?case
  proof (cases "n = 0 \<or> n \<le> count_binary c")
    case True
    then show ?thesis using z by (cases "n = 0") (simp_all add: decrement_multiple_le)
  next
    case False
    then show ?thesis using 1 z by (simp add: decrement_multiple_gt)
  qed
qed

lemma idle_clocks_fields [simp]: "next_change_time (idle_clocks n c) = next_change_time c"
  by (simp add: idle_clocks_def)

lemma idle_clocks_add:
  assumes "unat a + unat b < 2 ^ 31"
  shows "idle_clocks (a + b) c = idle_clocks b (idle_clocks a c)"
proof -
  have d: "unat (2 * w :: Bit32u) = 2 * unat w" if "unat w < 2 ^ 31" for w
    using that by (simp add: unat_word_ariths)
  have "unat (2 * a) + unat (2 * b) < 2 ^ 32" using d [of a] d [of b] assms by simp
  then have "decrement_multiple (2 * (a + b)) c = decrement_multiple (2 * b) (decrement_multiple (2 * a) c)"
    using decrement_multiple_add [of "2 * a" "2 * b"] by (simp add: distrib_left)
  moreover have "decrement_multiple (a + b) c = decrement_multiple b (decrement_multiple a c)"
    using assms by (intro decrement_multiple_add) simp
  ultimately show ?thesis by (simp add: idle_clocks_def)
qed

lemma clock_loop_0 [simp]: "clock_loop 0 c = c"
  by (subst clock_loop.simps) simp

lemma per_clock_mult: 
  assumes "unat w < 2 ^ 31"
  shows "unat (w * per_clock c) = unat w * (if cmode c = 3 then 2 else 1)"
  using assms by (simp add: per_clock_def unat_word_ariths)

lemma per_clock_split:
  assumes "unat a + unat b < 2 ^ 31"
  shows "decrement_multiple ((a + b) * per_clock c) c = decrement_multiple (b * per_clock c) (decrement_multiple (a * per_clock c) c)"
proof -
  have "unat (a * per_clock c) + unat (b * per_clock c) < 2 ^ 32"
    using assms by (simp add: per_clock_mult)
  from decrement_multiple_add [OF this] show ?thesis by (simp add: distrib_right)
qed

lemma clock_loop_idle: "n \<noteq> 0 \<Longrightarrow> next_change_time c = 0 \<Longrightarrow> clock_loop n c = idle_clocks n c"
  by (subst clock_loop.simps) simp

lemma clock_loop_no_mode: "next_change_time c \<noteq> 0 \<Longrightarrow> cmode c > 5 \<Longrightarrow> clock_loop n c = c"
  by (subst clock_loop.simps) simp

lemma clock_loop_before:
  "n < next_change_time c \<Longrightarrow> \<not> cmode c > 5 \<Longrightarrow>
   clock_loop n c = (decrement_multiple (n * per_clock c) c)\<lparr>next_change_time := next_change_time c - n\<rparr>"
  by (subst clock_loop.simps) auto

lemma clock_loop_reach:
  "next_change_time c \<noteq> 0 \<Longrightarrow> \<not> cmode c > 5 \<Longrightarrow> \<not> n < next_change_time c \<Longrightarrow>
   clock_loop n c = clock_loop (n - next_change_time c)
     (pit_clock (decrement_multiple ((next_change_time c - 1) * per_clock c) c))"
  by (subst clock_loop.simps) (auto simp: word_gt_0)

lemma per_clock_simps [simp]:
  "per_clock (c\<lparr>next_change_time := x\<rparr>) = per_clock c" "per_clock (decrement_multiple n c) = per_clock c"
  by (simp_all add: per_clock_def)

lemma clock_loop_add:
  assumes "unat a + unat b < 2 ^ 31"
  shows "clock_loop (a + b) c = clock_loop b (clock_loop a c)"
  using assms
proof (induction a c rule: clock_loop.induct)
  case (1 a c)
  let ?n = "next_change_time c" and ?p = "per_clock c"
  let ?c1 = "(decrement_multiple (a * ?p) c)\<lparr>next_change_time := ?n - a\<rparr>"
  have ab: "unat (a + b) = unat a + unat b" using unat_plus_small [of a b] 1(2) by simp
  have na: "unat (?n - a) = unat ?n - unat a" if "a < ?n" using that by (simp add: unat_sub less_imp_le)
  consider "a = 0 \<or> b = 0" | "a \<noteq> 0" "b \<noteq> 0" "?n = 0" | "?n \<noteq> 0" "cmode c > 5"
    | "?n \<noteq> 0" "\<not> cmode c > 5" "a < ?n" "a + b < ?n"
    | "?n \<noteq> 0" "\<not> cmode c > 5" "a < ?n" "\<not> a + b < ?n"
    | "a \<noteq> 0" "?n \<noteq> 0" "\<not> cmode c > 5" "\<not> a < ?n" by blast
  then show ?case
  proof cases
    case 1
    then show ?thesis by auto
  next
    case 2
    have "a + b \<noteq> 0" using 2 ab by (metis add_eq_0_iff_both_eq_0 unat_eq_zero)
    then show ?thesis using 2 idle_clocks_add [OF 1(2)] by (simp add: clock_loop_idle)
  next
    case 3
    then show ?thesis by (simp add: clock_loop_no_mode)
  next
    case 4
    have "b < next_change_time ?c1" using 4 na ab by (simp add: word_less_nat_alt)
    then have "clock_loop b ?c1 = (decrement_multiple (b * ?p) ?c1)\<lparr>next_change_time := ?n - a - b\<rparr>"
      using 4(2) by (subst clock_loop_before) simp_all
    also have "\<dots> = (decrement_multiple ((a + b) * ?p) c)\<lparr>next_change_time := ?n - (a + b)\<rparr>"
      by (simp add: decrement_multiple_next per_clock_split [OF 1(2)])
    finally show ?thesis using clock_loop_before [OF 4(3,2)] clock_loop_before [OF 4(4,2)] by simp
  next
    case 5
    have nz: "next_change_time ?c1 \<noteq> 0" using 5(3) by auto
    have ge: "\<not> b < next_change_time ?c1" using 5 na ab by (simp add: word_less_nat_alt)
    have le: "unat ?n \<le> unat a + unat b" using 5(4) ab by (simp add: word_less_nat_alt)
    have "unat (?n - a - 1) = unat ?n - unat a - 1"
      using na [OF 5(3)] nz by (simp add: unat_minus_one)
    then have sum: "unat a + unat (?n - a - 1) < 2 ^ 31" using le 1(2) 5(3) by (simp add: word_less_nat_alt)
    have "clock_loop b ?c1 = clock_loop (b - (?n - a)) (pit_clock (decrement_multiple ((?n - a - 1) * ?p) ?c1))"
      using clock_loop_reach [OF nz _ ge] 5(2) by simp
    also have "decrement_multiple ((?n - a - 1) * ?p) ?c1
        = (decrement_multiple ((?n - 1) * ?p) c)\<lparr>next_change_time := ?n - a\<rparr>"
      using per_clock_split [OF sum, of c] by (simp add: decrement_multiple_next)
    also have "b - (?n - a) = a + b - ?n" by simp
    finally show ?thesis using clock_loop_before [OF 5(3,2)] clock_loop_reach [OF 5(1,2,4)] by simp
  next
    case 6
    have le: "unat ?n \<le> unat a" using 6(4) by (simp add: word_less_nat_alt)
    then have "\<not> a + b < ?n" using ab by (simp add: word_less_nat_alt)
    then have "clock_loop (a + b) c = clock_loop (a + b - ?n) (pit_clock (decrement_multiple ((?n - 1) * ?p) c))"
      by (rule clock_loop_reach [OF 6(2,3)])
    also have "a + b - ?n = (a - ?n) + b" by simp
    also have "unat (a - ?n) + unat b < 2 ^ 31" using le 1(2) by (simp add: unat_sub word_le_nat_alt)
    then have "clock_loop ((a - ?n) + b) (pit_clock (decrement_multiple ((?n - 1) * ?p) c))
        = clock_loop b (clock_loop (a - ?n) (pit_clock (decrement_multiple ((?n - 1) * ?p) c)))"
      using 1(1) [OF 6(1,2,3,4)] by simp
    finally show ?thesis using clock_loop_reach [OF 6(2-4)] by simp
  qed
qed

text \<open>
  C31: splitting a batch. Clocking a counter for a + b cycles is clocking it for a and then for
  b, in every mode and every state, with the same sequence of OUT changes: how the host time is
  cut into batches does not show.
\<close>

theorem clock_multiple_split:
  assumes "unat a + unat b < 2 ^ 31"
  shows "clock_multiple n (a + b) p = clock_multiple n b (clock_multiple n a p)"
  by (simp add: clock_multiple_def clock_loop_add [OF assms])

lemma clock_all_split:
  assumes "unat a + unat b < 2 ^ 31"
  shows "clock_all (a + b) p = clock_all b (clock_all a p)"
  by (simp add: clock_all_def clock_multiple_def clock_loop_add [OF assms] fun_upd_twist)

subsection \<open>The rate generator\<close>

text \<open>
  Mode 2 between two pulses: the count is freshly loaded from the input latch and the wait
  runs to the pulse. The period is the programmed count, and 65536 for a count of zero.
\<close>

definition rate_loaded :: "counter_type \<Rightarrow> bool" where
  "rate_loaded c \<longleftrightarrow> cmode c = 2 \<and> \<not> bcd_mode c \<and> GATE c \<and> count_written c \<and> \<not> first_pass c \<and> \<not> triggerGATE c \<and>
     \<not> null_count c \<and> OUTpin c \<and> count c = ucast (inlatch c) \<and> count_binary c = ucast (inlatch c) \<and>
     next_change_time c = (ucast (inlatch c) - 1) AND 0xFFFF"

definition rate_period :: "Bit16u \<Rightarrow> nat" where
  "rate_period v = (if v = 0 then 65536 else unat v)"

definition pulse :: "counter_type \<Rightarrow> bool list" where
  "pulse c = (if out_handler c then [False, True] else [])"

lemma and_ffff: "(w :: Bit32u) AND 0xFFFF = take_bit 16 w"
  by (simp add: take_bit_eq_mask mask_eq_exp_minus_1)

lemma ucast16_and_ffff [simp]: "(ucast (v :: Bit16u) :: Bit32u) AND 0xFFFF = ucast v"
  by (rule bit_word_eqI) (auto simp: and_ffff bit_simps dest: bit_imp_le_length)

lemma rate_wait:
  assumes "v \<noteq> 1"
  shows "unat ((ucast (v :: Bit16u) - 1 :: Bit32u) AND 0xFFFF) = rate_period v - 1" "rate_period v \<ge> 2"
proof -
  have v: "unat v < 65536" using unat_less_exp [of v] by simp
  have v1: "unat v \<noteq> 1" using assms by (simp add: word_unat_eq_iff)
  have v0: "unat v = 0 \<longleftrightarrow> v = 0" by (rule unat_eq_zero)
  show "rate_period v \<ge> 2" using v1 v0 by (auto simp: rate_period_def)
  show "unat ((ucast v - 1 :: Bit32u) AND 0xFFFF) = rate_period v - 1"
  proof (cases "v = 0")
    case True
    then show ?thesis by (simp add: rate_period_def)
  next
    case False
    then have "unat (ucast v :: Bit32u) \<noteq> 0" using v0 by (simp add: unat_ucast_up)
    then have "ucast v \<noteq> (0 :: Bit32u)" by auto
    then have "unat (ucast v - 1 :: Bit32u) = unat v - 1" by (simp add: unat_minus_one unat_ucast_up)
    then show ?thesis using False v
      by (simp add: and_ffff unsigned_take_bit_eq take_bit_nat_eq_self rate_period_def)
  qed
qed

lemma decrement_to_2:
  assumes "rate_loaded c" "inlatch c \<noteq> 1"
  shows "decrement_multiple (next_change_time c - 1) c = c\<lparr>count := 2, count_binary := 2\<rparr>"
proof (cases "inlatch c = 0")
  case True
  have "next_change_time c - 1 = 0xFFFE" using assms True by (simp add: rate_loaded_def)
  moreover have "decrement_multiple 0xFFFE c = decrement_multiple 0xFFFD (wrapped c)"
    using decrement_multiple_gt [of "0xFFFE" c] assms(1) True by (simp add: rate_loaded_def)
  moreover have "wrapped c = c\<lparr>count := 0xFFFF, count_binary := 0xFFFF\<rparr>"
    using assms(1) by (simp add: rate_loaded_def decrement_def set_count_to_binary_def)
  moreover have "decrement_multiple 0xFFFD (c\<lparr>count := 0xFFFF, count_binary := 0xFFFF\<rparr>) = c\<lparr>count := 2, count_binary := 2\<rparr>"
    using assms(1) by (simp add: decrement_multiple_le rate_loaded_def set_count_to_binary_def)
  ultimately show ?thesis by simp
next
  case False
  let ?N = "ucast (inlatch c) :: Bit32u"
  have w: "unat (next_change_time c) = unat (inlatch c) - 1" "unat (inlatch c) \<ge> 2"
    using rate_wait [OF assms(2)] assms(1) False by (simp_all add: rate_loaded_def rate_period_def)
  then have "next_change_time c \<noteq> 0" by auto
  then have u: "unat (next_change_time c - 1) = unat ?N - 2" using w by (simp add: unat_minus_one unat_ucast_up)
  have "unat (?N - 2) = unat ?N - 2" using w(2) by (simp add: unat_sub word_le_nat_alt unat_ucast_up)
  then have n: "next_change_time c - 1 = ?N - 2" using u by (simp add: word_unat_eq_iff)
  have fld: "count_binary c = ?N" "\<not> bcd_mode c" "count c = ?N" using assms(1) by (simp_all add: rate_loaded_def)
  show ?thesis
  proof (cases "?N = 2")
    case True
    have "c\<lparr>count := 2, count_binary := 2\<rparr> = c" using fld True by simp
    then show ?thesis using n True by simp
  next
    case False
    have "?N - 2 \<le> ?N" using w(2) u n by (simp add: word_le_nat_alt unat_ucast_up)
    then show ?thesis unfolding n using False fld by (simp add: decrement_multiple_le set_count_to_binary_def)
  qed
qed

lemma clock_to_pulse:
  assumes "rate_loaded c"
  shows "pit_clock (c\<lparr>count := 2, count_binary := 2\<rparr>) =
    (set_OUT False c)\<lparr>count := 1, count_binary := 1, next_change_time := 1, first_pass := True\<rparr>"
  using assms by (simp add: rate_loaded_def pit_clock_def clock_mode2_def decrement_def set_count_to_binary_def set_OUT_def)

lemma clock_from_pulse:
  assumes "rate_loaded c"
  shows "pit_clock ((set_OUT False c)\<lparr>count := 1, count_binary := 1, next_change_time := 1, first_pass := True\<rparr>)
    = c\<lparr>out_events := out_events c @ pulse c\<rparr>"
  using assms
  by (simp add: rate_loaded_def pit_clock_def clock_mode2_def load_count_def set_count_def set_binary_to_count_def
      set_OUT_def pulse_def)

lemma rate_one_period:
  assumes c: "rate_loaded c" "inlatch c \<noteq> 1"
  shows "clock_loop (of_nat (rate_period (inlatch c))) c = c\<lparr>out_events := out_events c @ pulse c\<rparr>"
proof -
  let ?P = "of_nat (rate_period (inlatch c)) :: Bit32u" and ?n = "next_change_time c"
  let ?d = "(set_OUT False c)\<lparr>count := 1, count_binary := 1, next_change_time := 1, first_pass := True\<rparr>"
  have le: "rate_period (inlatch c) \<le> 65536"
    using unat_less_exp [of "inlatch c"] by (simp add: rate_period_def)
  then have P: "unat ?P = rate_period (inlatch c)" by (simp add: unat_of_nat take_bit_nat_eq_self)
  have n: "unat ?n = rate_period (inlatch c) - 1" "rate_period (inlatch c) \<ge> 2"
    using rate_wait [OF c(2)] c(1) by (simp_all add: rate_loaded_def)
  have nz: "?n \<noteq> 0" using n by auto
  have m: "\<not> cmode c > 5" "per_clock c = 1" using c(1) by (simp_all add: rate_loaded_def per_clock_def)
  have "\<not> ?P < ?n" using P n by (simp add: word_less_nat_alt)
  then have "clock_loop ?P c = clock_loop (?P - ?n) ?d"
    using clock_loop_reach [OF nz m(1)] decrement_to_2 [OF c] clock_to_pulse [OF c(1)] by (simp add: m(2))
  also have "?P - ?n = 1"
  proof -
    have "?n \<le> ?P" using P n by (simp add: word_le_nat_alt)
    then have "unat (?P - ?n) = 1" using P n by (simp add: unat_sub)
    then show ?thesis by (simp add: word_unat_eq_iff)
  qed
  also have "clock_loop 1 ?d = pit_clock ?d"
    using c(1) by (subst clock_loop_reach) (simp_all add: rate_loaded_def)
  finally show ?thesis using clock_from_pulse [OF c(1)] by simp
qed

lemma rate_loaded_events [simp]:
  "rate_loaded (c\<lparr>out_events := e\<rparr>) = rate_loaded c" "pulse (c\<lparr>out_events := e\<rparr>) = pulse c"
  by (simp_all add: rate_loaded_def pulse_def)

lemma rate_periods:
  assumes "rate_loaded c" "inlatch c \<noteq> 1" "k * rate_period (inlatch c) < 2 ^ 31"
  shows "clock_loop (of_nat (k * rate_period (inlatch c))) c = c\<lparr>out_events := out_events c @ concat (replicate k (pulse c))\<rparr>"
  using assms
proof (induction k arbitrary: c)
  case (Suc k)
  let ?r = "rate_period (inlatch c)" and ?c1 = "c\<lparr>out_events := out_events c @ pulse c\<rparr>"
  have u: "unat (of_nat x :: Bit32u) = x" if "x < 2 ^ 31" for x
    using that by (simp add: unat_of_nat take_bit_nat_eq_self)
  have b: "?r + k * ?r < 2 ^ 31" using Suc.prems(3) by simp
  then have "clock_loop (of_nat ?r + of_nat (k * ?r)) c = clock_loop (of_nat (k * ?r)) (clock_loop (of_nat ?r) c)"
    by (intro clock_loop_add) (simp add: u del: of_nat_mult)
  then have "clock_loop (of_nat (Suc k * ?r)) c = clock_loop (of_nat (k * ?r)) ?c1"
    using rate_one_period [OF Suc.prems(1,2)] by simp
  also have "\<dots> = ?c1\<lparr>out_events := out_events ?c1 @ concat (replicate k (pulse ?c1))\<rparr>"
    using Suc.IH [of ?c1] Suc.prems b by simp
  finally show ?case by simp
qed simp

subsection \<open>Programming\<close>

text \<open>The three port writes that start counter 0 as a rate generator.\<close>

definition program_rate :: "Bit8u \<Rightarrow> Bit8u \<Rightarrow> pit_82C54 \<Rightarrow> pit_82C54" where
  "program_rate lo hi p = pit_write 0 hi (pit_write 0 lo (pit_write 3 0x34 p))"

definition latch_word :: "Bit8u \<Rightarrow> Bit8u \<Rightarrow> Bit16u" where
  "latch_word lo hi = ucast lo OR push_bit 8 (ucast hi)"

lemma control_write_34:
  "control_write 0x34 p = upd_counter 0 (program_counter 3 2 False) (p\<lparr>controlword := 0x34\<rparr>)"
  by (simp add: control_write_def Let_def)

lemma program_counter_rate:
  fixes c defines "d \<equiv> program_counter 3 2 False c"
  shows "cmode d = 2" "\<not> bcd_mode d" "GATE d = GATE c" "\<not> count_written d" "first_pass d" "OUTpin d"
    "write_state d = LSByte_multiple" "out_handler d = out_handler c"
  unfolding d_def by (simp_all add: program_counter_def Let_def) (simp add: set_OUT_def)

lemma count_write_low:
  assumes "cmode d = 2" "write_state d = LSByte_multiple" "\<not> count_written d"
  shows "count_write lo d = d\<lparr>inlatch := ucast lo, write_state := MSByte_multiple, next_change_time := 1\<rparr>"
  using assms by (simp add: count_write_def write_byte_def)

lemma count_write_high:
  assumes "cmode d = 2" "write_state d = MSByte_multiple"
  shows "count_write hi d = (set_count (ucast (inlatch d OR push_bit 8 (ucast hi)))
    (d\<lparr>write_state := LSByte_multiple, inlatch := inlatch d OR push_bit 8 (ucast hi), count_written := True, null_count := True\<rparr>))
      \<lparr>next_change_time := 1\<rparr>"
  using assms by (simp add: count_write_def write_byte_def set_count_def set_binary_to_count_def)

lemma set_count_fields [simp]:
  "cmode (set_count v c) = cmode c" "bcd_mode (set_count v c) = bcd_mode c" "GATE (set_count v c) = GATE c"
  "count_written (set_count v c) = count_written c" "first_pass (set_count v c) = first_pass c"
  "OUTpin (set_count v c) = OUTpin c" "inlatch (set_count v c) = inlatch c" "out_handler (set_count v c) = out_handler c"
  "out_events (set_count v c) = out_events c" "triggerGATE (set_count v c) = triggerGATE c"
  by (simp_all add: set_count_def set_binary_to_count_def)

lemma program_rate_counter:
  fixes lo hi :: Bit8u
  assumes "GATE (counter p 0)"
  defines "c \<equiv> counter (program_rate lo hi p) 0"
  shows "cmode c = 2" "\<not> bcd_mode c" "GATE c" "count_written c" "first_pass c" "OUTpin c"
    "inlatch c = latch_word lo hi" "next_change_time c = 1" "out_handler c = out_handler (counter p 0)"
proof -
  let ?d = "program_counter 3 2 False (counter p 0)"
  note d = program_counter_rate [of "counter p 0"]
  have "c = count_write hi (count_write lo ?d)"
    by (simp add: c_def program_rate_def pit_write_def control_write_34)
  also have "\<dots> = (set_count (ucast (latch_word lo hi)) (?d\<lparr>next_change_time := 1,
      write_state := LSByte_multiple, inlatch := latch_word lo hi, count_written := True, null_count := True\<rparr>))\<lparr>next_change_time := 1\<rparr>"
    using d by (simp add: count_write_low count_write_high latch_word_def)
  finally have c: "c = \<dots>" .
  show "cmode c = 2" "\<not> bcd_mode c" "GATE c" "count_written c" "first_pass c" "OUTpin c"
    "inlatch c = latch_word lo hi" "next_change_time c = 1" "out_handler c = out_handler (counter p 0)"
    unfolding c using d assms(1) by simp_all
qed

lemma program_rate_loads:
  fixes lo hi :: Bit8u
  assumes "GATE (counter p 0)"
  defines "c \<equiv> counter (program_rate lo hi p) 0"
  shows "rate_loaded (clock_loop 1 c)" "inlatch (clock_loop 1 c) = latch_word lo hi"
    "out_events (clock_loop 1 c) = out_events c" "out_handler (clock_loop 1 c) = out_handler (counter p 0)"
proof -
  note c = program_rate_counter [OF assms(1), of lo hi, folded c_def]
  have "clock_loop 1 c = pit_clock c" using c by (subst clock_loop_reach) simp_all
  also have "pit_clock c = (load_count c)\<lparr>next_change_time := (ucast (inlatch c) - 1) AND 0xFFFF, null_count := False,
      first_pass := False, triggerGATE := False\<rparr>"
    using c by (simp add: pit_clock_def clock_mode2_def load_count_def set_count_def set_binary_to_count_def Let_def)
  finally have l: "clock_loop 1 c = \<dots>" .
  show "rate_loaded (clock_loop 1 c)" "inlatch (clock_loop 1 c) = latch_word lo hi"
    "out_events (clock_loop 1 c) = out_events c" "out_handler (clock_loop 1 c) = out_handler (counter p 0)"
    unfolding l using c by (simp_all add: rate_loaded_def load_count_def set_count_def set_binary_to_count_def)
qed

text \<open>
  The system timer ticks at the programmed rate. After the three port writes that
  program counter 0 as a rate generator with count n (0 meaning 65536, 1 being invalid), the
  first clock loads the count and every n clocks after it OUT goes low and high again,
  exactly once.
\<close>

theorem rate_generator_ticks:
  assumes "GATE (counter p 0)" "out_handler (counter p 0)" "latch_word lo hi \<noteq> 1"
    "1 + k * rate_period (latch_word lo hi) < 2 ^ 31"
  shows "out_events (counter (clock_multiple 0 (of_nat (1 + k * rate_period (latch_word lo hi))) (program_rate lo hi p)) 0)
    = out_events (counter (program_rate lo hi p) 0) @ concat (replicate k [False, True])"
proof -
  let ?c = "counter (program_rate lo hi p) 0" and ?n = "k * rate_period (latch_word lo hi)"
  note l = program_rate_loads [OF assms(1), of lo hi]
  have "unat (1 :: Bit32u) + unat (of_nat ?n :: Bit32u) < 2 ^ 31"
    using assms(4) by (simp add: unat_of_nat take_bit_nat_eq_self del: of_nat_mult)
  then have "clock_loop (1 + of_nat ?n) ?c = clock_loop (of_nat ?n) (clock_loop 1 ?c)" by (rule clock_loop_add)
  also have "\<dots> = (clock_loop 1 ?c)\<lparr>out_events := out_events ?c @ concat (replicate k [False, True])\<rparr>"
    using rate_periods [OF l(1), of k] l assms(2-4) by (simp add: pulse_def)
  finally show ?thesis by (simp add: clock_multiple_def)
qed

subsection \<open>Latching and reading\<close>

text \<open>What a read depends on when something is latched: clocks do not touch it.\<close>

definition latch_view :: "counter_type \<Rightarrow> rw_status \<times> Bit16u \<times> bool \<times> bool \<times> bool \<times> Bit8u" where
  "latch_view c = (read_state c, outlatch c, count_LSB_latched c, count_MSB_latched c, status_latched c, status_latch c)"

lemma latch_view_parts [simp]:
  "latch_view (set_OUT b c) = latch_view c" "latch_view (set_count v c) = latch_view c"
  "latch_view (load_count c) = latch_view c" "latch_view (decrement c) = latch_view c"
  "latch_view (c\<lparr>next_change_time := n\<rparr>) = latch_view c" "latch_view (c\<lparr>null_count := b\<rparr>) = latch_view c"
  "latch_view (c\<lparr>first_pass := b\<rparr>) = latch_view c" "latch_view (c\<lparr>triggerGATE := b\<rparr>) = latch_view c"
  "latch_view (c\<lparr>state_bit_1 := b\<rparr>) = latch_view c" "latch_view (c\<lparr>state_bit_2 := b\<rparr>) = latch_view c"
  by (simp_all add: latch_view_def set_OUT_def set_count_def set_binary_to_count_def load_count_def decrement_def
      set_count_to_binary_def)

lemma latch_view_clock [simp]: "latch_view (pit_clock c) = latch_view c"
  by (simp add: pit_clock_def clock_mode0_def clock_mode1_def clock_mode2_def clock_mode3_def clock_mode4_def
      clock_mode5_def square_load_def square_swap_def square_count_def strobe_count_def Let_def)

lemma latch_view_decrements [simp]: "latch_view (decrement_multiple n c) = latch_view c"
  using decrement_multiple_frame [of n c] by (auto simp: latch_view_def)

lemma latch_view_clocks [simp]: "latch_view (clock_loop n c) = latch_view c"
proof (induction n c rule: clock_loop.induct)
  case (1 n c)
  then show ?case by (subst clock_loop.simps) (auto simp: idle_clocks_def)
qed

lemma read_latched:
  assumes "\<not> status_latched c"
  shows "count_LSB_latched c \<Longrightarrow> read_state c = LSByte_multiple \<Longrightarrow>
      read_counter c = (c\<lparr>read_state := MSByte_multiple, count_LSB_latched := False\<rparr>, ucast (outlatch c AND 0xFF))"
    "\<not> count_LSB_latched c \<Longrightarrow> count_MSB_latched c \<Longrightarrow> read_state c = MSByte_multiple \<Longrightarrow>
      read_counter c = (c\<lparr>read_state := LSByte_multiple, count_MSB_latched := False\<rparr>, ucast (drop_bit 8 (outlatch c) AND 0xFF))"
  using assms by (simp_all add: read_counter_def)

lemma latch_bytes: "latch_word (ucast (w AND 0xFF)) (ucast (drop_bit 8 w AND 0xFF)) = w" for w :: Bit16u
proof (rule bit_word_eqI)
  fix n assume "n < LENGTH(16)"
  then show "bit (latch_word (ucast (w AND 0xFF)) (ucast (drop_bit 8 w AND 0xFF))) n \<longleftrightarrow> bit w n"
    by (auto simp: latch_word_def bit_simps bit_mask_literals)
qed

text \<open>
  Latched reads. Latching a counter programmed for two-byte access freezes the count: the
  two reads that follow give its low and its high byte as it was when it was latched, however
  many clocks pass before and between them.
\<close>

theorem latched_read_back:
  assumes "read_state c = LSByte_multiple" "\<not> count_LSB_latched c" "\<not> count_MSB_latched c" "\<not> status_latched c"
  shows "(let c1 = clock_loop n (latch_counter c); (c2, lo) = read_counter c1; (c3, hi) = read_counter (clock_loop m c2)
    in latch_word lo hi = ucast (count c AND 0xFFFF) \<and>
       read_state c3 = LSByte_multiple \<and> \<not> count_LSB_latched c3 \<and> \<not> count_MSB_latched c3)"
proof -
  define w where "w = (ucast (count c AND 0xFFFF) :: Bit16u)"
  define c1 where "c1 = clock_loop n (latch_counter c)"
  define c2 where "c2 = c1\<lparr>read_state := MSByte_multiple, count_LSB_latched := False\<rparr>"
  define d where "d = clock_loop m c2"
  have "latch_view c1 = (LSByte_multiple, w, True, True, False, status_latch c)"
    unfolding c1_def latch_view_clocks using assms by (simp add: latch_view_def latch_counter_def w_def)
  then have f1: "read_state c1 = LSByte_multiple" "outlatch c1 = w" "count_LSB_latched c1" "count_MSB_latched c1"
    "\<not> status_latched c1" by (simp_all add: latch_view_def)
  have "latch_view d = (MSByte_multiple, w, False, True, False, status_latch c1)"
    unfolding d_def latch_view_clocks using f1 by (simp add: latch_view_def c2_def)
  then have f2: "read_state d = MSByte_multiple" "outlatch d = w" "\<not> count_LSB_latched d" "count_MSB_latched d"
    "\<not> status_latched d" by (simp_all add: latch_view_def)
  have r1: "read_counter c1 = (c2, ucast (w AND 0xFF))" using read_latched(1) [of c1] f1 by (simp add: c2_def)
  have r2: "read_counter d = (d\<lparr>read_state := LSByte_multiple, count_MSB_latched := False\<rparr>, ucast (drop_bit 8 w AND 0xFF))"
    using read_latched(2) [of d] f2 by simp
  show ?thesis using r1 r2 f2 latch_bytes [of w] by (simp add: c1_def [symmetric] d_def [symmetric] w_def [symmetric])
qed

subsection \<open>The next change\<close>

text \<open>
  The next change of the chip. While counter 0 has a change ahead, the chip reports the
  earliest of the changes of its three counters. When counter 0 has none the chip reports
  that nothing will ever change, whatever counters 1 and 2 have pending.
\<close>

theorem next_event_time_earliest:
  "(get_clock_event_time 0 p = 0 \<longrightarrow> get_next_event_time p = 0) \<and>
   (get_clock_event_time 0 p \<noteq> 0 \<longrightarrow>
      (\<exists>i\<le>2. get_next_event_time p = get_clock_event_time i p) \<and> get_next_event_time p \<noteq> 0 \<and>
      (\<forall>i. get_clock_event_time i p \<noteq> 0 \<longrightarrow> get_next_event_time p \<le> get_clock_event_time i p))"
proof -
  let ?t = "\<lambda>i. get_clock_event_time i p"
  have i: "?t i = 0 \<or> i = 0 \<or> i = 1 \<or> i = 2" for i by (cases "2 < i") (simp add: get_clock_event_time_def, arith)
  have "get_next_event_time p = ?t 0 \<or> get_next_event_time p = ?t 1 \<or> get_next_event_time p = ?t 2"
    by (simp add: get_next_event_time_def Let_def)
  then have "(\<exists>i\<le>2. get_next_event_time p = ?t i)" by (metis le0 one_le_numeral order_refl)
  moreover have "get_next_event_time p \<noteq> 0" if "?t 0 \<noteq> 0" using that by (simp add: get_next_event_time_def Let_def)
  moreover have "get_next_event_time p = 0" if "?t 0 = 0" using that by (simp add: get_next_event_time_def Let_def)
  moreover have "get_next_event_time p \<le> ?t i" if "?t 0 \<noteq> 0" "?t i \<noteq> 0" for i
    using i [of i] that by (auto simp: get_next_event_time_def Let_def not_less intro: less_imp_le order_trans)
  ultimately show ?thesis by blast
qed

subsection \<open>Concrete chip\<close>

definition wit_counter :: counter_type where
  "wit_counter = \<lparr>GATE = True, OUTpin = True, count = 0x10, outlatch = 0, inlatch = 0, status_latch = 0, rw_mode = 3,
     cmode = 4, bcd_mode = True, null_count = False, count_LSB_latched = False, count_MSB_latched = False,
     status_latched = False, count_binary = 10, triggerGATE = False, write_state = LSByte_multiple,
     read_state = LSByte_multiple, count_written = True, first_pass = False, state_bit_1 = False, state_bit_2 = False,
     next_change_time = 0, out_handler = True, out_events = []\<rparr>"

definition wit_chip :: pit_82C54 where
  "wit_chip = \<lparr>counter = (\<lambda>_. wit_counter), controlword = 0\<rparr>"

theorem decrement_multiple_iterates_witness:
  "decrement_multiple 12 wit_counter = (decrement ^^ 12) wit_counter"
proof -
  have "consistent wit_counter" by (simp add: consistent_def wit_counter_def bcd_digits_def)
  then show ?thesis using decrement_multiple_iterates [of wit_counter 12] by simp
qed

theorem clock_multiple_split_witness:
  "clock_multiple 0 300 wit_chip = clock_multiple 0 200 (clock_multiple 0 100 wit_chip)"
  using clock_multiple_split [of 100 200 0 wit_chip] by simp

theorem rate_generator_ticks_witness:
  "out_events (counter (clock_multiple 0 131073 (program_rate 0 0 wit_chip)) 0)
   = out_events (counter (program_rate 0 0 wit_chip) 0) @ [False, True, False, True]"
proof -
  have "GATE (counter wit_chip 0)" "out_handler (counter wit_chip 0)" by (simp_all add: wit_chip_def wit_counter_def)
  moreover have w: "latch_word 0 0 = 0" "rate_period 0 = 65536" by (simp_all add: latch_word_def rate_period_def)
  moreover have "concat (replicate 2 [False, True]) = [False, True, False, True]" by (simp add: numeral_2_eq_2)
  ultimately show ?thesis using rate_generator_ticks [of wit_chip 0 0 2] by simp
qed

theorem latched_read_back_witness:
  "(let c1 = clock_loop 5 (latch_counter wit_counter); (c2, lo) = read_counter c1; (c3, hi) = read_counter (clock_loop 7 c2)
    in latch_word lo hi = 0x10 \<and> read_state c3 = LSByte_multiple \<and> \<not> count_LSB_latched c3 \<and> \<not> count_MSB_latched c3)"
proof -
  have "read_state wit_counter = LSByte_multiple" "\<not> count_LSB_latched wit_counter" "\<not> count_MSB_latched wit_counter"
    "\<not> status_latched wit_counter" "count wit_counter = 0x10" by (simp_all add: wit_counter_def)
  then show ?thesis using latched_read_back [of wit_counter 5 7] by simp
qed

theorem next_event_time_earliest_witness:
  "get_next_event_time (wit_chip\<lparr>counter := (\<lambda>i. wit_counter\<lparr>next_change_time := (if i = 2 then 7 else 0)\<rparr>)\<rparr>) = 0 \<and>
   get_next_event_time (wit_chip\<lparr>counter := (\<lambda>i. wit_counter\<lparr>next_change_time := (if i = 2 then 7 else 9)\<rparr>)\<rparr>) \<le> 7"
proof -
  let ?p = "wit_chip\<lparr>counter := (\<lambda>i. wit_counter\<lparr>next_change_time := (if i = 2 then 7 else 9)\<rparr>)\<rparr>"
  have "get_clock_event_time 0 ?p \<noteq> 0" "get_clock_event_time 2 ?p = 7" by (simp_all add: get_clock_event_time_def)
  moreover have "get_clock_event_time 2 ?p \<noteq> 0 \<longrightarrow> get_next_event_time ?p \<le> get_clock_event_time 2 ?p"
    using next_event_time_earliest [of ?p] calculation(1) by blast
  ultimately have "get_next_event_time ?p \<le> 7" by simp
  then show ?thesis
    using next_event_time_earliest [of "wit_chip\<lparr>counter := (\<lambda>i. wit_counter\<lparr>next_change_time := (if i = 2 then 7 else 0)\<rparr>)\<rparr>"]
    by (simp add: get_clock_event_time_def)
qed

end
