(* ===== verification/Pit.thy ===== *)
theory Pit
  imports Pit82c54Props PicProps
begin

text \<open>
  The timer device around the chip, \<^verbatim>\<open>bochs/iodev/pit.cc\<close>: host microseconds become timer
  clocks, the OUT pins of counters 0 and 2 drive interrupt line 0 and the speaker, and the
  virtual timer is re-armed for the next change. The time read from the virtual timer is an
  argument of the operations. Calls to the virtual timer and to the speaker are recorded in
  \<open>vtimer_calls\<close> and \<open>speaker_calls\<close>; a beep carries the divisor of its frequency. The interrupt
  controller the device drives is the field \<open>pit_pic\<close>. A chip operation records the OUT handler
  calls it makes and \<open>run_handlers\<close> executes them right after it: no handler reads what the chip
  operation still changes.
\<close>

datatype vtimer_call = Register Bit32u | Deactivate | Activate Bit32u

datatype speaker_call = Beep_on Bit32u | Beep_off | Set_line bool

record bx_pit_c =
  timer_chip :: pit_82C54
  speaker_data_on :: bool
  speaker_active :: bool
  speaker_level :: bool
  last_usec :: Bit64u
  last_next_event_time :: Bit32u
  total_ticks :: Bit64u
  total_usec :: Bit64u
  irq_enabled :: bool
  timer_registered :: bool
  pit_pic :: bx_pic_c
  vtimer_calls :: "vtimer_call list"
  speaker_calls :: "speaker_call list"
  pit_panics :: nat

abbreviation (input) "USEC_PER_SECOND \<equiv> 1000000"
abbreviation (input) "TICKS_PER_SECOND \<equiv> 1193181"

text \<open>The two conversions; the first works on 32 bits, the second on 64.\<close>

definition TICKS_TO_USEC :: "Bit32u \<Rightarrow> Bit32u" where
  "TICKS_TO_USEC a = (a * USEC_PER_SECOND) div TICKS_PER_SECOND"

definition USEC_TO_TICKS :: "Bit64u \<Rightarrow> Bit64u" where
  "USEC_TO_TICKS a = (a * TICKS_PER_SECOND) div USEC_PER_SECOND"

subsection \<open>The OUT handlers\<close>

definition irq_handler :: "bool \<Rightarrow> bool \<Rightarrow> bx_pic_c \<Rightarrow> bx_pic_c" where
  "irq_handler enabled val pic = (if enabled then (if val then raise_irq 0 pic else lower_irq 0 pic) else pic)"

definition speaker_handler :: "bx_pit_c \<Rightarrow> bool \<Rightarrow> speaker_call list" where
  "speaker_handler s val = (if get_mode 2 (timer_chip s) \<noteq> 3 then [Set_line (val \<and> speaker_data_on s)] else [])"

definition drained :: "pit_82C54 \<Rightarrow> pit_82C54" where
  "drained p = p\<lparr>counter := (\<lambda>i. (counter p i)\<lparr>out_events := []\<rparr>)\<rparr>"

definition run_handlers :: "bx_pit_c \<Rightarrow> bx_pit_c" where
  "run_handlers s = s\<lparr>
     pit_pic := fold (irq_handler (irq_enabled s)) (out_events (counter (timer_chip s) 0)) (pit_pic s),
     speaker_calls := speaker_calls s @ concat (map (speaker_handler s) (out_events (counter (timer_chip s) 2))),
     timer_chip := drained (timer_chip s)\<rparr>"

definition on_chip :: "(pit_82C54 \<Rightarrow> pit_82C54) \<Rightarrow> bx_pit_c \<Rightarrow> bx_pit_c" where
  "on_chip f s = run_handlers (s\<lparr>timer_chip := f (timer_chip s)\<rparr>)"

subsection \<open>Time\<close>

text \<open>The carry of whole seconds out of both running totals.\<close>

function (sequential) drop_seconds :: "Bit64u \<Rightarrow> Bit64u \<Rightarrow> Bit64u \<times> Bit64u" where
  "drop_seconds ticks usec =
     (if TICKS_PER_SECOND \<le> ticks \<and> USEC_PER_SECOND \<le> usec
      then drop_seconds (ticks - TICKS_PER_SECOND) (usec - USEC_PER_SECOND) else (ticks, usec))"
  by pat_completeness auto
termination
  by (relation "measure (\<lambda>(t, u). unat t)") (auto simp: unat_sub word_le_nat_alt)

declare drop_seconds.simps [simp del]

text \<open>First half of \<open>periodic\<close>: the clocks a stretch of host time is worth, and the totals after it.\<close>

definition account_time :: "Bit32u \<Rightarrow> Bit64u \<Rightarrow> Bit64u \<Rightarrow> Bit64u \<times> Bit64u \<times> Bit32u" where
  "account_time usec_delta ticks0 usec0 =
     (let usec = usec0 + ucast usec_delta;
          ticks_delta = ucast (USEC_TO_TICKS usec - ticks0) :: Bit32u;
          (t, u) = drop_seconds (ticks0 + ucast ticks_delta) usec
      in (t, u, ticks_delta))"

text \<open>Second half: the clocks, in steps that end at the next change.\<close>

definition next_step :: "Bit32u \<Rightarrow> pit_82C54 \<Rightarrow> Bit32u" where
  "next_step ticks_delta p =
     (let maxchange = get_next_event_time p
      in if maxchange = 0 \<or> maxchange > ticks_delta then ticks_delta else maxchange)"

function (sequential) clock_steps :: "Bit32u \<Rightarrow> bx_pit_c \<Rightarrow> bx_pit_c" where
  "clock_steps ticks_delta s =
     (if ticks_delta = 0 then s
      else clock_steps (ticks_delta - next_step ticks_delta (timer_chip s))
             (on_chip (clock_all (next_step ticks_delta (timer_chip s))) s))"
  by pat_completeness auto

lemma next_step_bounds:
  assumes "n \<noteq> 0"
  shows "next_step n p \<noteq> 0" "next_step n p \<le> n"
  using assms by (auto simp: next_step_def Let_def)

termination clock_steps
proof (relation "measure (\<lambda>(n, s). unat n)")
  fix n :: Bit32u and s :: bx_pit_c assume n: "n \<noteq> 0"
  note b = next_step_bounds [OF n, of "timer_chip s"]
  have "0 < unat (next_step n (timer_chip s))" using b(1) by (simp add: unat_gt_0)
  then show "((n - next_step n (timer_chip s), on_chip (clock_all (next_step n (timer_chip s))) s), n, s)
      \<in> measure (\<lambda>(n, s). unat n)"
    using b(2) by (simp add: unat_sub word_le_nat_alt)
qed simp

declare clock_steps.simps [simp del]

definition periodic :: "Bit32u \<Rightarrow> bx_pit_c \<Rightarrow> bx_pit_c" where
  "periodic usec_delta s =
     (let (t, u, ticks_delta) = account_time usec_delta (total_ticks s) (total_usec s)
      in clock_steps ticks_delta (s\<lparr>total_ticks := t, total_usec := u\<rparr>))"

definition pass_time :: "Bit64u \<Rightarrow> bx_pit_c \<Rightarrow> bx_pit_c" where
  "pass_time now s =
     (let passed = now - last_usec s; passed32 = ucast passed :: Bit32u;
          s1 = (if passed32 \<noteq> 0 then periodic passed32 s else s)
      in s1\<lparr>last_usec := last_usec s1 + passed\<rparr>)"

text \<open>Re-arming the virtual timer.\<close>

definition event_delay :: "pit_82C54 \<Rightarrow> Bit32u" where
  "event_delay p = max 1 (TICKS_TO_USEC (get_next_event_time p))"

definition rearm :: "bool \<Rightarrow> bx_pit_c \<Rightarrow> bx_pit_c" where
  "rearm passed s =
     (let n = get_next_event_time (timer_chip s)
      in if passed \<or> last_next_event_time s \<noteq> n
         then s\<lparr>vtimer_calls := vtimer_calls s @ Deactivate # (if n \<noteq> 0 then [Activate (event_delay (timer_chip s))] else []),
                last_next_event_time := n\<rparr>
         else s)"

definition handle_timer :: "Bit64u \<Rightarrow> bx_pit_c \<Rightarrow> bx_pit_c" where
  "handle_timer now s = rearm (now - last_usec s \<noteq> 0) (pass_time now s)"

definition pit_device_init :: "Bit64u \<Rightarrow> bx_pit_c \<Rightarrow> bx_pit_c" where
  "pit_device_init now s =
     (let s1 = s\<lparr>irq_enabled := True, speaker_data_on := False, speaker_active := False, speaker_level := False,
                 timer_chip := set_OUT_handler 2 True (set_OUT_handler 0 True (pit_init (timer_chip s)))\<rparr>;
          n = get_next_event_time (timer_chip s1)
      in s1\<lparr>timer_registered := True,
            vtimer_calls := vtimer_calls s1 @ (if timer_registered s1 then [] else [Register 100]) @ Deactivate # (if n \<noteq> 0 then [Activate (event_delay (timer_chip s1))] else []),
            last_next_event_time := n, last_usec := now, total_ticks := 0, total_usec := 0\<rparr>)"

subsection \<open>Ports\<close>

definition read_timer :: "Bit8u \<Rightarrow> bx_pit_c \<Rightarrow> bx_pit_c \<times> Bit8u" where
  "read_timer a s = (let (p, v) = pit_read a (timer_chip s) in (s\<lparr>timer_chip := p\<rparr>, v))"

definition read_port61 :: "Bit64u \<Rightarrow> bx_pit_c \<Rightarrow> Bit8u" where
  "read_port61 now s =
     push_bit 5 (of_bool (read_OUT 2 (timer_chip s))) OR push_bit 4 (of_bool (bit (now div 15) 0))
     OR push_bit 1 (of_bool (speaker_data_on s)) OR of_bool (read_GATE 2 (timer_chip s))"

definition pit_device_read :: "Bit64u \<Rightarrow> Bit32u \<Rightarrow> bx_pit_c \<Rightarrow> bx_pit_c \<times> Bit32u" where
  "pit_device_read now address s0 =
     (let s = handle_timer now s0;
          (s', v) = (if address = 0x40 then read_timer 0 s
                     else if address = 0x41 then read_timer 1 s
                     else if address = 0x42 then read_timer 2 s
                     else if address = 0x43 then read_timer 3 s
                     else if address = 0x61 then (s, read_port61 now s)
                     else (s\<lparr>pit_panics := Suc (pit_panics s)\<rparr>, 0))
      in (s', ucast v))"

definition beep :: "bx_pit_c \<Rightarrow> bx_pit_c" where
  "beep s = (let v = ucast (get_inlatch 2 (timer_chip s)) :: Bit32u
     in s\<lparr>speaker_calls := speaker_calls s @ [Beep_on (if v = 0 then 0x10000 else v)]\<rparr>)"

definition after_restore_state :: "bx_pit_c \<Rightarrow> bx_pit_c" where
  "after_restore_state s = (if speaker_active s \<and> get_mode 2 (timer_chip s) = 3 then beep s else s)"

definition write_port42 :: "Bit8u \<Rightarrow> bx_pit_c \<Rightarrow> bx_pit_c" where
  "write_port42 v s0 =
     (let s = on_chip (pit_write 2 v) s0
      in if speaker_active s \<and> get_mode 2 (timer_chip s) = 3 \<and> new_count_ready 2 (timer_chip s) then beep s else s)"

definition write_port61 :: "Bit8u \<Rightarrow> bx_pit_c \<Rightarrow> bx_pit_c" where
  "write_port61 v s0 =
     (let s = (on_chip (set_GATE 2 (bit v 0)) s0)\<lparr>speaker_data_on := bit v 1\<rparr>;
          new_active = (v AND 3 = 3);
          new_level = (speaker_data_on s \<and> read_OUT 2 (timer_chip s))
      in if get_mode 2 (timer_chip s) = 3
         then if speaker_active s \<noteq> new_active
              then (if new_active then beep s else s\<lparr>speaker_calls := speaker_calls s @ [Beep_off]\<rparr>)\<lparr>speaker_active := new_active\<rparr>
              else s
         else if speaker_level s \<noteq> new_level
              then s\<lparr>speaker_calls := speaker_calls s @ [Set_line new_level], speaker_level := new_level\<rparr>
              else s)"

definition pit_device_write :: "Bit64u \<Rightarrow> Bit32u \<Rightarrow> Bit32u \<Rightarrow> bx_pit_c \<Rightarrow> bx_pit_c" where
  "pit_device_write now address dvalue s0 =
     (let s = pass_time now s0; v = ucast dvalue :: Bit8u;
          s1 = (if address = 0x40 then on_chip (pit_write 0 v) s
                else if address = 0x41 then on_chip (pit_write 1 v) s
                else if address = 0x42 then write_port42 v s
                else if address = 0x43 then on_chip (pit_write 3 v) s
                else if address = 0x61 then write_port61 v s
                else s\<lparr>pit_panics := Suc (pit_panics s)\<rparr>)
      in rearm (now - last_usec s0 \<noteq> 0) s1)"

definition enable_irq :: "bool \<Rightarrow> bx_pit_c \<Rightarrow> bx_pit_c" where
  "enable_irq enabled s = s\<lparr>irq_enabled := enabled\<rparr>"

end
