(* ===== verification/PitProps.thy ===== *)
theory PitProps
  imports Pit
begin

text \<open>
  Properties of the timer device: the chip receives exactly the clocks of the host time that
  passed, without drift and without regard to how they are cut into steps; the virtual timer is
  never armed late; and the rate generator drives interrupt line 0.
\<close>

subsection \<open>Clocks and pending handler calls\<close>

definition add_events :: "bool list \<Rightarrow> counter_type \<Rightarrow> counter_type" where
  "add_events e c = c\<lparr>out_events := e @ out_events c\<rparr>"

lemma add_events_sel [simp]:
  "GATE (add_events e c) = GATE c" "OUTpin (add_events e c) = OUTpin c" "count (add_events e c) = count c"
  "inlatch (add_events e c) = inlatch c" "cmode (add_events e c) = cmode c" "bcd_mode (add_events e c) = bcd_mode c"
  "null_count (add_events e c) = null_count c" "count_binary (add_events e c) = count_binary c"
  "triggerGATE (add_events e c) = triggerGATE c" "write_state (add_events e c) = write_state c"
  "count_written (add_events e c) = count_written c" "first_pass (add_events e c) = first_pass c"
  "state_bit_1 (add_events e c) = state_bit_1 c" "state_bit_2 (add_events e c) = state_bit_2 c"
  "next_change_time (add_events e c) = next_change_time c" "out_handler (add_events e c) = out_handler c"
  "out_events (add_events e c) = e @ out_events c"
  by (simp_all add: add_events_def)

lemma add_events_upd [simp]:
  "(add_events e c)\<lparr>count := w\<rparr> = add_events e (c\<lparr>count := w\<rparr>)"
  "(add_events e c)\<lparr>count_binary := w\<rparr> = add_events e (c\<lparr>count_binary := w\<rparr>)"
  "(add_events e c)\<lparr>next_change_time := w\<rparr> = add_events e (c\<lparr>next_change_time := w\<rparr>)"
  "(add_events e c)\<lparr>null_count := b\<rparr> = add_events e (c\<lparr>null_count := b\<rparr>)"
  "(add_events e c)\<lparr>first_pass := b\<rparr> = add_events e (c\<lparr>first_pass := b\<rparr>)"
  "(add_events e c)\<lparr>triggerGATE := b\<rparr> = add_events e (c\<lparr>triggerGATE := b\<rparr>)"
  "(add_events e c)\<lparr>state_bit_1 := b\<rparr> = add_events e (c\<lparr>state_bit_1 := b\<rparr>)"
  "(add_events e c)\<lparr>state_bit_2 := b\<rparr> = add_events e (c\<lparr>state_bit_2 := b\<rparr>)"
  by (simp_all add: add_events_def)

lemma add_events_if: "(if b then add_events e c else add_events e d) = add_events e (if b then c else d)"
  by simp

lemma add_events_parts [simp]:
  "set_OUT b (add_events e c) = add_events e (set_OUT b c)"
  "set_count v (add_events e c) = add_events e (set_count v c)"
  "load_count (add_events e c) = add_events e (load_count c)"
  "set_count_to_binary (add_events e c) = add_events e (set_count_to_binary c)"
  "decrement (add_events e c) = add_events e (decrement c)"
  "count_wait (add_events e c) = count_wait c" "short_half (add_events e c) = short_half c"
  "square_wait (add_events e c) = square_wait c" "square_next (add_events e c) = square_next c"
  "square_swap (add_events e c) = add_events e (square_swap c)" "per_clock (add_events e c) = per_clock c"
  by (simp_all add: add_events_def set_OUT_def set_count_def set_binary_to_count_def load_count_def decrement_def
      set_count_to_binary_def count_wait_def short_half_def square_wait_def square_next_def square_swap_def per_clock_def)

lemma add_events_mode0: "clock_mode0 (add_events e c) = add_events e (clock_mode0 c)"
  by (simp add: clock_mode0_def Let_def)

lemma add_events_mode1: "clock_mode1 (add_events e c) = add_events e (clock_mode1 c)"
  by (simp add: clock_mode1_def Let_def)

lemma add_events_mode2: "clock_mode2 (add_events e c) = add_events e (clock_mode2 c)"
  by (simp add: clock_mode2_def Let_def)

lemma add_events_load: "square_load (add_events e c) = add_events e (square_load c)"
  by (simp add: square_load_def Let_def)

lemma add_events_count: "square_count (add_events e c) = add_events e (square_count c)"
  by (simp add: square_count_def Let_def [of "decrement (decrement c)"] Let_def [of "add_events e (decrement (decrement c))"]
    Let_def [of "(decrement (decrement c))\<lparr>next_change_time := n\<rparr>" for n]
    Let_def [of "add_events e ((decrement (decrement c))\<lparr>next_change_time := n\<rparr>)" for n])

lemma add_events_strobe: "strobe_count (add_events e c) = add_events e (strobe_count c)"
  by (simp add: strobe_count_def Let_def)

lemma add_events_mode3: "clock_mode3 (add_events e c) = add_events e (clock_mode3 c)"
  by (simp add: clock_mode3_def add_events_load add_events_count)

lemma add_events_mode4: "clock_mode4 (add_events e c) = add_events e (clock_mode4 c)"
proof -
  define c' where "c' = (if \<not> OUTpin c then set_OUT True c else c)"
  have "(if \<not> OUTpin (add_events e c) then set_OUT True (add_events e c) else add_events e c) = add_events e c'"
    by (simp add: c'_def)
  then show ?thesis by (simp add: clock_mode4_def add_events_strobe Let_def c'_def [symmetric])
qed

lemma add_events_mode5: "clock_mode5 (add_events e c) = add_events e (clock_mode5 c)"
proof -
  define c' where "c' = (if \<not> OUTpin c then set_OUT True c else c)"
  have "(if \<not> OUTpin (add_events e c) then set_OUT True (add_events e c) else add_events e c) = add_events e c'"
    by (simp add: c'_def)
  then show ?thesis by (simp add: clock_mode5_def add_events_strobe Let_def c'_def [symmetric])
qed

lemmas add_events_modes = add_events_mode0 add_events_mode1 add_events_mode2 add_events_mode3 add_events_mode4 add_events_mode5

lemma add_events_clock [simp]: "pit_clock (add_events e c) = add_events e (pit_clock c)"
  by (simp add: pit_clock_def add_events_modes)

lemma add_events_decrements [simp]: "decrement_multiple n (add_events e c) = add_events e (decrement_multiple n c)"
proof (induction n c rule: decrement_multiple.induct)
  case (1 n c)
  show ?case
  proof (cases "n = 0 \<or> n \<le> count_binary c")
    case True
    then show ?thesis by (cases "n = 0") (simp_all add: decrement_multiple_le)
  next
    case False
    then show ?thesis using 1 by (simp add: decrement_multiple_gt)
  qed
qed

lemma add_events_clocks: "clock_loop n (add_events e c) = add_events e (clock_loop n c)"
proof (induction n c rule: clock_loop.induct)
  case (1 n c)
  show ?case
    using 1 by (subst (1 2) clock_loop.simps) (simp add: idle_clocks_def)
qed

lemma cmode_parts [simp]: "cmode (decrement c) = cmode c" "cmode (load_count c) = cmode c"
  using decrement_frame [of c] by (auto simp: load_count_def)

lemma cmode_clock [simp]: "cmode (pit_clock c) = cmode c"
  by (simp add: pit_clock_def clock_mode0_def clock_mode1_def clock_mode2_def clock_mode3_def clock_mode4_def
      clock_mode5_def square_load_def square_swap_def square_count_def strobe_count_def Let_def)

lemma cmode_clocks [simp]: "cmode (clock_loop n c) = cmode c"
proof (induction n c rule: clock_loop.induct)
  case (1 n c)
  then show ?case by (subst clock_loop.simps) (auto simp: idle_clocks_def)
qed

lemma clock_all_counter: "counter (clock_all n p) i = (if i \<le> 2 then clock_loop n (counter p i) else counter p i)"
  by (auto simp: clock_all_def clock_multiple_def le_Suc_eq numeral_2_eq_2)

lemma clock_all_controlword [simp]: "controlword (clock_all n p) = controlword p"
  by (simp add: clock_all_def clock_multiple_def)

lemma clock_loop_events:
  "out_events (clock_loop n c) = out_events c @ out_events (clock_loop n (c\<lparr>out_events := []\<rparr>))"
  "(clock_loop n (c\<lparr>out_events := []\<rparr>))\<lparr>out_events := []\<rparr> = (clock_loop n c)\<lparr>out_events := []\<rparr>"
proof -
  have "c = add_events (out_events c) (c\<lparr>out_events := []\<rparr>)" by (simp add: add_events_def)
  then have e: "clock_loop n c = add_events (out_events c) (clock_loop n (c\<lparr>out_events := []\<rparr>))"
    using add_events_clocks by metis
  show "out_events (clock_loop n c) = out_events c @ out_events (clock_loop n (c\<lparr>out_events := []\<rparr>))"
    by (subst e) simp
  show "(clock_loop n (c\<lparr>out_events := []\<rparr>))\<lparr>out_events := []\<rparr> = (clock_loop n c)\<lparr>out_events := []\<rparr>"
    by (subst e) (simp add: add_events_def)
qed

lemma drained_clock_all: "drained (clock_all n (drained p)) = drained (clock_all n p)"
  by (auto simp: drained_def fun_eq_iff clock_all_counter clock_loop_events(2) clock_all_def clock_multiple_def)

lemma get_mode_keeps [simp]: "get_mode i (drained p) = get_mode i p" "get_mode i (clock_all n p) = get_mode i p"
  by (simp_all add: get_mode_def drained_def clock_all_counter)

lemma clock_all_events:
  assumes "unat a + unat b < 2 ^ 31" "i \<le> 2"
  shows "out_events (counter (clock_all (a + b) p) i) =
    out_events (counter (clock_all a p) i) @ out_events (counter (clock_all b (drained (clock_all a p))) i)"
  using clock_loop_events(1) [of b "clock_loop a (counter p i)"] assms(2)
  by (simp add: clock_loop_add [OF assms(1)] clock_all_counter drained_def)

definition speaker_out :: "Bit8u \<Rightarrow> bool \<Rightarrow> bool \<Rightarrow> speaker_call list" where
  "speaker_out m on v = (if m \<noteq> 3 then [Set_line (v \<and> on)] else [])"

lemma speaker_handler_eq: "speaker_handler s = speaker_out (get_mode 2 (timer_chip s)) (speaker_data_on s)"
  by (rule ext) (simp add: speaker_handler_def speaker_out_def)

lemma on_chip_split:
  assumes "unat a + unat b < 2 ^ 31"
  shows "on_chip (clock_all b) (on_chip (clock_all a) s) = on_chip (clock_all (a + b)) s"
proof -
  let ?p = "timer_chip s"
  have ev: "out_events (counter (clock_all (a + b) ?p) i) =
    out_events (counter (clock_all a ?p) i) @ out_events (counter (clock_all b (drained (clock_all a ?p))) i)" if "i \<le> 2" for i
    using clock_all_events [OF assms that] .
  have "drained (clock_all b (drained (clock_all a ?p))) = drained (clock_all (a + b) ?p)"
    by (simp add: drained_clock_all clock_all_split [OF assms])
  then show ?thesis
    by (simp add: on_chip_def run_handlers_def ev speaker_handler_eq)
qed

definition quiet :: "bx_pit_c \<Rightarrow> bool" where
  "quiet s \<longleftrightarrow> drained (timer_chip s) = timer_chip s"

lemma quiet_events: "quiet s \<Longrightarrow> out_events (counter (timer_chip s) i) = []"
  unfolding quiet_def drained_def
  by (metis (no_types, lifting) counter_type.select_convs(24) counter_type.surjective counter_type.update_convs(24)
      pit_82C54.select_convs(1) pit_82C54.surjective pit_82C54.update_convs(1))

lemma on_chip_quiet: "quiet (on_chip f s)"
  by (simp add: quiet_def on_chip_def run_handlers_def) (simp add: drained_def)

lemma clock_all_0: "clock_all 0 p = p"
  by (simp add: clock_all_def clock_multiple_def)

lemma on_chip_0: "quiet s \<Longrightarrow> on_chip (clock_all 0) s = s"
  using quiet_events [of s 0] quiet_events [of s 2]
  by (simp add: on_chip_def run_handlers_def clock_all_0 quiet_def)

lemma clock_steps_on_chip:
  assumes "quiet s" "unat n < 2 ^ 31"
  shows "clock_steps n s = on_chip (clock_all n) s"
  using assms
proof (induction n s rule: clock_steps.induct)
  case (1 n s)
  show ?case
  proof (cases "n = 0")
    case True
    then show ?thesis using on_chip_0 [OF 1(2)] by (subst clock_steps.simps) simp
  next
    case False
    let ?k = "next_step n (timer_chip s)"
    note k = next_step_bounds [OF False, of "timer_chip s"]
    have u: "unat (n - ?k) = unat n - unat ?k" "unat ?k \<le> unat n" using k(2) by (simp_all add: unat_sub word_le_nat_alt)
    have "clock_steps n s = clock_steps (n - ?k) (on_chip (clock_all ?k) s)"
      using False by (subst clock_steps.simps) simp
    also have "\<dots> = on_chip (clock_all (n - ?k)) (on_chip (clock_all ?k) s)"
      using 1 False u by (simp add: on_chip_quiet)
    also have "\<dots> = on_chip (clock_all (?k + (n - ?k))) s"
      using u 1(3) by (intro on_chip_split) simp
    finally show ?thesis by simp
  qed
qed

text \<open>
  C32: the device clocks its chip exactly. However the clocks of a stretch of time are cut at the
  predicted changes, the chip ends as if clocked once for all of them, and the interrupt
  controller and the speaker have received the same calls in the same order.
\<close>

theorem clock_steps_exact:
  assumes "quiet s" "unat n < 2 ^ 31"
  shows "clock_steps n s = on_chip (clock_all n) s"
  by (rule clock_steps_on_chip [OF assms])

subsection \<open>Host time to clocks\<close>

definition totals_ok :: "Bit64u \<Rightarrow> Bit64u \<Rightarrow> bool" where
  "totals_ok t u \<longleftrightarrow> unat u < 1000000 \<and> unat t = unat u * 1193181 div 1000000"

lemma second_carry: "(u + 1000000 * k) * 1193181 div 1000000 = u * 1193181 div 1000000 + 1193181 * k" for u k :: nat
proof -
  have "(u + 1000000 * k) * 1193181 = u * 1193181 + 1000000 * (1193181 * k)" by (simp add: algebra_simps)
  then show ?thesis by simp
qed

lemma drop_seconds_totals:
  assumes "unat t = unat u * 1193181 div 1000000"
  shows "\<exists>t' u'. drop_seconds t u = (t', u') \<and> totals_ok t' u' \<and> unat u' = unat u mod 1000000"
  using assms
proof (induction t u rule: drop_seconds.induct)
  case (1 t u)
  have one: "unat u \<ge> 1000000 \<longleftrightarrow> unat t \<ge> 1193181"
  proof
    assume "unat u \<ge> 1000000"
    then obtain d where d: "unat u = d + 1000000 * 1" by (metis add.commute le_Suc_ex mult.right_neutral)
    then show "unat t \<ge> 1193181" using second_carry [of d 1] 1(2) by simp
  next
    assume "unat t \<ge> 1193181"
    then have "1193181 * 1000000 \<le> unat u * 1193181" using 1(2) by (simp add: less_eq_div_iff_mult_less_eq)
    then show "unat u \<ge> 1000000" by simp
  qed
  show ?case
  proof (cases "unat u \<ge> 1000000")
    case True
    have le: "1193181 \<le> t" "1000000 \<le> u" using True one by (simp_all add: word_le_nat_alt)
    have st: "unat (t - 1193181) = unat t - 1193181" "unat (u - 1000000) = unat u - 1000000"
      using le by (simp_all add: unat_sub)
    have "unat u * 1193181 div 1000000 = (unat u - 1000000) * 1193181 div 1000000 + 1193181"
      using second_carry [of "unat u - 1000000" 1] True by simp
    then have "unat (t - 1193181) = unat (u - 1000000) * 1193181 div 1000000" using st 1(2) by simp
    then obtain t' u' where r: "drop_seconds (t - 1193181) (u - 1000000) = (t', u')" "totals_ok t' u'"
        "unat u' = unat (u - 1000000) mod 1000000"
      using 1(1) le by blast
    then show ?thesis using le st True by (subst drop_seconds.simps) (simp add: le_mod_geq)
  next
    case False
    then have "\<not> 1000000 \<le> u" by (simp add: word_le_nat_alt)
    then show ?thesis using False 1(2) by (subst drop_seconds.simps) (simp add: totals_ok_def)
  qed
qed

lemma account_time_step:
  assumes ok: "totals_ok t u" and d: "unat d \<le> 3000000000"
  obtains t' u' n where "account_time d t u = (t', u', n)" "totals_ok t' u'"
    "unat u' = (unat u + unat d) mod 1000000"
    "unat n = (unat u + unat d) * 1193181 div 1000000 - unat u * 1193181 div 1000000"
proof -
  let ?U = "u + ucast d :: Bit64u"
  have u: "unat u < 1000000" "unat t = unat u * 1193181 div 1000000" using ok by (simp_all add: totals_ok_def)
  have cd: "unat (ucast d :: Bit64u) = unat d" by (simp add: unat_ucast_up)
  have U: "unat ?U = unat u + unat d" using u d cd by (simp add: unat_word_ariths)
  have small_mult: "unat (x * 1193181) = unat x * 1193181" if "unat x < 5000000000" for x :: Bit64u
    using that by (simp add: unat_word_ariths)
  have "unat (?U * 1193181) = unat ?U * 1193181" using U u d by (intro small_mult) linarith
  then have T: "unat (USEC_TO_TICKS ?U) = (unat u + unat d) * 1193181 div 1000000"
    by (simp add: USEC_TO_TICKS_def unat_div U)
  have mono: "unat u * 1193181 div 1000000 \<le> (unat u + unat d) * 1193181 div 1000000"
    by (intro div_le_mono) simp
  then have sub: "unat (USEC_TO_TICKS ?U - t) = (unat u + unat d) * 1193181 div 1000000 - unat u * 1193181 div 1000000"
    using T u(2) by (simp add: unat_sub word_le_nat_alt)
  have "(unat u + unat d) * 1193181 div 1000000 \<le> (1000000 + 3000000000) * 1193181 div 1000000"
    using u(1) d by (intro div_le_mono mult_le_mono1) linarith
  then have small: "unat (USEC_TO_TICKS ?U - t) < 2 ^ 32" using sub by simp
  define n where "n = (ucast (USEC_TO_TICKS ?U - t) :: Bit32u)"
  have n: "unat n = unat (USEC_TO_TICKS ?U - t)"
    unfolding n_def using small by (simp add: unsigned_ucast_eq take_bit_nat_eq_self)
  have "t + ucast n = USEC_TO_TICKS ?U"
  proof -
    have "unat (ucast n :: Bit64u) = unat (USEC_TO_TICKS ?U - t)" using n by (simp add: unat_ucast_up)
    then have "ucast n = USEC_TO_TICKS ?U - t" by (simp add: word_unat_eq_iff)
    then show ?thesis by simp
  qed
  moreover have "unat (USEC_TO_TICKS ?U) = unat ?U * 1193181 div 1000000" using T U by simp
  ultimately obtain t' u' where "drop_seconds (t + ucast n) ?U = (t', u')" "totals_ok t' u'" "unat u' = unat ?U mod 1000000"
    using drop_seconds_totals by metis
  then show thesis using that [of t' u' n] n sub U by (simp add: account_time_def Let_def n_def)
qed

text \<open>The clocks a sequence of stretches of host time is worth.\<close>

fun ticks_of :: "Bit32u list \<Rightarrow> Bit64u \<Rightarrow> Bit64u \<Rightarrow> nat" where
  "ticks_of [] t u = 0"
| "ticks_of (d # ds) t u = (case account_time d t u of (t', u', n) \<Rightarrow> unat n + ticks_of ds t' u')"

lemma ticks_of_sum:
  assumes "totals_ok t u" "\<forall>d\<in>set ds. unat d \<le> 3000000000"
  shows "ticks_of ds t u + unat u * 1193181 div 1000000 = (unat u + sum_list (map unat ds)) * 1193181 div 1000000"
  using assms
proof (induction ds arbitrary: t u)
  case (Cons d ds)
  have d: "unat d \<le> 3000000000" using Cons.prems(2) by simp
  obtain t' u' n where a: "account_time d t u = (t', u', n)" "totals_ok t' u'"
    "unat u' = (unat u + unat d) mod 1000000"
    "unat n = (unat u + unat d) * 1193181 div 1000000 - unat u * 1193181 div 1000000"
    by (rule account_time_step [OF Cons.prems(1) d])
  let ?S = "sum_list (map unat ds)" and ?k = "(unat u + unat d) div 1000000"
  have split: "unat u + unat d = unat u' + 1000000 * ?k" using a(3) by (simp add: mult.commute)
  have "ticks_of ds t' u' + unat u' * 1193181 div 1000000 = (unat u' + ?S) * 1193181 div 1000000"
    using Cons.IH [OF a(2)] Cons.prems(2) by simp
  moreover have "(unat u + unat d) * 1193181 div 1000000 = unat u' * 1193181 div 1000000 + 1193181 * ?k"
    using second_carry [of "unat u'" ?k] split by simp
  moreover have "unat u + unat d + ?S = (unat u' + ?S) + 1000000 * ?k" using split by linarith
  then have "(unat u + unat d + ?S) * 1193181 div 1000000 = (unat u' + ?S) * 1193181 div 1000000 + 1193181 * ?k"
    using second_carry [of "unat u' + ?S" ?k] by simp
  moreover have "unat u * 1193181 div 1000000 \<le> (unat u + unat d) * 1193181 div 1000000"
    by (intro div_le_mono) simp
  ultimately show ?case using a(1,4) by (simp add: add.assoc)
qed simp

text \<open>
  No drift. Whatever stretches the host time is measured in, the clocks handed to the
  timer chip since power-on are exactly 1193181 per million microseconds, rounded down once:
  the rounding of single stretches never accumulates.
\<close>

theorem pit_time_exact:
  assumes "\<forall>d\<in>set ds. unat d \<le> 3000000000"
  shows "ticks_of ds 0 0 = sum_list (map unat ds) * 1193181 div 1000000"
  using ticks_of_sum [of 0 0 ds] assms by (simp add: totals_ok_def)

theorem pit_time_exact_witness:
  "ticks_of [1, 1, 54925] 0 0 = 65537"
  using pit_time_exact [of "[1, 1, 54925]"] by simp

text \<open>
  The virtual timer is never armed late. The delay the device asks for is at most the time to
  the next change, and is exact, rounded down, for changes up to 4294 clocks ahead; further ones
  wrap around in 32 bits and wake the device early.
\<close>

theorem event_delay_not_late:
  "unat (TICKS_TO_USEC n) \<le> unat n * 1000000 div 1193181 \<and>
   (unat n \<le> 4294 \<longrightarrow> unat (TICKS_TO_USEC n) = unat n * 1000000 div 1193181)"
proof -
  have p: "unat (n * 1000000) = unat n * 1000000 mod 2 ^ 32" by (simp add: unat_word_ariths)
  then have "unat (n * 1000000) \<le> unat n * 1000000" by simp
  then have "unat (TICKS_TO_USEC n) \<le> unat n * 1000000 div 1193181"
    by (simp add: TICKS_TO_USEC_def unat_div div_le_mono)
  moreover have "unat n * 1000000 mod 2 ^ 32 = unat n * 1000000" if "unat n \<le> 4294" using that by simp
  ultimately show ?thesis using p by (simp add: TICKS_TO_USEC_def unat_div)
qed

theorem event_delay_not_late_witness:
  "unat (TICKS_TO_USEC 65535) = 930 \<and> unat (TICKS_TO_USEC 65535) \<le> 54924 \<and> unat (TICKS_TO_USEC 4294) = 3598"
proof -
  have "unat (TICKS_TO_USEC 4294) = 3598" using event_delay_not_late [of 4294] by simp
  moreover have "unat (TICKS_TO_USEC 65535) = 930" by (simp add: TICKS_TO_USEC_def unat_div)
  ultimately show ?thesis by simp
qed

subsection \<open>The timer interrupt\<close>

text \<open>The interrupt handler drives line 0 through the interface of the controllers.\<close>

lemma irq_handler_drive: "irq_handler True = pic_lines.drive 0"
  by (intro ext) (simp add: irq_handler_def pic_lines.drive_def)

lemma line0 [simp]: "device_line 0"
  by (simp add: device_line_def)

lemma timer_periods:
  fixes s :: bx_pit_c and k :: nat
  defines "c \<equiv> counter (timer_chip s) 0"
  assumes "quiet s" "irq_enabled s" "rate_loaded c" "out_handler c" "inlatch c \<noteq> 1"
    "k * rate_period (inlatch c) < 2 ^ 31"
  shows "pit_pic (clock_steps (of_nat (k * rate_period (inlatch c))) s) =
    fold (pic_lines.drive 0) (concat (replicate k [False, True])) (pit_pic s)"
proof -
  let ?n = "of_nat (k * rate_period (inlatch c)) :: Bit32u"
  have n: "unat ?n < 2 ^ 31" using assms(7) by (simp add: unat_of_nat take_bit_nat_eq_self del: of_nat_mult)
  have "out_events c = []" using quiet_events [OF assms(2)] by (simp add: c_def)
  then have "out_events (clock_loop ?n c) = concat (replicate k [False, True])"
    using rate_periods [OF assms(4,6,7)] assms(5) by (simp add: pulse_def)
  then show ?thesis
    using clock_steps_on_chip [OF assms(2) n] assms(3)
    by (simp add: on_chip_def run_handlers_def clock_all_counter irq_handler_drive c_def)
qed

text \<open>
  The timer drives its interrupt line. While the rate generator runs, k periods give the
  interrupt controllers k falling and k rising edges of line 0 and nothing else: the line
  ends high, every other line keeps its level and the controllers stay sound.
\<close>

theorem timer_drives_irq0:
  assumes "quiet s" "irq_enabled s" "rate_loaded (counter (timer_chip s) 0)" "out_handler (counter (timer_chip s) 0)"
    "inlatch (counter (timer_chip s) 0) \<noteq> 1" "k * rate_period (inlatch (counter (timer_chip s) 0)) < 2 ^ 31"
    "0 < k" "pic_inv (pit_pic s)" "device_line m" "m \<noteq> 0"
  shows "let t = clock_steps (of_nat (k * rate_period (inlatch (counter (timer_chip s) 0)))) s
    in pit_pic t = ((\<lambda>p. raise_irq 0 (lower_irq 0 p)) ^^ k) (pit_pic s) \<and> pic_inv (pit_pic t) \<and>
       line_level (pit_pic t) 0 \<and> line_level (pit_pic t) m = line_level (pit_pic s) m"
proof -
  let ?e = "concat (replicate k [False, True])"
  note p = timer_periods [OF assms(1-6)]
  obtain j where k: "k = Suc j" using assms(7) by (cases k) auto
  have "concat (replicate (Suc j) [False, True]) = concat (replicate j [False, True]) @ [False, True]" for j
    by (induction j) simp_all
  then have e: "?e = (concat (replicate j [False, True]) @ [False]) @ [True]" using k by simp
  have it: "fold (pic_lines.drive 0) (concat (replicate i [False, True])) x = ((\<lambda>p. raise_irq 0 (lower_irq 0 p)) ^^ i) x" for i x
    by (induction i arbitrary: x) (simp_all add: pic_lines.drive_def funpow_Suc_right del: funpow.simps(2))
  have "line_level (fold (pic_lines.drive 0) ?e (pit_pic s)) 0"
    unfolding e by (subst pic_lines.drive_level) simp_all
  moreover have "pic_inv (fold (pic_lines.drive 0) ?e (pit_pic s))"
    by (rule pic_lines.drive_ok) (simp_all add: assms(8))
  moreover have "line_level (fold (pic_lines.drive 0) ?e (pit_pic s)) m = line_level (pit_pic s) m"
    by (rule pic_lines.drive_others) (simp_all add: assms(9,10))
  ultimately show ?thesis unfolding Let_def p it by simp
qed

definition wit_pit :: bx_pit_c where
  "wit_pit = \<lparr>timer_chip = wit_chip\<lparr>counter := (\<lambda>_. wit_counter\<lparr>cmode := 2, bcd_mode := False, inlatch := 100, count := 100,
       count_binary := 100, next_change_time := 99\<rparr>)\<rparr>, speaker_data_on = False, speaker_active = False,
     speaker_level = False, last_usec = 0, last_next_event_time = 0, total_ticks = 0, total_usec = 0,
     irq_enabled = True, timer_registered = True, pit_pic = upd_master (\<lambda>m. m\<lparr>imr := 0xfe\<rparr>) wit_pic, vtimer_calls = [],
     speaker_calls = [], pit_panics = 0\<rparr>"

lemma wit_pit_quiet: "quiet wit_pit"
  by (simp add: quiet_def drained_def wit_pit_def wit_counter_def)

lemma wit_pit_loaded:
  "rate_loaded (counter (timer_chip wit_pit) 0)" "out_handler (counter (timer_chip wit_pit) 0)" "irq_enabled wit_pit"
  "inlatch (counter (timer_chip wit_pit) 0) = 100" "pic_inv (pit_pic wit_pit)"
  by (simp_all add: wit_pit_def rate_loaded_def wit_counter_def pic_inv_def pic_base_def chip_ok_def wit_pic_def init_chip_def)

theorem clock_steps_exact_witness:
  "clock_steps 250 wit_pit = on_chip (clock_all 250) wit_pit"
  using clock_steps_exact [OF wit_pit_quiet, of 250] by simp

theorem timer_drives_irq0_witness:
  "line_level (pit_pic (clock_steps 300 wit_pit)) 0"
proof -
  have "rate_period 100 = 100" by (simp add: rate_period_def)
  then have "let t = clock_steps 300 wit_pit
    in pit_pic t = ((\<lambda>p. raise_irq 0 (lower_irq 0 p)) ^^ 3) (pit_pic wit_pit) \<and> pic_inv (pit_pic t) \<and>
       line_level (pit_pic t) 0 \<and> line_level (pit_pic t) 1 = line_level (pit_pic wit_pit) 1"
    using timer_drives_irq0 [of wit_pit 3 1] wit_pit_quiet wit_pit_loaded by (simp add: device_line_def)
  then show ?thesis unfolding Let_def by blast
qed

end
