(* ===== verification/PhysMem.thy ===== *)
theory PhysMem
  imports ICache
begin

text \<open>
  Physical memory, \<^verbatim>\<open>bochs/memory/memory.cc\<close> and \<^verbatim>\<open>bochs/memory/misc_mem.cc\<close>, with the dirty tables the
  hypervisor integration adds to physical writes. RAM is a byte per address (the lazily allocated
  4M blocks behind \<open>get_vector\<close> are transparent); ROM and the page returned for missing memory
  are bytes by index. Memory handlers of devices are functions over a device state of any
  type. \<open>cpu\<close> is \<open>None\<close> for a device access and otherwise says whether the CPU is in SMM. Data is a
  list of bytes, lowest address first. The build has PCI, MONITOR/MWAIT and long physical
  addresses. \<open>BX_PANIC\<close> is counted and the code goes on; \<open>exit\<close> is the left side of a result. What
  follows a data buffer in the host's memory is the field \<open>host_after\<close>.
\<close>

datatype mem_rw = BX_READ | BX_WRITE | BX_EXECUTE | BX_RW

datatype mem_exit = High_write

type_synonym 'd write_handler = "bx_phy_address \<Rightarrow> Bit8u list \<Rightarrow> 'd \<Rightarrow> 'd \<times> bool"
type_synonym 'd read_handler = "bx_phy_address \<Rightarrow> nat \<Rightarrow> 'd \<Rightarrow> 'd \<times> Bit8u list option"

record 'd memory_handler_struct =
  h_param :: nat
  h_begin :: bx_phy_address
  h_end :: bx_phy_address
  bitmap :: Bit16u
  read_handler :: "'d read_handler"
  write_handler :: "'d write_handler option"
  da_handler :: "(bx_phy_address \<Rightarrow> mem_rw \<Rightarrow> host_ptr option) option"

record 'd bx_mem =
  vector :: "bx_phy_address \<Rightarrow> Bit8u"
  rom :: "Bit32u \<Rightarrow> Bit8u"
  bogus :: "nat \<Rightarrow> Bit8u"
  mem_len :: Bit64u
  pci_enabled :: bool
  bios_write_enabled :: bool
  smram_available :: bool
  smram_enable :: bool
  smram_restricted :: bool
  memory_type :: "nat \<Rightarrow> bool \<Rightarrow> bool"
  memory_handlers :: "nat \<Rightarrow> 'd memory_handler_struct list"
  devs :: 'd
  dev_copy_in :: "nat \<Rightarrow> Bit8u list \<Rightarrow> 'd \<Rightarrow> 'd"
  dev_copy_out :: "nat \<Rightarrow> nat \<Rightarrow> 'd \<Rightarrow> Bit8u list"
  a20_mask :: bx_phy_address
  dirty_bits_l1 :: "nat \<Rightarrow> Bit64u"
  dirty_bits_l2 :: "nat \<Rightarrow> Bit64u"
  stamps :: "Bit32u \<Rightarrow> Bit32u"
  code_cache :: bxICache_c
  stop_trace :: bool
  mon_addr :: bx_phy_address
  mon_armed :: bool
  mwait :: bool
  host_after :: "nat \<Rightarrow> Bit8u"
  mem_panics :: nat

abbreviation (input) "BX_MEM_AREA_E0000 \<equiv> (8 :: nat)"
abbreviation (input) "BX_MEM_AREA_F0000 \<equiv> (12 :: nat)"
abbreviation (input) "BIOS_MASK \<equiv> (0x1fffff :: Bit32u)"
abbreviation (input) "NOT_BIOS_MASK \<equiv> (0xffe00000 :: bx_phy_address)"
abbreviation (input) "BIOSROMSZ \<equiv> (0x200000 :: Bit32u)"
abbreviation (input) "EXROM_MASK \<equiv> (0x1ffff :: Bit32u)"
abbreviation (input) "CACHE_LINE_SIZE \<equiv> (64 :: bx_phy_address)"

definition A20ADDR :: "bx_phy_address \<Rightarrow> 'd bx_mem \<Rightarrow> bx_phy_address" where
  "A20ADDR x m = x AND a20_mask m"

definition BIOS_MAP_LAST128K :: "bx_phy_address \<Rightarrow> Bit32u" where
  "BIOS_MAP_LAST128K addr = ucast ((addr OR 0xfff00000) AND ucast BIOS_MASK)"

definition exrom_index :: "bx_phy_address \<Rightarrow> Bit32u" where
  "exrom_index addr = ucast (addr AND ucast EXROM_MASK) + BIOSROMSZ"

definition bios_index :: "bx_phy_address \<Rightarrow> Bit32u" where
  "bios_index addr = ucast (addr AND ucast BIOS_MASK)"

definition is_bios :: "bx_phy_address \<Rightarrow> bool" where
  "is_bios a20addr \<longleftrightarrow> a20addr \<ge> NOT_BIOS_MASK \<and> \<not> a20addr > 0xffffffff"

definition mem_area :: "bx_phy_address \<Rightarrow> nat" where
  "mem_area a = min (unat (drop_bit 14 a AND 0x0f)) BX_MEM_AREA_F0000"

definition vga_range :: "bx_phy_address \<Rightarrow> bool" where
  "vga_range a \<longleftrightarrow> 0x000a0000 \<le> a \<and> a < 0x000c0000"

definition plain_ram :: "bx_phy_address \<Rightarrow> bool" where
  "plain_ram a \<longleftrightarrow> a < 0x000a0000 \<or> a \<ge> 0x00100000"

subsection \<open>Dirty tables\<close>

definition mark_dirty :: "nat \<Rightarrow> 'd bx_mem \<Rightarrow> 'd bx_mem" where
  "mark_dirty a m = m\<lparr>
     dirty_bits_l1 := (dirty_bits_l1 m)(a div (1024 * 1024 * 64) :=
        dirty_bits_l1 m (a div (1024 * 1024 * 64)) OR push_bit ((a div (1024 * 1024)) mod 64) 1),
     dirty_bits_l2 := (dirty_bits_l2 m)(a div (4096 * 64) :=
        dirty_bits_l2 m (a div (4096 * 64)) OR push_bit ((a div 4096) mod 64) 1)\<rparr>"

text \<open>The loop: the page that is marked stays the first one while the loop variable moves.\<close>

function (sequential) dirty_loop :: "nat \<Rightarrow> nat \<Rightarrow> nat \<Rightarrow> 'd bx_mem \<Rightarrow> mem_exit + 'd bx_mem" where
  "dirty_loop aligned_addr end_addr dirty_addr m =
     (if aligned_addr < end_addr
      then if dirty_addr \<ge> 0x100000000 then Inl High_write
           else dirty_loop (aligned_addr + 4096) end_addr dirty_addr (mark_dirty dirty_addr m)
      else Inr m)"
  by pat_completeness auto
termination
  by (relation "measure (\<lambda>(a, e, d, m). e - a)") auto

declare dirty_loop.simps [simp del]

definition set_dirty :: "bx_phy_address \<Rightarrow> nat \<Rightarrow> 'd bx_mem \<Rightarrow> mem_exit + 'd bx_mem" where
  "set_dirty a20addr len m =
     (let aligned_addr = a20addr AND NOT 0xfff; end_addr = (a20addr + of_nat len + 0xfff) AND NOT 0xfff
      in dirty_loop (unat aligned_addr) (unat end_addr) (unat aligned_addr) m)"

subsection \<open>Monitored addresses\<close>

definition is_monitor :: "bx_phy_address \<Rightarrow> nat \<Rightarrow> 'd bx_mem \<Rightarrow> bool" where
  "is_monitor begin_addr len m \<longleftrightarrow> mon_armed m \<and>
     \<not> (begin_addr \<ge> mon_addr m + CACHE_LINE_SIZE - 1 \<or> begin_addr + of_nat len \<le> mon_addr m)"

definition check_monitor :: "bx_phy_address \<Rightarrow> nat \<Rightarrow> 'd bx_mem \<Rightarrow> 'd bx_mem" where
  "check_monitor begin_addr len m = (if is_monitor begin_addr len m then m\<lparr>mwait := False, mon_armed := False\<rparr> else m)"

subsection \<open>Writes\<close>

definition write_bytes :: "bx_phy_address \<Rightarrow> Bit8u list \<Rightarrow> (bx_phy_address \<Rightarrow> Bit8u) \<Rightarrow> bx_phy_address \<Rightarrow> Bit8u" where
  "write_bytes a data v = fold (\<lambda>k w. w(a + of_nat k := data ! k)) [0..<length data] v"

definition read_bytes :: "bx_phy_address \<Rightarrow> nat \<Rightarrow> (bx_phy_address \<Rightarrow> Bit8u) \<Rightarrow> Bit8u list" where
  "read_bytes a len v = map (\<lambda>k. v (a + of_nat k)) [0..<len]"

definition dec_stamp :: "Bit16u \<Rightarrow> bx_phy_address \<Rightarrow> nat \<Rightarrow> 'd bx_mem \<Rightarrow> 'd bx_mem" where
  "dec_stamp opc a len m =
     (case decWriteStamp opc a len (stamps m) (code_cache m) of
        (fg, ic, smc) \<Rightarrow> m\<lparr>stamps := fg, code_cache := ic, stop_trace := stop_trace m \<or> smc\<rparr>)"

definition dec_stamp_page :: "Bit16u \<Rightarrow> bx_phy_address \<Rightarrow> 'd bx_mem \<Rightarrow> 'd bx_mem" where
  "dec_stamp_page opc a m =
     (case decWriteStamp_page opc a (stamps m) (code_cache m) of
        (fg, ic, smc) \<Rightarrow> m\<lparr>stamps := fg, code_cache := ic, stop_trace := stop_trace m \<or> smc\<rparr>)"

fun run_write_handlers :: "'d memory_handler_struct list \<Rightarrow> bx_phy_address \<Rightarrow> Bit8u list \<Rightarrow> 'd \<Rightarrow> 'd \<times> bool" where
  "run_write_handlers [] a data d = (d, False)"
| "run_write_handlers (h # hs) a data d =
     (case write_handler h of
        Some f \<Rightarrow> if h_begin h \<le> a \<and> h_end h \<ge> a
                  then let (d', done) = f a data d in if done then (d', True) else run_write_handlers hs a data d'
                  else run_write_handlers hs a data d
      | None \<Rightarrow> run_write_handlers hs a data d)"

text \<open>The data byte at an index; past the end the code reads what follows the buffer.\<close>

definition data_at :: "Bit8u list \<Rightarrow> nat \<Rightarrow> 'd bx_mem \<Rightarrow> Bit8u" where
  "data_at data k m = (if k < length data then data ! k else host_after m (k - length data))"

text \<open>
  A write to A0000-FFFFF, byte by byte: the addresses, the data index and the bytes left to do.
  The nested loop for a writable BIOS moves address and index itself and starts the data over.
\<close>

definition bios_bytes :: "bx_phy_address \<Rightarrow> Bit8u list \<Rightarrow> (bx_phy_address \<Rightarrow> Bit32u) \<Rightarrow> (Bit32u \<Rightarrow> Bit8u) \<Rightarrow> Bit32u \<Rightarrow> Bit8u" where
  "bios_bytes a data idx r = fold (\<lambda>k r. r(idx (a + of_nat k) := data ! k)) [0..<length data] r"

definition area_write_byte :: "bool option \<Rightarrow> Bit8u list \<Rightarrow> bx_phy_address \<times> nat \<times> 'd bx_mem \<Rightarrow> bx_phy_address \<times> nat \<times> 'd bx_mem" where
  "area_write_byte cpu data st = (case st of (a, dp, m) \<Rightarrow>
     if a < 0x000c0000
     then (a + 1, dp + 1, if cpu \<noteq> None then m\<lparr>vector := (vector m)(a := data_at data dp m)\<rparr> else m)
     else if pci_enabled m \<and> a AND 0xfffc0000 = 0x000c0000
     then if memory_type m (mem_area a) True
          then (a + 1, dp + 1, m\<lparr>vector := (vector m)(a := data_at data dp m)\<rparr>)
          else if mem_area a \<ge> BX_MEM_AREA_E0000 \<and> bios_write_enabled m
          then (a + of_nat (length data) + 1, length data + 1, m\<lparr>rom := bios_bytes a data BIOS_MAP_LAST128K (rom m)\<rparr>)
          else (a + 1, dp + 1, m)
     else (a + 1, dp + 1, m))"

definition area_write :: "bool option \<Rightarrow> bx_phy_address \<Rightarrow> Bit8u list \<Rightarrow> 'd bx_mem \<Rightarrow> 'd bx_mem" where
  "area_write cpu a data m = snd (snd ((area_write_byte cpu data ^^ length data) (a, 0, m)))"

definition mem_write :: "Bit16u \<Rightarrow> bool option \<Rightarrow> bx_phy_address \<Rightarrow> Bit8u list \<Rightarrow> 'd bx_mem \<Rightarrow> 'd bx_mem" where
  "mem_write opc cpu a data m =
     (if a < mem_len m \<and> \<not> is_bios a
      then if plain_ram a
           then let m1 = (if length data \<in> {8, 4, 2, 1} then dec_stamp opc a (length data) m else dec_stamp_page opc a m)
                in m1\<lparr>vector := write_bytes a data (vector m1)\<rparr>
           else area_write cpu a data (dec_stamp_page opc a m)
      else if bios_write_enabled m \<and> a \<ge> NOT_BIOS_MASK
      then m\<lparr>rom := bios_bytes a data bios_index (rom m)\<rparr>
      else m)"

definition smram_access :: "bool option \<Rightarrow> bx_phy_address \<Rightarrow> 'd bx_mem \<Rightarrow> bool" where
  "smram_access cpu a m = (case cpu of None \<Rightarrow> False
     | Some smm \<Rightarrow> vga_range a \<and> smram_available m \<and> (smram_enable m \<or> (smm \<and> \<not> smram_restricted m)))"

definition cross_page :: "bx_phy_address \<Rightarrow> nat \<Rightarrow> 'd bx_mem \<Rightarrow> 'd bx_mem" where
  "cross_page addr len m = (if drop_bit 12 addr \<noteq> drop_bit 12 (addr + of_nat len - 1)
     then m\<lparr>mem_panics := Suc (mem_panics m)\<rparr> else m)"

definition writePhysicalPage ::
    "Bit16u \<Rightarrow> bool option \<Rightarrow> bx_phy_address \<Rightarrow> Bit8u list \<Rightarrow> 'd bx_mem \<Rightarrow> mem_exit + 'd bx_mem" where
  "writePhysicalPage opc cpu addr data m =
     (let a20addr = A20ADDR addr m; len = length data in
      case set_dirty a20addr len m of
        Inl e \<Rightarrow> Inl e
      | Inr m1 \<Rightarrow>
          let m2 = check_monitor a20addr len (cross_page addr len m1) in
          if smram_access cpu a20addr m2 then Inr (mem_write opc cpu a20addr data m2)
          else case run_write_handlers (memory_handlers m2 (unat (drop_bit 20 a20addr))) a20addr data (devs m2) of
                 (d, True) \<Rightarrow> Inr (m2\<lparr>devs := d\<rparr>)
               | (d, False) \<Rightarrow> Inr (mem_write opc cpu a20addr data (m2\<lparr>devs := d\<rparr>)))"

subsection \<open>Reads\<close>

fun run_read_handlers :: "'d memory_handler_struct list \<Rightarrow> bx_phy_address \<Rightarrow> nat \<Rightarrow> 'd \<Rightarrow> 'd \<times> Bit8u list option" where
  "run_read_handlers [] a len d = (d, None)"
| "run_read_handlers (h # hs) a len d =
     (if h_begin h \<le> a \<and> h_end h \<ge> a
      then case read_handler h a len d of (d', Some bs) \<Rightarrow> (d', Some bs) | (d', None) \<Rightarrow> run_read_handlers hs a len d'
      else run_read_handlers hs a len d)"

definition rom_byte :: "bx_phy_address \<Rightarrow> 'd bx_mem \<Rightarrow> Bit8u" where
  "rom_byte a m = (if a AND 0xfffe0000 = 0x000e0000 then rom m (BIOS_MAP_LAST128K a) else rom m (exrom_index a))"

text \<open>One byte of A0000-FFFFF; a device reading the VGA window leaves the old byte.\<close>

definition area_read_byte :: "bool option \<Rightarrow> bx_phy_address \<Rightarrow> Bit8u \<Rightarrow> 'd bx_mem \<Rightarrow> Bit8u" where
  "area_read_byte cpu a old m =
     (if a < 0x000c0000 then (if cpu \<noteq> None then vector m a else old)
      else if pci_enabled m \<and> a AND 0xfffc0000 = 0x000c0000
      then (if \<not> memory_type m (mem_area a) False then rom_byte a m else vector m a)
      else if a AND 0xfffc0000 \<noteq> 0x000c0000 then vector m a
      else rom_byte a m)"

definition mem_read :: "bool option \<Rightarrow> bx_phy_address \<Rightarrow> Bit8u list \<Rightarrow> 'd bx_mem \<Rightarrow> Bit8u list" where
  "mem_read cpu a old m =
     (let len = length old in
      if a < mem_len m \<and> \<not> is_bios a
      then if plain_ram a then read_bytes a len (vector m)
           else map (\<lambda>k. area_read_byte cpu (a + of_nat k) (old ! k) m) [0..<len]
      else if a > 0xffffffff then replicate len 0xff
      else if a \<ge> NOT_BIOS_MASK then map (\<lambda>k. rom m (bios_index (a + of_nat k))) [0..<len]
      else replicate len 0xff)"

definition readPhysicalPage :: "bool option \<Rightarrow> bx_phy_address \<Rightarrow> Bit8u list \<Rightarrow> 'd bx_mem \<Rightarrow> 'd bx_mem \<times> Bit8u list" where
  "readPhysicalPage cpu addr old m0 =
     (let a20addr = A20ADDR addr m0; m = cross_page addr (length old) m0 in
      if smram_access cpu a20addr m then (m, mem_read cpu a20addr old m)
      else case run_read_handlers (memory_handlers m (unat (drop_bit 20 a20addr))) a20addr (length old) (devs m) of
             (d, Some bs) \<Rightarrow> (m\<lparr>devs := d\<rparr>, bs)
           | (d, None) \<Rightarrow> (m\<lparr>devs := d\<rparr>, mem_read cpu a20addr old (m\<lparr>devs := d\<rparr>)))"

subsection \<open>Direct access\<close>

fun direct_handler :: "'d memory_handler_struct list \<Rightarrow> bx_phy_address \<Rightarrow> mem_rw \<Rightarrow> host_ptr option option" where
  "direct_handler [] a rw = None"
| "direct_handler (h # hs) a rw =
     (if h_begin h \<le> a \<and> h_end h \<ge> a
      then (case da_handler h of Some f \<Rightarrow> Some (f a rw) | None \<Rightarrow> Some None)
      else direct_handler hs a rw)"

definition rom_ptr :: "bx_phy_address \<Rightarrow> host_ptr" where
  "rom_ptr a = (if a AND 0xfffe0000 = 0x000e0000 then Rom (BIOS_MAP_LAST128K a) else Rom (exrom_index a))"

definition is_write :: "mem_rw \<Rightarrow> bool" where
  "is_write rw \<longleftrightarrow> rw = BX_WRITE \<or> rw = BX_RW"

definition host_read_ptr :: "bx_phy_address \<Rightarrow> 'd bx_mem \<Rightarrow> host_ptr option" where
  "host_read_ptr a m =
     (if vga_range a then None
      else if pci_enabled m \<and> 0x000c0000 \<le> a \<and> a < 0x00100000
      then Some (if \<not> memory_type m (mem_area a) False then rom_ptr a else Ram a)
      else if a < mem_len m \<and> \<not> is_bios a
      then Some (if a < 0x000c0000 \<or> a \<ge> 0x00100000 then Ram a else rom_ptr a)
      else if a > 0xffffffff then Some (Bogus (unat (a AND 0xfff)))
      else if a \<ge> NOT_BIOS_MASK then Some (Rom (bios_index a))
      else Some (Bogus (unat (a AND 0xfff))))"

definition host_write_ptr :: "bx_phy_address \<Rightarrow> 'd bx_mem \<Rightarrow> host_ptr option" where
  "host_write_ptr a m =
     (if a \<ge> mem_len m \<or> is_bios a then None
      else if vga_range a then None
      else if pci_enabled m \<and> 0x000c0000 \<le> a \<and> a < 0x00100000 then None
      else if a < 0x000c0000 \<or> a \<ge> 0x00100000 then Some (Ram a)
      else None)"

definition getHostMemAddr :: "bool option \<Rightarrow> bx_phy_address \<Rightarrow> mem_rw \<Rightarrow> 'd bx_mem \<Rightarrow> host_ptr option" where
  "getHostMemAddr cpu addr rw m =
     (let a20addr = A20ADDR addr m in
      if (case cpu of None \<Rightarrow> False
          | Some smm \<Rightarrow> rw = BX_EXECUTE \<and> vga_range a20addr \<and> smram_available m \<and> (smram_enable m \<or> smm))
      then Some (Ram a20addr)
      else if is_write rw \<and> is_monitor (a20addr AND NOT 0xfff) 0xfff m then None
      else case direct_handler (memory_handlers m (unat (drop_bit 20 a20addr))) a20addr rw of
             Some p \<Rightarrow> p
           | None \<Rightarrow> if is_write rw then host_write_ptr a20addr m else host_read_ptr a20addr m)"

text \<open>What a pointer holds; a pointer of a device goes through the device.\<close>

definition ptr_read :: "host_ptr \<Rightarrow> nat \<Rightarrow> 'd bx_mem \<Rightarrow> Bit8u list" where
  "ptr_read p len m = (case p of
       Ram a \<Rightarrow> read_bytes a len (vector m)
     | Rom i \<Rightarrow> map (\<lambda>k. rom m (i + of_nat k)) [0..<len]
     | Bogus i \<Rightarrow> map (\<lambda>k. bogus m (i + k)) [0..<len]
     | Dev_ptr i \<Rightarrow> dev_copy_out m i len (devs m))"

definition ptr_write :: "host_ptr \<Rightarrow> Bit8u list \<Rightarrow> 'd bx_mem \<Rightarrow> 'd bx_mem" where
  "ptr_write p data m = (case p of
       Ram a \<Rightarrow> m\<lparr>vector := write_bytes a data (vector m)\<rparr>
     | Rom i \<Rightarrow> m\<lparr>rom := fold (\<lambda>k r. r(i + of_nat k := data ! k)) [0..<length data] (rom m)\<rparr>
     | Bogus i \<Rightarrow> m\<lparr>bogus := fold (\<lambda>k r. r(i + k := data ! k)) [0..<length data] (bogus m)\<rparr>
     | Dev_ptr i \<Rightarrow> m\<lparr>devs := dev_copy_in m i data (devs m)\<rparr>)"

fun dma_read_loop :: "bx_phy_address \<Rightarrow> Bit8u list \<Rightarrow> 'd bx_mem \<Rightarrow> 'd bx_mem \<times> Bit8u list" where
  "dma_read_loop a [] m = (m, [])"
| "dma_read_loop a (b # bs) m =
     (let (m1, r) = readPhysicalPage None a [b] m; (m2, rs) = dma_read_loop (a + 1) bs m1 in (m2, r @ rs))"

definition dmaReadPhysicalPage :: "bx_phy_address \<Rightarrow> Bit8u list \<Rightarrow> 'd bx_mem \<Rightarrow> 'd bx_mem \<times> Bit8u list" where
  "dmaReadPhysicalPage addr old m0 =
     (let m = cross_page addr (length old) m0 in
      case getHostMemAddr None addr BX_READ m of
        Some p \<Rightarrow> (m, ptr_read p (length old) m)
      | None \<Rightarrow> dma_read_loop addr old m)"

fun dma_write_loop :: "Bit16u \<Rightarrow> bx_phy_address \<Rightarrow> Bit8u list \<Rightarrow> 'd bx_mem \<Rightarrow> mem_exit + 'd bx_mem" where
  "dma_write_loop opc a [] m = Inr m"
| "dma_write_loop opc a (b # bs) m =
     (case writePhysicalPage opc None a [b] m of Inl e \<Rightarrow> Inl e | Inr m1 \<Rightarrow> dma_write_loop opc (a + 1) bs m1)"

definition dmaWritePhysicalPage :: "Bit16u \<Rightarrow> bx_phy_address \<Rightarrow> Bit8u list \<Rightarrow> 'd bx_mem \<Rightarrow> mem_exit + 'd bx_mem" where
  "dmaWritePhysicalPage opc addr data m0 =
     (let m = cross_page addr (length data) m0 in
      case getHostMemAddr None addr BX_WRITE m of
        Some p \<Rightarrow> Inr (ptr_write p data (dec_stamp_page opc addr m))
      | None \<Rightarrow> dma_write_loop opc addr data m)"

subsection \<open>Handlers and switches\<close>

text \<open>The 64K blocks of a megabyte a handler covers; the comparisons are on 32 bit products.\<close>

definition handler_bitmap :: "bx_phy_address \<Rightarrow> bx_phy_address \<Rightarrow> Bit32u \<Rightarrow> Bit16u" where
  "handler_bitmap begin_addr end_addr page_idx =
     (let lo = (if begin_addr > ucast (push_bit 20 page_idx)
                then push_bit (unat (drop_bit 16 begin_addr AND 0xf)) 0xffff else 0xffff);
          hi = (if end_addr < ucast (push_bit 20 (page_idx + 1))
                then drop_bit (15 - unat (drop_bit 16 end_addr AND 0xf)) 0xffff else 0xffff)
      in lo AND hi)"

definition add_handler ::
    "'d memory_handler_struct \<Rightarrow> nat \<Rightarrow> 'd bx_mem \<Rightarrow> 'd bx_mem option" where
  "add_handler h page_idx m =
     (let bm = handler_bitmap (h_begin h) (h_end h) (of_nat page_idx) in
      case memory_handlers m page_idx of
        [] \<Rightarrow> Some (m\<lparr>memory_handlers := (memory_handlers m)(page_idx := [h\<lparr>bitmap := bm\<rparr>])\<rparr>)
      | g # gs \<Rightarrow> if bm AND bitmap g \<noteq> 0 then None
                  else Some (m\<lparr>memory_handlers := (memory_handlers m)(page_idx := h\<lparr>bitmap := bm OR bitmap g\<rparr> # g # gs)\<rparr>))"

fun add_handlers :: "'d memory_handler_struct \<Rightarrow> nat list \<Rightarrow> 'd bx_mem \<Rightarrow> 'd bx_mem \<times> bool" where
  "add_handlers h [] m = (m, True)"
| "add_handlers h (i # is) m = (case add_handler h i m of None \<Rightarrow> (m, False) | Some m' \<Rightarrow> add_handlers h is m')"

definition page_indices :: "bx_phy_address \<Rightarrow> bx_phy_address \<Rightarrow> nat list" where
  "page_indices begin_addr end_addr =
     [unat (ucast (drop_bit 20 begin_addr) :: Bit32u) ..< Suc (unat (ucast (drop_bit 20 end_addr) :: Bit32u))]"

definition registerMemoryHandlers ::
    "nat \<Rightarrow> 'd read_handler option \<Rightarrow> 'd write_handler option \<Rightarrow> (bx_phy_address \<Rightarrow> mem_rw \<Rightarrow> host_ptr option) option \<Rightarrow>
     bx_phy_address \<Rightarrow> bx_phy_address \<Rightarrow> 'd bx_mem \<Rightarrow> 'd bx_mem \<times> bool" where
  "registerMemoryHandlers prm rd wr da begin_addr end_addr m =
     (if end_addr < begin_addr then (m, False)
      else case rd of None \<Rightarrow> (m, False)
      | Some f \<Rightarrow> add_handlers \<lparr>h_param = prm, h_begin = begin_addr, h_end = end_addr, bitmap = 0xffff, read_handler = f,
                     write_handler = wr, da_handler = da\<rparr> (page_indices begin_addr end_addr) m)"

text \<open>The search stops at the first handler that agrees in one of the three.\<close>

fun remove_handler :: "nat \<Rightarrow> bx_phy_address \<Rightarrow> bx_phy_address \<Rightarrow> Bit16u \<Rightarrow> 'd memory_handler_struct list \<Rightarrow>
    'd memory_handler_struct list \<times> bool" where
  "remove_handler prm b e bm [] = ([], False)"
| "remove_handler prm b e bm (h # hs) =
     (if h_param h \<noteq> prm \<and> h_begin h \<noteq> b \<and> h_end h \<noteq> e
      then let (r, ok) = remove_handler prm b e bm hs in (h\<lparr>bitmap := bitmap h AND NOT bm\<rparr> # r, ok)
      else (hs, True))"

definition unregisterMemoryHandlers ::
    "nat \<Rightarrow> bx_phy_address \<Rightarrow> bx_phy_address \<Rightarrow> 'd bx_mem \<Rightarrow> 'd bx_mem \<times> bool" where
  "unregisterMemoryHandlers prm begin_addr end_addr m =
     fold (\<lambda>i (m, ret). let (hs, ok) = remove_handler prm begin_addr end_addr
                                (handler_bitmap begin_addr end_addr (of_nat i)) (memory_handlers m i)
                         in (m\<lparr>memory_handlers := (memory_handlers m)(i := hs)\<rparr>, ret \<and> ok))
       (page_indices begin_addr end_addr) (m, True)"

definition enable_smram :: "bool \<Rightarrow> bool \<Rightarrow> 'd bx_mem \<Rightarrow> 'd bx_mem" where
  "enable_smram enable restricted m = m\<lparr>smram_available := True, smram_enable := enable, smram_restricted := restricted\<rparr>"

definition disable_smram :: "'d bx_mem \<Rightarrow> 'd bx_mem" where
  "disable_smram m = m\<lparr>smram_available := False, smram_enable := False, smram_restricted := False\<rparr>"

definition is_smram_accessible :: "'d bx_mem \<Rightarrow> bool" where
  "is_smram_accessible m \<longleftrightarrow> smram_available m \<and> (smram_enable m \<or> \<not> smram_restricted m)"

definition set_memory_type :: "nat \<Rightarrow> bool \<Rightarrow> bool \<Rightarrow> 'd bx_mem \<Rightarrow> 'd bx_mem" where
  "set_memory_type area rw dram m =
     (if area \<le> BX_MEM_AREA_F0000
      then m\<lparr>memory_type := (memory_type m)(area := (memory_type m area)(rw := dram))\<rparr> else m)"

definition set_bios_write :: "bool \<Rightarrow> 'd bx_mem \<Rightarrow> 'd bx_mem" where
  "set_bios_write enabled m = m\<lparr>bios_write_enabled := enabled\<rparr>"

end
