(* ===== verification/PhysMemProps.thy ===== *)
theory PhysMemProps
  imports PhysMem
begin

text \<open>
  Properties of physical memory: what a write changes, which pages the dirty tables mark, that no
  stale trace survives a write, that host pointers agree with physical reads and writes, and
  how accesses reach the handlers of devices.
\<close>

subsection \<open>Bytes\<close>

lemma write_bytes_take:
  fixes a x :: bx_phy_address
  assumes "k \<le> length data" "length data < 2 ^ 64"
  shows "fold (\<lambda>k w. w(a + of_nat k := data ! k)) [0..<k] v x =
    (if unat (x - a) < k then data ! unat (x - a) else v x)"
  using assms(1)
proof (induction k)
  case (Suc k)
  have "a + of_nat k = x \<longleftrightarrow> unat (x - a) = k"
  proof
    show "unat (x - a) = k" if "a + of_nat k = x"
      using that Suc.prems assms(2) by (auto simp: unat_of_nat take_bit_nat_eq_self)
    show "a + of_nat k = x" if "unat (x - a) = k" using that by (simp add: that [symmetric])
  qed
  with Suc show ?case by (auto simp: less_Suc_eq)
qed simp

lemma write_bytes_at:
  "length data < 2 ^ 64 \<Longrightarrow> write_bytes a data v x = (if unat (x - a) < length data then data ! unat (x - a) else v x)"
  using write_bytes_take [of "length data" data a v x] by (simp add: write_bytes_def)

lemma read_write_bytes:
  assumes "length data < 2 ^ 64"
  shows "read_bytes a (length data) (write_bytes a data v) = data"
  using assms by (intro nth_equalityI) (simp_all add: read_bytes_def write_bytes_at unat_of_nat take_bit_nat_eq_self)

subsection \<open>The dirty tables\<close>

definition dirty :: "bx_phy_address \<Rightarrow> 'd bx_mem \<Rightarrow> bool" where
  "dirty x m \<longleftrightarrow> bit (dirty_bits_l1 m (unat x div (1024 * 1024 * 64))) (unat x div (1024 * 1024) mod 64) \<and>
     bit (dirty_bits_l2 m (unat x div (4096 * 64))) (unat x div 4096 mod 64)"

lemma mark_dirty_twice: "mark_dirty a (mark_dirty a m) = mark_dirty a m"
  by (simp add: mark_dirty_def or.assoc [symmetric] or.left_idem or.assoc)

lemma mark_dirty_page: "mark_dirty (4096 * (a div 4096)) m = mark_dirty a m"
proof -
  have "4096 * (a div 4096) div (4096 * k) = a div (4096 * k)" "4096 * (a div 4096) div 4096 = a div 4096" for k
    by (simp_all add: div_mult2_eq)
  from this(1) [of 16384] this(1) [of 256] this(1) [of 64] this(2) show ?thesis
    unfolding mark_dirty_def by simp
qed

lemma mark_dirty_marks: "unat x div 4096 = a div 4096 \<Longrightarrow> dirty x (mark_dirty a m)"
proof -
  assume h: "unat x div 4096 = a div 4096"
  have d: "y div (4096 * k) = (y div 4096) div k" for y k :: nat by (simp add: div_mult2_eq)
  have "unat x div (1024 * 1024 * 64) = a div (1024 * 1024 * 64)" "unat x div (1024 * 1024) = a div (1024 * 1024)"
    "unat x div (4096 * 64) = a div (4096 * 64)"
    using h d [of _ 16384] d [of _ 256] d [of _ 64] by simp_all
  with h show ?thesis by (simp add: dirty_def mark_dirty_def bit_simps)
qed

lemma mark_dirty_keeps: "dirty x m \<Longrightarrow> dirty x (mark_dirty a m)"
  by (auto simp: dirty_def mark_dirty_def bit_simps)

lemma mark_dirty_vector [simp]: "vector (mark_dirty a m) = vector m"
  by (simp add: mark_dirty_def)

lemma dirty_loop_low:
  assumes "d < 0x100000000"
  shows "dirty_loop a e d m = Inr (if a < e then mark_dirty d m else m)"
  using assms
proof (induction a e d m rule: dirty_loop.induct)
  case (1 a e d m)
  then show ?case by (subst dirty_loop.simps) (simp add: mark_dirty_twice)
qed

lemma unat_page: "unat (a AND - 4096) = 4096 * (unat a div 4096)" for a :: bx_phy_address
proof -
  have "a AND NOT 0xfff = push_bit 12 (drop_bit 12 a)"
    by (rule bit_word_eqI) (auto simp: bit_simps bit_mask_literals)
  then have "unat (a AND - 4096) = push_bit 12 (drop_bit 12 (unat a)) mod 2 ^ 64"
    using unat_less_exp [of a] by (simp add: unsigned_push_bit_eq unsigned_drop_bit_eq take_bit_eq_mod)
  also have "\<dots> = 4096 * (unat a div 4096) mod 2 ^ 64" by (simp add: push_bit_eq_mult drop_bit_eq_div mult.commute)
  also have "\<dots> = 4096 * (unat a div 4096)"
    using unat_less_exp [of a] by (intro mod_less) simp
  finally show ?thesis .
qed

lemma set_dirty_first_page:
  assumes "0 < len" "unat a + len < 2 ^ 63"
  shows "set_dirty a len m = (if a < 0x100000000 then Inr (mark_dirty (unat a) m) else Inl High_write)"
proof -
  have "unat (a + of_nat len + 0xfff) = unat a + len + 4095"
    using assms by (simp add: unat_word_ariths unat_of_nat take_bit_nat_eq_self)
  moreover have "4096 * (unat a div 4096) < 4096 * ((unat a + len + 4095) div 4096)"
    using assms(1) by linarith
  ultimately have lt: "unat (a AND - 4096) < unat ((a + of_nat len + 0xfff) AND - 4096)"
    by (simp add: unat_page)
  have p: "4096 * (unat a div 4096) < 0x100000000 \<longleftrightarrow> a < 0x100000000" unfolding word_less_nat_alt by simp linarith
  show ?thesis
  proof (cases "a < 0x100000000")
    case True
    then show ?thesis using lt p
      by (simp add: set_dirty_def Let_def dirty_loop_low unat_page mark_dirty_page)
  next
    case False
    then show ?thesis using lt p
      by (simp add: set_dirty_def Let_def dirty_loop.simps [of "4096 * (unat a div 4096)"] unat_page)
  qed
qed


subsection \<open>What a write changes\<close>

text \<open>A store changes RAM, ROM and the instruction cache with its stamps, nothing else.\<close>

definition write_frame :: "'d bx_mem \<Rightarrow> 'd bx_mem \<Rightarrow> bool" where
  "write_frame m t \<longleftrightarrow>
     (\<exists>v r fg ic st. t = m\<lparr>vector := v, rom := r, stamps := fg, code_cache := ic, stop_trace := st\<rparr>)"

lemma write_frameI:
  "t = m\<lparr>vector := v, rom := r, stamps := fg, code_cache := ic, stop_trace := st\<rparr> \<Longrightarrow> write_frame m t"
  unfolding write_frame_def by blast

lemma write_frame_intros [simp]:
  "write_frame m m" "write_frame m (m\<lparr>vector := v\<rparr>)" "write_frame m (m\<lparr>rom := r\<rparr>)"
  "write_frame m (m\<lparr>stamps := fg, code_cache := ic, stop_trace := st\<rparr>)"
proof -
  show "write_frame m m"
    by (rule write_frameI [where v = "vector m" and r = "rom m" and fg = "stamps m" and ic = "code_cache m" and st = "stop_trace m"]) simp
  show "write_frame m (m\<lparr>vector := v\<rparr>)"
    by (rule write_frameI [where v = v and r = "rom m" and fg = "stamps m" and ic = "code_cache m" and st = "stop_trace m"]) simp
  show "write_frame m (m\<lparr>rom := r\<rparr>)"
    by (rule write_frameI [where v = "vector m" and r = r and fg = "stamps m" and ic = "code_cache m" and st = "stop_trace m"]) simp
  show "write_frame m (m\<lparr>stamps := fg, code_cache := ic, stop_trace := st\<rparr>)"
    by (rule write_frameI [where v = "vector m" and r = "rom m" and fg = fg and ic = ic and st = st]) simp
qed

lemma write_frame_trans [trans]: "write_frame m t \<Longrightarrow> write_frame t u \<Longrightarrow> write_frame m u"
  unfolding write_frame_def by (elim exE) (simp, blast)

lemma write_frame_dirty: "write_frame m t \<Longrightarrow> dirty x t = dirty x m"
  by (auto simp: write_frame_def dirty_def)

lemma dec_stamp_frame [simp]:
  "write_frame m (dec_stamp opc a len m)" "write_frame m (dec_stamp_page opc a m)"
  "vector (dec_stamp opc a len m) = vector m" "vector (dec_stamp_page opc a m) = vector m"
  "rom (dec_stamp opc a len m) = rom m" "rom (dec_stamp_page opc a m) = rom m"
  "bios_write_enabled (dec_stamp opc a len m) = bios_write_enabled m" "bios_write_enabled (dec_stamp_page opc a m) = bios_write_enabled m"
  by (simp_all add: dec_stamp_def dec_stamp_page_def split: prod.splits)

lemma dec_stamp_coherent:
  assumes "icache_coherent (stamps m) (code_cache m)"
  shows "icache_coherent (stamps (dec_stamp opc a len m)) (code_cache (dec_stamp opc a len m))"
    "icache_coherent (stamps (dec_stamp_page opc a m)) (code_cache (dec_stamp_page opc a m))"
  using assms by (auto simp: dec_stamp_def dec_stamp_page_def split: prod.splits
      intro: decWriteStamp_coherent decWriteStamp_page_coherent)

text \<open>One byte of A0000-FFFFF.\<close>

lemma area_write_byte_step:
  assumes "area_write_byte cpu data (a, j, m) = (a', i, t)"
  shows "write_frame m t" "a' = a + 1 \<or> bios_write_enabled m" "x \<noteq> a \<Longrightarrow> vector t x = vector m x"
    "stamps t = stamps m" "code_cache t = code_cache m" "bios_write_enabled t = bios_write_enabled m"
  using assms by (auto simp: area_write_byte_def split: if_splits)

lemma area_write_steps:
  assumes "\<not> bios_write_enabled m \<or> length data = 1" "k \<le> length data" "length data < 2 ^ 64"
    "(area_write_byte cpu data ^^ k) (a, 0, m) = (a', j, t)"
  shows "write_frame m t \<and> (k < length data \<longrightarrow> a' = a + of_nat k) \<and> (\<forall>x. \<not> unat (x - a) < k \<longrightarrow> vector t x = vector m x) \<and>
    stamps t = stamps m \<and> code_cache t = code_cache m \<and> bios_write_enabled t = bios_write_enabled m"
  using assms(2,4)
proof (induction k arbitrary: a' j t)
  case 0
  then show ?case by simp
next
  case (Suc k)
  obtain b i u where u: "(area_write_byte cpu data ^^ k) (a, 0, m) = (b, i, u)" by (metis prod_cases3)
  then have st: "area_write_byte cpu data (b, i, u) = (a', j, t)" using Suc.prems by simp
  note ih = Suc.IH [OF _ u] and s = area_write_byte_step [OF st]
  have b: "b = a + of_nat k" using ih Suc.prems(1) by simp
  have k: "unat (of_nat k :: 64 word) = k" using Suc.prems(1) assms(3) by (simp add: unat_of_nat take_bit_nat_eq_self)
  have "vector t x = vector m x" if "\<not> unat (x - a) < Suc k" for x
  proof -
    have "x \<noteq> b" using that k b by auto
    then show ?thesis using s(3) ih Suc.prems(1) that by simp
  qed
  moreover have "a' = a + of_nat (Suc k)" if "Suc k < length data"
    using that s(2) b ih Suc.prems(1) assms(1) by (auto simp: add.assoc add.commute)
  moreover have "write_frame m t" using ih Suc.prems(1) s(1) write_frame_trans [of m u t] by simp
  ultimately show ?case using s(4-6) ih Suc.prems(1) by simp
qed

lemma area_write_frame:
  assumes "\<not> bios_write_enabled m \<or> length data = 1" "length data < 2 ^ 64"
  shows "write_frame m (area_write cpu a data m)" "\<not> unat (x - a) < length data \<Longrightarrow> vector (area_write cpu a data m) x = vector m x"
    "stamps (area_write cpu a data m) = stamps m" "code_cache (area_write cpu a data m) = code_cache m"
proof -
  obtain a' j t where t: "(area_write_byte cpu data ^^ length data) (a, 0, m) = (a', j, t)" by (metis prod_cases3)
  then have "area_write cpu a data m = t" by (simp add: area_write_def)
  with area_write_steps [OF assms(1) order_refl assms(2) t]
  show "write_frame m (area_write cpu a data m)" "\<not> unat (x - a) < length data \<Longrightarrow> vector (area_write cpu a data m) x = vector m x"
    "stamps (area_write cpu a data m) = stamps m" "code_cache (area_write cpu a data m) = code_cache m" by simp_all
qed

lemma mem_write_frame:
  assumes "\<not> bios_write_enabled m \<or> length data = 1" "length data < 2 ^ 64"
  shows "write_frame m (mem_write opc cpu a data m)"
    "\<not> unat (x - a) < length data \<Longrightarrow> vector (mem_write opc cpu a data m) x = vector m x"
    "icache_coherent (stamps m) (code_cache m) \<Longrightarrow>
       icache_coherent (stamps (mem_write opc cpu a data m)) (code_cache (mem_write opc cpu a data m))"
proof -
  let ?n = "dec_stamp_page opc a m"
  have "\<not> bios_write_enabled ?n \<or> length data = 1" using assms(1) by simp
  note f = area_write_frame [OF this assms(2), where cpu = cpu and a = a]
  have v: "write_frame m (u\<lparr>vector := w\<rparr>)" if "write_frame m u" for u w
    using that write_frame_intros(2) write_frame_trans by blast
  show "write_frame m (mem_write opc cpu a data m)"
    using write_frame_trans [OF dec_stamp_frame(2) f(1)] by (simp add: mem_write_def Let_def v)
  show "\<not> unat (x - a) < length data \<Longrightarrow> vector (mem_write opc cpu a data m) x = vector m x"
    using f(2) assms(2) by (simp add: mem_write_def Let_def write_bytes_at)
  show "icache_coherent (stamps m) (code_cache m) \<Longrightarrow>
       icache_coherent (stamps (mem_write opc cpu a data m)) (code_cache (mem_write opc cpu a data m))"
    using f(3,4) dec_stamp_coherent [of m opc a] by (simp add: mem_write_def Let_def)
qed

subsection \<open>Physical writes\<close>

text \<open>What happens before the bytes go anywhere: dirty tables, page check and monitor.\<close>

definition write_prelude :: "bx_phy_address \<Rightarrow> nat \<Rightarrow> 'd bx_mem \<Rightarrow> 'd bx_mem" where
  "write_prelude addr len m = check_monitor (A20ADDR addr m) len (cross_page addr len (mark_dirty (unat (A20ADDR addr m)) m))"

lemma write_prelude_fields [simp]:
  "vector (write_prelude addr len m) = vector m" "rom (write_prelude addr len m) = rom m"
  "stamps (write_prelude addr len m) = stamps m" "code_cache (write_prelude addr len m) = code_cache m"
  "mem_len (write_prelude addr len m) = mem_len m" "bios_write_enabled (write_prelude addr len m) = bios_write_enabled m"
  "a20_mask (write_prelude addr len m) = a20_mask m" "memory_handlers (write_prelude addr len m) = memory_handlers m"
  by (simp_all add: write_prelude_def check_monitor_def cross_page_def mark_dirty_def)

lemma dirty_devs [simp]: "dirty x (m\<lparr>devs := d\<rparr>) = dirty x m"
  by (simp add: dirty_def)

lemma write_prelude_dirty: "dirty x (write_prelude addr len m) = dirty x (mark_dirty (unat (A20ADDR addr m)) m)"
  by (simp add: write_prelude_def check_monitor_def cross_page_def dirty_def)

lemma writePhysicalPage_low:
  assumes "data \<noteq> []" "length data < 2 ^ 32" "A20ADDR addr m < 0x100000000"
  shows "writePhysicalPage opc cpu addr data m =
    (if smram_access cpu (A20ADDR addr m) (write_prelude addr (length data) m)
     then Inr (mem_write opc cpu (A20ADDR addr m) data (write_prelude addr (length data) m))
     else case run_write_handlers (memory_handlers m (unat (drop_bit 20 (A20ADDR addr m)))) (A20ADDR addr m) data
                 (devs (write_prelude addr (length data) m)) of
            (d, True) \<Rightarrow> Inr ((write_prelude addr (length data) m)\<lparr>devs := d\<rparr>)
          | (d, False) \<Rightarrow> Inr (mem_write opc cpu (A20ADDR addr m) data ((write_prelude addr (length data) m)\<lparr>devs := d\<rparr>)))"
proof -
  let ?a = "A20ADDR addr m" and ?m = "write_prelude addr (length data) m"
  have "unat ?a + length data < 2 ^ 63" using assms(2,3) by (simp add: word_less_nat_alt)
  then have "set_dirty ?a (length data) m = Inr (mark_dirty (unat ?a) m)"
    using set_dirty_first_page [of "length data" ?a m] assms(1,3) by simp
  moreover have "memory_handlers m = memory_handlers ?m" by simp
  ultimately show ?thesis unfolding writePhysicalPage_def write_prelude_def Let_def by simp
qed

lemma writePhysicalPage_cases:
  assumes "data \<noteq> []" "length data < 2 ^ 32" "A20ADDR addr m < 0x100000000"
  obtains d where "writePhysicalPage opc cpu addr data m = Inr ((write_prelude addr (length data) m)\<lparr>devs := d\<rparr>)"
      "memory_handlers m (unat (drop_bit 20 (A20ADDR addr m))) \<noteq> []"
    | d where "writePhysicalPage opc cpu addr data m =
        Inr (mem_write opc cpu (A20ADDR addr m) data ((write_prelude addr (length data) m)\<lparr>devs := d\<rparr>))"
proof -
  let ?a = "A20ADDR addr m" and ?m = "write_prelude addr (length data) m"
  note w = writePhysicalPage_low [OF assms, of opc cpu]
  obtain d b where r: "run_write_handlers (memory_handlers m (unat (drop_bit 20 ?a))) ?a data (devs ?m) = (d, b)"
    by (metis surj_pair)
  consider (smram) "smram_access cpu ?a ?m" | (handled) "\<not> smram_access cpu ?a ?m" b | (plain) "\<not> smram_access cpu ?a ?m" "\<not> b"
    by blast
  then show ?thesis
  proof cases
    case smram
    then show ?thesis using w that(2) [of "devs ?m"] by simp
  next
    case handled
    moreover from this have "memory_handlers m (unat (drop_bit 20 ?a)) \<noteq> []" using r by auto
    ultimately show ?thesis using w r that(1) [of d] by simp
  next
    case plain
    then show ?thesis using w r that(2) [of d] by simp
  qed
qed

lemma page_range:
  fixes a x :: bx_phy_address
  assumes "unat a mod 4096 + len \<le> 4096" "unat (x - a) < len"
  shows "unat x div 4096 = unat a div 4096"
proof -
  have "unat a + unat (x - a) < 2 ^ 64"
  proof -
    have "unat a < 4096 * 4503599627370496" using unat_less_exp [of a] by simp
    then have "unat a div 4096 < 4503599627370496" by (simp add: less_mult_imp_div_less mult.commute)
    moreover have "unat a = 4096 * (unat a div 4096) + unat a mod 4096" by simp
    ultimately have "unat a + unat (x - a) < 18446744073709551616" using assms by linarith
    then show ?thesis by simp
  qed
  then have "unat x = unat a + unat (x - a)"
    using unat_plus_if' [of a "x - a"] by simp
  then have "unat x = unat a div 4096 * 4096 + (unat a mod 4096 + unat (x - a))" using div_mult_mod_eq [of "unat a" 4096] by simp
  moreover have "unat a mod 4096 + unat (x - a) < 4096" using assms by simp
  ultimately show ?thesis by (simp only: div_mult_self3 div_less)
qed



lemma dec_stamp_clears:
  "stamps (dec_stamp opc a len m) (stamp_hash a) AND stamp_mask a len = 0"
  "stamps (dec_stamp_page opc a m) (stamp_hash a) = 0"
  by (auto simp: dec_stamp_def dec_stamp_page_def decWriteStamp_def decWriteStamp_page_def Let_def bit_eq_iff bit_simps)

lemma plain_not_vga: "plain_ram a \<Longrightarrow> \<not> vga_range a"
  unfolding plain_ram_def vga_range_def word_less_nat_alt word_le_nat_alt by auto

text \<open>A write to plain RAM that no handler sees.\<close>

lemma plain_write:
  assumes "data \<noteq> []" "length data < 2 ^ 32" "A20ADDR addr m < 0x100000000"
    "plain_ram (A20ADDR addr m)" "A20ADDR addr m < mem_len m" "\<not> is_bios (A20ADDR addr m)"
    "memory_handlers m (unat (drop_bit 20 (A20ADDR addr m))) = []"
  obtains n where "write_frame (write_prelude addr (length data) m) n"
    "writePhysicalPage opc cpu addr data m = Inr (n\<lparr>vector := write_bytes (A20ADDR addr m) data (vector m)\<rparr>)"
    "stamps n (stamp_hash (A20ADDR addr m)) AND (if length data \<in> {8, 4, 2, 1} then stamp_mask (A20ADDR addr m) (length data) else 0xffffffff) = 0"
    "icache_coherent (stamps m) (code_cache m) \<longrightarrow> icache_coherent (stamps n) (code_cache n)"
proof -
  let ?a = "A20ADDR addr m" and ?p = "write_prelude addr (length data) m"
  define n where "n = (if length data \<in> {8, 4, 2, 1} then dec_stamp opc ?a (length data) ?p else dec_stamp_page opc ?a ?p)"
  have "writePhysicalPage opc cpu addr data m = Inr (mem_write opc cpu ?a data ?p)"
    using writePhysicalPage_low [OF assms(1-3), of opc cpu] assms(7) by (simp split: if_splits)
  also have "mem_write opc cpu ?a data ?p = n\<lparr>vector := write_bytes ?a data (vector m)\<rparr>"
    using assms(4-6) by (simp add: mem_write_def n_def Let_def)
  finally show ?thesis
    using that [of n] dec_stamp_clears(1) [of opc ?a _ ?p] dec_stamp_clears(2) [of opc ?a ?p] dec_stamp_coherent [of ?p opc ?a] by (simp add: n_def)
qed


text \<open>
  Only the first page is tracked. However many pages a write spans, the dirty tables gain
  exactly the bit of its first page; a write that starts at or above 4 GiB ends the program.
\<close>

theorem dirty_tracks_first_page:
  assumes "data \<noteq> []" "unat (A20ADDR addr m) + length data < 2 ^ 63"
  shows "if A20ADDR addr m < 0x100000000
    then set_dirty (A20ADDR addr m) (length data) m = Inr (mark_dirty (unat (A20ADDR addr m)) m)
    else writePhysicalPage opc cpu addr data m = Inl High_write"
  using set_dirty_first_page [of "length data" "A20ADDR addr m" m] assms by (simp add: writePhysicalPage_def Let_def)

text \<open>
  Reading back. In RAM outside A0000-FFFFF with no handler for its megabyte, a write
  returns, reading the same bytes gives the data written, and no other byte of RAM has changed.
\<close>

theorem read_after_write:
  assumes "data \<noteq> []" "length data < 2 ^ 32" "A20ADDR addr m < 0x100000000" "length old = length data"
    "plain_ram (A20ADDR addr m)" "A20ADDR addr m < mem_len m" "\<not> is_bios (A20ADDR addr m)"
    "memory_handlers m (unat (drop_bit 20 (A20ADDR addr m))) = []"
  shows "\<exists>m'. writePhysicalPage opc cpu addr data m = Inr m' \<and>
    snd (readPhysicalPage cpu' addr old m') = data \<and>
    (\<forall>x. \<not> unat (x - A20ADDR addr m) < length data \<longrightarrow> vector m' x = vector m x)"
proof -
  let ?a = "A20ADDR addr m"
  have len: "length data < 2 ^ 64" using assms(2) by simp
  obtain n where fr: "write_frame (write_prelude addr (length data) m) n"
    and w: "writePhysicalPage opc cpu addr data m = Inr (n\<lparr>vector := write_bytes ?a data (vector m)\<rparr>)"
    using plain_write [OF assms(1-3,5-8)] by metis
  let ?t = "n\<lparr>vector := write_bytes ?a data (vector m)\<rparr>"
  have f: "a20_mask n = a20_mask m" "mem_len n = mem_len m" "memory_handlers n = memory_handlers m"
    using fr by (auto simp: write_frame_def)
  then have "A20ADDR addr ?t = ?a" by (simp add: A20ADDR_def)
  then have "snd (readPhysicalPage cpu' addr old ?t) = read_bytes ?a (length data) (vector ?t)"
    using assms(4-8) f plain_not_vga [OF assms(5)]
    by (simp add: readPhysicalPage_def Let_def smram_access_def mem_read_def cross_page_def split: option.split)
  then show ?thesis using w len by (simp add: read_write_bytes write_bytes_at)
qed

text \<open>
  Untracked writes. A DMA write into RAM outside A0000-FFFFF goes through a host pointer:
  it stores the data and leaves both dirty tables as they were.
\<close>

theorem dma_write_untracked:
  assumes "length data < 2 ^ 64" "plain_ram (A20ADDR addr m)" "A20ADDR addr m < mem_len m" "\<not> is_bios (A20ADDR addr m)"
    "memory_handlers m (unat (drop_bit 20 (A20ADDR addr m))) = []" "\<not> mon_armed m"
  shows "\<exists>m'. dmaWritePhysicalPage opc addr data m = Inr m' \<and>
    dirty_bits_l1 m' = dirty_bits_l1 m \<and> dirty_bits_l2 m' = dirty_bits_l2 m \<and>
    read_bytes (A20ADDR addr m) (length data) (vector m') = data"
proof -
  let ?a = "A20ADDR addr m" and ?c = "cross_page addr (length data) m"
  have c: "A20ADDR addr ?c = ?a" "memory_handlers ?c = memory_handlers m" "mem_len ?c = mem_len m" "mon_armed ?c = mon_armed m"
    "dirty_bits_l1 ?c = dirty_bits_l1 m" "dirty_bits_l2 ?c = dirty_bits_l2 m"
    by (simp_all add: A20ADDR_def cross_page_def)
  have "?a < 0x000c0000 \<or> ?a \<ge> 0x00100000" "\<not> vga_range ?a" "\<not> (0x000c0000 \<le> ?a \<and> ?a < 0x00100000)"
    using assms(2) unfolding plain_ram_def vga_range_def word_less_nat_alt word_le_nat_alt by auto
  then have "host_write_ptr ?a ?c = Some (Ram ?a)" using assms(3,4) c by (simp add: host_write_ptr_def not_le)
  then have "getHostMemAddr None addr BX_WRITE ?c = Some (Ram ?a)"
    using assms(5,6) c by (simp add: getHostMemAddr_def Let_def is_monitor_def is_write_def)
  moreover have "dirty_bits_l1 (dec_stamp_page opc addr ?c) = dirty_bits_l1 m" "dirty_bits_l2 (dec_stamp_page opc addr ?c) = dirty_bits_l2 m"
    using dec_stamp_frame(2) [of ?c opc addr] c by (auto simp: write_frame_def)
  ultimately show ?thesis using assms(1) by (simp add: dmaWritePhysicalPage_def Let_def ptr_write_def read_write_bytes)
qed


subsection \<open>Direct access\<close>

lemma rom_area:
  "0x000c0000 \<le> a \<Longrightarrow> a < 0x00100000 \<Longrightarrow> a AND 0xfffc0000 = 0x000c0000" for a :: bx_phy_address
proof -
  assume "0x000c0000 \<le> a" "a < 0x00100000"
  then have "unat a div 2 ^ 18 = 3" unfolding word_less_nat_alt word_le_nat_alt by simp
  then have "drop_bit 18 (unat a) = 3" by (simp add: drop_bit_eq_div)
  then have "drop_bit 18 a = 3" by (simp only: word_unat_eq_iff unat_drop_bit_eq) simp
  moreover have "a AND 0xfffc0000 = push_bit 18 (take_bit 14 (drop_bit 18 a))"
  proof -
    have m: "(0xfffc0000 :: bx_phy_address) = push_bit 18 (mask 14)" by (simp add: mask_eq_exp_minus_1)
    show ?thesis unfolding m by (rule bit_word_eqI) (auto simp: bit_simps)
  qed
  ultimately show ?thesis by simp
qed

text \<open>
  Host pointers read like physical reads. Where no handler is registered, a pointer that
  \<open>getHostMemAddr\<close> hands out for reading holds the byte that \<open>readPhysicalPage\<close> returns, from RAM, shadow
  RAM, ROM or missing memory.
\<close>

theorem host_read_agrees:
  assumes "memory_handlers m (unat (drop_bit 20 (A20ADDR addr m))) = []" "0x00100000 \<le> mem_len m" "bogus m = (\<lambda>_. 0xff)"
    "getHostMemAddr cpu addr BX_READ m = Some hp"
  shows "ptr_read hp 1 m = snd (readPhysicalPage cpu addr [old] m)"
proof -
  let ?a = "A20ADDR addr m"
  have hp: "host_read_ptr ?a m = Some hp" using assms(1,4) by (simp add: getHostMemAddr_def Let_def is_write_def split: option.splits)
  then have nv: "\<not> vga_range ?a" by (auto simp: host_read_ptr_def split: if_splits)
  have r: "snd (readPhysicalPage cpu addr [old] m) = mem_read cpu ?a [old] m"
    using assms(1) nv by (simp add: readPhysicalPage_def Let_def smram_access_def cross_page_def mem_read_def area_read_byte_def rom_byte_def split: option.split)
  have low: "?a < mem_len m \<and> \<not> is_bios ?a" if "?a < 0x00100000"
    using that assms(2) unfolding is_bios_def word_less_nat_alt word_le_nat_alt by simp
  have nv': "?a < 0x000a0000 \<or> ?a \<ge> 0x000c0000" using nv unfolding vga_range_def by auto
  show ?thesis
  proof (cases "0x000c0000 \<le> ?a \<and> ?a < 0x00100000")
    case True
    then have "\<not> plain_ram ?a" unfolding plain_ram_def word_less_nat_alt word_le_nat_alt by simp
    then show ?thesis using True hp r low rom_area [of ?a] nv
      by (auto simp: host_read_ptr_def mem_read_def Let_def area_read_byte_def rom_ptr_def rom_byte_def ptr_read_def read_bytes_def not_less split: if_splits)
  next
    case False
    then have "plain_ram ?a" using nv' unfolding plain_ram_def word_less_nat_alt word_le_nat_alt by auto
    then show ?thesis using False hp r nv assms(3)
      by (auto simp: host_read_ptr_def mem_read_def Let_def plain_ram_def ptr_read_def read_bytes_def split: if_splits)
  qed
qed


text \<open>
  Host pointers write like physical writes. Where no handler is registered, a pointer handed
  out for writing names the RAM of the address itself, and storing through it leaves RAM as
  \<open>writePhysicalPage\<close> would.
\<close>

theorem host_write_agrees:
  assumes "memory_handlers m (unat (drop_bit 20 (A20ADDR addr m))) = []" "A20ADDR addr m < 0x100000000"
    "getHostMemAddr None addr BX_WRITE m = Some hp" "data \<noteq> []" "length data < 2 ^ 32"
  shows "\<exists>m'. writePhysicalPage opc cpu addr data m = Inr m' \<and> vector m' = vector (ptr_write hp data m)"
proof -
  let ?a = "A20ADDR addr m"
  have hp: "host_write_ptr ?a m = Some hp"
    using assms(1,3) unfolding getHostMemAddr_def Let_def is_write_def by (simp split: if_splits)
  then have a: "hp = Ram ?a" "?a < mem_len m" "\<not> is_bios ?a" "\<not> vga_range ?a" "?a < 0x000c0000 \<or> ?a \<ge> 0x00100000"
    by (auto simp: host_write_ptr_def not_le split: if_splits)
  then have "plain_ram ?a" unfolding plain_ram_def vga_range_def by auto
  then obtain n where "writePhysicalPage opc cpu addr data m = Inr (n\<lparr>vector := write_bytes ?a data (vector m)\<rparr>)"
    using plain_write [OF assms(4,5,2) _ a(2,3) assms(1)] by metis
  with a(1) show ?thesis by (simp add: ptr_write_def)
qed

subsection \<open>Handlers\<close>

lemma add_handler_Some:
  "add_handler h i m = Some m' \<Longrightarrow>
     \<exists>bm. m' = m\<lparr>memory_handlers := (memory_handlers m)(i := h\<lparr>bitmap := bm\<rparr> # memory_handlers m i)\<rparr>"
  by (auto simp: add_handler_def Let_def split: list.splits if_splits)

lemma add_handlers_True:
  assumes "add_handlers h is m = (m', True)" "distinct is"
  shows "\<exists>bm. m' = m\<lparr>memory_handlers := (\<lambda>i. if i \<in> set is then h\<lparr>bitmap := bm i\<rparr> # memory_handlers m i else memory_handlers m i)\<rparr>"
  using assms
proof (induction "is" arbitrary: m)
  case Nil
  then show ?case by simp
next
  case (Cons i "is")
  then obtain m1 where m1: "add_handler h i m = Some m1" "add_handlers h is m1 = (m', True)"
    by (auto split: option.splits)
  obtain b where b: "m1 = m\<lparr>memory_handlers := (memory_handlers m)(i := h\<lparr>bitmap := b\<rparr> # memory_handlers m i)\<rparr>"
    using add_handler_Some [OF m1(1)] by blast
  obtain bm where "m' = m1\<lparr>memory_handlers := (\<lambda>j. if j \<in> set is then h\<lparr>bitmap := bm j\<rparr> # memory_handlers m1 j else memory_handlers m1 j)\<rparr>"
    using Cons.IH [OF m1(2)] Cons.prems(2) by auto
  then have "m' = m\<lparr>memory_handlers := (\<lambda>j. if j \<in> set (i # is) then h\<lparr>bitmap := (bm(i := b)) j\<rparr> # memory_handlers m j else memory_handlers m j)\<rparr>"
    using b Cons.prems(2) by (auto intro!: bx_mem.equality ext)
  then show ?case by blast
qed

lemma page_indices_mem:
  assumes "b \<le> a" "a \<le> e" "e < 2 ^ 52"
  shows "unat (drop_bit 20 a) \<in> set (page_indices b e)"
proof -
  have u: "unat (ucast (drop_bit 20 x) :: Bit32u) = unat x div 2 ^ 20" if "x \<le> e" for x :: bx_phy_address
  proof -
    have "unat x < 2 ^ 52" using that assms(3) by (simp add: word_less_nat_alt word_le_nat_alt)
    then have "unat x div 2 ^ 20 < 2 ^ 32" by (simp add: less_mult_imp_div_less)
    then show ?thesis by (simp add: unsigned_ucast_eq take_bit_eq_mod unat_drop_bit_eq drop_bit_eq_div [of 20 "unat x"])
  qed
  have "unat b div 2 ^ 20 \<le> unat a div 2 ^ 20" "unat a div 2 ^ 20 \<le> unat e div 2 ^ 20"
    using assms by (simp_all add: div_le_mono word_le_nat_alt)
  moreover have "unat (drop_bit 20 a) = unat a div 2 ^ 20" by (simp add: unat_drop_bit_eq drop_bit_eq_div [of 20 "unat a"])
  ultimately show ?thesis using u [of b] u [of e] order_trans [OF assms(1,2)] by (auto simp: page_indices_def less_Suc_eq_le)
qed


definition new_handler ::
    "nat \<Rightarrow> 'd read_handler \<Rightarrow> 'd write_handler option \<Rightarrow> (bx_phy_address \<Rightarrow> mem_rw \<Rightarrow> host_ptr option) option \<Rightarrow>
     bx_phy_address \<Rightarrow> bx_phy_address \<Rightarrow> Bit16u \<Rightarrow> 'd memory_handler_struct" where
  "new_handler prm f wr da b e bm = \<lparr>h_param = prm, h_begin = b, h_end = e, bitmap = bm, read_handler = f,
     write_handler = wr, da_handler = da\<rparr>"

definition with_handlers :: "nat set \<Rightarrow> (nat \<Rightarrow> 'd memory_handler_struct) \<Rightarrow> 'd bx_mem \<Rightarrow> 'd bx_mem" where
  "with_handlers S h m = m\<lparr>memory_handlers := (\<lambda>i. if i \<in> S then h i # memory_handlers m i else memory_handlers m i)\<rparr>"

lemma new_handler_sel [simp]:
  "h_param (new_handler prm f wr da b e bm) = prm" "h_begin (new_handler prm f wr da b e bm) = b"
  "h_end (new_handler prm f wr da b e bm) = e" "read_handler (new_handler prm f wr da b e bm) = f"
  "write_handler (new_handler prm f wr da b e bm) = wr"
  "(new_handler prm f wr da b e bm)\<lparr>bitmap := bm'\<rparr> = new_handler prm f wr da b e bm'"
  by (simp_all add: new_handler_def)

lemma with_handlers_fields [simp]:
  "A20ADDR addr (with_handlers S h m) = A20ADDR addr m" "devs (with_handlers S h m) = devs m"
  "a20_mask (with_handlers S h m) = a20_mask m"
  "smram_available (with_handlers S h m) = smram_available m" "vector (with_handlers S h m) = vector m"
  "i \<in> S \<Longrightarrow> memory_handlers (with_handlers S h m) i = h i # memory_handlers m i"
  "i \<notin> S \<Longrightarrow> memory_handlers (with_handlers S h m) i = memory_handlers m i"
  by (simp_all add: with_handlers_def A20ADDR_def)

lemma with_handlers_remove:
  "i \<notin> S \<Longrightarrow> (with_handlers (insert i S) h m)\<lparr>memory_handlers :=
     (memory_handlers (with_handlers (insert i S) h m))(i := memory_handlers m i)\<rparr> = with_handlers S h m"
  unfolding with_handlers_def by (auto intro!: bx_mem.equality)

lemma registered_handlers:
  assumes "registerMemoryHandlers prm (Some f) wr da b e m = (m', True)"
  obtains bm where "m' = with_handlers (set (page_indices b e)) (\<lambda>i. new_handler prm f wr da b e (bm i)) m"
proof -
  have h: "add_handlers (new_handler prm f wr da b e 0xffff) (page_indices b e) m = (m', True)"
    using assms by (auto simp: registerMemoryHandlers_def new_handler_def split: if_splits)
  have "distinct (page_indices b e)" by (simp add: page_indices_def)
  from add_handlers_True [OF h this] that show ?thesis
    unfolding new_handler_sel with_handlers_def by blast
qed

text \<open>
  Dispatch to a registered handler. After a successful registration of a device's handlers
  for a range, a read of an address in the range calls that device first, and a write likewise
  when it gave a write handler; when the device takes the access, RAM is not touched.
\<close>

theorem registered_handler_called:
  assumes "registerMemoryHandlers prm (Some f) (Some g) da b e m = (m', True)" "e < 2 ^ 52"
    "b \<le> A20ADDR addr m" "A20ADDR addr m \<le> e" "\<not> smram_available m"
    "f (A20ADDR addr m) (length old) (devs m) = (d, Some bs)"
    "g (A20ADDR addr m) data (devs m) = (d', True)" "data \<noteq> []" "length data < 2 ^ 32" "A20ADDR addr m < 0x100000000"
  shows "snd (readPhysicalPage cpu addr old m') = bs \<and> devs (fst (readPhysicalPage cpu addr old m')) = d \<and>
    (\<exists>t. writePhysicalPage opc cpu addr data m' = Inr t \<and> devs t = d' \<and> vector t = vector m)"
proof -
  let ?a = "A20ADDR addr m"
  obtain bm where m': "m' = with_handlers (set (page_indices b e)) (\<lambda>i. new_handler prm f (Some g) da b e (bm i)) m"
    using registered_handlers [OF assms(1)] by blast
  have i: "unat (drop_bit 20 ?a) \<in> set (page_indices b e)" by (rule page_indices_mem [OF assms(3,4,2)])
  have ns: "\<not> smram_access cpu ?a n" if "smram_available n = smram_available m" for n :: "'a bx_mem"
    using that assms(5) by (simp add: smram_access_def split: option.split)
  have "A20ADDR addr (cross_page addr (length old) m') = ?a" "devs (cross_page addr (length old) m') = devs m"
    "smram_available (cross_page addr (length old) m') = smram_available m"
    "memory_handlers (cross_page addr (length old) m') = memory_handlers m'"
    using m' by (simp_all add: cross_page_def A20ADDR_def)
  then have rd: "readPhysicalPage cpu addr old m' = ((cross_page addr (length old) m')\<lparr>devs := d\<rparr>, bs)"
    using i assms(3,4,6) m' ns [of "cross_page addr (length old) m'"] by (simp add: readPhysicalPage_def Let_def)
  let ?p = "write_prelude addr (length data) m'"
  have p: "smram_available ?p = smram_available m" "devs ?p = devs m" using m'
    by (simp_all add: write_prelude_def check_monitor_def cross_page_def mark_dirty_def)
  have "A20ADDR addr m' < 0x100000000" using assms(10) m' by simp
  note w = writePhysicalPage_low [OF assms(8,9) this, of opc cpu]
  have "writePhysicalPage opc cpu addr data m' = Inr (?p\<lparr>devs := d'\<rparr>)"
    using w ns [OF p(1)] i assms(3,4,7) p(2) m' by simp
  then show ?thesis using rd m' by simp
qed

lemma unregister_fold:
  assumes "\<And>i. h_param (h i) = prm" "distinct is"
  shows "fold (\<lambda>i (m, ret). let (hs, ok) = remove_handler prm b e (handler_bitmap b e (of_nat i)) (memory_handlers m i)
          in (m\<lparr>memory_handlers := (memory_handlers m)(i := hs)\<rparr>, ret \<and> ok)) is (with_handlers (set is) h m, True) = (m, True)"
  using assms(2)
proof (induction "is")
  case Nil
  show ?case by (simp add: with_handlers_def)
next
  case (Cons i "is")
  then show ?case
    using with_handlers_remove [of i "set is" h m] assms(1) by (simp del: fun_upd_apply)
qed

text \<open>
  Unregistering undoes registering. After a successful registration, unregistering the same
  range reports success and leaves every list of handlers as it was.
\<close>

theorem register_unregister:
  assumes "registerMemoryHandlers prm (Some f) wr da b e m = (m', True)"
  shows "unregisterMemoryHandlers prm b e m' = (m, True)"
proof -
  obtain bm where "m' = with_handlers (set (page_indices b e)) (\<lambda>i. new_handler prm f wr da b e (bm i)) m"
    using registered_handlers [OF assms] by blast
  then show ?thesis
    using unregister_fold [of "\<lambda>i. new_handler prm f wr da b e (bm i)" prm "page_indices b e"]
    by (simp add: unregisterMemoryHandlers_def) (simp add: page_indices_def)
qed


subsection \<open>Witnesses\<close>

text \<open>32M of zeroes with the A20 gate open, and the instruction cache of the cached trace at 0x1080.\<close>

definition wit_mem :: "nat bx_mem" where
  "wit_mem = \<lparr>vector = (\<lambda>_. 0), rom = (\<lambda>_. 0), bogus = (\<lambda>_. 0xff), mem_len = 0x2000000, pci_enabled = True,
     bios_write_enabled = False, smram_available = False, smram_enable = False, smram_restricted = False,
     memory_type = (\<lambda>_ _. False), memory_handlers = (\<lambda>_. []), devs = 0, dev_copy_in = (\<lambda>_ _ d. d),
     dev_copy_out = (\<lambda>_ n _. replicate n 0), a20_mask = - 1, dirty_bits_l1 = (\<lambda>_. 0), dirty_bits_l2 = (\<lambda>_. 0),
     stamps = wit_stamps, code_cache = wit_icache, stop_trace = False, mon_addr = 0, mon_armed = False, mwait = False,
     host_after = (\<lambda>_. 0), mem_panics = 0\<rparr>"

lemma wit_mem_fields [simp]:
  "A20ADDR a wit_mem = a" "mem_len wit_mem = 0x2000000" "memory_handlers wit_mem i = []" "\<not> bios_write_enabled wit_mem"
  "\<not> mon_armed wit_mem" "\<not> smram_available wit_mem" "bogus wit_mem = (\<lambda>_. 0xff)" "devs wit_mem = 0" "vector wit_mem x = 0"
  "stamps wit_mem = wit_stamps" "code_cache wit_mem = wit_icache" "pci_enabled wit_mem" "\<not> memory_type wit_mem k w"
  "dirty_bits_l1 wit_mem = (\<lambda>_. 0)" "dirty_bits_l2 wit_mem = (\<lambda>_. 0)"
  by (simp_all add: wit_mem_def A20ADDR_def)

lemma wit_plain: "plain_ram 0x1082" "\<not> is_bios 0x1082"
  by (simp_all add: plain_ram_def is_bios_def)


theorem dirty_tracks_first_page_witness:
  "set_dirty 0x1ffe 8 wit_mem = Inr (mark_dirty 0x1ffe wit_mem) \<and> \<not> dirty 0x2000 (mark_dirty 0x1ffe wit_mem) \<and>
   writePhysicalPage 0 None 0x100000000 [1] wit_mem = Inl High_write"
proof -
  have "\<not> dirty 0x2000 (mark_dirty 0x1ffe wit_mem)"
    by (simp add: dirty_def mark_dirty_def)
  then show ?thesis
    using dirty_tracks_first_page [of "replicate 8 0" "0x1ffe" wit_mem] dirty_tracks_first_page [of "[1]" "0x100000000" wit_mem 0 None]
    by simp
qed

theorem read_after_write_witness:
  "\<exists>m'. writePhysicalPage 0 (Some False) 0x1082 [1, 2, 3] wit_mem = Inr m' \<and>
     snd (readPhysicalPage None 0x1082 [0, 0, 0] m') = [1, 2, 3]"
  using read_after_write [of "[1, 2, 3]" "0x1082" wit_mem "[0, 0, 0]" 0 "Some False" None] wit_plain by auto

theorem dma_write_untracked_witness:
  "\<exists>m'. dmaWritePhysicalPage 0 0x1082 [1, 2] wit_mem = Inr m' \<and> \<not> dirty 0x1082 m' \<and> read_bytes 0x1082 2 (vector m') = [1, 2]"
proof -
  have "length [1, 2 :: Bit8u] = 2" by simp
  then show ?thesis using dma_write_untracked [of "[1, 2]" "0x1082" wit_mem 0] wit_plain by (auto simp: dirty_def simp del: list.size)
qed


theorem host_read_agrees_witness:
  "ptr_read (Rom 0x1f0010) 1 wit_mem = snd (readPhysicalPage (Some False) 0xf0010 [9] wit_mem)"
proof -
  have "getHostMemAddr (Some False) 0xf0010 BX_READ wit_mem = Some (Rom 0x1f0010)"
    by (simp add: getHostMemAddr_def Let_def is_write_def host_read_ptr_def vga_range_def rom_ptr_def BIOS_MAP_LAST128K_def)
  then show ?thesis by (intro host_read_agrees) simp_all
qed

theorem host_write_agrees_witness:
  "\<exists>m'. writePhysicalPage 0 None 0x1082 [1, 2] wit_mem = Inr m' \<and> vector m' = vector (ptr_write (Ram 0x1082) [1, 2] wit_mem)"
proof -
  have "getHostMemAddr None 0x1082 BX_WRITE wit_mem = Some (Ram 0x1082)"
    by (simp add: getHostMemAddr_def Let_def is_write_def host_write_ptr_def vga_range_def is_monitor_def is_bios_def)
  then show ?thesis using host_write_agrees [of wit_mem "0x1082" "Ram 0x1082" "[1, 2]" 0 None] by simp
qed

definition wit_read :: "nat read_handler" where "wit_read a n d = (d + 1, Some (replicate n 7))"
definition wit_write :: "nat write_handler" where "wit_write a bs d = (d + 10, True)"

lemma wit_register:
  "registerMemoryHandlers 1 (Some wit_read) (Some wit_write) None 0xfee00000 0xfee00fff wit_mem =
     (fst (registerMemoryHandlers 1 (Some wit_read) (Some wit_write) None 0xfee00000 0xfee00fff wit_mem), True)"
proof -
  have "page_indices 0xfee00000 0xfee00fff = [0xfee]" by code_simp
  then show ?thesis by (simp add: registerMemoryHandlers_def add_handler_def Let_def)
qed

theorem registered_handler_called_witness:
  "snd (readPhysicalPage (Some False) 0xfee00020 [0, 0]
      (fst (registerMemoryHandlers 1 (Some wit_read) (Some wit_write) None 0xfee00000 0xfee00fff wit_mem))) = [7, 7]"
proof -
  have "wit_read 0xfee00020 (length [0, 0 :: Bit8u]) 0 = (1, Some [7, 7])" "wit_write 0xfee00020 [1] 0 = (10, True)"
    by (simp_all add: wit_read_def wit_write_def numeral_2_eq_2)
  then show ?thesis
    using registered_handler_called [OF wit_register, of "0xfee00020" "[0, 0]" 1 "[7, 7]" "[1]" 10 "Some False"] by simp
qed

theorem register_unregister_witness:
  "unregisterMemoryHandlers 1 0xfee00000 0xfee00fff
     (fst (registerMemoryHandlers 1 (Some wit_read) (Some wit_write) None 0xfee00000 0xfee00fff wit_mem)) = (wit_mem, True)"
  by (rule register_unregister [OF wit_register])

end
