(* ===== verification/Lapic.thy ===== *)
theory Lapic
  imports Cpu PcSystem
begin

text \<open>
  The local APIC, \<^verbatim>\<open>bochs/cpu/apic.cc\<close>, on the processor record that holds it, paired with the clock
  where its timers are involved. There is one local APIC on the bus. End-of-interrupt messages to
  the I/O APIC and start-up messages to the processor are recorded in order. What the
  configured processor model supports and the width of APIC identifiers are the record \<open>lapic_conf\<close>. A
  \<open>BX_PANIC\<close> that returns is \<open>None\<close>; \<open>BX_ASSERT\<close> has no effect on the state.
\<close>

record lapic_conf =
  isa_xapic_ext :: bool
  isa_tsc_deadline :: bool
  apic_id_mask :: Bit32u

type_synonym lapic_state = "BX_CPU_C \<times> pc_system"

abbreviation upd_lapic :: "(bx_local_apic_c \<Rightarrow> bx_local_apic_c) \<Rightarrow> BX_CPU_C \<Rightarrow> BX_CPU_C" where
  "upd_lapic f cpu \<equiv> cpu\<lparr>lapic := f (lapic cpu)\<rparr>"

abbreviation upd_events :: "(bx_events \<Rightarrow> bx_events) \<Rightarrow> BX_CPU_C \<Rightarrow> BX_CPU_C" where
  "upd_events f cpu \<equiv> cpu\<lparr>events := f (events cpu)\<rparr>"

abbreviation (input) "BX_EVENT_NMI \<equiv> (0x1 :: Bit32u)"
abbreviation (input) "BX_EVENT_SMI \<equiv> (0x2 :: Bit32u)"
abbreviation (input) "BX_EVENT_INIT \<equiv> (0x4 :: Bit32u)"
abbreviation (input) "BX_EVENT_VMX_PREEMPTION_TIMER_EXPIRED \<equiv> (0x20 :: Bit32u)"

abbreviation (input) "APIC_ERR_ILLEGAL_ADDR \<equiv> (0x80 :: Bit32u)"
abbreviation (input) "APIC_ERR_RX_ILLEGAL_VEC \<equiv> (0x40 :: Bit32u)"
abbreviation (input) "APIC_ERR_TX_ACCEPT_ERR \<equiv> (0x04 :: Bit32u)"

abbreviation (input) "APIC_DM_FIXED \<equiv> (0 :: Bit8u)"
abbreviation (input) "APIC_DM_LOWPRI \<equiv> (1 :: Bit8u)"
abbreviation (input) "APIC_DM_SMI \<equiv> (2 :: Bit8u)"
abbreviation (input) "APIC_DM_NMI \<equiv> (4 :: Bit8u)"
abbreviation (input) "APIC_DM_INIT \<equiv> (5 :: Bit8u)"
abbreviation (input) "APIC_DM_SIPI \<equiv> (6 :: Bit8u)"
abbreviation (input) "APIC_DM_EXTINT \<equiv> (7 :: Bit8u)"

abbreviation (input) "BX_APIC_XAPIC_MODE \<equiv> (2 :: nat)"
abbreviation (input) "BX_APIC_X2APIC_MODE \<equiv> (3 :: nat)"

definition lapic_error :: "Bit32u \<Rightarrow> BX_CPU_C \<Rightarrow> BX_CPU_C" where
  "lapic_error e cpu = upd_lapic (\<lambda>la. la\<lparr>shadow_error_status := shadow_error_status la OR e\<rparr>) cpu"

subsection \<open>Reset and base address\<close>

definition stop_timer :: "lapic_state \<Rightarrow> lapic_state" where
  "stop_timer st = (case st of (cpu, pc) \<Rightarrow>
     if timer_active (lapic cpu)
     then (upd_lapic (\<lambda>la. la\<lparr>timer_active := False\<rparr>) cpu, deactivate_timer (timer_handle (lapic cpu)) pc)
     else (cpu, pc))"

definition deactivate_vmx_preemption_timer :: "lapic_state \<Rightarrow> lapic_state" where
  "deactivate_vmx_preemption_timer st = (case st of (cpu, pc) \<Rightarrow>
     if \<not> vmx_timer_active (lapic cpu) then (cpu, pc)
     else (upd_lapic (\<lambda>la. la\<lparr>vmx_timer_active := False\<rparr>) cpu, deactivate_timer (vmx_timer_handle (lapic cpu)) pc))"

definition deactivate_mwaitx_timer :: "lapic_state \<Rightarrow> lapic_state" where
  "deactivate_mwaitx_timer st = (case st of (cpu, pc) \<Rightarrow>
     if \<not> mwaitx_timer_active (lapic cpu) then (cpu, pc)
     else (upd_lapic (\<lambda>la. la\<lparr>mwaitx_timer_active := False\<rparr>) cpu, deactivate_timer (mwaitx_timer_handle (lapic cpu)) pc))"

definition lapic_reset :: "lapic_state \<Rightarrow> lapic_state" where
  "lapic_reset st =
     (let (cpu, pc) = deactivate_mwaitx_timer (deactivate_vmx_preemption_timer (stop_timer st))
      in (upd_lapic (\<lambda>la. la\<lparr>lapic_base := 0xfee00000, error_status := 0, shadow_error_status := 0, lapic_ldr := 0,
            dest_format := 0xf, icr_hi := 0, icr_lo := 0, task_priority := 0, irr_apic := (\<lambda>_. 0), isr_apic := (\<lambda>_. 0),
            tmr_apic := (\<lambda>_. 0), ier_apic := (\<lambda>_. 1), timer_divconf := 0, timer_divide_factor := 1, timer_initial := 0,
            timer_current := 0, ticksInitial := 0, lvt := (\<lambda>_. 0x10000), spurious_vector := 0xff, software_enabled := False,
            focus_disable := False, lapic_mode := BX_APIC_XAPIC_MODE,
            apic_version_id := (if xapic la then 0x00050014 else 0x00030010), xapic_ext := 0\<rparr>) cpu, pc))"

definition enable_xapic_extensions :: "BX_CPU_C \<Rightarrow> BX_CPU_C" where
  "enable_xapic_extensions cpu = upd_lapic (\<lambda>la. la\<lparr>apic_version_id := apic_version_id la OR 0x80000000, xapic_ext := 3\<rparr>) cpu"

definition set_base :: "bx_phy_address \<Rightarrow> BX_CPU_C \<Rightarrow> BX_CPU_C" where
  "set_base newbase cpu = upd_lapic (\<lambda>la. la\<lparr>
     lapic_ldr := (if lapic_mode la = BX_APIC_X2APIC_MODE
                   then push_bit 16 (apic_id la AND 0xfffffff0) OR push_bit (unat (apic_id la AND 0xf)) 1 else lapic_ldr la),
     lapic_mode := unat (drop_bit 10 newbase AND 3), lapic_base := newbase AND NOT 0xfff\<rparr>) cpu"

definition is_selected :: "bx_phy_address \<Rightarrow> bx_local_apic_c \<Rightarrow> bool" where
  "is_selected addr la \<longleftrightarrow> lapic_mode la = BX_APIC_XAPIC_MODE \<and> addr AND NOT 0xfff = lapic_base la"

subsection \<open>Priorities\<close>

definition get_ppr :: "bx_local_apic_c \<Rightarrow> Bit8u" where
  "get_ppr la = (case highest_priority_int (isr_apic la) la of
       None \<Rightarrow> ucast (task_priority la)
     | Some v \<Rightarrow> if task_priority la AND 0xF0 \<ge> of_nat v AND 0xF0 then ucast (task_priority la)
                 else ucast (of_nat v AND 0xF0 :: Bit32u))"

definition get_apr :: "bx_local_apic_c \<Rightarrow> Bit8u" where
  "get_apr la =
     (let tpr = drop_bit 4 (task_priority la) AND 0xf;
          first_isr = (case highest_priority_int (isr_apic la) la of None \<Rightarrow> 0 | Some v \<Rightarrow> v);
          first_irr = (case highest_priority_int (irr_apic la) la of None \<Rightarrow> 0 | Some v \<Rightarrow> v);
          isrv = drop_bit 4 (of_nat first_isr) AND 0xf :: Bit32u;
          irrv = drop_bit 4 (of_nat first_irr) AND 0xf :: Bit32u
      in if tpr \<ge> irrv \<and> tpr > isrv then ucast (task_priority la AND 0xff)
         else push_bit 4 (ucast (if tpr AND isrv > irrv then tpr AND isrv else irrv)))"

definition is_focus :: "Bit8u \<Rightarrow> bx_local_apic_c \<Rightarrow> bool" where
  "is_focus vector la \<longleftrightarrow> \<not> focus_disable la \<and> (irr_apic la (unat vector) \<noteq> 0 \<or> isr_apic la (unat vector) \<noteq> 0)"

definition match_logical_addr :: "Bit32u \<Rightarrow> bx_local_apic_c \<Rightarrow> bool" where
  "match_logical_addr address la \<longleftrightarrow>
     (if lapic_mode la = BX_APIC_X2APIC_MODE
      then address = 0xffffffff \<or>
           (address AND 0xffff0000 = lapic_ldr la AND 0xffff0000 \<and> address AND lapic_ldr la AND 0x0000ffff \<noteq> 0)
      else if dest_format la = 0xf then address AND lapic_ldr la \<noteq> 0
      else if dest_format la = 0
      then address = 0xff \<or> (address AND 0xf0 = lapic_ldr la AND 0xf0 \<and> address AND lapic_ldr la AND 0x0f \<noteq> 0)
      else False)"

subsection \<open>Requests and acknowledge\<close>

definition trigger_irq :: "Bit8u \<Rightarrow> Bit8u \<Rightarrow> bool \<Rightarrow> BX_CPU_C \<Rightarrow> BX_CPU_C" where
  "trigger_irq vector trigger_mode bypass_irr_isr cpu =
     (if vector < 0x10 then lapic_error APIC_ERR_RX_ILLEGAL_VEC cpu
      else if \<not> bypass_irr_isr \<and> irr_apic (lapic cpu) (unat vector) \<noteq> 0 then cpu
      else service_local_apic (upd_lapic (\<lambda>la. la\<lparr>irr_apic := (irr_apic la)(unat vector := 1),
             tmr_apic := (tmr_apic la)(unat vector := trigger_mode)\<rparr>) cpu))"

definition untrigger_irq :: "Bit8u \<Rightarrow> BX_CPU_C \<Rightarrow> BX_CPU_C" where
  "untrigger_irq vector cpu = upd_lapic (\<lambda>la. la\<lparr>irr_apic := (irr_apic la)(unat vector := 0)\<rparr>) cpu"

definition acknowledge_int :: "BX_CPU_C \<Rightarrow> BX_CPU_C \<times> Bit8u" where
  "acknowledge_int cpu =
     (let spurious = (upd_events (clear_event BX_EVENT_PENDING_LAPIC_INTR) cpu, spurious_vector (lapic cpu))
      in case highest_priority_int (irr_apic (lapic cpu)) (lapic cpu) of
           None \<Rightarrow> spurious
         | Some vector \<Rightarrow>
             if of_nat vector AND 0xf0 \<le> (ucast (get_ppr (lapic cpu)) :: Bit32u) then spurious
             else (service_local_apic (upd_events (clear_event BX_EVENT_PENDING_LAPIC_INTR)
                     (upd_lapic (\<lambda>la. la\<lparr>irr_apic := (irr_apic la)(vector := 0), isr_apic := (isr_apic la)(vector := 1)\<rparr>) cpu)),
                   of_nat vector))"

text \<open>The end of an interrupt in service; a level triggered one is announced on the bus.\<close>

definition end_interrupt :: "nat \<Rightarrow> BX_CPU_C \<Rightarrow> BX_CPU_C" where
  "end_interrupt vec cpu =
     (let cpu1 = upd_lapic (\<lambda>la. la\<lparr>isr_apic := (isr_apic la)(vec := 0)\<rparr>) cpu;
          cpu2 = (if tmr_apic (lapic cpu1) vec \<noteq> 0
                  then upd_lapic (\<lambda>la. la\<lparr>bus_eois := bus_eois la @ [vec], tmr_apic := (tmr_apic la)(vec := 0)\<rparr>) cpu1 else cpu1)
      in service_local_apic cpu2)"

definition receive_EOI :: "BX_CPU_C \<Rightarrow> BX_CPU_C" where
  "receive_EOI cpu = (case highest_priority_int (isr_apic (lapic cpu)) (lapic cpu) of
       None \<Rightarrow> cpu
     | Some vec \<Rightarrow> if vec \<noteq> unat (spurious_vector (lapic cpu)) then end_interrupt vec cpu else cpu)"

definition receive_SEOI :: "Bit8u \<Rightarrow> BX_CPU_C \<Rightarrow> BX_CPU_C" where
  "receive_SEOI vec cpu =
     (if xapic_ext (lapic cpu) AND 2 = 0 then cpu
      else if isr_apic (lapic cpu) (unat vec) \<noteq> 0 then end_interrupt (unat vec) cpu else cpu)"

subsection \<open>The bus\<close>

definition deliver_INIT :: "BX_CPU_C \<Rightarrow> BX_CPU_C" where
  "deliver_INIT cpu = (if \<not> is_masked_event BX_EVENT_INIT (events cpu) then upd_events (signal_event BX_EVENT_INIT) cpu else cpu)"

definition deliver :: "Bit8u \<Rightarrow> Bit8u \<Rightarrow> Bit8u \<Rightarrow> BX_CPU_C \<Rightarrow> BX_CPU_C \<times> bool" where
  "deliver vector delivery_mode trig_mode cpu =
     (if delivery_mode = APIC_DM_FIXED \<or> delivery_mode = APIC_DM_LOWPRI then (trigger_irq vector trig_mode False cpu, True)
      else if delivery_mode = APIC_DM_SMI then (upd_events (signal_event BX_EVENT_SMI) cpu, True)
      else if delivery_mode = APIC_DM_NMI then (upd_events (signal_event BX_EVENT_NMI) cpu, True)
      else if delivery_mode = APIC_DM_INIT then (deliver_INIT cpu, True)
      else if delivery_mode = APIC_DM_SIPI then (upd_lapic (\<lambda>la. la\<lparr>startup_msgs := startup_msgs la @ [vector]\<rparr>) cpu, True)
      else if delivery_mode = APIC_DM_EXTINT then (trigger_irq vector trig_mode True cpu, True)
      else (cpu, False))"

definition apic_bus_deliver_lowest_priority :: "Bit8u \<Rightarrow> Bit32u \<Rightarrow> Bit8u \<Rightarrow> bool \<Rightarrow> BX_CPU_C \<Rightarrow> BX_CPU_C \<times> bool" where
  "apic_bus_deliver_lowest_priority vector dest trig_mode broadcast cpu =
     (let la = lapic cpu; priority = (if xapic la then ucast (task_priority la) else get_apr la) :: Bit8u
      in if \<not> xapic la \<and> is_focus vector la then (fst (deliver vector APIC_DM_LOWPRI trig_mode cpu), True)
         else if (broadcast \<or> match_logical_addr dest la) \<and> unat priority < 0x100
         then (fst (deliver vector APIC_DM_LOWPRI trig_mode cpu), True)
         else (cpu, False))"

definition apic_bus_broadcast_interrupt :: "Bit8u \<Rightarrow> Bit8u \<Rightarrow> Bit8u \<Rightarrow> Bit32u \<Rightarrow> BX_CPU_C \<Rightarrow> BX_CPU_C \<times> bool" where
  "apic_bus_broadcast_interrupt vector delivery_mode trig_mode exclude_cpu cpu =
     (if delivery_mode = APIC_DM_LOWPRI then apic_bus_deliver_lowest_priority vector 0 trig_mode True cpu
      else (if exclude_cpu = 0 then cpu else fst (deliver vector delivery_mode trig_mode cpu), True))"

definition apic_bus_deliver_interrupt ::
    "lapic_conf \<Rightarrow> Bit8u \<Rightarrow> Bit32u \<Rightarrow> Bit8u \<Rightarrow> bool \<Rightarrow> Bit8u \<Rightarrow> BX_CPU_C \<Rightarrow> BX_CPU_C \<times> bool" where
  "apic_bus_deliver_interrupt conf vector dest delivery_mode logical_dest trig_mode cpu =
     (if delivery_mode = APIC_DM_LOWPRI
      then (if \<not> logical_dest then (cpu, False) else apic_bus_deliver_lowest_priority vector dest trig_mode False cpu)
      else if \<not> logical_dest
      then (if dest AND apic_id_mask conf = apic_id_mask conf
            then apic_bus_broadcast_interrupt vector delivery_mode trig_mode (apic_id_mask conf) cpu
            else if apic_id (lapic cpu) = dest then (fst (deliver vector delivery_mode trig_mode cpu), True)
            else (cpu, False))
      else if dest = 0 then (cpu, False)
      else if match_logical_addr dest (lapic cpu) then (fst (deliver vector delivery_mode trig_mode cpu), True)
      else (cpu, False))"

definition send_ipi :: "lapic_conf \<Rightarrow> Bit32u \<Rightarrow> Bit32u \<Rightarrow> BX_CPU_C \<Rightarrow> BX_CPU_C" where
  "send_ipi conf dest lo_cmd cpu =
     (let dest_shorthand = drop_bit 18 lo_cmd AND 3;
          trig_mode = ucast (drop_bit 15 lo_cmd AND 1) :: Bit8u;
          lev = drop_bit 14 lo_cmd AND 1;
          logical_dest = bit lo_cmd 11;
          delivery_mode = ucast (drop_bit 8 lo_cmd AND 7) :: Bit8u;
          vector = ucast (lo_cmd AND 0xff) :: Bit8u
      in if delivery_mode = APIC_DM_INIT \<and> lev = 0 \<and> trig_mode = 1 then cpu
         else let (cpu1, accepted) =
                (if dest_shorthand = 0 then apic_bus_deliver_interrupt conf vector dest delivery_mode logical_dest trig_mode cpu
                 else if dest_shorthand = 1 then (trigger_irq vector trig_mode False cpu, True)
                 else if dest_shorthand = 2 then apic_bus_broadcast_interrupt vector delivery_mode trig_mode (apic_id_mask conf) cpu
                 else apic_bus_broadcast_interrupt vector delivery_mode trig_mode (apic_id (lapic cpu)) cpu)
              in if accepted then cpu1 else lapic_error APIC_ERR_TX_ACCEPT_ERR cpu1)"

subsection \<open>The timers\<close>

abbreviation (input) "APIC_LVT_TIMER \<equiv> (0 :: nat)"

definition set_divide_configuration :: "Bit32u \<Rightarrow> BX_CPU_C \<Rightarrow> BX_CPU_C" where
  "set_divide_configuration value0 cpu =
     (let value = drop_bit 1 (value0 AND 8) OR (value0 AND 3)
      in upd_lapic (\<lambda>la. la\<lparr>timer_divide_factor := (if value = 7 then 1 else push_bit (unat value) 2)\<rparr>) cpu)"

definition start_timer :: "lapic_state \<Rightarrow> lapic_state" where
  "start_timer st = (case st of (cpu, pc) \<Rightarrow>
     (upd_lapic (\<lambda>la. la\<lparr>timer_current := timer_initial la, timer_active := True, ticksInitial := time_ticks pc\<rparr>) cpu,
      activate_timer_ticks (timer_handle (lapic cpu))
        (ucast (timer_initial (lapic cpu)) * ucast (timer_divide_factor (lapic cpu))) False pc))"

definition set_initial_timer_count :: "Bit32u \<Rightarrow> lapic_state \<Rightarrow> lapic_state" where
  "set_initial_timer_count value st =
     (if lvt (lapic (fst st)) APIC_LVT_TIMER AND 0x40000 \<noteq> 0 then st
      else let (cpu1, pc1) = stop_timer st;
               cpu2 = upd_lapic (\<lambda>la. la\<lparr>timer_initial := value, timer_current := 0\<rparr>) cpu1
           in if timer_initial (lapic cpu2) \<noteq> 0 then start_timer (cpu2, pc1) else (cpu2, pc1))"

definition get_current_timer_count :: "lapic_state \<Rightarrow> lapic_state \<times> Bit32u" where
  "get_current_timer_count st = (case st of (cpu, pc) \<Rightarrow>
     if lvt (lapic cpu) APIC_LVT_TIMER AND 0x40000 \<noteq> 0 then (st, 0)
     else if \<not> timer_active (lapic cpu) then (st, timer_current (lapic cpu))
     else let delta64 = (time_ticks pc - ticksInitial (lapic cpu)) div ucast (timer_divide_factor (lapic cpu));
              delta32 = ucast delta64 :: Bit32u;
              cpu1 = upd_lapic (\<lambda>la. la\<lparr>timer_current := timer_initial la - delta32\<rparr>) cpu
          in ((cpu1, pc), timer_current (lapic cpu1)))"

definition set_tsc_deadline :: "Bit64u \<Rightarrow> lapic_state \<Rightarrow> lapic_state" where
  "set_tsc_deadline deadline st =
     (if lvt (lapic (fst st)) APIC_LVT_TIMER AND 0x40000 = 0 then st
      else let (cpu1, pc1) = stop_timer st;
               cpu2 = upd_lapic (\<lambda>la. la\<lparr>ticksInitial := deadline\<rparr>) cpu1
           in if deadline \<noteq> 0
              then let currtime = time_ticks pc1
                   in (upd_lapic (\<lambda>la. la\<lparr>timer_active := True\<rparr>) cpu2,
                       activate_timer_ticks (timer_handle (lapic cpu2))
                         (if deadline > currtime then deadline - currtime else 1) False pc1)
              else (cpu2, pc1))"

definition get_tsc_deadline :: "bx_local_apic_c \<Rightarrow> Bit64u" where
  "get_tsc_deadline la = (if lvt la APIC_LVT_TIMER AND 0x40000 = 0 then 0 else ticksInitial la)"

text \<open>The callback of the timer, and those of the VMX preemption timer and of the MWAITX timer.\<close>

definition lapic_periodic :: "lapic_state \<Rightarrow> lapic_state" where
  "lapic_periodic st = (case st of (cpu, pc) \<Rightarrow>
     if \<not> timer_active (lapic cpu) then st
     else let timervec = lvt (lapic cpu) APIC_LVT_TIMER;
              cpu1 = (if timervec AND 0x10000 = 0 then trigger_irq (ucast (timervec AND 0xff)) 0 False cpu else cpu)
          in if timervec AND 0x20000 \<noteq> 0 then start_timer (cpu1, pc)
             else (upd_lapic (\<lambda>la. la\<lparr>timer_current := 0, timer_active := False\<rparr>) cpu1,
                   deactivate_timer (timer_handle (lapic cpu1)) pc))"

definition read_vmx_preemption_timer :: "lapic_state \<Rightarrow> Bit32u" where
  "read_vmx_preemption_timer st = (case st of (cpu, pc) \<Rightarrow>
     let la = lapic cpu; rate = vmx_preemption_timer_rate la;
         diff = ucast (drop_bit rate (time_ticks pc) - drop_bit rate (vmx_preemption_timer_initial la)) :: Bit32u
     in if vmx_preemption_timer_value la < diff then 0 else vmx_preemption_timer_value la - diff)"

definition set_vmx_preemption_timer :: "Bit32u \<Rightarrow> lapic_state \<Rightarrow> lapic_state" where
  "set_vmx_preemption_timer value st = (case st of (cpu, pc) \<Rightarrow>
     let rate = vmx_preemption_timer_rate (lapic cpu); initial = time_ticks pc;
         fire = push_bit rate (drop_bit rate initial + ucast value)
     in (upd_lapic (\<lambda>la. la\<lparr>vmx_preemption_timer_value := value, vmx_preemption_timer_initial := initial,
           vmx_preemption_timer_fire := fire, vmx_timer_active := True\<rparr>) cpu,
         activate_timer_ticks (vmx_timer_handle (lapic cpu)) (fire - initial) False pc))"

definition vmx_preemption_timer_expired :: "lapic_state \<Rightarrow> lapic_state" where
  "vmx_preemption_timer_expired st = (case st of (cpu, pc) \<Rightarrow>
     deactivate_vmx_preemption_timer (upd_events (signal_event BX_EVENT_VMX_PREEMPTION_TIMER_EXPIRED) cpu, pc))"

definition set_mwaitx_timer :: "Bit32u \<Rightarrow> lapic_state \<Rightarrow> lapic_state" where
  "set_mwaitx_timer value st = (case st of (cpu, pc) \<Rightarrow>
     (upd_lapic (\<lambda>la. la\<lparr>mwaitx_timer_active := True\<rparr>) cpu,
      activate_timer_ticks (if mwaitx_timer_active (lapic cpu) then 1 else 0) (ucast value) False pc))"

definition wakeup_monitor :: "BX_CPU_C \<Rightarrow> BX_CPU_C" where
  "wakeup_monitor cpu =
     (let cpu1 = (if activity_state (async cpu) = BX_ACTIVITY_STATE_MWAIT \<or> activity_state (async cpu) = BX_ACTIVITY_STATE_MWAIT_IF
                  then cpu\<lparr>async := (async cpu)\<lparr>activity_state := BX_ACTIVITY_STATE_ACTIVE\<rparr>\<rparr> else cpu)
      in cpu1\<lparr>monitor_armed := False\<rparr>)"

definition mwaitx_timer_expired :: "lapic_state \<Rightarrow> lapic_state" where
  "mwaitx_timer_expired st = (case st of (cpu, pc) \<Rightarrow> deactivate_mwaitx_timer (wakeup_monitor cpu, pc))"

subsection \<open>Registers\<close>

definition lvt_mask :: "nat \<Rightarrow> Bit32u" where
  "lvt_mask i = [0x000710ff, 0x000117ff, 0x000117ff, 0x0001f7ff, 0x0001f7ff, 0x000110ff] ! i"

definition set_lvt_entry :: "lapic_conf \<Rightarrow> Bit32u \<Rightarrow> Bit32u \<Rightarrow> lapic_state \<Rightarrow> lapic_state" where
  "set_lvt_entry conf apic_reg value0 st =
     (let lvt_entry = unat (drop_bit 4 (apic_reg - 0x320));
          value = (if apic_reg = 0x320 \<and> \<not> isa_tsc_deadline conf then value0 AND NOT 0x40000 else value0);
          (cpu1, pc1) = (if apic_reg = 0x320 \<and> isa_tsc_deadline conf \<and>
                            (value XOR lvt (lapic (fst st)) lvt_entry) AND 0x40000 \<noteq> 0 then stop_timer st else st);
          entry = value AND lvt_mask lvt_entry
      in (upd_lapic (\<lambda>la. la\<lparr>lvt := (lvt la)(lvt_entry := (if software_enabled la then entry else entry OR 0x10000))\<rparr>) cpu1, pc1))"

definition write_spurious_interrupt_register :: "Bit32u \<Rightarrow> BX_CPU_C \<Rightarrow> BX_CPU_C" where
  "write_spurious_interrupt_register value cpu = upd_lapic (\<lambda>la.
     let en = bit value 8
     in la\<lparr>spurious_vector := (if xapic la then ucast (value AND 0xff) else ucast ((value AND 0xf0) OR 0xf)),
           software_enabled := en, focus_disable := bit value 9,
           lvt := (if \<not> en then (\<lambda>i. if i < 6 then lvt la i OR 0x10000 else lvt la i) else lvt la)\<rparr>) cpu"

text \<open>32 entries of an array of vectors as one register.\<close>

definition vector_register :: "(nat \<Rightarrow> Bit8u) \<Rightarrow> nat \<Rightarrow> Bit32u" where
  "vector_register arr index = fold (\<lambda>i value. if arr (index + i) \<noteq> 0 then value OR push_bit i 1 else value) [0..<32] 0"

definition lapic_register :: "lapic_conf \<Rightarrow> bx_phy_address \<Rightarrow> Bit32u" where
  "lapic_register conf addr =
     (let apic_reg = ucast (addr AND 0xff0)
      in if apic_reg \<ge> 0x400 \<and> \<not> isa_xapic_ext conf then 0xffffffff else apic_reg)"

definition read_aligned :: "lapic_conf \<Rightarrow> bx_phy_address \<Rightarrow> lapic_state \<Rightarrow> lapic_state \<times> Bit32u" where
  "read_aligned conf addr st =
     (let r = lapic_register conf addr; la = lapic (fst st)
      in if r = 0x020 then (st, push_bit 24 (apic_id la))
         else if r = 0x030 then (st, apic_version_id la)
         else if r = 0x080 then (st, task_priority la AND 0xff)
         else if r = 0x090 then (st, ucast (get_apr la))
         else if r = 0x0A0 then (st, ucast (get_ppr la))
         else if r = 0x0B0 then (st, 0)
         else if r = 0x0D0 then (st, push_bit 24 (lapic_ldr la AND apic_id_mask conf))
         else if r = 0x0E0 then (st, push_bit 28 (dest_format la AND 0xf) OR 0x0fffffff)
         else if r = 0x0F0 then (st, ucast (spurious_vector la) OR (if software_enabled la then 0x100 else 0)
                                       OR (if focus_disable la then 0x200 else 0))
         else if 0x100 \<le> r \<and> r \<le> 0x170 then (st, vector_register (isr_apic la) (unat (push_bit 1 (r - 0x100))))
         else if 0x180 \<le> r \<and> r \<le> 0x1F0 then (st, vector_register (tmr_apic la) (unat (push_bit 1 (r - 0x180))))
         else if 0x200 \<le> r \<and> r \<le> 0x270 then (st, vector_register (irr_apic la) (unat (push_bit 1 (r - 0x200))))
         else if r = 0x280 then (st, error_status la)
         else if r = 0x300 then (st, icr_lo la)
         else if r = 0x310 then (st, icr_hi la)
         else if 0x320 \<le> r \<and> r \<le> 0x370 then (st, lvt la (unat (drop_bit 4 (r - 0x320))))
         else if r = 0x380 then (st, timer_initial la)
         else if r = 0x390 then get_current_timer_count st
         else if r = 0x3E0 then (st, timer_divconf la)
         else if r = 0x400 then (st, 3)
         else if r = 0x410 then (st, xapic_ext la)
         else if r = 0x420 then (st, 0)
         else if 0x480 \<le> r \<and> r \<le> 0x4F0 then (st, vector_register (ier_apic la) (unat (push_bit 1 (r - 0x480))))
         else ((lapic_error APIC_ERR_ILLEGAL_ADDR (fst st), snd st), 0))"

abbreviation on_cpu :: "(BX_CPU_C \<Rightarrow> BX_CPU_C) \<Rightarrow> lapic_state \<Rightarrow> lapic_state" where
  "on_cpu f st \<equiv> (f (fst st), snd st)"

definition write_aligned :: "lapic_conf \<Rightarrow> bx_phy_address \<Rightarrow> Bit32u \<Rightarrow> lapic_state \<Rightarrow> lapic_state" where
  "write_aligned conf addr value st =
     (let r = lapic_register conf addr
      in if r = 0x080 then on_cpu (set_tpr (ucast (value AND 0xff))) st
         else if r = 0x0B0 then on_cpu receive_EOI st
         else if r = 0x0D0 then on_cpu (upd_lapic (\<lambda>la. la\<lparr>lapic_ldr := drop_bit 24 value AND apic_id_mask conf\<rparr>)) st
         else if r = 0x0E0 then on_cpu (upd_lapic (\<lambda>la. la\<lparr>dest_format := drop_bit 28 value AND 0xf\<rparr>)) st
         else if r = 0x0F0 then on_cpu (write_spurious_interrupt_register value) st
         else if r = 0x280 then on_cpu (upd_lapic (\<lambda>la. la\<lparr>error_status := shadow_error_status la, shadow_error_status := 0\<rparr>)) st
         else if r = 0x300 then
           (let cpu1 = upd_lapic (\<lambda>la. la\<lparr>icr_lo := value AND NOT (push_bit 12 1)\<rparr>) (fst st)
            in (send_ipi conf (drop_bit 24 (icr_hi (lapic cpu1)) AND 0xff) (icr_lo (lapic cpu1)) cpu1, snd st))
         else if r = 0x310 then on_cpu (upd_lapic (\<lambda>la. la\<lparr>icr_hi := value AND 0xff000000\<rparr>)) st
         else if 0x320 \<le> r \<and> r \<le> 0x370 then set_lvt_entry conf r value st
         else if r = 0x380 then set_initial_timer_count value st
         else if r = 0x3E0 then
           on_cpu (\<lambda>cpu. set_divide_configuration (value AND 0xb) (upd_lapic (\<lambda>la. la\<lparr>timer_divconf := value AND 0xb\<rparr>) cpu)) st
         else if r \<in> {0x020, 0x030, 0x090, 0x0C0, 0x0A0, 0x390, 0x400} \<or> (0x100 \<le> r \<and> r \<le> 0x270) then st
         else if r = 0x410 then on_cpu (upd_lapic (\<lambda>la. la\<lparr>xapic_ext := value AND 3\<rparr>)) st
         else if r = 0x420 then on_cpu (receive_SEOI (ucast (value AND 0xff))) st
         else if 0x480 \<le> r \<and> r \<le> 0x4F0 then
           (if xapic_ext (lapic (fst st)) AND 1 = 0 then st
            else let index = unat (push_bit 1 (r - 0x480))
                 in on_cpu (upd_lapic (\<lambda>la. la\<lparr>ier_apic := fold (\<lambda>i arr. if bit value i then arr(index + i := 1) else arr)
                      [0..<32] (ier_apic la)\<rparr>)) st)
         else on_cpu (lapic_error APIC_ERR_ILLEGAL_ADDR) st)"

text \<open>Bus accesses. Panics that report and return are \<open>None\<close>.\<close>

definition lapic_read :: "lapic_conf \<Rightarrow> bx_phy_address \<Rightarrow> nat \<Rightarrow> lapic_state \<Rightarrow> lapic_state \<times> Bit32u option" where
  "lapic_read conf addr len st =
     (if addr AND NOT 3 \<noteq> (addr + of_nat len - 1) AND NOT 3 then (st, None)
      else let (st1, value) = read_aligned conf (addr AND NOT 3) st; v = drop_bit (unat (addr AND 3) * 8) value
           in (st1, if len = 4 then Some value else if len = 1 then Some (v AND 0xff)
                    else if len = 2 then Some (v AND 0xffff) else None))"

definition lapic_write :: "lapic_conf \<Rightarrow> bx_phy_address \<Rightarrow> Bit32u \<Rightarrow> nat \<Rightarrow> lapic_state \<Rightarrow> lapic_state option" where
  "lapic_write conf addr value len st =
     (if len \<noteq> 4 then None else if addr AND 0xf \<noteq> 0 then None else Some (write_aligned conf addr value st))"

subsection \<open>The x2APIC interface\<close>

definition x2apic_register :: "Bit32u \<Rightarrow> Bit32u" where
  "x2apic_register index = push_bit 4 (index - 0x800)"

text \<open>A read gives no value where the MSR is not readable, a write gives \<open>False\<close> where it is refused.\<close>

definition read_x2apic :: "lapic_conf \<Rightarrow> Bit32u \<Rightarrow> lapic_state \<Rightarrow> lapic_state \<times> Bit64u option" where
  "read_x2apic conf index st =
     (let r = x2apic_register index; la = lapic (fst st)
      in if r = 0x020 then (st, Some (ucast (apic_id la)))
         else if r = 0x0D0 then (st, Some (ucast (lapic_ldr la)))
         else if r = 0x300 then (st, Some (ucast (icr_lo la) OR push_bit 32 (ucast (icr_hi la))))
         else if r \<in> {0x090, 0x0E0, 0x310, 0x0B0, 0x3F0} then (st, None)
         else if r \<in> {0x030, 0x080, 0x0A0, 0x0F0, 0x280, 0x380, 0x390, 0x3E0} \<or> (0x100 \<le> r \<and> r \<le> 0x270) \<or> (0x320 \<le> r \<and> r \<le> 0x370)
         then (let (st1, v) = read_aligned conf (ucast r) st in (st1, Some (ucast v)))
         else (st, None))"

definition write_x2apic :: "lapic_conf \<Rightarrow> Bit32u \<Rightarrow> Bit32u \<Rightarrow> Bit32u \<Rightarrow> lapic_state \<Rightarrow> lapic_state \<times> bool" where
  "write_x2apic conf index val32_hi val32_lo st =
     (let r = x2apic_register index; legacy = (write_aligned conf (ucast r) val32_lo st, True)
      in if r \<noteq> 0x300 \<and> val32_hi \<noteq> 0 then (st, False)
         else if r \<in> {0x020, 0x030, 0x090, 0x0A0, 0x0D0, 0x0E0, 0x310, 0x390} \<or> (0x100 \<le> r \<and> r \<le> 0x270) then (st, False)
         else if r = 0x3F0 then (on_cpu (trigger_irq (ucast (val32_lo AND 0xff)) 0 False) st, True)
         else if r = 0x300 then (on_cpu (send_ipi conf val32_hi val32_lo) st, True)
         else if r = 0x080 then (if val32_lo AND 0xffffff00 \<noteq> 0 then (st, False) else legacy)
         else if r = 0x0F0 then (if val32_lo AND 0xfffffe00 \<noteq> 0 then (st, False) else legacy)
         else if r = 0x0B0 \<or> r = 0x280 then (if val32_lo \<noteq> 0 then (st, False) else legacy)
         else if (0x320 \<le> r \<and> r \<le> 0x370) \<or> r = 0x380 \<or> r = 0x3E0 then legacy
         else (st, False))"

subsection \<open>Construction\<close>

text \<open>The constructor registers three inactive timers, whose callbacks have the numbers given, and resets the unit.\<close>

definition lapic_construct :: "bool \<Rightarrow> nat \<Rightarrow> nat \<Rightarrow> nat \<Rightarrow> Bit32u \<Rightarrow> lapic_state \<Rightarrow> lapic_state option" where
  "lapic_construct simulate_xapic cb_lapic cb_vmx cb_mwaitx iden st =
     (let (pc1, h1) = register_timer_ticks (Some cb_lapic) 0 False False (snd st);
          (pc2, h2) = register_timer_ticks (Some cb_vmx) 0 False False pc1;
          (pc3, h3) = register_timer_ticks (Some cb_mwaitx) 0 False False pc2
      in if iden \<noteq> 0 \<or> h1 < 0 \<or> h2 < 0 \<or> h3 < 0 then None
         else Some (lapic_reset (upd_lapic (\<lambda>la. la\<lparr>lapic_base := 0xfee00000, apic_id := iden, timer_handle := nat h1, timer_active := False,
                vmx_timer_handle := nat h2, vmx_preemption_timer_rate := 0, vmx_timer_active := False,
                mwaitx_timer_handle := nat h3, mwaitx_timer_active := False, xapic := simulate_xapic\<rparr>) (fst st), pc3)))"

end
