(* ===== verification/Event.thy ===== *)
theory Event
  imports Lapic Pic
begin

text \<open>
  What happens between two instructions: \<^verbatim>\<open>bochs/cpu/event.cc\<close>, and the two stepping routines of the hypervisor glue,
  \<open>step_device\<close> and \<open>step_cpu\<close> of \<^verbatim>\<open>bochs/main.cc\<close>, with the resume of the main loop (\<^verbatim>\<open>bochs/cpu/cpu.cc\<close>). The machine is the
  processor, the interrupt controllers and the other devices, paired with the clock. A \<open>longjmp\<close> back to
  the main loop is the left side of a sum. The routines called here that belong to other parts of the
  processor (entry of an interrupt handler, exceptions, system management, VM exits, fetch and execute) are
  the fields of the record \<open>cpu_calls\<close>; those that never return give the state at the jump.
\<close>

record 'd machine =
  m_cpu :: BX_CPU_C
  m_pic :: bx_pic_c
  m_dev :: 'd

type_synonym 'd mstate = "'d machine dev_state"
type_synonym 'd jump = "'d mstate + 'd mstate"

record 'd cpu_calls =
  interrupt :: "Bit8u \<Rightarrow> nat \<Rightarrow> 'd mstate \<Rightarrow> 'd jump"
  exception_DB :: "'d mstate \<Rightarrow> 'd mstate"
  enter_system_management_mode :: "'d mstate \<Rightarrow> 'd mstate"
  reset_software :: "'d mstate \<Rightarrow> 'd mstate"
  Svm_Vmexit :: "nat \<Rightarrow> 'd mstate \<Rightarrow> 'd mstate"
  VMexit :: "nat \<Rightarrow> 'd mstate \<Rightarrow> 'd mstate"
  VMX_Deliver_Virtual_Interrupt :: "'d mstate \<Rightarrow> 'd mstate"
  VMX_Virtual_Apic_Access_Trap :: "'d mstate \<Rightarrow> 'd mstate"
  guest_ExtInterrupt :: "'d mstate \<Rightarrow> 'd jump"
  guest_Event :: "nat \<Rightarrow> Bit8u \<Rightarrow> 'd mstate \<Rightarrow> 'd jump"
  dma_raise_hlda :: "'d mstate \<Rightarrow> 'd mstate"
  load_cs :: "Bit16u \<Rightarrow> 'd mstate \<Rightarrow> 'd jump"
  fetch :: "'d mstate \<Rightarrow> 'd jump"
  execute :: "'d mstate \<Rightarrow> 'd jump"

definition and_then :: "'d jump \<Rightarrow> ('d mstate \<Rightarrow> 'd mstate + 'b) \<Rightarrow> 'd mstate + 'b" where
  "and_then r f = (case r of Inl s \<Rightarrow> Inl s | Inr s \<Rightarrow> f s)"

abbreviation cpu_of :: "'d mstate \<Rightarrow> BX_CPU_C" where
  "cpu_of st \<equiv> m_cpu (fst st)"

abbreviation upd_cpu :: "(BX_CPU_C \<Rightarrow> BX_CPU_C) \<Rightarrow> 'd mstate \<Rightarrow> 'd mstate" where
  "upd_cpu f st \<equiv> ((fst st)\<lparr>m_cpu := f (cpu_of st)\<rparr>, snd st)"

abbreviation upd_async :: "(bx_async \<Rightarrow> bx_async) \<Rightarrow> BX_CPU_C \<Rightarrow> BX_CPU_C" where
  "upd_async f cpu \<equiv> cpu\<lparr>async := f (async cpu)\<rparr>"

abbreviation (input) "BX_EVENT_VMX_MONITOR_TRAP_FLAG \<equiv> (0x10 :: Bit32u)"
abbreviation (input) "BX_EVENT_VMX_VIRTUAL_NMI \<equiv> (0x80 :: Bit32u)"
abbreviation (input) "BX_EVENT_VMX_VTPR_UPDATE \<equiv> (0x1000 :: Bit32u)"
abbreviation (input) "BX_EVENT_VMX_VEOI_UPDATE \<equiv> (0x2000 :: Bit32u)"
abbreviation (input) "BX_EVENT_VMX_VIRTUAL_APIC_WRITE \<equiv> (0x4000 :: Bit32u)"

abbreviation (input) "BX_DEBUG_SINGLE_STEP_BIT \<equiv> (0x4000 :: Bit32u)"
abbreviation (input) "BX_DEBUG_TRAP_TASK_SWITCH_BIT \<equiv> (0x8000 :: Bit32u)"
abbreviation (input) "BX_INHIBIT_INTERRUPTS \<equiv> (1 :: Bit32u)"
abbreviation (input) "BX_INHIBIT_DEBUG \<equiv> (2 :: Bit32u)"
abbreviation (input) "BX_INHIBIT_INTERRUPTS_BY_MOVSS \<equiv> (3 :: Bit32u)"

abbreviation (input) "BX_EXTERNAL_INTERRUPT \<equiv> (0 :: nat)"
abbreviation (input) "BX_NMI \<equiv> (2 :: nat)"

abbreviation commit_rip :: "BX_CPU_C \<Rightarrow> BX_CPU_C" where
  "commit_rip cpu \<equiv> cpu\<lparr>prev_rip := gen_reg cpu BX_64BIT_REG_RIP\<rparr>"

subsection \<open>Waiting\<close>

text \<open>Every path through the loop of the source leaves it in the first round.\<close>

definition handleWaitForEvent :: "'d cpu_calls \<Rightarrow> 'd mstate \<Rightarrow> 'd mstate \<times> bool" where
  "handleWaitForEvent e st =
     (let cpu = cpu_of st; act = activity_state (async cpu); ev = events cpu
      in if act = BX_ACTIVITY_STATE_WAIT_FOR_SIPI then (st, True)
         else if (is_pending (BX_EVENT_PENDING_INTR OR BX_EVENT_PENDING_LAPIC_INTR) ev \<and>
                    (get_IF cpu \<or> act = BX_ACTIVITY_STATE_MWAIT_IF)) \<or>
                 is_unmasked_event_pending (BX_EVENT_NMI OR BX_EVENT_SMI OR BX_EVENT_INIT OR BX_EVENT_VMX_VTPR_UPDATE OR
                   BX_EVENT_VMX_VEOI_UPDATE OR BX_EVENT_VMX_VIRTUAL_APIC_WRITE OR BX_EVENT_VMX_MONITOR_TRAP_FLAG OR
                   BX_EVENT_VMX_VIRTUAL_NMI) ev
         then (upd_cpu (\<lambda>cpu. upd_async (\<lambda>a. a\<lparr>activity_state := BX_ACTIVITY_STATE_ACTIVE, inhibit_mask := 0\<rparr>)
                 (if act = BX_ACTIVITY_STATE_MWAIT \<or> act = BX_ACTIVITY_STATE_MWAIT_IF then cpu\<lparr>monitor_armed := False\<rparr> else cpu)) st, False)
         else if is_unmasked_event_pending BX_EVENT_VMX_PREEMPTION_TIMER_EXPIRED ev then (st, False)
         else if act = BX_ACTIVITY_STATE_ACTIVE then (st, False)
         else let st1 = (if HRQ (snd st) then dma_raise_hlda e st else st)
              in (st1, kill_bochs_request (snd st1)))"

subsection \<open>Acknowledging an interrupt\<close>

text \<open>The controllers' acknowledge cycle lowers INTR and may raise it again.\<close>

definition pic_iac :: "'d mstate \<Rightarrow> 'd mstate \<times> Bit8u" where
  "pic_iac st =
     (let (pic1, vector) = IAC (m_pic (fst st));
          ev1 = clear_event BX_EVENT_PENDING_INTR (events (cpu_of st));
          ev2 = (if INTR pic1 then signal_event BX_EVENT_PENDING_INTR ev1 else ev1)
      in (((fst st)\<lparr>m_pic := pic1, m_cpu := (cpu_of st)\<lparr>events := ev2\<rparr>\<rparr>, snd st), vector))"

definition lapic_ack :: "'d mstate \<Rightarrow> 'd mstate \<times> Bit8u" where
  "lapic_ack st = (let (cpu1, vector) = acknowledge_int (cpu_of st) in (upd_cpu (\<lambda>_. cpu1) st, vector))"

definition VMexit_Event :: "'d cpu_calls \<Rightarrow> nat \<Rightarrow> Bit8u \<Rightarrow> 'd mstate \<Rightarrow> 'd jump" where
  "VMexit_Event e ty vector st = (if \<not> in_vmx_guest (guest (cpu_of st)) then Inr st else guest_Event e ty vector st)"

definition take_interrupt :: "'d cpu_calls \<Rightarrow> Bit8u \<Rightarrow> 'd mstate \<Rightarrow> 'd jump" where
  "take_interrupt e vector st = and_then (interrupt e vector BX_EXTERNAL_INTERRUPT st) (\<lambda>st1. Inr (upd_cpu commit_rip st1))"

definition InterruptAcknowledge :: "'d cpu_calls \<Rightarrow> 'd mstate \<Rightarrow> 'd jump" where
  "InterruptAcknowledge e st =
     (let cpu = cpu_of st
      in if in_svm_guest (guest cpu) \<and> svm_intercept (async cpu) 0 then Inl (Svm_Vmexit e 96 st)
         else if in_vmx_guest (guest cpu) \<and> is_pending BX_EVENT_PENDING_VMX_VIRTUAL_INTR (events cpu)
         then Inl (VMX_Deliver_Virtual_Interrupt e st)
         else and_then (if in_vmx_guest (guest cpu) then guest_ExtInterrupt e st else Inr st) (\<lambda>st1.
           let (st2, vector) = (if is_pending BX_EVENT_PENDING_LAPIC_INTR (events (cpu_of st1)) then lapic_ack st1 else pic_iac st1)
           in and_then (VMexit_Event e BX_EXTERNAL_INTERRUPT vector (upd_cpu (upd_async (\<lambda>a. a\<lparr>EXT := True\<rparr>)) st2))
                (take_interrupt e vector)))"

definition VirtualInterruptAcknowledge :: "'d cpu_calls \<Rightarrow> 'd mstate \<Rightarrow> 'd jump" where
  "VirtualInterruptAcknowledge e st =
     (let cpu = cpu_of st; vector = svm_v_intr_vector (async cpu)
      in if svm_intercept (async cpu) 4 then Inl (Svm_Vmexit e 100 st)
         else take_interrupt e vector (upd_cpu (\<lambda>cpu. upd_async (\<lambda>a. a\<lparr>EXT := True\<rparr>)
                (upd_events (clear_event BX_EVENT_SVM_VIRQ_PENDING) cpu)) st))"

subsection \<open>Inhibition\<close>

definition interrupts_inhibited :: "Bit32u \<Rightarrow> bx_async \<Rightarrow> bool" where
  "interrupts_inhibited m a \<longleftrightarrow> icount a \<le> inhibit_icount a \<and> inhibit_mask a AND m = m"

definition inhibit_interrupts :: "Bit32u \<Rightarrow> bx_async \<Rightarrow> bx_async" where
  "inhibit_interrupts m a =
     (if m \<noteq> BX_INHIBIT_INTERRUPTS_BY_MOVSS \<or> \<not> interrupts_inhibited BX_INHIBIT_INTERRUPTS_BY_MOVSS a
      then a\<lparr>inhibit_mask := m, inhibit_icount := icount a + 1\<rparr> else a)"

subsection \<open>Asynchronous events\<close>

text \<open>The priorities of \<open>handleAsyncEvent\<close>, one definition for each.\<close>

abbreviation unmasked :: "Bit32u \<Rightarrow> 'd mstate \<Rightarrow> bool" where
  "unmasked m st \<equiv> is_unmasked_event_pending m (events (cpu_of st))"

abbreviation gif :: "'d mstate \<Rightarrow> bool" where
  "gif st \<equiv> svm_gif (async (cpu_of st))"

definition async_traps :: "'d cpu_calls \<Rightarrow> 'd mstate \<Rightarrow> 'd jump" where
  "async_traps e st0 =
     (let st = (if \<not> gif st0 then upd_cpu (upd_async (\<lambda>a. a\<lparr>debug_trap := debug_trap a AND BX_DEBUG_SINGLE_STEP_BIT\<rparr>)) st0 else st0)
      in if unmasked (BX_EVENT_VMX_VTPR_UPDATE OR BX_EVENT_VMX_VEOI_UPDATE OR BX_EVENT_VMX_VIRTUAL_APIC_WRITE) st
         then Inl (VMX_Virtual_Apic_Access_Trap e st)
         else if debug_trap (async (cpu_of st)) AND BX_DEBUG_TRAP_TASK_SWITCH_BIT \<noteq> 0 then Inl (exception_DB e st)
         else Inr st)"

definition async_interventions :: "'d cpu_calls \<Rightarrow> 'd mstate \<Rightarrow> 'd jump" where
  "async_interventions e st0 =
     (let st = (if unmasked BX_EVENT_SMI st0 \<and> gif st0
                then enter_system_management_mode e (upd_cpu (upd_events (clear_event BX_EVENT_SMI)) st0) else st0)
      in and_then
           (if unmasked BX_EVENT_INIT st \<and> gif st
            then (if in_svm_guest (guest (cpu_of st)) \<and> svm_intercept (async (cpu_of st)) 3 then Inl (Svm_Vmexit e 99 st)
                  else if in_vmx_guest (guest (cpu_of st)) then Inl (VMexit e 3 st)
                  else Inr (reset_software e st))
            else Inr st)
           (\<lambda>st1. if unmasked BX_EVENT_VMX_MONITOR_TRAP_FLAG st1 then Inl (VMexit e 37 st1) else Inr st1))"

definition async_debug :: "'d cpu_calls \<Rightarrow> 'd mstate \<Rightarrow> 'd jump" where
  "async_debug e st =
     (if \<not> interrupts_inhibited BX_INHIBIT_DEBUG (async (cpu_of st))
      then (if debug_trap (async (cpu_of st)) AND 0xf000 \<noteq> 0 then Inl (exception_DB e st)
            else Inr (upd_cpu (upd_async (\<lambda>a. a\<lparr>debug_trap := 0\<rparr>)) st))
      else Inr st)"

definition take_NMI :: "'d cpu_calls \<Rightarrow> 'd mstate \<Rightarrow> 'd jump" where
  "take_NMI e st =
     (if in_svm_guest (guest (cpu_of st)) \<and> svm_intercept (async (cpu_of st)) 1 then Inl (Svm_Vmexit e 97 st)
      else let st1 = upd_cpu (\<lambda>cpu. upd_async (\<lambda>a. a\<lparr>EXT := True\<rparr>) (upd_events (\<lambda>ev. mask_event BX_EVENT_NMI (clear_event BX_EVENT_NMI ev)) cpu)) st
           in and_then (VMexit_Event e BX_NMI 2 st1) (interrupt e 2 BX_NMI))"

definition async_external :: "'d cpu_calls \<Rightarrow> 'd mstate \<Rightarrow> 'd jump" where
  "async_external e st =
     (let cpu = cpu_of st
      in if interrupts_inhibited BX_INHIBIT_INTERRUPTS (async cpu) \<or> \<not> gif st then Inr st
         else if unmasked BX_EVENT_VMX_PREEMPTION_TIMER_EXPIRED st then Inl (VMexit e 52 st)
         else if unmasked BX_EVENT_VMX_VIRTUAL_NMI st then Inl (VMexit e 8 st)
         else if unmasked BX_EVENT_NMI st then take_NMI e st
         else if is_pending BX_EVENT_VMX_INTERRUPT_WINDOW_EXITING (events cpu) \<and> get_IF cpu then Inl (VMexit e 7 st)
         else if unmasked (BX_EVENT_PENDING_INTR OR BX_EVENT_PENDING_LAPIC_INTR OR BX_EVENT_PENDING_VMX_VIRTUAL_INTR) st
         then InterruptAcknowledge e st
         else if unmasked BX_EVENT_SVM_VIRQ_PENDING st then VirtualInterruptAcknowledge e st
         else if HRQ (snd st) then Inr (dma_raise_hlda e st)
         else Inr st)"

text \<open>TF schedules a trap; \<open>async_event\<close> is cleared when nothing is left to look at.\<close>

definition async_finish :: "'d mstate \<Rightarrow> 'd mstate" where
  "async_finish st0 =
     (let st = (if get_TF (cpu_of st0) then upd_cpu (upd_async (\<lambda>a. a\<lparr>debug_trap := debug_trap a OR BX_DEBUG_SINGLE_STEP_BIT\<rparr>)) st0 else st0)
      in if \<not> ((gif st \<and> unmasked_events_pending (events (cpu_of st)) \<noteq> 0) \<or> debug_trap (async (cpu_of st)) \<noteq> 0 \<or> HRQ (snd st))
         then upd_cpu (upd_events (\<lambda>ev. ev\<lparr>async_event := 0\<rparr>)) st else st)"

definition handleAsyncEvent :: "'d cpu_calls \<Rightarrow> 'd mstate \<Rightarrow> 'd mstate + 'd mstate \<times> bool" where
  "handleAsyncEvent e st0 =
     (let (st, stop) = (if activity_state (async (cpu_of st0)) \<noteq> BX_ACTIVITY_STATE_ACTIVE then handleWaitForEvent e st0 else (st0, False))
      in if stop \<or> kill_bochs_request (snd st) then Inr (st, True)
         else and_then (async_traps e st) (\<lambda>s1. and_then (async_interventions e s1) (\<lambda>s2. and_then (async_debug e s2) (\<lambda>s3.
                and_then (async_external e s3) (\<lambda>s4. Inr (async_finish s4, False))))))"

subsection \<open>Signals\<close>

definition deliver_SIPI :: "'d cpu_calls \<Rightarrow> Bit32u \<Rightarrow> 'd mstate \<Rightarrow> 'd jump" where
  "deliver_SIPI e vector st =
     (if activity_state (async (cpu_of st)) = BX_ACTIVITY_STATE_WAIT_FOR_SIPI
      then if in_vmx_guest (guest (cpu_of st)) then Inl (VMexit e 4 st)
           else and_then (load_cs e (ucast (vector * 0x100)) (upd_cpu (\<lambda>cpu. upd_async (\<lambda>a. a\<lparr>activity_state := BX_ACTIVITY_STATE_ACTIVE\<rparr>)
                    (cpu\<lparr>gen_reg := (gen_reg cpu)(BX_64BIT_REG_RIP := 0)\<rparr>)) st))
                  (\<lambda>st1. Inr (upd_cpu (upd_events (unmask_event (BX_EVENT_INIT OR BX_EVENT_SMI OR BX_EVENT_NMI))) st1))
      else Inr st)"

text \<open>The callback through which the clock reaches the timer of the local APIC.\<close>

definition periodic_smf :: "'d mstate \<Rightarrow> 'd mstate" where
  "periodic_smf st = (let (cpu1, pc1) = lapic_periodic (cpu_of st, snd st) in ((fst st)\<lparr>m_cpu := cpu1\<rparr>, pc1))"

subsection \<open>Stepping\<close>

text \<open>\<open>None\<close> stands for a clock that does not come to an end, which its contract excludes.\<close>

fun step_device_loop :: "'d cpu_calls \<Rightarrow> 'd machine callbacks \<Rightarrow> nat \<Rightarrow> 'd mstate \<Rightarrow> 'd jump option" where
  "step_device_loop e cb 0 st = Some (Inr st)"
| "step_device_loop e cb (Suc n) st =
     (case (if async_event (events (cpu_of st)) \<noteq> 0 then handleAsyncEvent e st else Inr (st, False)) of
        Inl s \<Rightarrow> Some (Inl s)
      | Inr (s, stop) \<Rightarrow> if stop then Some (Inr s)
                         else (case tickn cb 1 s of None \<Rightarrow> None | Some s1 \<Rightarrow> step_device_loop e cb n s1))"

definition step_device :: "'d cpu_calls \<Rightarrow> 'd machine callbacks \<Rightarrow> Bit64u \<Rightarrow> 'd mstate \<Rightarrow> 'd jump option" where
  "step_device e cb steps st = step_device_loop e cb (unat steps) (upd_cpu TLB_flush st)"

text \<open>The clock follows the instruction count.\<close>

definition sync_time :: "'d machine callbacks \<Rightarrow> 'd mstate \<Rightarrow> 'd mstate option" where
  "sync_time cb st =
     (let a = async (cpu_of st); delta = ucast (icount a - icount_last_sync a)
      in tickn cb delta (upd_cpu (upd_async (\<lambda>a. a\<lparr>icount_last_sync := icount a\<rparr>)) st))"

definition stop_trace_clear :: "BX_CPU_C \<Rightarrow> BX_CPU_C" where
  "stop_trace_clear cpu = upd_events (\<lambda>ev. ev\<lparr>async_event := async_event ev AND NOT 0x80000000\<rparr>) cpu"

text \<open>One trace: fetch it, execute it, let the time pass; then fetch the next one unless there are events.\<close>

definition run_trace :: "'d cpu_calls \<Rightarrow> 'd machine callbacks \<Rightarrow> 'd mstate \<Rightarrow> 'd jump option" where
  "run_trace e cb st =
     (case and_then (fetch e st) (execute e) of
        Inl s \<Rightarrow> Some (Inl s)
      | Inr s \<Rightarrow> (case sync_time cb s of
            None \<Rightarrow> None
          | Some s1 \<Rightarrow> if async_event (events (cpu_of s1)) \<noteq> 0 then Some (Inr s1)
                       else Some (and_then (fetch e s1) (\<lambda>s2. Inr (upd_cpu stop_trace_clear s2)))))"

fun step_cpu_loop :: "'d cpu_calls \<Rightarrow> 'd machine callbacks \<Rightarrow> nat \<Rightarrow> 'd mstate \<Rightarrow> 'd jump option" where
  "step_cpu_loop e cb 0 st = Some (Inr st)"
| "step_cpu_loop e cb (Suc n) st =
     (case (if async_event (events (cpu_of st)) \<noteq> 0 then handleAsyncEvent e st else Inr (st, False)) of
        Inl s \<Rightarrow> Some (Inl s)
      | Inr (s, stop) \<Rightarrow> if stop then Some (Inr s)
                         else (case run_trace e cb s of
                                 None \<Rightarrow> None
                               | Some (Inl s1) \<Rightarrow> Some (Inl s1)
                               | Some (Inr s1) \<Rightarrow> step_cpu_loop e cb n s1))"

definition step_cpu :: "'d cpu_calls \<Rightarrow> 'd machine callbacks \<Rightarrow> Bit64u \<Rightarrow> 'd mstate \<Rightarrow> 'd jump option" where
  "step_cpu e cb steps st = step_cpu_loop e cb (unat steps) (upd_cpu TLB_flush st)"

text \<open>Where a long jump lands: the instruction is counted, time passes, and the new position is committed.
  (The flag \<open>speculative_rsp\<close>, which the loop also clears, is not part of the record.)\<close>

definition cpu_loop_resume :: "'d machine callbacks \<Rightarrow> 'd mstate \<Rightarrow> 'd mstate option" where
  "cpu_loop_resume cb st =
     map_option (upd_cpu commit_rip) (sync_time cb (upd_cpu (upd_async (\<lambda>a. a\<lparr>icount := icount a + 1\<rparr>)) st))"

end
