(* ===== verification/LapicProps.thy ===== *)
theory LapicProps
  imports Lapic CpuProps
begin

text \<open>
  Properties of the local APIC: what requests, acknowledge, end of interrupt and the task priority do to the sets of
  requested and served vectors, that no deliverable request is forgotten over any run, the
  types of the registers, the timer, and the x2APIC interface.
\<close>

subsection \<open>Priorities\<close>

definition ready :: "(nat \<Rightarrow> Bit8u) \<Rightarrow> bx_local_apic_c \<Rightarrow> nat \<Rightarrow> bool" where
  "ready arr la v \<longleftrightarrow> 0x10 \<le> v \<and> v < 0x100 \<and> ier_apic la v \<noteq> 0 \<and> arr v \<noteq> 0"

abbreviation lapic_requested :: "bx_local_apic_c \<Rightarrow> nat \<Rightarrow> bool" where
  "lapic_requested la \<equiv> ready (irr_apic la) la"

abbreviation lapic_in_service :: "bx_local_apic_c \<Rightarrow> nat \<Rightarrow> bool" where
  "lapic_in_service la \<equiv> ready (isr_apic la) la"

definition tpr_class :: "bx_local_apic_c \<Rightarrow> nat" where
  "tpr_class la = unat (task_priority la) div 16"

definition deliverable_vec :: "bx_local_apic_c \<Rightarrow> nat \<Rightarrow> bool" where
  "deliverable_vec la v \<longleftrightarrow> lapic_requested la v \<and> tpr_class la < v div 16 \<and> (\<forall>u. lapic_in_service la u \<longrightarrow> u div 16 < v div 16)"

lemma highest_Some: "highest_priority_int arr la = Some v \<longleftrightarrow> ready arr la v \<and> (\<forall>u. ready arr la u \<longrightarrow> u \<le> v)"
  unfolding highest_priority_int_def find_rev_upt ready_def by (auto simp: not_le) (meson le_less_trans less_imp_le_nat not_le)

lemma highest_None: "highest_priority_int arr la = None \<longleftrightarrow> (\<forall>u. \<not> ready arr la u)"
  unfolding highest_priority_int_def find_rev_upt ready_def by auto

lemma unat_class: "unat (w AND 0xf0) = 16 * (unat w div 16)" if "unat w < 256" for w :: Bit32u
proof -
  have "n < 8" if "bit w n" for n using bit_unat_less [of w 8 n] that \<open>unat w < 256\<close> by simp
  then have "w AND 0xf0 = push_bit 4 (drop_bit 4 w)"
    by (intro bit_word_eqI) (auto simp: bit_simps bit_240)
  moreover have "unat (drop_bit 4 w) = unat w div 16"
  proof -
    have "take_bit 32 (unat w) = unat w" using that by (intro take_bit_nat_eq_self) simp
    then show ?thesis by (simp add: unsigned_drop_bit_eq drop_bit_eq_div [of 4 "unat w"])
  qed
  ultimately show ?thesis using that
    by (simp add: push_bit_eq_mult unat_word_ariths mult.commute)
qed

lemma class_le_iff: "(of_nat v :: Bit32u) AND 0xf0 \<le> w AND 0xf0 \<longleftrightarrow> v div 16 \<le> unat w div 16"
  if "v < 256" "unat w < 256" for w :: Bit32u
proof -
  have v: "unat (of_nat v :: Bit32u) = v" using that(1) by (simp add: unat_of_nat)
  have "unat ((of_nat v :: Bit32u) AND 0xf0) = 16 * (v div 16)"
    using unat_class [of "of_nat v"] v that(1) by simp
  then show ?thesis using unat_class [OF that(2)] by (simp only: word_le_nat_alt) simp
qed

lemma service_lapic [simp]: "lapic (service_local_apic cpu) = lapic cpu"
  by (simp add: service_local_apic_def Let_def split: option.split)

lemma is_pending_signal [simp]: "is_pending e (signal_event e' ev) \<longleftrightarrow> is_pending e ev \<or> e AND e' \<noteq> 0"
  by (simp add: is_pending_def signal_event_def Let_def)
     (metis (no_types, opaque_lifting) and.commute bit.conj_disj_distrib or_eq_0_iff)

definition tpr_ok :: "bx_local_apic_c \<Rightarrow> bool" where
  "tpr_ok la \<longleftrightarrow> unat (task_priority la) < 256"

lemma service_pending:
  assumes "tpr_ok (lapic cpu)"
  shows "is_pending BX_EVENT_PENDING_LAPIC_INTR (events (service_local_apic cpu)) \<longleftrightarrow>
    is_pending BX_EVENT_PENDING_LAPIC_INTR (events cpu) \<or>
    (\<exists>v. lapic_requested (lapic cpu) v \<and> (\<forall>u. lapic_in_service (lapic cpu) u \<longrightarrow> u < v) \<and> tpr_class (lapic cpu) < v div 16)"
    (is "?l \<longleftrightarrow> ?p \<or> (\<exists>v. ?S v)")
proof (cases "highest_priority_int (irr_apic (lapic cpu)) (lapic cpu)")
  case None
  then have "\<not> lapic_requested (lapic cpu) v" for v by (simp add: highest_None)
  with None show ?thesis by (simp add: service_local_apic_def Let_def)
next
  case (Some m)
  let ?la = "lapic cpu"
  have m: "lapic_requested ?la m" "\<And>u. lapic_requested ?la u \<Longrightarrow> u \<le> m" using Some by (auto simp: highest_Some)
  have ex: "(\<exists>v. ?S v) \<longleftrightarrow> ?S m" using m by (meson div_le_mono less_le_trans)
  have cls: "(of_nat m :: Bit32u) AND 0xf0 \<le> task_priority ?la AND 0xf0 \<longleftrightarrow> m div 16 \<le> tpr_class ?la"
    using m(1) assms class_le_iff [of m "task_priority ?la"] by (simp add: ready_def tpr_class_def tpr_ok_def)
  have blk: "(case highest_priority_int (isr_apic ?la) ?la of Some first_isr \<Rightarrow> m \<le> first_isr | None \<Rightarrow> False)
      \<longleftrightarrow> \<not> (\<forall>u. lapic_in_service ?la u \<longrightarrow> u < m)"
  proof (cases "highest_priority_int (isr_apic ?la) ?la")
    case None
    then have "\<not> lapic_in_service ?la u" for u by (simp add: highest_None)
    with None show ?thesis by simp
  next
    case (Some k)
    then have "lapic_in_service ?la k" "\<And>u. lapic_in_service ?la u \<Longrightarrow> u \<le> k" by (auto simp: highest_Some)
    then have "m \<le> k \<longleftrightarrow> \<not> (\<forall>u. lapic_in_service ?la u \<longrightarrow> u < m)" by (meson le_less_trans not_le)
    with Some show ?thesis by simp
  qed
  show ?thesis
    unfolding ex service_local_apic_def Let_def Some option.case using m(1) 
    by (simp add: cls blk not_le)
qed


text \<open>What the acknowledge cycle compares: the class of the processor priority.\<close>

lemma ppr_class:
  assumes "tpr_ok la" "v < 256"
  shows "of_nat v AND 0xf0 \<le> (ucast (get_ppr la) :: Bit32u) \<longleftrightarrow> v div 16 \<le> tpr_class la \<or> (\<exists>u. lapic_in_service la u \<and> v div 16 \<le> u div 16)"
proof -
  have t: "unat (task_priority la) < 256" using assms(1) by (simp add: tpr_ok_def)
  have v: "unat ((of_nat v :: Bit32u) AND 0xf0) = 16 * (v div 16)"
    using unat_class [of "of_nat v"] assms(2) by (simp add: unat_of_nat)
  have u: "unat (ucast (ucast w :: Bit8u) :: Bit32u) = unat w" if "unat w < 256" for w :: Bit32u
    using that by (simp add: unat_ucast_up) (simp only: unsigned_ucast_eq, simp add: take_bit_nat_eq_self)
  show ?thesis
  proof (cases "highest_priority_int (isr_apic la) la")
    case None
    then have "\<not> lapic_in_service la u" for u by (simp add: highest_None)
    with None show ?thesis using u [OF t]
      by (simp only: get_ppr_def option.case word_le_nat_alt v) (auto simp: tpr_class_def)
  next
    case (Some m)
    then have m: "lapic_in_service la m" "\<And>u. lapic_in_service la u \<Longrightarrow> u \<le> m" by (auto simp: highest_Some)
    then have m256: "m < 256" by (simp add: ready_def)
    have ex: "(\<exists>u. lapic_in_service la u \<and> v div 16 \<le> u div 16) \<longleftrightarrow> v div 16 \<le> m div 16"
      using m by (meson div_le_mono le_trans)
    have mw: "unat ((of_nat m :: Bit32u) AND 0xf0) = 16 * (m div 16)"
      using unat_class [of "of_nat m"] m256 by (simp add: unat_of_nat)
    have c: "(of_nat m :: Bit32u) AND 0xF0 \<le> task_priority la AND 0xF0 \<longleftrightarrow> m div 16 \<le> tpr_class la"
      using class_le_iff [OF m256 t] by (simp add: tpr_class_def)
    have "16 * (m div 16) < 256" using m256 by linarith
    with mw have m2: "unat (ucast (ucast ((of_nat m :: Bit32u) AND 0xF0) :: Bit8u) :: Bit32u) = 16 * (m div 16)"
      using u [of "of_nat m AND 0xF0"] by (simp only:)
    show ?thesis
      unfolding ex get_ppr_def Some option.case c
      using u [OF t] m2 by (auto simp: word_le_nat_alt v tpr_class_def)
  qed
qed

lemma acknowledge_cases:
  assumes "tpr_ok (lapic cpu)"
  defines "lowered \<equiv> upd_events (clear_event BX_EVENT_PENDING_LAPIC_INTR)"
  shows "\<forall>v. \<not> deliverable_vec (lapic cpu) v \<Longrightarrow> acknowledge_int cpu = (lowered cpu, spurious_vector (lapic cpu))"
    "deliverable_vec (lapic cpu) v \<Longrightarrow> \<forall>u. deliverable_vec (lapic cpu) u \<longrightarrow> u \<le> v \<Longrightarrow>
       acknowledge_int cpu = (service_local_apic (lowered (upd_lapic (\<lambda>la. la\<lparr>irr_apic := (irr_apic la)(v := 0),
         isr_apic := (isr_apic la)(v := 1)\<rparr>) cpu)), of_nat v)"
proof -
  have k: "\<not> (of_nat m AND 0xf0 \<le> (ucast (get_ppr (lapic cpu)) :: Bit32u)) \<longleftrightarrow> deliverable_vec (lapic cpu) m"
    if "lapic_requested (lapic cpu) m" for m
    using ppr_class [OF assms(1), of m] that by (auto simp: deliverable_vec_def ready_def not_le)
  { assume none: "\<forall>v. \<not> deliverable_vec (lapic cpu) v"
    show "acknowledge_int cpu = (lowered cpu, spurious_vector (lapic cpu))"
    proof (cases "highest_priority_int (irr_apic (lapic cpu)) (lapic cpu)")
      case (Some m)
      then have "lapic_requested (lapic cpu) m" by (simp add: highest_Some)
      with k none Some show ?thesis by (simp add: acknowledge_int_def Let_def lowered_def)
    qed (simp add: acknowledge_int_def Let_def lowered_def) }
  { assume v: "deliverable_vec (lapic cpu) v" and top: "\<forall>u. deliverable_vec (lapic cpu) u \<longrightarrow> u \<le> v"
    have r: "lapic_requested (lapic cpu) v" using v by (simp add: deliverable_vec_def)
    have "u \<le> v" if "lapic_requested (lapic cpu) u" for u
    proof (rule ccontr)
      assume "\<not> u \<le> v"
      then have "v div 16 \<le> u div 16" by (simp add: div_le_mono)
      with v that have "deliverable_vec (lapic cpu) u" by (fastforce simp: deliverable_vec_def)
      with top \<open>\<not> u \<le> v\<close> show False by blast
    qed
    with r have "highest_priority_int (irr_apic (lapic cpu)) (lapic cpu) = Some v" by (simp add: highest_Some)
    with k [OF r] v show "acknowledge_int cpu = (service_local_apic (lowered (upd_lapic (\<lambda>la. la\<lparr>irr_apic := (irr_apic la)(v := 0),
         isr_apic := (isr_apic la)(v := 1)\<rparr>) cpu)), of_nat v)"
      by (simp add: acknowledge_int_def Let_def lowered_def) }
qed


subsection \<open>Refinement\<close>

record abs_apic =
  reqs :: "nat set"
  servs :: "nat set"
  pclass :: nat

definition abs_of :: "bx_local_apic_c \<Rightarrow> abs_apic" where
  "abs_of la = \<lparr>reqs = {v. lapic_requested la v}, servs = {v. lapic_in_service la v}, pclass = tpr_class la\<rparr>"

definition abs_best :: "abs_apic \<Rightarrow> nat option" where
  "abs_best a = (let D = {v \<in> reqs a. pclass a < v div 16 \<and> (\<forall>u \<in> servs a. u div 16 < v div 16)}
     in if D = {} then None else Some (Max D))"

definition abs_ack :: "abs_apic \<Rightarrow> abs_apic \<times> nat option" where
  "abs_ack a = (case abs_best a of None \<Rightarrow> (a, None)
     | Some v \<Rightarrow> (a\<lparr>reqs := reqs a - {v}, servs := insert v (servs a)\<rparr>, Some v))"

definition abs_eoi :: "abs_apic \<Rightarrow> abs_apic" where
  "abs_eoi a = (if servs a = {} then a else a\<lparr>servs := servs a - {Max (servs a)}\<rparr>)"

lemma ready_finite: "finite {v. ready arr la v}"
  by (rule finite_subset [of _ "{..<256}"]) (auto simp: ready_def)

lemma abs_best_of:
  "abs_best (abs_of la) = None \<longleftrightarrow> (\<forall>v. \<not> deliverable_vec la v)"
  "abs_best (abs_of la) = Some v \<longleftrightarrow> deliverable_vec la v \<and> (\<forall>u. deliverable_vec la u \<longrightarrow> u \<le> v)"
proof -
  let ?D = "{v \<in> reqs (abs_of la). pclass (abs_of la) < v div 16 \<and> (\<forall>u \<in> servs (abs_of la). u div 16 < v div 16)}"
  have D: "?D = {v. deliverable_vec la v}" by (auto simp: abs_of_def deliverable_vec_def)
  have fin: "finite {v. deliverable_vec la v}"
    by (rule finite_subset [OF _ ready_finite]) (auto simp: deliverable_vec_def)
  show "abs_best (abs_of la) = None \<longleftrightarrow> (\<forall>v. \<not> deliverable_vec la v)"
    unfolding abs_best_def Let_def D by simp
  show "abs_best (abs_of la) = Some v \<longleftrightarrow> deliverable_vec la v \<and> (\<forall>u. deliverable_vec la u \<longrightarrow> u \<le> v)"
    unfolding abs_best_def Let_def D using Max_ge [OF fin] Max_in [OF fin]
    by (auto intro: le_antisym)
qed

lemma highest_servs: "highest_priority_int (isr_apic la) la = (if servs (abs_of la) = {} then None else Some (Max (servs (abs_of la))))"
proof (cases "highest_priority_int (isr_apic la) la")
  case None
  then show ?thesis by (simp add: highest_None abs_of_def)
next
  case (Some m)
  then have "lapic_in_service la m" "\<And>u. lapic_in_service la u \<Longrightarrow> u \<le> m" by (auto simp: highest_Some)
  then have "Max {v. lapic_in_service la v} = m" "{v. lapic_in_service la v} \<noteq> {}" by (auto intro!: Max_eqI ready_finite)
  with Some show ?thesis by (simp add: abs_of_def)
qed

lemma end_interrupt_abs: "servs (abs_of (lapic (end_interrupt v cpu))) = servs (abs_of (lapic cpu)) - {v}"
    "reqs (abs_of (lapic (end_interrupt v cpu))) = reqs (abs_of (lapic cpu))"
    "pclass (abs_of (lapic (end_interrupt v cpu))) = pclass (abs_of (lapic cpu))"
  by (auto simp: end_interrupt_def Let_def abs_of_def ready_def tpr_class_def)

lemma trigger_lapic:
  "0x10 \<le> vector \<Longrightarrow> irr_apic (lapic (trigger_irq vector tm byp cpu)) = (if \<not> byp \<and> irr_apic (lapic cpu) (unat vector) \<noteq> 0
     then irr_apic (lapic cpu) else (irr_apic (lapic cpu))(unat vector := 1))"
  "isr_apic (lapic (trigger_irq vector tm byp cpu)) = isr_apic (lapic cpu)"
  "ier_apic (lapic (trigger_irq vector tm byp cpu)) = ier_apic (lapic cpu)"
  "task_priority (lapic (trigger_irq vector tm byp cpu)) = task_priority (lapic cpu)"
  by (auto simp: trigger_irq_def lapic_error_def)

lemma lapic_ops_abs:
  assumes "tpr_ok (lapic cpu)" "ier_apic (lapic cpu) = (\<lambda>_. 1)"
  shows "0x10 \<le> vector \<Longrightarrow> abs_of (lapic (trigger_irq vector tm byp cpu)) =
           (abs_of (lapic cpu))\<lparr>reqs := insert (unat vector) (reqs (abs_of (lapic cpu)))\<rparr>"
    and "abs_of (lapic (fst (acknowledge_int cpu))) = fst (abs_ack (abs_of (lapic cpu))) \<and>
         snd (acknowledge_int cpu) = (case snd (abs_ack (abs_of (lapic cpu))) of None \<Rightarrow> spurious_vector (lapic cpu) | Some v \<Rightarrow> of_nat v)"
    and "unat (spurious_vector (lapic cpu)) \<notin> servs (abs_of (lapic cpu)) \<Longrightarrow>
           abs_of (lapic (receive_EOI cpu)) = abs_eoi (abs_of (lapic cpu))"
    and "abs_of (lapic (set_tpr pr cpu)) = (abs_of (lapic cpu))\<lparr>pclass := unat pr div 16\<rparr>"
proof -
  let ?la = "lapic cpu"
  show "abs_of (lapic (trigger_irq vector tm byp cpu)) = (abs_of ?la)\<lparr>reqs := insert (unat vector) (reqs (abs_of ?la))\<rparr>"
    if v: "0x10 \<le> vector"
  proof -
    have "16 \<le> unat vector" "unat vector < 256" using v unat_less_exp [of vector] by (simp_all add: word_le_nat_alt)
    then show ?thesis using trigger_lapic [of vector tm byp cpu] v assms(2)
      by (auto simp: abs_of_def ready_def tpr_class_def)
  qed
  show "abs_of (lapic (fst (acknowledge_int cpu))) = fst (abs_ack (abs_of ?la)) \<and>
         snd (acknowledge_int cpu) = (case snd (abs_ack (abs_of ?la)) of None \<Rightarrow> spurious_vector ?la | Some v \<Rightarrow> of_nat v)"
  proof (cases "abs_best (abs_of ?la)")
    case None
    then have "abs_ack (abs_of ?la) = (abs_of ?la, None)" by (simp add: abs_ack_def)
    moreover have "\<forall>v. \<not> deliverable_vec ?la v" using None by (simp add: abs_best_of)
    ultimately show ?thesis using acknowledge_cases(1) [OF assms(1)] by simp
  next
    case (Some v)
    then have d: "deliverable_vec ?la v" "\<forall>u. deliverable_vec ?la u \<longrightarrow> u \<le> v" by (simp_all add: abs_best_of)
    then have "16 \<le> v" "v < 256" by (auto simp: deliverable_vec_def ready_def)
    then show ?thesis using acknowledge_cases(2) [OF assms(1) d] Some assms(2)
      by (auto simp: abs_ack_def abs_of_def ready_def tpr_class_def)
  qed
  show "abs_of (lapic (receive_EOI cpu)) = abs_eoi (abs_of ?la)"
    if s: "unat (spurious_vector ?la) \<notin> servs (abs_of ?la)"
  proof (cases "servs (abs_of ?la) = {}")
    case False
    have "finite (servs (abs_of ?la))" by (simp add: abs_of_def ready_finite)
    then have "Max (servs (abs_of ?la)) \<in> servs (abs_of ?la)" using False by (rule Max_in)
    with s have "Max (servs (abs_of ?la)) \<noteq> unat (spurious_vector ?la)" by metis
    then have e: "receive_EOI cpu = end_interrupt (Max (servs (abs_of ?la))) cpu"
      using False by (simp add: receive_EOI_def highest_servs)
    show ?thesis unfolding e using False by (simp add: abs_eoi_def end_interrupt_abs)
  qed (simp add: receive_EOI_def highest_servs abs_eoi_def)
  show "abs_of (lapic (set_tpr pr cpu)) = (abs_of ?la)\<lparr>pclass := unat pr div 16\<rparr>"
    by (auto simp: set_tpr_def Let_def abs_of_def ready_def tpr_class_def unat_ucast_up)
qed


subsection \<open>No interrupt is lost\<close>

definition no_lost :: "BX_CPU_C \<Rightarrow> bool" where
  "no_lost cpu \<longleftrightarrow> (\<forall>v. deliverable_vec (lapic cpu) v \<longrightarrow> is_pending BX_EVENT_PENDING_LAPIC_INTR (events cpu))"

definition divide_factors :: "Bit32u set" where
  "divide_factors = {1, 2, 4, 8, 16, 32, 64, 128}"

definition lapic_typed :: "bx_local_apic_c \<Rightarrow> bool" where
  "lapic_typed la \<longleftrightarrow> tpr_ok la \<and> ier_apic la = (\<lambda>_. 1) \<and> timer_divide_factor la \<in> divide_factors \<and>
     (\<forall>i < 6. lvt la i AND NOT (lvt_mask i) = 0) \<and> (\<not> software_enabled la \<longrightarrow> (\<forall>i < 6. bit (lvt la i) 16)) \<and>
     xapic_ext la \<le> 3 \<and> dest_format la \<le> 15 \<and> \<not> bit (icr_lo la) 12 \<and> icr_hi la AND 0xffffff = 0"

definition lapic_inv :: "BX_CPU_C \<Rightarrow> bool" where
  "lapic_inv cpu \<longleftrightarrow> lapic_typed (lapic cpu) \<and> no_lost cpu \<and> events_ok (events cpu)"

definition prio :: "bx_local_apic_c \<Rightarrow> (nat \<Rightarrow> Bit8u) \<times> (nat \<Rightarrow> Bit8u) \<times> (nat \<Rightarrow> Bit8u) \<times> Bit32u" where
  "prio la = (irr_apic la, isr_apic la, ier_apic la, task_priority la)"

lemma prio_eq: "prio la = prio la' \<Longrightarrow> deliverable_vec la = deliverable_vec la'"
  by (intro ext) (simp add: prio_def deliverable_vec_def ready_def tpr_class_def)

lemma upd_lapic_inv:
  "lapic_inv cpu \<Longrightarrow> prio (f (lapic cpu)) = prio (lapic cpu) \<Longrightarrow> lapic_typed (f (lapic cpu)) \<Longrightarrow> lapic_inv (upd_lapic f cpu)"
  using prio_eq [of "f (lapic cpu)" "lapic cpu"] by (simp add: lapic_inv_def no_lost_def)

lemma service_no_lost: "tpr_ok (lapic cpu) \<Longrightarrow> no_lost (service_local_apic cpu)"
proof -
  assume t: "tpr_ok (lapic cpu)"
  have lt: "u < v" if "u div 16 < v div 16" for u v :: nat using that by (meson div_le_mono not_le)
  show ?thesis unfolding no_lost_def service_pending [OF t] by (auto simp: deliverable_vec_def intro: lt)
qed

lemma service_events_ok: "events_ok (events cpu) \<Longrightarrow> events_ok (events (service_local_apic cpu))"
  by (auto simp: service_local_apic_def Let_def split: option.split intro!: inv_intros one_event_lapic)

lemma service_inv: "lapic_typed (lapic cpu) \<Longrightarrow> events_ok (events cpu) \<Longrightarrow> lapic_inv (service_local_apic cpu)"
  by (simp add: lapic_inv_def service_no_lost service_events_ok lapic_typed_def)

lemma fewer_inv:
  assumes "lapic_inv cpu" "lapic_typed (f (lapic cpu))" "\<And>v. deliverable_vec (f (lapic cpu)) v \<Longrightarrow> deliverable_vec (lapic cpu) v"
  shows "lapic_inv (upd_lapic f cpu)"
  using assms by (auto simp: lapic_inv_def no_lost_def)

lemma typed_irq_fields:
  "lapic_typed la \<Longrightarrow> lapic_typed (la\<lparr>irr_apic := a\<rparr>)" "lapic_typed la \<Longrightarrow> lapic_typed (la\<lparr>isr_apic := a\<rparr>)"
  "lapic_typed la \<Longrightarrow> lapic_typed (la\<lparr>tmr_apic := a\<rparr>)" "lapic_typed la \<Longrightarrow> lapic_typed (la\<lparr>shadow_error_status := e\<rparr>)"
  "lapic_typed la \<Longrightarrow> lapic_typed (la\<lparr>bus_eois := b\<rparr>)" "lapic_typed la \<Longrightarrow> lapic_typed (la\<lparr>startup_msgs := m\<rparr>)"
  by (simp_all add: lapic_typed_def tpr_ok_def)

lemma lapic_error_inv: "lapic_inv cpu \<Longrightarrow> lapic_inv (lapic_error e cpu)"
  unfolding lapic_error_def by (rule upd_lapic_inv) (simp_all add: prio_def lapic_inv_def typed_irq_fields)

lemma trigger_inv: "lapic_inv cpu \<Longrightarrow> lapic_inv (trigger_irq v tm byp cpu)"
  by (auto simp: trigger_irq_def lapic_inv_def [of cpu] intro!: lapic_error_inv service_inv typed_irq_fields)

lemma untrigger_inv: "lapic_inv cpu \<Longrightarrow> lapic_inv (untrigger_irq v cpu)"
  unfolding untrigger_irq_def
  by (rule fewer_inv) (auto simp: lapic_inv_def typed_irq_fields deliverable_vec_def ready_def tpr_class_def split: if_splits)

lemma acknowledge_inv: "lapic_inv cpu \<Longrightarrow> lapic_inv (fst (acknowledge_int cpu))"
proof -
  assume inv: "lapic_inv cpu"
  then have t: "tpr_ok (lapic cpu)" "lapic_typed (lapic cpu)" "events_ok (events cpu)" by (auto simp: lapic_inv_def lapic_typed_def)
  show ?thesis
  proof (cases "abs_best (abs_of (lapic cpu))")
    case None
    then have n: "\<forall>v. \<not> deliverable_vec (lapic cpu) v" by (simp add: abs_best_of)
    then show ?thesis using acknowledge_cases(1) [OF t(1) n] t by (simp add: lapic_inv_def no_lost_def events_ok_steps)
  next
    case (Some v)
    then have d: "deliverable_vec (lapic cpu) v" "\<forall>u. deliverable_vec (lapic cpu) u \<longrightarrow> u \<le> v" by (simp_all add: abs_best_of)
    show ?thesis unfolding acknowledge_cases(2) [OF t(1) d] fst_conv
      using t by (intro service_inv) (simp_all add: typed_irq_fields events_ok_steps)
  qed
qed

lemma end_interrupt_inv: "lapic_inv cpu \<Longrightarrow> lapic_inv (end_interrupt v cpu)"
  by (auto simp: end_interrupt_def Let_def lapic_inv_def [of cpu] intro!: service_inv typed_irq_fields)

lemma EOI_inv: "lapic_inv cpu \<Longrightarrow> lapic_inv (receive_EOI cpu)" "lapic_inv cpu \<Longrightarrow> lapic_inv (receive_SEOI v cpu)"
  by (auto simp: receive_EOI_def receive_SEOI_def end_interrupt_inv split: option.split)

lemma set_tpr_inv: "lapic_inv cpu \<Longrightarrow> lapic_inv (set_tpr pr cpu)"
proof -
  assume inv: "lapic_inv cpu"
  let ?f = "\<lambda>la. la\<lparr>task_priority := ucast pr\<rparr>"
  have u: "unat (ucast pr :: Bit32u) = unat pr" by (rule unat_ucast_up) simp
  have ty: "lapic_typed (?f (lapic cpu))"
    using inv u unat_less_exp [of pr] by (simp add: lapic_inv_def lapic_typed_def tpr_ok_def)
  show ?thesis
  proof (cases "(ucast pr :: Bit32u) < task_priority (lapic cpu)")
    case True
    with inv ty show ?thesis by (auto simp: set_tpr_def Let_def lapic_inv_def [of cpu] intro!: service_inv)
  next
    case False
    then have "tpr_class (lapic cpu) \<le> tpr_class (?f (lapic cpu))"
      by (simp add: tpr_class_def div_le_mono word_less_nat_alt not_less)
    then have "deliverable_vec (lapic cpu) v" if "deliverable_vec (?f (lapic cpu)) v" for v
      using that by (auto simp: deliverable_vec_def ready_def)
    with False ty inv show ?thesis by (simp add: set_tpr_def Let_def fewer_inv)
  qed
qed

lemma one_event_low: "one_event 1" "one_event 2" "one_event 4" "one_event 0x20"
proof -
  have one: "one_event (push_bit n 1)" if "n < 32" for n unfolding one_event_def using that by blast
  show "one_event 1" "one_event 2" "one_event 4" "one_event 0x20"
    using one [of 0] one [of 1] one [of 2] one [of 5] by simp_all
qed

lemma signal_inv: "lapic_inv cpu \<Longrightarrow> one_event e \<Longrightarrow> lapic_inv (upd_events (signal_event e) cpu)"
  by (auto simp: lapic_inv_def no_lost_def events_ok_steps)

lemma deliver_inv: "lapic_inv cpu \<Longrightarrow> lapic_inv (fst (deliver v dm tm cpu))"
proof -
  assume inv: "lapic_inv cpu"
  have "lapic_inv (upd_lapic (\<lambda>la. la\<lparr>startup_msgs := startup_msgs la @ [v]\<rparr>) cpu)"
    using inv by (intro upd_lapic_inv) (simp_all add: prio_def typed_irq_fields lapic_inv_def)
  with inv show ?thesis
    by (auto simp: deliver_def deliver_INIT_def intro: trigger_inv signal_inv one_event_low)
qed

lemma bus_inv:
  "lapic_inv cpu \<Longrightarrow> lapic_inv (fst (apic_bus_deliver_lowest_priority v d tm bc cpu))"
  "lapic_inv cpu \<Longrightarrow> lapic_inv (fst (apic_bus_broadcast_interrupt v dm tm ex cpu))"
  "lapic_inv cpu \<Longrightarrow> lapic_inv (fst (apic_bus_deliver_interrupt conf v d dm lg tm cpu))"
proof -
  assume inv: "lapic_inv cpu"
  show a: "lapic_inv (fst (apic_bus_deliver_lowest_priority v d tm bc cpu))" for d bc
    using inv by (auto simp: apic_bus_deliver_lowest_priority_def Let_def intro: deliver_inv)
  show b: "lapic_inv (fst (apic_bus_broadcast_interrupt v dm tm ex cpu))" for ex
    using inv by (auto simp: apic_bus_broadcast_interrupt_def intro: deliver_inv a)
  show "lapic_inv (fst (apic_bus_deliver_interrupt conf v d dm lg tm cpu))"
    using inv by (auto simp: apic_bus_deliver_interrupt_def intro: deliver_inv a b)
qed

lemma send_ipi_inv: "lapic_inv cpu \<Longrightarrow> lapic_inv (send_ipi conf d lo cpu)"
  by (auto simp: send_ipi_def Let_def case_prod_beta intro!: lapic_error_inv bus_inv trigger_inv)

subsection \<open>Timers and registers keep the invariant\<close>

lemma inv_typed: "lapic_inv cpu \<Longrightarrow> lapic_typed (lapic cpu)"
  by (simp add: lapic_inv_def)

text \<open>Updates of registers outside the priority logic.\<close>

lemma plain_upd_inv:
  assumes "lapic_inv cpu" and "\<And>la. prio (f la) = prio la" "\<And>la. lapic_typed la \<Longrightarrow> lapic_typed (f la)"
  shows "lapic_inv (upd_lapic f cpu)"
  using assms by (auto intro: upd_lapic_inv dest: inv_typed)

lemma typed_timer_fields:
  "lapic_typed la \<Longrightarrow> lapic_typed (la\<lparr>timer_active := b\<rparr>)" "lapic_typed la \<Longrightarrow> lapic_typed (la\<lparr>timer_current := c\<rparr>)"
  "lapic_typed la \<Longrightarrow> lapic_typed (la\<lparr>timer_initial := c\<rparr>)" "lapic_typed la \<Longrightarrow> lapic_typed (la\<lparr>ticksInitial := t\<rparr>)"
  "lapic_typed la \<Longrightarrow> lapic_typed (la\<lparr>vmx_timer_active := b\<rparr>)" "lapic_typed la \<Longrightarrow> lapic_typed (la\<lparr>mwaitx_timer_active := b\<rparr>)"
  "lapic_typed la \<Longrightarrow> lapic_typed (la\<lparr>vmx_preemption_timer_value := c\<rparr>)"
  "lapic_typed la \<Longrightarrow> lapic_typed (la\<lparr>vmx_preemption_timer_initial := t\<rparr>)"
  "lapic_typed la \<Longrightarrow> lapic_typed (la\<lparr>vmx_preemption_timer_fire := t\<rparr>)"
  by (simp_all add: lapic_typed_def tpr_ok_def)

lemma stop_timer_inv: "lapic_inv (fst st) \<Longrightarrow> lapic_inv (fst (stop_timer st))"
  by (auto simp: stop_timer_def case_prod_beta prio_def typed_timer_fields intro!: plain_upd_inv)

lemma stop_timers_inv:
  "lapic_inv (fst st) \<Longrightarrow> lapic_inv (fst (deactivate_vmx_preemption_timer st))"
  "lapic_inv (fst st) \<Longrightarrow> lapic_inv (fst (deactivate_mwaitx_timer st))"
  by (auto simp: deactivate_vmx_preemption_timer_def deactivate_mwaitx_timer_def case_prod_beta prio_def typed_timer_fields
      intro!: plain_upd_inv)

lemma start_timer_inv: "lapic_inv (fst st) \<Longrightarrow> lapic_inv (fst (start_timer st))"
  by (auto simp: start_timer_def case_prod_beta prio_def typed_timer_fields intro!: plain_upd_inv)

lemma timer_ops_inv:
  assumes "lapic_inv (fst st)"
  shows "lapic_inv (fst (set_initial_timer_count v st))" "lapic_inv (fst (fst (get_current_timer_count st)))"
    "lapic_inv (fst (set_tsc_deadline t st))" "lapic_inv (fst (lapic_periodic st))"
    "lapic_inv (fst (set_vmx_preemption_timer v st))" "lapic_inv (fst (vmx_preemption_timer_expired st))"
    "lapic_inv (fst (set_mwaitx_timer v st))" "lapic_inv (fst (mwaitx_timer_expired st))"
proof -
  note plain = plain_upd_inv typed_timer_fields
  note st = stop_timer_inv [OF assms]
  show "lapic_inv (fst (set_initial_timer_count v st))"
    using assms st by (auto simp: set_initial_timer_count_def Let_def case_prod_beta prio_def intro!: start_timer_inv plain)
  show "lapic_inv (fst (fst (get_current_timer_count st)))"
    using assms by (auto simp: get_current_timer_count_def Let_def case_prod_beta prio_def intro!: plain)
  show "lapic_inv (fst (set_tsc_deadline t st))"
    using assms st by (auto simp: set_tsc_deadline_def Let_def case_prod_beta prio_def intro!: plain)
  show "lapic_inv (fst (lapic_periodic st))"
    using assms by (auto simp: lapic_periodic_def Let_def case_prod_beta prio_def intro!: start_timer_inv trigger_inv plain)
  show "lapic_inv (fst (set_vmx_preemption_timer v st))"
    using assms by (auto simp: set_vmx_preemption_timer_def Let_def case_prod_beta prio_def intro!: plain)
  show "lapic_inv (fst (vmx_preemption_timer_expired st))"
    using signal_inv [OF assms one_event_low(4)] by (simp add: vmx_preemption_timer_expired_def case_prod_beta stop_timers_inv)
  show "lapic_inv (fst (set_mwaitx_timer v st))"
    using assms by (auto simp: set_mwaitx_timer_def case_prod_beta prio_def intro!: plain)
  have "lapic_inv (wakeup_monitor (fst st))" using assms by (simp add: wakeup_monitor_def lapic_inv_def no_lost_def)
  then show "lapic_inv (fst (mwaitx_timer_expired st))" by (simp add: mwaitx_timer_expired_def case_prod_beta stop_timers_inv)
qed

lemma divide_typed: "lapic_inv cpu \<Longrightarrow> lapic_inv (set_divide_configuration x cpu)"
proof -
  assume inv: "lapic_inv cpu"
  have "x AND 3 = take_bit 2 x" by (rule bit_word_eqI) (auto simp: bit_simps bit_mask_literals)
  moreover have "unat (take_bit 2 x) < 2 ^ 2" unfolding unsigned_take_bit_eq by (rule take_bit_nat_less_exp)
  ultimately have "unat (x AND 3) < 4" by simp
  then have "unat (x AND 3) \<in> {0, 1, 2, 3}" by auto
  then have a: "x AND 3 \<in> {0, 1, 2, 3}" by (auto simp: word_unat_eq_iff)
  have "x AND push_bit 3 1 = (if bit x 3 then push_bit 3 1 else 0)"
    by (rule bit_word_eqI) (auto simp: bit_simps bit_1_iff simp del: push_bit_of_1)
  then have b: "x AND 8 \<in> {0, 8}" by (auto split: if_splits)
  let ?v = "drop_bit 1 (x AND 8) OR (x AND 3)"
  have "(if ?v = 7 then 1 else push_bit (unat ?v) 2) \<in> divide_factors"
    using a b by (elim insertE emptyE) (simp_all add: divide_factors_def)
  then show ?thesis unfolding set_divide_configuration_def Let_def
    using inv by (intro plain_upd_inv) (simp_all add: prio_def lapic_typed_def tpr_ok_def)
qed


lemma lvt_mask_bit16: "i < 6 \<Longrightarrow> bit (lvt_mask i) 16"
proof -
  assume "i < 6"
  moreover have "\<forall>i \<in> set [0..<6]. bit (lvt_mask i) 16" by code_simp
  ultimately show ?thesis by simp
qed

lemma bit_0x10000: "bit (0x10000 :: Bit32u) n \<longleftrightarrow> n = 16"
proof -
  have "(0x10000 :: Bit32u) = push_bit 16 1" by simp
  then show ?thesis by (simp only: bit_push_bit_iff bit_1_iff) auto
qed

lemma bit_or_0x10000: "bit (v OR 0x10000) n \<longleftrightarrow> bit v n \<or> n = 16" for v :: Bit32u
  by (simp only: bit_or_iff bit_0x10000)

lemma lvt_values:
  assumes "i < 6"
  shows "v AND NOT (lvt_mask i) = 0 \<Longrightarrow> (v OR 0x10000) AND NOT (lvt_mask i) = 0"
    "(v AND lvt_mask i) AND NOT (lvt_mask i) = 0" "((v AND lvt_mask i) OR 0x10000) AND NOT (lvt_mask i) = 0"
    "bit (v OR 0x10000) 16"
proof -
  show a: "(v OR 0x10000) AND NOT (lvt_mask i) = 0" if "v AND NOT (lvt_mask i) = 0" for v
    using that lvt_mask_bit16 [OF assms]
    by (simp only: word_and_0_iff bit_or_0x10000 bit_not_iff) (auto simp: possible_bit_def)
  show b: "(v AND lvt_mask i) AND NOT (lvt_mask i) = 0" by (auto simp: word_and_0_iff bit_simps)
  show "((v AND lvt_mask i) OR 0x10000) AND NOT (lvt_mask i) = 0" by (rule a [OF b])
  show "bit (v OR 0x10000) 16" by (simp add: bit_or_0x10000)
qed

lemma set_lvt_entry_inv:
  assumes "lapic_inv (fst st)" "drop_bit 4 (r - 0x320) < 6"
  shows "lapic_inv (fst (set_lvt_entry conf r v st))"
proof -
  let ?i = "unat (drop_bit 4 (r - 0x320))"
  have i: "?i < 6" using assms(2) by (simp add: word_less_nat_alt)
  define w where "w = (if r = 0x320 \<and> \<not> isa_tsc_deadline conf then v AND NOT 0x40000 else v)"
  define f where "f = (\<lambda>la :: bx_local_apic_c. la\<lparr>lvt := (lvt la)(?i := (if software_enabled la then w AND lvt_mask ?i
      else (w AND lvt_mask ?i) OR 0x10000))\<rparr>)"
  define st1 where "st1 = (if r = 0x320 \<and> isa_tsc_deadline conf \<and> (w XOR lvt (lapic (fst st)) ?i) AND 0x40000 \<noteq> 0
    then stop_timer st else st)"
  have st1: "set_lvt_entry conf r v st = (upd_lapic f (fst st1), snd st1)"
    unfolding set_lvt_entry_def Let_def w_def f_def st1_def case_prod_beta by (rule refl)
  have "lapic_inv (fst st1)" unfolding st1_def using assms(1) stop_timer_inv by simp
  moreover have "lapic_typed (f la)" if "lapic_typed la" for la
    using that lvt_values [OF i] by (auto simp: lapic_typed_def tpr_ok_def f_def)
  ultimately have "lapic_inv (upd_lapic f (fst st1))" by (intro plain_upd_inv) (auto simp: prio_def f_def)
  with st1 show ?thesis by simp
qed

lemma spurious_inv: "lapic_inv cpu \<Longrightarrow> lapic_inv (write_spurious_interrupt_register v cpu)"
  unfolding write_spurious_interrupt_register_def Let_def
  by (rule plain_upd_inv) (auto simp: prio_def lapic_typed_def tpr_ok_def lvt_values bit_or_0x10000)

lemma ier_write_inv: "lapic_inv cpu \<Longrightarrow> lapic_inv (upd_lapic (\<lambda>la. la\<lparr>ier_apic :=
    fold (\<lambda>i arr. if bit v i then arr(n + i := 1) else arr) xs (ier_apic la)\<rparr>) cpu)"
proof -
  assume inv: "lapic_inv cpu"
  have "fold (\<lambda>i arr. if bit v i then arr(n + i := 1) else arr) xs (\<lambda>_. 1) = (\<lambda>_. 1 :: Bit8u)"
    by (induction xs) (auto simp: fun_upd_idem)
  moreover have "ier_apic (lapic cpu) = (\<lambda>_. 1)" using inv by (simp add: lapic_inv_def lapic_typed_def)
  ultimately show ?thesis using inv by (intro upd_lapic_inv) (auto simp: prio_def lapic_inv_def lapic_typed_def tpr_ok_def)
qed

lemma on_cpu_inv: "lapic_inv (f (fst st)) \<Longrightarrow> lapic_inv (fst (on_cpu f st))"
  by simp

lemma icr_value: "\<not> bit (v AND NOT (push_bit 12 1)) 12" "(v AND 0xff000000) AND 0xffffff = 0" for v :: Bit32u
proof -
  show "\<not> bit (v AND NOT (push_bit 12 1)) 12" by (simp add: bit_simps bit_1_iff del: push_bit_of_1)
  have "(0xff000000 :: Bit32u) AND 0xffffff = 0" by code_simp
  then show "(v AND 0xff000000) AND 0xffffff = 0" by (simp only: and.assoc and_zero_eq)
qed

lemma register_updates_inv:
  assumes "lapic_inv cpu"
  shows "lapic_inv (upd_lapic (\<lambda>la. la\<lparr>lapic_ldr := a\<rparr>) cpu)"
    "lapic_inv (upd_lapic (\<lambda>la. la\<lparr>dest_format := drop_bit 28 v AND 0xf\<rparr>) cpu)"
    "lapic_inv (upd_lapic (\<lambda>la. la\<lparr>error_status := shadow_error_status la, shadow_error_status := 0\<rparr>) cpu)"
    "lapic_inv (upd_lapic (\<lambda>la. la\<lparr>icr_lo := v AND NOT (push_bit 12 1)\<rparr>) cpu)"
    "lapic_inv (upd_lapic (\<lambda>la. la\<lparr>icr_hi := v AND 0xff000000\<rparr>) cpu)"
    "lapic_inv (upd_lapic (\<lambda>la. la\<lparr>timer_divconf := a\<rparr>) cpu)"
    "lapic_inv (upd_lapic (\<lambda>la. la\<lparr>xapic_ext := v AND 3\<rparr>) cpu)"
  using assms icr_value
  by (intro plain_upd_inv; simp add: prio_def lapic_typed_def tpr_ok_def word_and_le1 del: push_bit_of_1)+

lemma lvt_index: "0x320 \<le> r \<Longrightarrow> r \<le> 0x370 \<Longrightarrow> drop_bit 4 (r - 0x320) < 6" for r :: Bit32u
proof -
  assume r: "0x320 \<le> r" "r \<le> 0x370"
  then have "unat (r - 0x320) = unat r - 800" by (simp add: unat_sub word_le_nat_alt)
  then have "unat (r - 0x320) \<le> 80" using r(2) by (simp add: word_le_nat_alt)
  moreover have "unat (drop_bit 4 (r - 0x320)) = unat (r - 0x320) div 16" 
    by (simp add: drop_bit_eq_div unat_div)
  ultimately show ?thesis by (simp add: word_less_nat_alt)
qed

lemma write_aligned_inv: "lapic_inv (fst st) \<Longrightarrow> lapic_inv (fst (write_aligned conf addr v st))"
  unfolding write_aligned_def Let_def
  by (intro if_pred [where Q = "\<lambda>x. lapic_inv (fst x)"] on_cpu_inv register_updates_inv divide_typed EOI_inv set_tpr_inv spurious_inv lapic_error_inv
      ier_write_inv set_lvt_entry_inv timer_ops_inv lvt_index)
    (simp_all add: send_ipi_inv register_updates_inv del: push_bit_of_1)


lemma write_x2apic_inv: "lapic_inv (fst st) \<Longrightarrow> lapic_inv (fst (fst (write_x2apic conf i hi lo st)))"
  unfolding write_x2apic_def Let_def
  by (simp add: write_aligned_inv trigger_inv send_ipi_inv)

lemma lapic_read_inv:
  "lapic_inv (fst st) \<Longrightarrow> lapic_inv (fst (fst (read_aligned conf addr st)))"
  "lapic_inv (fst st) \<Longrightarrow> lapic_inv (fst (fst (read_x2apic conf i st)))"
proof -
  assume inv: "lapic_inv (fst st)"
  show r: "lapic_inv (fst (fst (read_aligned conf a st)))" for a
    unfolding read_aligned_def Let_def by (simp add: inv lapic_error_inv timer_ops_inv)
  show "lapic_inv (fst (fst (read_x2apic conf i st)))"
    unfolding read_x2apic_def Let_def using inv r by (simp add: case_prod_beta)
qed

lemma stop_timers_events:
  "events (fst (stop_timer st)) = events (fst st)" "events (fst (deactivate_vmx_preemption_timer st)) = events (fst st)"
  "events (fst (deactivate_mwaitx_timer st)) = events (fst st)"
  by (simp_all add: stop_timer_def deactivate_vmx_preemption_timer_def deactivate_mwaitx_timer_def case_prod_beta)

lemma reset_inv: "events_ok (events (fst st)) \<Longrightarrow> lapic_inv (fst (lapic_reset st))"
proof -
  have "(0x10000 :: Bit32u) AND NOT (lvt_mask i) = 0" if "i < 6" for i
    using lvt_values(1) [OF that, of 0] by simp
  moreover assume "events_ok (events (fst st))"
  ultimately show ?thesis
    unfolding lapic_reset_def Let_def case_prod_beta fst_conv
    by (simp add: lapic_inv_def no_lost_def stop_timers_events lapic_typed_def tpr_ok_def divide_factors_def bit_0x10000
        deliverable_vec_def ready_def)
qed

inductive lapic_step :: "lapic_conf \<Rightarrow> lapic_state \<Rightarrow> lapic_state \<Rightarrow> bool" for conf where
  step_write: "lapic_write conf addr v len st = Some st' \<Longrightarrow> lapic_step conf st st'"
| step_read: "lapic_step conf st (fst (lapic_read conf addr len st))"
| step_wrmsr: "lapic_step conf st (fst (write_x2apic conf i hi lo st))"
| step_rdmsr: "lapic_step conf st (fst (read_x2apic conf i st))"
| step_message: "lapic_step conf (cpu, pc) (fst (apic_bus_deliver_interrupt conf v d dm lg tm cpu), pc)"
| step_untrigger: "lapic_step conf (cpu, pc) (untrigger_irq v cpu, pc)"
| step_cr8: "lapic_step conf (cpu, pc) (set_tpr pr cpu, pc)"
| step_ack: "is_pending BX_EVENT_PENDING_LAPIC_INTR (events cpu) \<Longrightarrow> lapic_step conf (cpu, pc) (fst (acknowledge_int cpu), pc)"
| step_timer: "lapic_step conf st (lapic_periodic st)"
| step_deadline: "lapic_step conf st (set_tsc_deadline t st)"
| step_preemption: "lapic_step conf st (set_vmx_preemption_timer n st)"
| step_preempted: "lapic_step conf st (vmx_preemption_timer_expired st)"
| step_mwaitx: "lapic_step conf st (set_mwaitx_timer n st)"
| step_mwaitx_end: "lapic_step conf st (mwaitx_timer_expired st)"
| step_base: "lapic_step conf (cpu, pc) (set_base b cpu, pc)"
| step_extend: "lapic_step conf (cpu, pc) (enable_xapic_extensions cpu, pc)"
| step_reset: "lapic_step conf st (lapic_reset st)"
| step_tick: "lapic_step conf (cpu, pc) (cpu, pc')"

lemma lapic_step_inv: "lapic_step conf st st' \<Longrightarrow> lapic_inv (fst st) \<Longrightarrow> lapic_inv (fst st')"
proof (induction rule: lapic_step.induct)
  case (step_write addr v len st st')
  then show ?case by (auto simp: lapic_write_def write_aligned_inv split: if_splits)
next
  case (step_read st addr len)
  then show ?case by (auto simp: lapic_read_def Let_def case_prod_beta lapic_read_inv)
next
  case (step_base cpu pc b)
  then show ?case unfolding set_base_def fst_conv by (rule plain_upd_inv) (auto simp: prio_def lapic_typed_def tpr_ok_def)
next
  case (step_extend cpu pc)
  then show ?case unfolding enable_xapic_extensions_def fst_conv by (rule plain_upd_inv) (auto simp: prio_def lapic_typed_def tpr_ok_def)
next
  case (step_reset st)
  then show ?case using reset_inv [of st] by (simp add: lapic_inv_def [of "fst st"])
qed (simp_all add: write_x2apic_inv lapic_read_inv bus_inv untrigger_inv set_tpr_inv acknowledge_inv timer_ops_inv)


interpretation lapic_runs: kept_invariant "lapic_step conf" "\<lambda>st. lapic_inv (fst st)" for conf
  by unfold_locales (rule lapic_step_inv)

text \<open>
  C22: no interrupt is lost. After a reset and any sequence of register accesses, messages,
  acknowledge cycles and timer callbacks, a request whose class is above the task priority and above
  everything in service has the local APIC's event pending; unless that event is masked, the CPU loop
  is told to look.
\<close>

theorem lapic_no_lost_interrupt:
  assumes "events_ok (events (fst st))" "(lapic_step conf)\<^sup>*\<^sup>* (lapic_reset st) st'" "deliverable_vec (lapic (fst st')) v"
  shows "is_pending BX_EVENT_PENDING_LAPIC_INTR (events (fst st')) \<and>
    (\<not> is_masked_event BX_EVENT_PENDING_LAPIC_INTR (events (fst st')) \<longrightarrow> async_event (events (fst st')) \<noteq> 0)"
proof -
  have inv: "lapic_inv (fst st')" using lapic_runs.run_keeps [OF assms(2)] reset_inv [OF assms(1)] by simp
  then have p: "is_pending BX_EVENT_PENDING_LAPIC_INTR (events (fst st'))"
    using assms(3) by (auto simp: lapic_inv_def no_lost_def)
  have "unmasked_events_pending (events (fst st')) \<noteq> 0" if "\<not> is_masked_event BX_EVENT_PENDING_LAPIC_INTR (events (fst st'))"
    using p that by (auto simp: is_pending_def is_masked_event_def deliverable_iff word_and_0_iff)
  with inv p show ?thesis by (auto simp: lapic_inv_def events_ok_def)
qed

text \<open>
  C37: the registers keep their types. After a reset and any sequence of operations the task priority
  has 8 bits, the divide factor is a power of two up to 128 (so the count never divides by zero),
  table entries have only defined bits, a software-disabled unit masks every entry, the reserved bits of the
  command register are clear, and every vector is enabled: a written enable register never disables one.
\<close>

theorem lapic_registers_typed:
  assumes "events_ok (events (fst st))" "(lapic_step conf)\<^sup>*\<^sup>* (lapic_reset st) st'"
  defines "la \<equiv> lapic (fst st')"
  shows "unat (task_priority la) < 256 \<and> ier_apic la = (\<lambda>_. 1) \<and> timer_divide_factor la \<in> {1, 2, 4, 8, 16, 32, 64, 128} \<and>
     (\<forall>i < 6. lvt la i AND NOT (lvt_mask i) = 0) \<and> (\<not> software_enabled la \<longrightarrow> (\<forall>i < 6. bit (lvt la i) 16)) \<and>
     xapic_ext la \<le> 3 \<and> dest_format la \<le> 15 \<and> \<not> bit (icr_lo la) 12 \<and> icr_hi la AND 0xffffff = 0"
  using lapic_runs.run_keeps [OF assms(2)] reset_inv [OF assms(1)]
  by (simp add: la_def lapic_inv_def lapic_typed_def tpr_ok_def divide_factors_def)


text \<open>A local APIC with vectors 31h, 45h and 52h requested and 41h in service.\<close>

definition wit_apic_cpu :: BX_CPU_C where
  "wit_apic_cpu = wit_bx_cpu\<lparr>lapic := wit_lapic\<lparr>irr_apic := (\<lambda>_. 0)(0x31 := 1, 0x45 := 1, 0x52 := 1), isr_apic := (\<lambda>_. 0)(0x41 := 1)\<rparr>\<rparr>"

lemma wit_apic_best: "deliverable_vec (lapic wit_apic_cpu) v \<longleftrightarrow> v = 0x52"
  by (auto simp: wit_apic_cpu_def wit_bx_cpu_def wit_lapic_def deliverable_vec_def ready_def tpr_class_def)



definition wit_lapic_conf :: lapic_conf where
  "wit_lapic_conf = \<lparr>isa_xapic_ext = False, isa_tsc_deadline = True, apic_id_mask = 0xff\<rparr>"

lemma wit_reset:
  "events_ok (events (fst (wit_bx_cpu, wit_pc)))"
  "lapic (fst (lapic_reset (wit_bx_cpu, wit_pc))) = wit_lapic\<lparr>task_priority := 0, software_enabled := False\<rparr>"
proof -
  show "events_ok (events (fst (wit_bx_cpu, wit_pc)))" unfolding events_ok_def wit_bx_cpu_def by code_simp
  show "lapic (fst (lapic_reset (wit_bx_cpu, wit_pc))) = wit_lapic\<lparr>task_priority := 0, software_enabled := False\<rparr>"
    by (simp add: lapic_reset_def deactivate_mwaitx_timer_def deactivate_vmx_preemption_timer_def stop_timer_def wit_bx_cpu_def wit_lapic_def)
qed

lemma self_ipi_msr: "write_x2apic conf 0x83f 0 v st = (on_cpu (trigger_irq (ucast (v AND 0xff)) 0 False) st, True)"
  by (simp add: write_x2apic_def x2apic_register_def)

theorem lapic_no_lost_interrupt_witness:
  "is_pending BX_EVENT_PENDING_LAPIC_INTR (events (fst (fst (write_x2apic wit_lapic_conf 0x83f 0 0x31 (lapic_reset (wit_bx_cpu, wit_pc))))))"
proof -
  let ?st = "lapic_reset (wit_bx_cpu, wit_pc)"
  let ?st' = "fst (write_x2apic wit_lapic_conf 0x83f 0 0x31 ?st)"
  have "(lapic_step wit_lapic_conf)\<^sup>*\<^sup>* ?st ?st'" by (intro r_into_rtranclp step_wrmsr)
  moreover have "deliverable_vec (lapic (fst ?st')) 0x31"
    using wit_reset(2) by (simp add: self_ipi_msr trigger_irq_def deliverable_vec_def ready_def tpr_class_def wit_lapic_def)
  ultimately show ?thesis using lapic_no_lost_interrupt [OF wit_reset(1)] by blast
qed

theorem lapic_registers_typed_witness:
  "timer_divide_factor (lapic (fst (write_aligned wit_lapic_conf 0xfee003e0 0xf (lapic_reset (wit_bx_cpu, wit_pc))))) \<in> {1, 2, 4, 8, 16, 32, 64, 128}"
proof -
  let ?st = "lapic_reset (wit_bx_cpu, wit_pc)"
  have "lapic_write wit_lapic_conf 0xfee003e0 0xf 4 ?st = Some (write_aligned wit_lapic_conf 0xfee003e0 0xf ?st)"
    by (simp add: lapic_write_def)
  then have "(lapic_step wit_lapic_conf)\<^sup>*\<^sup>* ?st (write_aligned wit_lapic_conf 0xfee003e0 0xf ?st)"
    by (intro r_into_rtranclp step_write)
  from lapic_registers_typed [OF wit_reset(1) this] show ?thesis by blast
qed

subsection \<open>One interrupt from request to end\<close>

text \<open>
  One interrupt from request to end. A vector above everything requested, in service and the task
  priority raises the event, is the one acknowledged, is then in service, and its end of interrupt
  restores the requests and services of before; the bus hears of the end exactly when it was level triggered.
\<close>

theorem lapic_interrupt_cycle:
  fixes vector tm :: Bit8u
  assumes "tpr_ok (lapic cpu)" "ier_apic (lapic cpu) = (\<lambda>_. 1)" "0x10 \<le> vector" "\<not> lapic_requested (lapic cpu) (unat vector)"
    "tpr_class (lapic cpu) < unat vector div 16" "\<forall>u. lapic_in_service (lapic cpu) u \<longrightarrow> u div 16 < unat vector div 16"
    "\<forall>u. lapic_requested (lapic cpu) u \<longrightarrow> u < unat vector" "vector \<noteq> spurious_vector (lapic cpu)"
  defines "c1 \<equiv> trigger_irq vector tm False cpu"
  defines "c2 \<equiv> fst (acknowledge_int c1)"
  defines "c3 \<equiv> receive_EOI c2"
  shows "is_pending BX_EVENT_PENDING_LAPIC_INTR (events c1) \<and> snd (acknowledge_int c1) = vector \<and> lapic_in_service (lapic c2) (unat vector) \<and>
    \<not> lapic_requested (lapic c2) (unat vector) \<and> abs_of (lapic c3) = abs_of (lapic cpu) \<and>
    bus_eois (lapic c3) = bus_eois (lapic cpu) @ (if tm \<noteq> 0 then [unat vector] else [])"
proof -
  let ?v = "unat vector" and ?la = "lapic cpu"
  have v: "16 \<le> ?v" "?v < 256" using assms(3) unat_less_exp [of vector] by (simp_all add: word_le_nat_alt)
  have irr0: "irr_apic ?la ?v = 0" using assms(2,4) v by (simp add: ready_def)
  have c1: "c1 = service_local_apic (upd_lapic (\<lambda>la. la\<lparr>irr_apic := (irr_apic la)(?v := 1), tmr_apic := (tmr_apic la)(?v := tm)\<rparr>) cpu)"
    using assms(3) irr0 by (simp add: c1_def trigger_irq_def not_less)
  have t1: "tpr_ok (lapic c1)" using assms(1) by (simp add: c1 tpr_ok_def)
  have d: "deliverable_vec (lapic c1) ?v" "\<forall>u. deliverable_vec (lapic c1) u \<longrightarrow> u \<le> ?v"
    using assms(2,5,6,7) v by (auto simp: c1 deliverable_vec_def ready_def tpr_class_def less_imp_le)
  have "no_lost c1" unfolding c1 using assms(1) by (intro service_no_lost) (simp add: tpr_ok_def)
  then have p: "is_pending BX_EVENT_PENDING_LAPIC_INTR (events c1)" using d(1) by (auto simp: no_lost_def)
  note ack = acknowledge_cases(2) [OF t1 d]
  have la2: "lapic c2 = (lapic c1)\<lparr>irr_apic := (irr_apic (lapic c1))(?v := 0), isr_apic := (isr_apic (lapic c1))(?v := 1)\<rparr>"
    unfolding c2_def ack by simp
  have hi: "highest_priority_int (isr_apic (lapic c2)) (lapic c2) = Some ?v"
    using assms(2,6) v unfolding highest_Some la2 c1
    by (auto simp: ready_def less_imp_le)
  have "unat (spurious_vector (lapic c2)) \<noteq> ?v" using assms(8) by (simp add: la2 c1 word_unat_eq_iff)
  then have c3: "c3 = end_interrupt ?v c2" by (simp add: c3_def receive_EOI_def hi)
  have isr0: "isr_apic ?la ?v = 0" using assms(2,6) v by (auto simp: ready_def)
  have "bus_eois (lapic c3) = bus_eois ?la @ (if tm \<noteq> 0 then [?v] else [])"
    by (simp add: c3 end_interrupt_def Let_def la2 c1)
  moreover have "reqs (abs_of (lapic c3)) = reqs (abs_of ?la)" "servs (abs_of (lapic c3)) = servs (abs_of ?la)"
    "pclass (abs_of (lapic c3)) = pclass (abs_of ?la)"
    using irr0 isr0 unfolding c3 end_interrupt_abs by (auto simp: la2 c1 abs_of_def ready_def tpr_class_def)
  ultimately have "abs_of (lapic c3) = abs_of ?la" "bus_eois (lapic c3) = bus_eois ?la @ (if tm \<noteq> 0 then [?v] else [])" by simp_all
  moreover have "lapic_in_service (lapic c2) ?v" "\<not> lapic_requested (lapic c2) ?v" using assms(2) v by (simp_all add: la2 c1 ready_def)
  moreover have "snd (acknowledge_int c1) = vector" unfolding ack by simp
  ultimately show ?thesis using p by blast
qed


theorem lapic_interrupt_cycle_witness:
  "snd (acknowledge_int (trigger_irq 0x61 1 False wit_apic_cpu)) = 0x61 \<and>
   bus_eois (lapic (receive_EOI (fst (acknowledge_int (trigger_irq 0x61 1 False wit_apic_cpu))))) = [0x61]"
proof -
  have "tpr_ok (lapic wit_apic_cpu)" "ier_apic (lapic wit_apic_cpu) = (\<lambda>_. 1)" "\<not> lapic_requested (lapic wit_apic_cpu) (unat (0x61 :: Bit8u))"
    "tpr_class (lapic wit_apic_cpu) < unat (0x61 :: Bit8u) div 16" "bus_eois (lapic wit_apic_cpu) = []"
    "\<forall>u. lapic_in_service (lapic wit_apic_cpu) u \<longrightarrow> u div 16 < unat (0x61 :: Bit8u) div 16"
    "\<forall>u. lapic_requested (lapic wit_apic_cpu) u \<longrightarrow> u < unat (0x61 :: Bit8u)" "0x61 \<noteq> spurious_vector (lapic wit_apic_cpu)"
    by (auto simp: wit_apic_cpu_def wit_bx_cpu_def wit_lapic_def tpr_ok_def ready_def tpr_class_def split: if_splits)
  with lapic_interrupt_cycle [of wit_apic_cpu "0x61" 1] show ?thesis by simp
qed

subsection \<open>The timer\<close>

lemma divide_factor_bounds: "d \<in> divide_factors \<Longrightarrow> 1 \<le> unat d \<and> unat d \<le> 128"
  by (auto simp: divide_factors_def)

text \<open>
  The timer. Writing an initial count n arms the system timer n times the divide factor ahead, and
  t ticks later, before it fires, the current count reads n minus t divided by the divide factor.
\<close>

theorem lapic_timer_count:
  fixes n :: Bit32u
  assumes "lapic_typed (lapic cpu)" "lvt (lapic cpu) APIC_LVT_TIMER AND 0x40000 = 0" "n \<noteq> 0"
    "t < unat n * unat (timer_divide_factor (lapic cpu))" "time_ticks pc' = time_ticks pc + of_nat t"
  shows "let (cpu1, pc1) = set_initial_timer_count n (cpu, pc) in
    timeToFire (timer pc1 (timer_handle (lapic cpu))) = time_ticks pc + of_nat (unat n * unat (timer_divide_factor (lapic cpu))) \<and>
    active (timer pc1 (timer_handle (lapic cpu))) \<and>
    unat (snd (get_current_timer_count (cpu1, pc'))) = unat n - t div unat (timer_divide_factor (lapic cpu))"
proof -
  let ?d = "timer_divide_factor (lapic cpu)"
  have d: "1 \<le> unat ?d" "unat ?d \<le> 128" using assms(1) divide_factor_bounds by (auto simp: lapic_typed_def)
  have n32: "unat n < 4294967296" using unat_less_exp [of n] by simp
  have "unat n * unat ?d \<le> 4294967296 * 128" using d n32 by (intro mult_mono) auto
  then have prod: "unat n * unat ?d < 2 ^ 64" and t64: "t < 2 ^ 64" using assms(4) by simp_all
  obtain cpu1 pc1 where s: "stop_timer (cpu, pc) = (cpu1, pc1)" by fastforce
  have st: "lapic cpu1 = (lapic cpu)\<lparr>timer_active := False\<rparr> \<or> lapic cpu1 = lapic cpu" "time_ticks pc1 = time_ticks pc"
    using s by (auto simp: stop_timer_def deactivate_timer_def time_ticks_def split: if_splits)
  have fld: "timer_divide_factor (lapic cpu1) = ?d" "timer_handle (lapic cpu1) = timer_handle (lapic cpu)"
    "lvt (lapic cpu1) = lvt (lapic cpu)" using st(1) by auto
  have un: "unat (ucast n * ucast ?d :: Bit64u) = unat n * unat ?d" using prod by (simp add: unat_word_ariths unat_ucast_up)
  have big: "(ucast n * ucast ?d :: Bit64u) = of_nat (unat n * unat ?d)" by simp
  have "0 < unat n" using assms(3) by (simp add: unat_gt_0)
  then have "1 \<le> unat n * unat ?d" using d(1) by simp
  then have pos: "\<not> (ucast n * ucast ?d :: Bit64u) < 1" by (simp only: word_less_nat_alt un unat_1 not_less)
  define c where "c = upd_lapic (\<lambda>la. la\<lparr>timer_initial := n, timer_current := n, timer_active := True, ticksInitial := time_ticks pc\<rparr>) cpu1"
  define q where "q = activate_timer_ticks (timer_handle (lapic cpu)) (ucast n * ucast ?d) False pc1"
  have set: "set_initial_timer_count n (cpu, pc) = (c, q)"
    using assms(2,3) s st(2) fld by (simp add: set_initial_timer_count_def start_timer_def c_def q_def)
  have "timeToFire (timer q (timer_handle (lapic cpu))) = time_ticks pc + ucast n * ucast ?d"
    "active (timer q (timer_handle (lapic cpu)))"
    using pos st(2) by (simp_all add: q_def activate_timer_ticks_def Let_def)
  then have tf: "timeToFire (timer q (timer_handle (lapic cpu))) = time_ticks pc + of_nat (unat n * unat ?d)"
    "active (timer q (timer_handle (lapic cpu)))" by (simp_all only: big)
  have delta: "unat (of_nat t div ucast ?d :: Bit64u) = t div unat ?d"
    using t64 by (simp add: unat_div unat_of_nat unat_ucast_up)
  have lt: "t div unat ?d < unat n" using assms(4) by (simp add: less_mult_imp_div_less)
  have d32: "unat (ucast (of_nat t div ucast ?d :: Bit64u) :: Bit32u) = t div unat ?d"
    using delta lt n32 by (simp only: unsigned_ucast_eq) (simp add: take_bit_nat_eq_self)
  have cur: "snd (get_current_timer_count (c, pc')) = n - ucast (of_nat t div ucast ?d :: Bit64u)"
    using assms(2,5) fld by (simp add: get_current_timer_count_def c_def Let_def)
  have "unat (n - ucast (of_nat t div ucast ?d :: Bit64u)) = unat n - t div unat ?d"
    using d32 lt by (simp add: unat_sub word_le_nat_alt)
  with tf cur show ?thesis unfolding set Let_def prod.case by (simp only:)
qed


theorem lapic_timer_count_witness:
  "unat (snd (get_current_timer_count (fst (set_initial_timer_count 100 (wit_bx_cpu, wit_pc)), wit_pc\<lparr>ticksTotal := ticksTotal wit_pc + 30\<rparr>))) = 70"
proof -
  have la: "lapic wit_bx_cpu = wit_lapic" by (simp add: wit_bx_cpu_def)
  have "(0x10000 :: Bit32u) AND NOT (lvt_mask i) = 0" if "i < 6" for i using lvt_values(1) [OF that, of 0] by simp
  then have "lapic_typed (lapic wit_bx_cpu)" unfolding la
    by (simp add: lapic_typed_def wit_lapic_def tpr_ok_def divide_factors_def)
  moreover have "lvt (lapic wit_bx_cpu) 0 AND 0x40000 = 0" "timer_divide_factor (lapic wit_bx_cpu) = 1"
    by (simp_all add: la wit_lapic_def)
  moreover have "time_ticks (wit_pc\<lparr>ticksTotal := ticksTotal wit_pc + 30\<rparr>) = time_ticks wit_pc + of_nat 30"
    by (simp add: time_ticks_def)
  ultimately show ?thesis
    using lapic_timer_count [of wit_bx_cpu "100" 30 "wit_pc\<lparr>ticksTotal := ticksTotal wit_pc + 30\<rparr>" wit_pc]
    by (simp add: Let_def case_prod_beta)
qed

subsection \<open>Refused accesses\<close>

definition err7 :: "BX_CPU_C \<Rightarrow> bool" where
  "err7 cpu \<longleftrightarrow> bit (shadow_error_status (lapic cpu)) 7"

lemma err7_error: "e = 0x04 \<or> e = 0x40 \<Longrightarrow> err7 (lapic_error e cpu) = err7 cpu"
  by (auto simp: err7_def lapic_error_def bit_or_iff)

lemma err7_ops:
  "err7 (service_local_apic cpu) = err7 cpu" "err7 (trigger_irq v tm byp cpu) = err7 cpu" "err7 (set_tpr pr cpu) = err7 cpu"
  "err7 (receive_EOI cpu) = err7 cpu" "err7 (write_spurious_interrupt_register w cpu) = err7 cpu"
  "err7 (fst (deliver v dm tm cpu)) = err7 cpu"
proof -
  show a: "err7 (service_local_apic cpu) = err7 cpu" for cpu by (simp add: err7_def)
  show b: "err7 (trigger_irq v tm byp cpu) = err7 cpu" for byp
    by (auto simp: trigger_irq_def a err7_error) (simp_all add: err7_def)
  show "err7 (set_tpr pr cpu) = err7 cpu" by (simp add: set_tpr_def Let_def a) (simp add: err7_def)
  show "err7 (receive_EOI cpu) = err7 cpu"
    by (simp add: receive_EOI_def end_interrupt_def Let_def a split: option.split) (simp add: err7_def)
  show "err7 (write_spurious_interrupt_register w cpu) = err7 cpu"
    by (simp add: write_spurious_interrupt_register_def Let_def err7_def)
  show "err7 (fst (deliver v dm tm cpu)) = err7 cpu"
    by (simp add: deliver_def deliver_INIT_def b) (simp add: err7_def)
qed

lemma err7_ipi: "err7 (send_ipi conf d lo cpu) = err7 cpu"
proof -
  have l: "err7 (fst (apic_bus_deliver_lowest_priority v d tm bc cpu)) = err7 cpu" for v d tm bc
    by (simp add: apic_bus_deliver_lowest_priority_def Let_def err7_ops)
  have b: "err7 (fst (apic_bus_broadcast_interrupt v dm tm ex cpu)) = err7 cpu" for v dm tm ex
    by (simp add: apic_bus_broadcast_interrupt_def l err7_ops)
  have i: "err7 (fst (apic_bus_deliver_interrupt conf v d dm lg tm cpu)) = err7 cpu" for v d dm lg tm
    by (simp add: apic_bus_deliver_interrupt_def l b err7_ops)
  show ?thesis unfolding send_ipi_def Let_def by (simp add: case_prod_beta err7_error l b i err7_ops)
qed

lemma err7_timers:
  "err7 (fst (stop_timer st)) = err7 (fst st)" "err7 (fst (set_initial_timer_count n st)) = err7 (fst st)"
  "err7 (fst (set_lvt_entry conf r v st)) = err7 (fst st)" "err7 (set_divide_configuration v cpu) = err7 cpu"
  "err7 (fst (fst (get_current_timer_count st))) = err7 (fst st)"
proof -
  show s: "err7 (fst (stop_timer st)) = err7 (fst st)" by (simp add: stop_timer_def err7_def case_prod_beta)
  then have s': "bit (shadow_error_status (lapic (fst (stop_timer st)))) 7 = bit (shadow_error_status (lapic (fst st))) 7"
    by (simp add: err7_def)
  show "err7 (fst (set_initial_timer_count n st)) = err7 (fst st)"
    by (simp add: set_initial_timer_count_def start_timer_def Let_def case_prod_beta err7_def s')
  show "err7 (fst (set_lvt_entry conf r v st)) = err7 (fst st)"
    by (simp add: set_lvt_entry_def Let_def case_prod_beta err7_def s')
  show "err7 (set_divide_configuration v cpu) = err7 cpu" by (simp add: set_divide_configuration_def Let_def err7_def)
  show "err7 (fst (fst (get_current_timer_count st))) = err7 (fst st)"
    by (simp add: get_current_timer_count_def Let_def case_prod_beta err7_def)
qed

lemma x2apic_is_register: "r = push_bit 4 x \<Longrightarrow> r \<le> 0x3f0 \<Longrightarrow> lapic_register conf (ucast r) = r" for r :: Bit32u
proof -
  assume r: "r = push_bit 4 x" "r \<le> 0x3f0"
  have low: "4 \<le> n" if "bit r n" for n using that r(1) by (simp add: bit_simps)
  have "unat r < 2 ^ 10" using r(2) by (simp add: word_le_nat_alt)
  then have high: "n < 10" if "bit r n" for n using that by (rule bit_unat_less)
  have ff0: "bit (0xff0 :: Bit64u) n \<longleftrightarrow> 4 \<le> n \<and> n < 12" for n
  proof -
    have "(0xff0 :: Bit64u) = push_bit 4 (mask 8)" by (simp add: mask_eq_exp_minus_1)
    then show ?thesis by (simp only: bit_push_bit_iff bit_mask_iff) auto
  qed
  have "ucast (ucast r AND 0xff0 :: Bit64u) = r"
  proof (rule bit_word_eqI)
    fix n assume "n < LENGTH(32)"
    then show "bit (ucast (ucast r AND 0xff0 :: Bit64u) :: Bit32u) n = bit r n"
      using low [of n] high [of n] by (simp only: bit_and_iff ff0 bit_unsigned_iff) auto
  qed
  then show ?thesis using r(2) unfolding lapic_register_def Let_def
    by (simp add: word_le_nat_alt)
qed


lemma err7_write:
  fixes r :: Bit32u
  assumes "r = push_bit 4 x" "r \<in> {0x080, 0x0F0, 0x0B0, 0x280, 0x380, 0x3E0} \<or> (0x320 \<le> r \<and> r \<le> 0x370)"
  shows "err7 (fst (write_aligned conf (ucast r) v st)) \<longrightarrow> err7 (fst st)"
proof -
  have "r \<le> 0x3f0" using assms(2) by (auto simp: word_le_nat_alt)
  note reg = x2apic_is_register [OF assms(1) this, of conf]
  have esr: "\<not> err7 (upd_lapic (\<lambda>la. la\<lparr>error_status := shadow_error_status la, shadow_error_status := 0\<rparr>) cpu)" for cpu
    by (simp add: err7_def)
  have upd: "err7 (upd_lapic (timer_divconf_update f) cpu) = err7 cpu" "err7 (upd_lapic (icr_hi_update f) cpu) = err7 cpu"
    "err7 (upd_lapic (icr_lo_update f) cpu) = err7 cpu" "err7 (upd_lapic (dest_format_update f) cpu) = err7 cpu"
    "err7 (upd_lapic (lapic_ldr_update f) cpu) = err7 cpu" for f cpu by (simp_all add: err7_def)
  show ?thesis using assms(2)
    unfolding write_aligned_def Let_def reg by (elim disjE insertE emptyE) (simp_all add: err7_ops err7_timers err7_ipi esr upd)
qed

lemma err7_read:
  fixes r :: Bit32u
  assumes "r = push_bit 4 x"
    "r \<in> {0x030, 0x080, 0x0A0, 0x0F0, 0x280, 0x380, 0x390, 0x3E0} \<or> (0x100 \<le> r \<and> r \<le> 0x270) \<or> (0x320 \<le> r \<and> r \<le> 0x370)"
  shows "err7 (fst (fst (read_aligned conf (ucast r) st))) = err7 (fst st)"
proof -
  have "r \<le> 0x3f0" using assms(2) by (auto simp: word_le_nat_alt)
  note reg = x2apic_is_register [OF assms(1) this, of conf]
  have "16 dvd unat r" unfolding assms(1) by (simp add: push_bit_eq_mult unat_word_ariths dvd_mod)
  then obtain k where k: "unat r = 16 * k" ..
  have gap: "r \<le> 0x170 \<or> 0x180 \<le> r" "r \<le> 0x1F0 \<or> 0x200 \<le> r"
    using k unfolding word_le_nat_alt by simp_all presburger+
  show ?thesis
    unfolding read_aligned_def Let_def reg
  proof (intro if_pred [where Q = "\<lambda>x. err7 (fst (fst x)) = err7 (fst st)"])
    assume "r \<noteq> 0x030" "r \<noteq> 0x080" "r \<noteq> 0x0A0" "r \<noteq> 0x0F0" "\<not> (0x100 \<le> r \<and> r \<le> 0x170)" "\<not> (0x180 \<le> r \<and> r \<le> 0x1F0)"
      "\<not> (0x200 \<le> r \<and> r \<le> 0x270)" "r \<noteq> 0x280" "\<not> (0x320 \<le> r \<and> r \<le> 0x370)" "r \<noteq> 0x380" "r \<noteq> 0x390" "r \<noteq> 0x3E0"
    with gap assms(2) have False by blast
    then show "err7 (fst (fst ((lapic_error 0x80 (fst st), snd st), 0 :: Bit32u))) = err7 (fst st)" ..
  qed (simp_all add: err7_timers)
qed

lemma write_x2apic_state:
  "snd (write_x2apic conf i hi lo st) \<or> fst (write_x2apic conf i hi lo st) = st"
  "err7 (fst (fst (write_x2apic conf i hi lo st))) \<longrightarrow> err7 (fst st)"
proof -
  have r: "x2apic_register i = push_bit 4 (i - 0x800)" by (simp add: x2apic_register_def)
  note legacy = err7_write [OF r, of conf lo st]
  show "snd (write_x2apic conf i hi lo st) \<or> fst (write_x2apic conf i hi lo st) = st"
    unfolding write_x2apic_def Let_def
    by (intro if_pred [where Q = "\<lambda>x. snd x \<or> fst x = st"]) simp_all
  show "err7 (fst (fst (write_x2apic conf i hi lo st))) \<longrightarrow> err7 (fst st)"
    unfolding write_x2apic_def Let_def
    by (intro if_pred [where Q = "\<lambda>x. err7 (fst (fst x)) \<longrightarrow> err7 (fst st)"]) (use legacy in \<open>auto simp: err7_ops err7_ipi\<close>)
qed

lemma read_x2apic_state:
  "snd (read_x2apic conf i st) \<noteq> None \<or> fst (read_x2apic conf i st) = st"
  "err7 (fst (fst (read_x2apic conf i st))) = err7 (fst st)"
proof -
  have r: "x2apic_register i = push_bit 4 (i - 0x800)" by (simp add: x2apic_register_def)
  note legacy = err7_read [OF r, of conf st]
  show "snd (read_x2apic conf i st) \<noteq> None \<or> fst (read_x2apic conf i st) = st"
    unfolding read_x2apic_def Let_def case_prod_beta
    by (intro if_pred [where Q = "\<lambda>x. snd x \<noteq> None \<or> fst x = st"]) simp_all
  show "err7 (fst (fst (read_x2apic conf i st))) = err7 (fst st)"
    unfolding read_x2apic_def Let_def case_prod_beta
    by (intro if_pred [where Q = "\<lambda>x. err7 (fst (fst x)) = err7 (fst st)"]) (simp_all only: legacy fst_conv)
qed

lemma x2apic_icr:
  assumes "i \<noteq> 0x830" "0x800 \<le> i" "i \<le> 0xbff"
  shows "x2apic_register i \<noteq> 0x300"
proof
  assume e: "x2apic_register i = 0x300"
  have k: "unat (i - 0x800) = unat i - 2048" "unat i \<le> 3071" "2048 \<le> unat i"
    using assms by (simp_all add: unat_sub word_le_nat_alt)
  have "unat (push_bit 4 j) = 16 * unat j" if "unat j < 1024" for j :: Bit32u
    using that by (simp add: push_bit_eq_mult unat_word_ariths)
  from this [of "i - 0x800"] have "unat (x2apic_register i) = 16 * unat (i - 0x800)" unfolding x2apic_register_def using k by simp
  with e k have "unat i = unat (0x830 :: Bit32u)" by simp
  with assms(1) show False by (simp add: word_unat_eq_iff)
qed

text \<open>
  Refused x2APIC accesses. A refused read or write changes nothing at all; a write with a high
  half is refused everywhere but at the command register; and no accepted access can
  report an illegal register address.
\<close>

theorem x2apic_refusals:
  assumes "0x800 \<le> i" "i \<le> 0xbff"
  shows "(snd (write_x2apic conf i hi lo st) \<or> fst (write_x2apic conf i hi lo st) = st) \<and>
   (snd (read_x2apic conf i st) \<noteq> None \<or> fst (read_x2apic conf i st) = st) \<and>
   (hi \<noteq> 0 \<and> i \<noteq> 0x830 \<longrightarrow> \<not> snd (write_x2apic conf i hi lo st)) \<and>
   (bit (shadow_error_status (lapic (fst (fst (write_x2apic conf i hi lo st))))) 7 \<longrightarrow> bit (shadow_error_status (lapic (fst st))) 7) \<and>
   (bit (shadow_error_status (lapic (fst (fst (read_x2apic conf i st))))) 7 \<longleftrightarrow> bit (shadow_error_status (lapic (fst st))) 7)"
proof -
  have "\<not> snd (write_x2apic conf i hi lo st)" if "hi \<noteq> 0" "i \<noteq> 0x830"
    using x2apic_icr [OF that(2) assms] that(1) by (simp add: write_x2apic_def)
  then show ?thesis using write_x2apic_state [of conf i hi lo st] read_x2apic_state [of conf i st] unfolding err7_def by blast
qed

theorem x2apic_refusals_witness:
  "fst (write_x2apic wit_lapic_conf 0x808 1 0x20 (wit_bx_cpu, wit_pc)) = (wit_bx_cpu, wit_pc)"
  using x2apic_refusals [of "0x808" wit_lapic_conf 1 "0x20" "(wit_bx_cpu, wit_pc)"] by auto

subsection \<open>Interrupts a processor sends to itself\<close>

lemma vector_fields:
  fixes v :: Bit8u
  shows "8 \<le> k \<Longrightarrow> drop_bit k (ucast v :: Bit32u) = 0" "ucast (ucast v AND 0xff :: Bit32u) = v" "8 \<le> k \<Longrightarrow> \<not> bit (ucast v :: Bit32u) k"
proof -
  show "drop_bit k (ucast v :: Bit32u) = 0" if "8 \<le> k"
    using that by (intro bit_word_eqI) (auto simp: bit_simps dest: bit_imp_le_length)
  show "ucast (ucast v AND 0xff :: Bit32u) = v"
    by (rule bit_word_eqI) (auto simp: bit_simps bit_mask_literals)
  show "\<not> bit (ucast v :: Bit32u) k" if "8 \<le> k" using that by (auto simp: bit_simps dest: bit_imp_le_length)
qed

lemma ipi_fields:
  fixes v :: Bit8u
  assumes "c \<in> {0, 0x40000, 0x80000}"
  shows "drop_bit 18 (ucast v OR c) AND 3 = drop_bit 18 c AND (3 :: Bit32u)" "drop_bit 15 (ucast v OR c) AND 1 = (0 :: Bit32u)"
    "drop_bit 8 (ucast v OR c) AND 7 = (0 :: Bit32u)" "\<not> bit (ucast v OR c :: Bit32u) 11" "ucast ((ucast v OR c) AND 0xff :: Bit32u) = v"
proof -
  have c: "drop_bit 15 c AND 1 = 0" "drop_bit 8 c AND 7 = 0" "\<not> bit c 11" "c AND 0xff = 0" 
    using assms by auto
  show "drop_bit 18 (ucast v OR c) AND 3 = drop_bit 18 c AND 3" by (simp add: vector_fields)
  show "drop_bit 15 (ucast v OR c) AND 1 = 0" using c by (simp add: vector_fields)
  show "drop_bit 8 (ucast v OR c) AND 7 = 0" using c by (simp add: vector_fields)
  show "\<not> bit (ucast v OR c) 11" using c by (simp add: bit_or_iff vector_fields)
  have "(ucast v OR c) AND 0xff = ucast v AND 0xff" using c by (simp add: bit.conj_disj_distrib2)
  then show "ucast ((ucast v OR c) AND 0xff) = v" by (simp only: vector_fields)
qed

text \<open>
  A processor reaches itself equally by the self shorthand, by the shorthand for all, by its own
  physical identifier and by the x2APIC self register.
\<close>

theorem self_interrupt_routes:
  fixes v :: Bit8u
  assumes "apic_id_mask conf \<noteq> 0"
  shows "send_ipi conf d (ucast v OR 0x40000) cpu = trigger_irq v 0 False cpu \<and>
    send_ipi conf d (ucast v OR 0x80000) cpu = trigger_irq v 0 False cpu \<and>
    send_ipi conf (apic_id (lapic cpu)) (ucast v) cpu = trigger_irq v 0 False cpu \<and>
    fst (fst (write_x2apic conf 0x83f 0 (ucast v) (cpu, pc))) = trigger_irq v 0 False cpu"
proof -
  note f = ipi_fields [of "0x40000" v] ipi_fields [of "0x80000" v] ipi_fields [of 0 v, simplified]
  have "send_ipi conf d (ucast v OR 0x40000) cpu = trigger_irq v 0 False cpu"
    unfolding send_ipi_def Let_def by (simp add: f vector_fields)
  moreover have "send_ipi conf d (ucast v OR 0x80000) cpu = trigger_irq v 0 False cpu"
    unfolding send_ipi_def Let_def using assms by (simp add: f vector_fields apic_bus_broadcast_interrupt_def deliver_def)
  moreover have "send_ipi conf (apic_id (lapic cpu)) (ucast v) cpu = trigger_irq v 0 False cpu"
    unfolding send_ipi_def Let_def using assms
    by (simp add: f vector_fields apic_bus_deliver_interrupt_def apic_bus_broadcast_interrupt_def deliver_def)
  ultimately show ?thesis by (simp add: self_ipi_msr vector_fields)
qed

theorem self_interrupt_routes_witness:
  "send_ipi wit_lapic_conf 0 0x40031 wit_bx_cpu = send_ipi wit_lapic_conf 0xff 0x80031 wit_bx_cpu"
  using self_interrupt_routes [of wit_lapic_conf _ "0x31" wit_bx_cpu] by (simp add: wit_lapic_conf_def)

end
