(* ===== verification/EventProps.thy ===== *)
theory EventProps
  imports Event LapicProps
begin

text \<open>
  What happens between two instructions (\<^verbatim>\<open>bochs/cpu/event.cc\<close>) and in the stepping routines of the hypervisor
  glue: which event is taken first and what it does, interrupt shadows, that no event is left pending and
  unnoticed, that stepping the devices ends and moves the clock by the steps asked for, what a halted
  processor does, and the way of a timer interrupt of the local APIC from the register write to its handler.
\<close>

text \<open>No event above the maskable interrupts is pending: traps, SMI, INIT, NMI, VM exits.\<close>

definition none_above :: "BX_CPU_C \<Rightarrow> bool" where
  "none_above cpu \<longleftrightarrow> pending_event (events cpu) AND 0x70F7 = 0"

definition undisturbed :: "'d mstate \<Rightarrow> bool" where
  "undisturbed st \<longleftrightarrow> activity_state (async (cpu_of st)) = BX_ACTIVITY_STATE_ACTIVE \<and> \<not> kill_bochs_request (snd st) \<and> gif st \<and>
     \<not> in_svm_guest (guest (cpu_of st)) \<and> \<not> in_vmx_guest (guest (cpu_of st)) \<and> debug_trap (async (cpu_of st)) = 0"

lemma none_above_bits:
  assumes "pending_event ev AND w = 0" "m AND w = m"
  shows "\<not> is_pending m ev" "\<not> is_unmasked_event_pending m ev"
proof -
  have "\<not> bit (pending_event ev) n" if "bit m n" for n
    using assms that by (metis bit_and_iff bit_0_eq bot_apply bot_bool_def)
  then show "\<not> is_pending m ev" "\<not> is_unmasked_event_pending m ev"
    by (auto simp: is_pending_def is_unmasked_event_pending_def word_and_0_iff bit_and_iff)
qed

lemma none_above_events:
  assumes "none_above cpu"
  shows "\<not> is_unmasked_event_pending 0x7000 (events cpu)" "\<not> is_unmasked_event_pending 2 (events cpu)"
    "\<not> is_unmasked_event_pending 4 (events cpu)" "\<not> is_unmasked_event_pending 0x10 (events cpu)"
    "\<not> is_unmasked_event_pending 0x20 (events cpu)" "\<not> is_unmasked_event_pending 0x80 (events cpu)"
    "\<not> is_unmasked_event_pending 1 (events cpu)" "\<not> is_pending 0x40 (events cpu)"
  using assms none_above_bits [of "events cpu" "0x70F7"] unfolding none_above_def by simp_all

lemma signal_fields: "pending_event (signal_event m ev) = pending_event ev OR m" "event_mask (signal_event m ev) = event_mask ev"
  by (simp_all add: signal_event_def Let_def)

lemma no_debug_trap: "debug_trap (async cpu) = 0 \<Longrightarrow> upd_async (\<lambda>a. a\<lparr>debug_trap := 0\<rparr>) cpu = cpu"
proof -
  assume "debug_trap (async cpu) = 0"
  then have "(async cpu)\<lparr>debug_trap := 0\<rparr> = async cpu" by (intro bx_async.equality) simp_all
  then show ?thesis by simp
qed

lemma no_debug_trap_state: "debug_trap (async (cpu_of st)) = 0 \<Longrightarrow> upd_cpu (upd_async (\<lambda>a. a\<lparr>debug_trap := 0\<rparr>)) st = st"
  by (subst no_debug_trap) (simp_all add: machine.surjective)

lemma unmasked_mono: "is_unmasked_event_pending m ev \<Longrightarrow> m AND w = m \<Longrightarrow> is_unmasked_event_pending w ev"
  unfolding is_unmasked_event_pending_def word_and_0_iff by (metis bit_and_iff)

lemma unmasked_pending: "is_pending m ev \<Longrightarrow> \<not> is_masked_event m ev \<Longrightarrow> is_unmasked_event_pending m ev"
  unfolding is_unmasked_event_pending_def is_pending_def is_masked_event_def word_and_0_iff by (auto simp: bit_and_iff bit_not_iff)

lemma to_external:
  assumes "undisturbed st" "none_above (cpu_of st)"
  shows "handleAsyncEvent e st = and_then (async_external e st) (\<lambda>s. Inr (async_finish s, False))"
proof -
  note q = none_above_events [OF assms(2)]
  have u: "activity_state (async (cpu_of st)) = BX_ACTIVITY_STATE_ACTIVE" "\<not> kill_bochs_request (snd st)" "gif st"
    "debug_trap (async (cpu_of st)) = 0" using assms(1) by (simp_all add: undisturbed_def)
  have "async_traps e st = Inr st" using q u by (simp add: async_traps_def)
  moreover have "async_interventions e st = Inr st" using q by (simp add: async_interventions_def and_then_def)
  moreover have "async_debug e st = Inr st" using u(4) unfolding async_debug_def no_debug_trap_state [OF u(4)] by simp
  ultimately show ?thesis using u(1,2) by (simp add: handleAsyncEvent_def and_then_def)
qed

text \<open>The controller that answers, and its vector.\<close>

definition acknowledge :: "'d mstate \<Rightarrow> 'd mstate \<times> Bit8u" where
  "acknowledge st = (if is_pending BX_EVENT_PENDING_LAPIC_INTR (events (cpu_of st)) then lapic_ack st else pic_iac st)"

abbreviation enter_handler :: "'d cpu_calls \<Rightarrow> Bit8u \<Rightarrow> 'd mstate \<Rightarrow> 'd mstate + 'd mstate \<times> bool" where
  "enter_handler e v st \<equiv>
    (case interrupt e v BX_EXTERNAL_INTERRUPT (upd_cpu (upd_async (\<lambda>a. a\<lparr>EXT := True\<rparr>)) (fst (acknowledge st))) of
       Inl s \<Rightarrow> Inl s | Inr s \<Rightarrow> Inr (async_finish (upd_cpu commit_rip s), False))"

lemma ack_guest: "guest (cpu_of (fst (acknowledge st))) = guest (cpu_of st)"
proof -
  have "guest (fst (acknowledge_int cpu)) = guest cpu" for cpu
    by (simp add: acknowledge_int_def Let_def service_local_apic_def split: option.split)
  then show ?thesis by (simp add: acknowledge_def lapic_ack_def pic_iac_def Let_def case_prod_beta)
qed

lemma external_interrupt:
  assumes "undisturbed st" "none_above (cpu_of st)" "\<not> interrupts_inhibited BX_INHIBIT_INTERRUPTS (async (cpu_of st))"
    "unmasked (BX_EVENT_PENDING_INTR OR BX_EVENT_PENDING_LAPIC_INTR) st"
  shows "handleAsyncEvent e st =
    enter_handler e (snd (acknowledge st)) st"
proof -
  note q = none_above_events [OF assms(2)]
  have u: "gif st" "\<not> in_svm_guest (guest (cpu_of st))" "\<not> in_vmx_guest (guest (cpu_of st))"
    using assms(1) by (simp_all add: undisturbed_def)
  have "unmasked (BX_EVENT_PENDING_INTR OR BX_EVENT_PENDING_LAPIC_INTR OR BX_EVENT_PENDING_VMX_VIRTUAL_INTR) st"
    using assms(4) by (rule unmasked_mono) simp
  then have "async_external e st = InterruptAcknowledge e st"
    using q u assms(3) by (simp add: async_external_def)
  moreover have "InterruptAcknowledge e st =
      take_interrupt e (snd (acknowledge st)) (upd_cpu (upd_async (\<lambda>a. a\<lparr>EXT := True\<rparr>)) (fst (acknowledge st)))"
    using u ack_guest [of st]
    by (simp add: InterruptAcknowledge_def VMexit_Event_def and_then_def acknowledge_def case_prod_beta)
  ultimately show ?thesis
    unfolding to_external [OF assms(1,2)] by (simp add: take_interrupt_def and_then_def split: sum.split)
qed


definition vector_of :: "'d mstate \<Rightarrow> Bit8u" where
  "vector_of st = (if is_pending BX_EVENT_PENDING_LAPIC_INTR (events (cpu_of st))
     then (case abs_best (abs_of (lapic (cpu_of st))) of None \<Rightarrow> spurious_vector (lapic (cpu_of st)) | Some v \<Rightarrow> of_nat v)
     else snd (IAC (m_pic (fst st))))"

lemma acknowledge_vector: "tpr_ok (lapic (cpu_of st)) \<Longrightarrow> ier_apic (lapic (cpu_of st)) = (\<lambda>_. 1) \<Longrightarrow> snd (acknowledge st) = vector_of st"
  using lapic_ops_abs(2) [of "cpu_of st"]
  by (auto simp: acknowledge_def vector_of_def lapic_ack_def pic_iac_def Let_def case_prod_beta abs_ack_def split: option.split)

text \<open>C24: With nothing of higher priority pending, no interrupt shadow and an unmasked interrupt pending, the
  event code acknowledges the controller that holds the request, the local APIC before the 8259, and enters the handler of
  exactly the vector that controller has to answer with: the highest deliverable vector of the local APIC's
  abstract state, its spurious vector when there is none, or the vector of the 8259's acknowledge cycle. The instruction
  pointer is committed and the events looked at again when the entry returns.\<close>

theorem external_interrupt_taken:
  assumes "undisturbed st" "none_above (cpu_of st)" "\<not> interrupts_inhibited BX_INHIBIT_INTERRUPTS (async (cpu_of st))"
    "unmasked (BX_EVENT_PENDING_INTR OR BX_EVENT_PENDING_LAPIC_INTR) st"
    "tpr_ok (lapic (cpu_of st))" "ier_apic (lapic (cpu_of st)) = (\<lambda>_. 1)"
  shows "handleAsyncEvent e st =
    enter_handler e (vector_of st) st"
  using external_interrupt [OF assms(1-4)] acknowledge_vector [OF assms(5,6)] by simp

text \<open>A non-maskable interrupt goes first: with maskable interrupts pending as well, the handler entered is
  that of vector 2, the request is withdrawn and further NMIs are masked, every other pending event stays pending, and neither
  the 8259 nor the local APIC is acknowledged.\<close>

theorem nmi_first:
  assumes "undisturbed st" "pending_event (events (cpu_of st)) AND 0x70F6 = 0" "unmasked BX_EVENT_NMI st"
    "\<not> interrupts_inhibited BX_INHIBIT_INTERRUPTS (async (cpu_of st))"
  shows "\<exists>st1. handleAsyncEvent e st = (case interrupt e 2 BX_NMI st1 of Inl s \<Rightarrow> Inl s | Inr s \<Rightarrow> Inr (async_finish s, False)) \<and>
    \<not> is_pending BX_EVENT_NMI (events (cpu_of st1)) \<and> is_masked_event BX_EVENT_NMI (events (cpu_of st1)) \<and>
    pending_event (events (cpu_of st1)) = pending_event (events (cpu_of st)) AND NOT BX_EVENT_NMI \<and>
    m_pic (fst st1) = m_pic (fst st) \<and> lapic (cpu_of st1) = lapic (cpu_of st)"
proof -
  note q = none_above_bits [OF assms(2)]
  have u: "activity_state (async (cpu_of st)) = BX_ACTIVITY_STATE_ACTIVE" "\<not> kill_bochs_request (snd st)" "gif st"
    "debug_trap (async (cpu_of st)) = 0" "\<not> in_svm_guest (guest (cpu_of st))" "\<not> in_vmx_guest (guest (cpu_of st))"
    using assms(1) by (simp_all add: undisturbed_def)
  have "async_traps e st = Inr st" using q [of "0x7000"] u by (simp add: async_traps_def)
  moreover have "async_interventions e st = Inr st"
    using q [of 2] q [of 4] q [of "0x10"] by (simp add: async_interventions_def and_then_def)
  moreover have "async_debug e st = Inr st" using u(4) unfolding async_debug_def no_debug_trap_state [OF u(4)] by simp
  moreover have "async_external e st = take_NMI e st"
    using assms(3,4) u q [of "0x20"] q [of "0x80"] by (simp add: async_external_def)
  moreover define st1 where "st1 = upd_cpu (\<lambda>cpu. upd_async (\<lambda>a. a\<lparr>EXT := True\<rparr>)
      (upd_events (\<lambda>ev. mask_event BX_EVENT_NMI (clear_event BX_EVENT_NMI ev)) cpu)) st"
  moreover have "take_NMI e st = interrupt e 2 BX_NMI st1"
    using u by (simp add: take_NMI_def VMexit_Event_def and_then_def st1_def)
  ultimately have "handleAsyncEvent e st = (case interrupt e 2 BX_NMI st1 of Inl s \<Rightarrow> Inl s | Inr s \<Rightarrow> Inr (async_finish s, False))"
    using u(1,2) by (simp add: handleAsyncEvent_def and_then_def)
  moreover have "\<not> is_pending BX_EVENT_NMI (events (cpu_of st1))" "is_masked_event BX_EVENT_NMI (events (cpu_of st1))"
    by (simp_all add: st1_def is_pending_def is_masked_event_def mask_event_def clear_event_def word_and_0_iff bit_simps bit_lit1_iff)
  ultimately show ?thesis by (intro exI [of _ st1]) (simp add: st1_def mask_event_def clear_event_def)
qed

lemma inhibition_window:
  assumes "unat (icount a) + 2 < 2 ^ 64"
  shows "interrupts_inhibited 1 ((inhibit_interrupts 1 a)\<lparr>icount := icount a + 1\<rparr>)"
    "\<not> interrupts_inhibited 1 ((inhibit_interrupts 1 a)\<lparr>icount := icount a + 2\<rparr>)"
  using assms by (simp_all add: interrupts_inhibited_def inhibit_interrupts_def word_le_nat_alt unat_word_ariths)



subsection \<open>What the called routines must keep\<close>

definition holds :: "('d mstate \<Rightarrow> bool) \<Rightarrow> 'd jump \<Rightarrow> bool" where
  "holds P r = (case r of Inl s \<Rightarrow> P s | Inr s \<Rightarrow> P s)"

definition calls_keep :: "('d mstate \<Rightarrow> bool) \<Rightarrow> 'd cpu_calls \<Rightarrow> bool" where
  "calls_keep P e \<longleftrightarrow> (\<forall>st. P st \<longrightarrow>
     (\<forall>v t. holds P (interrupt e v t st) \<and> holds P (guest_Event e t v st)) \<and> P (exception_DB e st) \<and>
     P (enter_system_management_mode e st) \<and> P (reset_software e st) \<and> (\<forall>r. P (Svm_Vmexit e r st) \<and> P (VMexit e r st)) \<and>
     P (VMX_Deliver_Virtual_Interrupt e st) \<and> P (VMX_Virtual_Apic_Access_Trap e st) \<and> holds P (guest_ExtInterrupt e st) \<and>
     P (dma_raise_hlda e st) \<and> holds P (fetch e st) \<and> holds P (execute e st))"

lemma calls_keepD:
  assumes "calls_keep P e" "P st"
  shows "holds P (interrupt e v t st)" "holds P (guest_Event e t v st)" "P (exception_DB e st)" "P (enter_system_management_mode e st)"
    "P (reset_software e st)" "P (Svm_Vmexit e r st)" "P (VMexit e r st)" "P (VMX_Deliver_Virtual_Interrupt e st)"
    "P (VMX_Virtual_Apic_Access_Trap e st)" "holds P (guest_ExtInterrupt e st)" "P (dma_raise_hlda e st)"
    "holds P (fetch e st)" "holds P (execute e st)"
  using assms unfolding calls_keep_def by blast+

lemma and_then_holds: "holds P r \<Longrightarrow> (\<And>s. P s \<Longrightarrow> holds P (f s)) \<Longrightarrow> holds P (and_then r f)"
  by (cases r) (simp_all add: holds_def and_then_def)

lemma holds_simps [simp]: "holds P (Inl s) = P s" "holds P (Inr s) = P s"
  by (simp_all add: holds_def)

text \<open>
  A predicate on states that survives what the event code does itself: updates of the processor away from the events,
  clearing and masking events, the acknowledge cycle and the final clearing of \<open>async_event\<close>. If the
  called routines keep it too, so does all of \<open>handleAsyncEvent\<close>.
\<close>

locale async_client =
  fixes P :: "'d mstate \<Rightarrow> bool"
  assumes plain: "(\<And>cpu. events (f cpu) = events cpu \<and> svm_gif (async (f cpu)) = svm_gif (async cpu)) \<Longrightarrow> P st \<Longrightarrow> P (upd_cpu f st)"
    and clr: "P st \<Longrightarrow> P (upd_cpu (upd_events (clear_event m)) st)"
    and msk: "P st \<Longrightarrow> P (upd_cpu (upd_events (mask_event m)) st)"
    and ack: "P st \<Longrightarrow> P (fst (acknowledge st))"
    and fin: "P st \<Longrightarrow> P (async_finish st)"
begin

lemma ext_kept: "P st \<Longrightarrow> P (upd_cpu (upd_async (\<lambda>a. a\<lparr>EXT := True\<rparr>)) st)"
  by (rule plain) simp_all

lemma take_kept: "calls_keep P e \<Longrightarrow> P st \<Longrightarrow> holds P (take_interrupt e v st)"
  unfolding take_interrupt_def by (rule and_then_holds) (auto simp: calls_keepD intro!: plain)

lemma guest_event_kept: "calls_keep P e \<Longrightarrow> P st \<Longrightarrow> holds P (VMexit_Event e t v st)"
  by (simp add: VMexit_Event_def calls_keepD)

lemma intack_kept: "calls_keep P e \<Longrightarrow> P st \<Longrightarrow> holds P (InterruptAcknowledge e st)"
proof -
  assume k: "calls_keep P e" and p: "P st"
  have "holds P (if in_vmx_guest (guest (cpu_of st)) then guest_ExtInterrupt e st else Inr st)"
    using k p by (simp add: calls_keepD)
  moreover have "holds P (let (st2, vector) = (if is_pending BX_EVENT_PENDING_LAPIC_INTR (events (cpu_of st1)) then lapic_ack st1 else pic_iac st1)
           in and_then (VMexit_Event e BX_EXTERNAL_INTERRUPT vector (upd_cpu (upd_async (\<lambda>a. a\<lparr>EXT := True\<rparr>)) st2))
                (take_interrupt e vector))" if "P st1" for st1
    using ack [OF that] unfolding acknowledge_def [symmetric] Let_def case_prod_beta
    by (intro and_then_holds guest_event_kept take_kept ext_kept k) simp_all
  ultimately have "holds P (and_then (if in_vmx_guest (guest (cpu_of st)) then guest_ExtInterrupt e st else Inr st) (\<lambda>st1.
      let (st2, vector) = (if is_pending BX_EVENT_PENDING_LAPIC_INTR (events (cpu_of st1)) then lapic_ack st1 else pic_iac st1)
           in and_then (VMexit_Event e BX_EXTERNAL_INTERRUPT vector (upd_cpu (upd_async (\<lambda>a. a\<lparr>EXT := True\<rparr>)) st2))
                (take_interrupt e vector)))" by (rule and_then_holds)
  then show ?thesis using k p unfolding InterruptAcknowledge_def Let_def by (simp add: calls_keepD)
qed

lemma virtual_intack_kept: "calls_keep P e \<Longrightarrow> P st \<Longrightarrow> holds P (VirtualInterruptAcknowledge e st)"
proof -
  assume k: "calls_keep P e" and p: "P st"
  have "P (upd_cpu (\<lambda>cpu. upd_async (\<lambda>a. a\<lparr>EXT := True\<rparr>) (upd_events (clear_event BX_EVENT_SVM_VIRQ_PENDING) cpu)) st)"
    using ext_kept [OF clr [OF p]] by simp
  then show ?thesis using k p take_kept unfolding VirtualInterruptAcknowledge_def Let_def by (simp add: calls_keepD)
qed

lemma nmi_kept: "calls_keep P e \<Longrightarrow> P st \<Longrightarrow> holds P (take_NMI e st)"
proof -
  assume k: "calls_keep P e" and p: "P st"
  have "P (upd_cpu (\<lambda>cpu. upd_async (\<lambda>a. a\<lparr>EXT := True\<rparr>) (upd_events (\<lambda>ev. mask_event BX_EVENT_NMI (clear_event BX_EVENT_NMI ev)) cpu)) st)"
    using ext_kept [OF msk [OF clr [OF p]]] by simp
  with k p show ?thesis unfolding take_NMI_def Let_def
    by (auto simp: calls_keepD intro!: and_then_holds guest_event_kept)
qed

lemma external_kept: "calls_keep P e \<Longrightarrow> P st \<Longrightarrow> holds P (async_external e st)"
  unfolding async_external_def Let_def
  by (intro if_pred [where Q = "holds P"] intack_kept virtual_intack_kept nmi_kept) (simp_all add: calls_keepD)

lemma traps_kept: "calls_keep P e \<Longrightarrow> P st \<Longrightarrow> holds P (async_traps e st)"
proof -
  assume k: "calls_keep P e" and p: "P st"
  have "P (upd_cpu (upd_async (\<lambda>a. a\<lparr>debug_trap := debug_trap a AND BX_DEBUG_SINGLE_STEP_BIT\<rparr>)) st)"
    using p by (intro plain) simp_all
  with k p show ?thesis unfolding async_traps_def Let_def by (simp add: calls_keepD)
qed

lemma interventions_kept: "calls_keep P e \<Longrightarrow> P st \<Longrightarrow> holds P (async_interventions e st)"
  using clr [of st BX_EVENT_SMI] unfolding async_interventions_def Let_def
  by (intro and_then_holds if_pred [where Q = "holds P"]) (simp_all add: calls_keepD)

lemma debug_kept: "calls_keep P e \<Longrightarrow> P st \<Longrightarrow> holds P (async_debug e st)"
  unfolding async_debug_def
  by (intro if_pred [where Q = "holds P"]) (auto simp: calls_keepD intro!: plain)

lemma wait_kept: "calls_keep P e \<Longrightarrow> P st \<Longrightarrow> P (fst (handleWaitForEvent e st))"
  unfolding handleWaitForEvent_def Let_def
  by (intro if_pred [where Q = "\<lambda>x. P (fst x)"]) (auto simp: calls_keepD intro!: plain)

lemma async_kept: "calls_keep P e \<Longrightarrow> P st \<Longrightarrow> case handleAsyncEvent e st of Inl s \<Rightarrow> P s | Inr x \<Rightarrow> P (fst x)"
proof -
  assume k: "calls_keep P e" and p: "P st"
  obtain st1 stop where w: "(if activity_state (async (cpu_of st)) \<noteq> BX_ACTIVITY_STATE_ACTIVE then handleWaitForEvent e st else (st, False)) = (st1, stop)"
    by fastforce
  then have p1: "P st1" using wait_kept [OF k p] p by (auto split: if_splits)
  define r where "r = and_then (async_traps e st1) (\<lambda>s1. and_then (async_interventions e s1) (\<lambda>s2. and_then (async_debug e s2) (async_external e)))"
  have h: "holds P r" unfolding r_def by (intro and_then_holds traps_kept interventions_kept debug_kept external_kept k p1)
  have "handleAsyncEvent e st = (if stop \<or> kill_bochs_request (snd st1) then Inr (st1, True)
      else case r of Inl s \<Rightarrow> Inl s | Inr s \<Rightarrow> Inr (async_finish s, False))"
    unfolding handleAsyncEvent_def w Let_def prod.case r_def by (simp add: and_then_def split: sum.split)
  then show ?thesis using p1 h fin by (cases r) simp_all
qed

end


lemma one_event_INTR: "one_event 0x400"
  unfolding one_event_def by (intro exI [of _ 10]) simp

interpretation event_inv: async_client "\<lambda>st :: 'd mstate. gif st \<longrightarrow> events_ok (events (cpu_of st))"
proof
  fix st :: "'d mstate"
  assume p: "gif st \<longrightarrow> events_ok (events (cpu_of st))"
  have l: "svm_gif (async (fst (acknowledge_int cpu))) = svm_gif (async cpu)"
      "events_ok (events cpu) \<Longrightarrow> events_ok (events (fst (acknowledge_int cpu)))" for cpu
  proof -
    show "svm_gif (async (fst (acknowledge_int cpu))) = svm_gif (async cpu)"
      by (simp add: acknowledge_int_def Let_def service_local_apic_def split: option.split)
    show "events_ok (events (fst (acknowledge_int cpu)))" if "events_ok (events cpu)"
      using that by (auto simp: acknowledge_int_def Let_def split: option.split intro!: service_events_ok inv_intros)
  qed
  show "gif (fst (acknowledge st)) \<longrightarrow> events_ok (events (cpu_of (fst (acknowledge st))))"
    using p l by (auto simp: acknowledge_def lapic_ack_def pic_iac_def Let_def case_prod_beta intro!: inv_intros one_event_INTR)
  show "gif (async_finish st) \<longrightarrow> events_ok (events (cpu_of (async_finish st)))"
    using p by (auto simp: async_finish_def Let_def events_ok_def unmasked_events_pending_def)
qed (auto intro: inv_intros)

interpretation clock_kept: async_client "\<lambda>st :: 'd mstate. pc_ok (snd st) \<and> now_ticks (snd st) = t" for t
  by unfold_locales
    (auto simp: acknowledge_def lapic_ack_def pic_iac_def async_finish_def Let_def case_prod_beta)


text \<open>Handling events never leaves an unmasked event pending unnoticed: if the routines it calls keep it
  so, then whenever \<open>handleAsyncEvent\<close> returns with an unmasked event pending (and the global interrupt flag set), the
  processor will look at its events again.\<close>

theorem async_keeps_events:
  assumes "calls_keep (\<lambda>st. gif st \<longrightarrow> events_ok (events (cpu_of st))) e" "gif st \<longrightarrow> events_ok (events (cpu_of st))"
    "handleAsyncEvent e st = Inr (s, stop)" "gif s" "unmasked_events_pending (events (cpu_of s)) \<noteq> 0"
  shows "async_event (events (cpu_of s)) \<noteq> 0"
  using event_inv.async_kept [OF assms(1,2)] assms(3-5) by (simp add: events_ok_def)

lemma async_stops:
  assumes "handleAsyncEvent e st = Inr (s, True)"
  shows "kill_bochs_request (snd s) \<or> activity_state (async (cpu_of s)) = BX_ACTIVITY_STATE_WAIT_FOR_SIPI"
proof -
  obtain st1 stop where w: "(if activity_state (async (cpu_of st)) \<noteq> BX_ACTIVITY_STATE_ACTIVE then handleWaitForEvent e st else (st, False)) = (st1, stop)"
    by fastforce
  have "s = st1" "stop \<or> kill_bochs_request (snd st1)"
    using assms unfolding handleAsyncEvent_def w Let_def prod.case by (auto simp: and_then_def split: if_splits sum.splits)
  moreover have "kill_bochs_request (snd st1) \<or> activity_state (async (cpu_of st1)) = BX_ACTIVITY_STATE_WAIT_FOR_SIPI" if stop
    using w that unfolding handleWaitForEvent_def Let_def by (auto split: if_splits)
  ultimately show ?thesis by blast
qed

definition clock_calls :: "'d cpu_calls \<Rightarrow> bool" where
  "clock_calls e \<longleftrightarrow> (\<forall>t. calls_keep (\<lambda>st. pc_ok (snd st) \<and> now_ticks (snd st) = t) e)"

lemma async_step_clock:
  assumes "clock_calls e" "pc_ok (snd st)"
  shows "case (if async_event (events (cpu_of st)) \<noteq> 0 then handleAsyncEvent e st else Inr (st, False)) of
    Inl s \<Rightarrow> pc_ok (snd s) \<and> now_ticks (snd s) = now_ticks (snd st)
  | Inr (s, b) \<Rightarrow> pc_ok (snd s) \<and> now_ticks (snd s) = now_ticks (snd st) \<and>
      (b \<longrightarrow> kill_bochs_request (snd s) \<or> activity_state (async (cpu_of s)) = BX_ACTIVITY_STATE_WAIT_FOR_SIPI)"
  using clock_kept.async_kept [of "now_ticks (snd st)" e st] assms async_stops [of e st]
  by (auto simp: clock_calls_def split: sum.splits)

text \<open>The clock when a stepping routine is left: by a jump, at the end, or early because the machine is to stop.\<close>

definition stepped :: "nat \<Rightarrow> 'd jump \<Rightarrow> bool" where
  "stepped t r \<longleftrightarrow> (case r of
     Inl s \<Rightarrow> pc_ok (snd s) \<and> now_ticks (snd s) \<le> t
   | Inr s \<Rightarrow> pc_ok (snd s) \<and> now_ticks (snd s) \<le> t \<and>
       (now_ticks (snd s) = t \<or> kill_bochs_request (snd s) \<or> activity_state (async (cpu_of s)) = BX_ACTIVITY_STATE_WAIT_FOR_SIPI))"

lemma tickn_1:
  assumes "timer_callbacks cb lim" "pc_ok (snd s)" "now_ticks (snd s) + 1 \<le> lim"
  shows "\<exists>s1. tickn cb 1 s = Some s1 \<and> pc_ok (snd s1) \<and> now_ticks (snd s1) = now_ticks (snd s) + 1"
proof -
  have "tickn cb 1 s = tickn_loop cb 2 1 s" by (simp add: tickn_def numeral_2_eq_2 del: tickn_loop.simps)
  with timer_callbacks.tickn_loop_returns [OF assms(1,2), of 1 2] assms(3) show ?thesis
    by (auto simp del: tickn_loop.simps)
qed

lemma step_device_loop_time:
  assumes "timer_callbacks cb lim" "clock_calls e" "pc_ok (snd st)" "now_ticks (snd st) + n \<le> lim"
  shows "\<exists>r. step_device_loop e cb n st = Some r \<and> stepped (now_ticks (snd st) + n) r"
  using assms(3,4)
proof (induction n arbitrary: st)
  case (Suc n)
  define h where "h = (if async_event (events (cpu_of st)) \<noteq> 0 then handleAsyncEvent e st else Inr (st, False))"
  note k = async_step_clock [OF assms(2) Suc.prems(1), folded h_def]
  show ?case
  proof (cases h)
    case (Inl s)
    then show ?thesis using k unfolding step_device_loop.simps h_def [symmetric] by (simp add: stepped_def)
  next
    case (Inr x)
    obtain s b where x: "x = (s, b)" by fastforce
    have s: "pc_ok (snd s)" "now_ticks (snd s) = now_ticks (snd st)" using k Inr x by simp_all
    show ?thesis
    proof (cases b)
      case True
      then show ?thesis using k Inr x unfolding step_device_loop.simps h_def [symmetric] by (simp add: stepped_def)
    next
      case False
      obtain s1 where s1: "tickn cb 1 s = Some s1" "pc_ok (snd s1)" "now_ticks (snd s1) = now_ticks (snd s) + 1"
        using tickn_1 [OF assms(1) s(1)] s(2) Suc.prems(2) by auto
      then have r: "step_device_loop e cb (Suc n) st = step_device_loop e cb n s1"
        using Inr x False unfolding step_device_loop.simps h_def [symmetric] by simp
      have "now_ticks (snd s1) + n = now_ticks (snd st) + Suc n" using s1(3) s(2) by simp
      with Suc.IH [of s1] s1(2) Suc.prems(2) show ?thesis unfolding r by metis
    qed
  qed
qed (simp add: stepped_def)


text \<open>A machine whose called routines only return.\<close>

definition idle_calls :: "'d cpu_calls" where
  "idle_calls = \<lparr>interrupt = (\<lambda>v t. Inr), exception_DB = id, enter_system_management_mode = id, reset_software = id,
     Svm_Vmexit = (\<lambda>r. id), VMexit = (\<lambda>r. id), VMX_Deliver_Virtual_Interrupt = id, VMX_Virtual_Apic_Access_Trap = id,
     guest_ExtInterrupt = Inr, guest_Event = (\<lambda>t v. Inr), dma_raise_hlda = id, load_cs = (\<lambda>v. Inr), fetch = Inr, execute = Inr\<rparr>"

lemma idle_calls_keep: "calls_keep P idle_calls"
  by (simp add: calls_keep_def idle_calls_def)

subsection \<open>A halted processor\<close>

definition woken :: "'d mstate \<Rightarrow> 'd mstate" where
  "woken st = upd_cpu (upd_async (\<lambda>a. a\<lparr>activity_state := BX_ACTIVITY_STATE_ACTIVE, inhibit_mask := 0\<rparr>)) st"

lemma none_pending: "pending_event ev = 0 \<Longrightarrow> \<not> is_pending m ev \<and> \<not> is_unmasked_event_pending m ev \<and> unmasked_events_pending ev = 0"
  by (simp add: is_pending_def is_unmasked_event_pending_def unmasked_events_pending_def)

lemma halted_wait:
  assumes "activity_state (async (cpu_of st)) = BX_ACTIVITY_STATE_HLT" "none_above (cpu_of st)"
  shows "is_pending (BX_EVENT_PENDING_INTR OR BX_EVENT_PENDING_LAPIC_INTR) (events (cpu_of st)) \<Longrightarrow> get_IF (cpu_of st) \<Longrightarrow>
      handleWaitForEvent e st = (woken st, False)"
    "pending_event (events (cpu_of st)) = 0 \<Longrightarrow> \<not> HRQ (snd st) \<Longrightarrow> handleWaitForEvent e st = (st, kill_bochs_request (snd st))"
  using assms by (simp_all add: handleWaitForEvent_def woken_def none_pending Let_def)


subsection \<open>The timer interrupt, from the register to the handler\<close>

lemma tickn_short:
  assumes "1 < unat (currCountdown pc)"
  shows "tickn cb 1 (d, pc) = Some (d, pc\<lparr>currCountdown := currCountdown pc - 1\<rparr>)"
  using assms by (simp add: tickn_def word_le_nat_alt)

lemma device_idle:
  assumes "async_event (events (m_cpu d)) = 0" "k < unat (currCountdown pc)"
  shows "step_device_loop e cb (k + m) (d, pc) = step_device_loop e cb m (d, pc\<lparr>currCountdown := currCountdown pc - of_nat k\<rparr>)"
  using assms(2)
proof (induction k arbitrary: pc)
  case (Suc k)
  let ?pc = "pc\<lparr>currCountdown := currCountdown pc - 1\<rparr>"
  have u: "unat (currCountdown pc - 1) = unat (currCountdown pc) - 1" using Suc.prems by (simp add: unat_sub word_le_nat_alt)
  have "step_device_loop e cb (Suc k + m) (d, pc) = step_device_loop e cb (k + m) (d, ?pc)"
    using Suc.prems assms(1) by (simp add: tickn_short)
  also have "\<dots> = step_device_loop e cb m (d, ?pc\<lparr>currCountdown := currCountdown ?pc - of_nat k\<rparr>)"
    using Suc.prems u by (intro Suc.IH) simp
  finally show ?case by (simp add: diff_diff_eq)
qed simp

lemma fold_single:
  assumes "\<And>i ds. i \<noteq> h \<Longrightarrow> i \<in> set xs \<Longrightarrow> fn i ds = ds" "h \<in> set xs" "distinct xs"
  shows "fold fn xs ds = fn h ds"
  using assms
proof (induction xs arbitrary: ds)
  case (Cons x xs)
  show ?case
  proof (cases "x = h")
    case True
    then have "fold fn xs s = s" for s using Cons.prems by (induction xs arbitrary: s) auto
    with True show ?thesis by simp
  next
    case False
    with Cons show ?thesis by auto
  qed
qed simp

lemma countdown_one:
  assumes ok: "pc_ok0 pc" "currCountdown pc = 0" "period_end pc \<le> 2 ^ 62"
    and h: "h < numTimers pc" "funct (timer pc h) = Some k" "active (timer pc h)" "\<not> continuous (timer pc h)"
      "unat (timeToFire (timer pc h)) = period_end pc"
    and others: "\<And>i. i < numTimers pc \<Longrightarrow> i \<noteq> h \<Longrightarrow> active (timer pc i) \<Longrightarrow> period_end pc < unat (timeToFire (timer pc i))"
  shows "countdownEvent cb (d, pc) =
    (let (d1, s1) = cb k (d, (fst (advance_period pc))\<lparr>triggeredTimer := h\<rparr>) in (d1, s1\<lparr>triggeredTimer := 0\<rparr>))"
proof -
  obtain s1 sc where a: "advance_period pc = (s1, sc)" by fastforce
  note adv = advance_period_ok [OF ok]
  have now: "unat (ticksTotal s1) = period_end pc" using adv(3) a by simp
  have trig: "sc_triggered sc i \<longleftrightarrow> i = h" for i
    using adv(5) a now h others [of i] by (cases "i = h") (auto simp: fires_def word_unat_eq_iff)
  have "sc = scan_timers (ticksTotal s1) pc" using a by (auto simp: advance_period_def Let_def)
  with scan_timers_inv [of "ticksTotal s1" pc] have inv: "scan_inv (ticksTotal s1) pc (numTimers pc) sc" by simp
  have "fires (ticksTotal s1) (timer pc h)" using h now by (simp add: fires_def word_unat_eq_iff)
  then have "sc_first sc \<le> h" "h \<le> sc_last sc" using inv h(1) by (auto simp: scan_inv_def)
  moreover have "funct (timer s1 h) = Some k" using adv(4) a h by (simp add: resched_def)
  moreover have "countdownEvent cb (d, pc) = fold (call_timer cb (sc_triggered sc)) [sc_first sc..<sc_last sc + 1] (d, s1)"
    by (simp add: countdownEvent_def a)
  moreover have "call_timer cb (sc_triggered sc) i ds = ds" if "i \<noteq> h" for i ds
    using that by (simp add: call_timer_def trig split: option.split)
  ultimately have "countdownEvent cb (d, pc) = call_timer cb (sc_triggered sc) h (d, s1)"
    by (simp only:) (rule fold_single, auto)
  with \<open>funct (timer s1 h) = Some k\<close> show ?thesis by (simp add: call_timer_def trig a)
qed


lemma arm_timer:
  assumes ok: "pc_ok pc" "now_ticks pc \<le> 2 ^ 61" and h: "0 < h" "h < numTimers pc"
    and tk: "1 \<le> unat tk" "unat tk < unat (currCountdown pc)"
  defines "pc1 \<equiv> activate_timer_ticks h tk False pc"
  shows "pc_ok pc1" "unat (currCountdown pc1) = unat tk" "period_end pc1 = now_ticks pc + unat tk"
    "active (timer pc1 h)" "\<not> continuous (timer pc1 h)" "unat (timeToFire (timer pc1 h)) = period_end pc1" "numTimers pc1 = numTimers pc"
    "funct (timer pc1 h) = funct (timer pc h)" "kill_bochs_request pc1 = kill_bochs_request pc"
    "\<And>i. i < numTimers pc \<Longrightarrow> i \<noteq> h \<Longrightarrow> active (timer pc1 i) \<Longrightarrow> period_end pc1 < unat (timeToFire (timer pc1 i))"
proof -
  have cd: "unat (currCountdown pc) < 2 ^ 32" using unat_less_exp [of "currCountdown pc"] by simp
  let ?u = "upd_timer h (\<lambda>t. t\<lparr>period := tk, timeToFire := time_ticks pc + tk, active := True, continuous := False\<rparr>) pc"
  have pc1: "pc1 = skew tk ?u"
    using tk(1) by (simp add: pc1_def activate_timer_ticks_def word_less_nat_alt)
  have le: "unat (currCountdown ?u) \<le> unat (currCountdownPeriod ?u)" using ok(1) by (simp add: pc_ok_def pc_ok0_def)
  note sk = skew_countdown [OF le, of tk]
  show "pc_ok pc1" unfolding pc1_def using ok h(1) tk(2) cd by (intro activate_timer_ticks_ok) simp_all
  show c: "unat (currCountdown pc1) = unat tk" unfolding pc1 using sk(1) tk(2) by simp
  show e: "period_end pc1 = now_ticks pc + unat tk"
    unfolding pc1 period_end_def now_ticks_def using sk(2) le tk(2) by simp
  show "active (timer pc1 h)" "\<not> continuous (timer pc1 h)" "numTimers pc1 = numTimers pc" "funct (timer pc1 h) = funct (timer pc h)"
    unfolding pc1 by simp_all
  show "kill_bochs_request pc1 = kill_bochs_request pc" unfolding pc1 by (simp add: skew_def)
  have "unat (time_ticks pc) = now_ticks pc" using ok by (intro unat_time_ticks) (auto simp: pc_ok_def)
  then show "unat (timeToFire (timer pc1 h)) = period_end pc1"
    unfolding e unfolding pc1 using ok(2) tk(2) cd by (simp add: unat_word_ariths)
  show "period_end pc1 < unat (timeToFire (timer pc1 i))" if "i < numTimers pc" "i \<noteq> h" "active (timer pc1 i)" for i
  proof -
    have "timer pc1 i = timer pc i" unfolding pc1 using that(2) by simp
    moreover have "period_end pc = now_ticks pc + unat (currCountdown pc)" using le by (simp add: period_end_def now_ticks_def)
    moreover have "timer_ok (period_end pc) (timer pc i)" using ok(1) that(1) by (simp add: pc_ok_def pc_ok0_def)
    ultimately show ?thesis using that(3) tk(2) e by (simp add: timer_ok_def)
  qed
qed

lemma device_runs_timer:
  assumes pc: "pc_ok pc" "period_end pc \<le> 2 ^ 61" and h: "0 < h" "h < numTimers pc" "funct (timer pc h) = Some k"
      "active (timer pc h)" "\<not> continuous (timer pc h)" "unat (timeToFire (timer pc h)) = period_end pc"
    and others: "\<And>i. i < numTimers pc \<Longrightarrow> i \<noteq> h \<Longrightarrow> active (timer pc i) \<Longrightarrow> period_end pc < unat (timeToFire (timer pc i))"
    and quiet: "async_event (events (m_cpu d)) = 0"
    and cb: "\<And>s. pc_ok s \<Longrightarrow> now_ticks s \<le> 2 ^ 61 \<Longrightarrow> pc_ok (snd (cb k (d, s)))"
  shows "\<exists>s. pc_ok s \<and> kill_bochs_request s = kill_bochs_request pc \<and> now_ticks s \<le> 2 ^ 61 \<and>
    step_device_loop e cb (unat (currCountdown pc)) (d, pc) =
      Some (Inr (let (d1, s1) = cb k (d, s) in (d1, s1\<lparr>triggeredTimer := 0\<rparr>)))"
proof -
  let ?z = "pc\<lparr>currCountdown := 0\<rparr>"
  have cd: "0 < unat (currCountdown pc)" using pc(1) by (simp add: pc_ok_def)
  have z: "pc_ok0 ?z" "currCountdown ?z = 0" "period_end ?z = period_end pc"
    using pc(1) by (simp_all add: pc_ok_def pc_ok0_def period_end_def)
  define s where "s = (fst (advance_period ?z))\<lparr>triggeredTimer := h\<rparr>"
  have b: "period_end ?z \<le> 2 ^ 62" using pc(2) z(3) by simp
  note adv = advance_period_ok [OF z(1,2) b]
  have ok: "pc_ok s" "now_ticks s \<le> 2 ^ 61" "kill_bochs_request s = kill_bochs_request pc"
    using adv(1,2) pc(2) unfolding s_def
    by (simp_all add: pc_ok_def pc_ok0_def period_end_def now_ticks_def advance_period_def Let_def)
  define r where "r = (let (d1, s1) = cb k (d, s) in (d1, s1\<lparr>triggeredTimer := 0\<rparr>))"
  have ev: "countdownEvent cb (d, ?z) = r"
    unfolding r_def s_def using countdown_one [OF z(1,2) b, of h k cb d] h others z(3) by simp
  have "pc_ok (snd r)" using cb [OF ok(1,2)] unfolding r_def
    by (simp add: case_prod_beta pc_ok_def pc_ok0_def period_end_def)
  then have pos: "\<not> currCountdown (snd r) \<le> 0" by (simp add: pc_ok_def word_le_nat_alt)
  define one where "one = pc\<lparr>currCountdown := 1\<rparr>"
  have t: "tickn cb 1 (d, one) = Some r"
    using pos ev by (simp add: tickn_def one_def numeral_2_eq_2)
  have "currCountdown pc - of_nat (unat (currCountdown pc) - 1) = 1"
    using cd by (simp add: of_nat_diff)
  then have "step_device_loop e cb (unat (currCountdown pc) - 1 + 1) (d, pc) = step_device_loop e cb 1 (d, one)"
    using device_idle [OF quiet, of "unat (currCountdown pc) - 1" pc e cb 1] cd by (simp add: one_def)
  also have "\<dots> = Some (Inr r)" using t quiet by simp
  finally show ?thesis using ok cd by (intro exI [of _ s]) (simp add: r_def)
qed

lemma trigger_frame: "async (trigger_irq v tm byp cpu) = async cpu" "guest (trigger_irq v tm byp cpu) = guest cpu"
  by (simp_all add: trigger_irq_def lapic_error_def service_local_apic_def Let_def split: option.split)

text \<open>What the callback leaves of the processor, besides the lapic_requested vector and its event.\<close>

lemma periodic_cpu:
  assumes "timer_active (lapic cpu)" "lvt (lapic cpu) APIC_LVT_TIMER AND 0x10000 = 0"
  defines "v \<equiv> ucast (lvt (lapic cpu) APIC_LVT_TIMER AND 0xff)"
  shows "events (fst (lapic_periodic (cpu, pc))) = events (trigger_irq v 0 False cpu)"
    "prio (lapic (fst (lapic_periodic (cpu, pc)))) = prio (lapic (trigger_irq v 0 False cpu))"
    "async (fst (lapic_periodic (cpu, pc))) = async cpu" "guest (fst (lapic_periodic (cpu, pc))) = guest cpu"
    "kill_bochs_request (snd (lapic_periodic (cpu, pc))) = kill_bochs_request pc"
proof -
  show "events (fst (lapic_periodic (cpu, pc))) = events (trigger_irq v 0 False cpu)"
    "prio (lapic (fst (lapic_periodic (cpu, pc)))) = prio (lapic (trigger_irq v 0 False cpu))"
    "async (fst (lapic_periodic (cpu, pc))) = async cpu" "guest (fst (lapic_periodic (cpu, pc))) = guest cpu"
    "kill_bochs_request (snd (lapic_periodic (cpu, pc))) = kill_bochs_request pc"
    using assms(1,2) by (simp_all add: trigger_frame lapic_periodic_def start_timer_def Let_def v_def prio_def
        activate_timer_ticks_def deactivate_timer_def skew_def)
qed

lemma trigger_timer_fields:
  "timer_handle (lapic (trigger_irq v tm byp cpu)) = timer_handle (lapic cpu)"
  "timer_initial (lapic (trigger_irq v tm byp cpu)) = timer_initial (lapic cpu)"
  "timer_divide_factor (lapic (trigger_irq v tm byp cpu)) = timer_divide_factor (lapic cpu)"
  by (simp_all add: trigger_irq_def lapic_error_def)

lemma count_product: "lapic_typed la \<Longrightarrow> unat (ucast n * ucast (timer_divide_factor la) :: Bit64u) = unat n * unat (timer_divide_factor la) \<and>
    unat n * unat (timer_divide_factor la) < 2 ^ 40" for n :: Bit32u
proof -
  assume "lapic_typed la"
  then have d: "unat (timer_divide_factor la) \<le> 128" using divide_factor_bounds by (auto simp: lapic_typed_def)
  have "unat n < 4294967296" using unat_less_exp [of n] by simp
  then have "unat n * unat (timer_divide_factor la) \<le> 4294967295 * 128" using d by (intro mult_mono) auto
  then show ?thesis by (simp add: unat_word_ariths unat_ucast_up)
qed

lemma periodic_pc_ok:
  assumes "lapic_typed (lapic cpu)" "0 < timer_handle (lapic cpu)" "pc_ok pc" "now_ticks pc \<le> 2 ^ 61"
  shows "pc_ok (snd (lapic_periodic (cpu, pc)))"
proof -
  have "unat (ucast (timer_initial (lapic cpu)) * ucast (timer_divide_factor (lapic cpu)) :: Bit64u) \<le> 2 ^ 62"
    using count_product [OF assms(1), of "timer_initial (lapic cpu)"] by simp
  then show ?thesis using assms(2-4) activate_timer_ticks_ok(1) [OF assms(3)] deactivate_timer_ok(1) [OF assms(3)]
    by (simp add: lapic_periodic_def start_timer_def Let_def trigger_timer_fields)
qed

definition idle_machine :: "'d mstate \<Rightarrow> bool" where
  "idle_machine st \<longleftrightarrow> undisturbed st \<and> pending_event (events (cpu_of st)) = 0 \<and> async_event (events (cpu_of st)) = 0 \<and>
     \<not> is_masked_event BX_EVENT_PENDING_LAPIC_INTR (events (cpu_of st)) \<and>
     \<not> interrupts_inhibited BX_INHIBIT_INTERRUPTS (async (cpu_of st)) \<and>
     (\<forall>u. \<not> lapic_requested (lapic (cpu_of st)) u \<and> \<not> lapic_in_service (lapic (cpu_of st)) u) \<and> lapic_typed (lapic (cpu_of st))"

text \<open>A vector requested while nothing else is: the event is signalled, and the next look at the events enters the handler.\<close>

lemma sole_request:
  assumes quiet: "\<And>u. \<not> lapic_requested (lapic cpu) u" "\<And>u. \<not> lapic_in_service (lapic cpu) u"
    and ty: "tpr_ok (lapic cpu)" "ier_apic (lapic cpu) = (\<lambda>_. 1)"
    and v: "0x10 \<le> v" "tpr_class (lapic cpu) < unat v div 16"
  shows "deliverable_vec (lapic (trigger_irq v tm False cpu)) u \<longleftrightarrow> u = unat v"
    "is_pending 0x800 (events (trigger_irq v tm False cpu))"
    "events (trigger_irq v tm False cpu) = events cpu \<or> events (trigger_irq v tm False cpu) = signal_event 0x800 (events cpu)"
    "tpr_ok (lapic (trigger_irq v tm False cpu))" "ier_apic (lapic (trigger_irq v tm False cpu)) = (\<lambda>_. 1)"
proof -
  let ?t = "trigger_irq v tm False cpu"
  have vb: "16 \<le> unat v" "unat v < 256" using v(1) unat_less_exp [of v] by (simp_all add: word_le_nat_alt)
  have irr: "irr_apic (lapic ?t) = (irr_apic (lapic cpu))(unat v := 1)"
    using trigger_lapic(1) [OF v(1), of tm False cpu] quiet(1) [of "unat v"] vb ty by (simp add: ready_def)
  have tl: "isr_apic (lapic ?t) = isr_apic (lapic cpu)" "ier_apic (lapic ?t) = (\<lambda>_. 1)" "task_priority (lapic ?t) = task_priority (lapic cpu)"
    using trigger_lapic ty by simp_all
  then show "tpr_ok (lapic ?t)" "ier_apic (lapic ?t) = (\<lambda>_. 1)" using ty by (simp_all add: tpr_ok_def)
  show d: "deliverable_vec (lapic ?t) u \<longleftrightarrow> u = unat v" for u
    using irr tl quiet vb v(2) ty by (auto simp: deliverable_vec_def ready_def tpr_class_def)
  have "?t = service_local_apic (upd_lapic (\<lambda>la. la\<lparr>irr_apic := (irr_apic la)(unat v := 1),
      tmr_apic := (tmr_apic la)(unat v := tm)\<rparr>) cpu)"
    using v(1) quiet(1) [of "unat v"] vb ty(2) by (simp add: trigger_irq_def not_less ready_def)
  then have "no_lost ?t" using service_no_lost ty(1) by (simp add: tpr_ok_def)
  with d show "is_pending 0x800 (events ?t)" by (auto simp: no_lost_def)
  show "events ?t = events cpu \<or> events ?t = signal_event 0x800 (events cpu)"
    by (simp add: trigger_irq_def lapic_error_def service_local_apic_def Let_def split: option.split)
qed

lemma request_enters_handler:
  fixes st2 :: "'d mstate"
  assumes quiet: "\<And>u. \<not> lapic_requested (lapic cpu) u" "\<And>u. \<not> lapic_in_service (lapic cpu) u"
    and ty: "tpr_ok (lapic cpu)" "ier_apic (lapic cpu) = (\<lambda>_. 1)"
    and v: "0x10 \<le> v" "tpr_class (lapic cpu) < unat v div 16"
    and pr: "prio (lapic (cpu_of st2)) = prio (lapic (trigger_irq v tm False cpu))"
    and st2: "undisturbed st2" "none_above (cpu_of st2)" "\<not> interrupts_inhibited BX_INHIBIT_INTERRUPTS (async (cpu_of st2))"
      "is_pending BX_EVENT_PENDING_LAPIC_INTR (events (cpu_of st2))" "\<not> is_masked_event BX_EVENT_PENDING_LAPIC_INTR (events (cpu_of st2))"
  shows "handleAsyncEvent e st2 = enter_handler e v st2"
proof -
  note q = sole_request [OF quiet ty v, of tm]
  have "unmasked (BX_EVENT_PENDING_INTR OR BX_EVENT_PENDING_LAPIC_INTR) st2"
    using unmasked_mono [OF unmasked_pending [OF st2(4,5)], of "0xC00"] by simp
  then have "handleAsyncEvent e st2 = enter_handler e (snd (acknowledge st2)) st2"
    by (rule external_interrupt [OF st2(1-3)])
  moreover have "deliverable_vec (lapic (cpu_of st2)) u \<longleftrightarrow> u = unat v" for u using q(1) prio_eq [OF pr] by simp
  then have "abs_best (abs_of (lapic (cpu_of st2))) = Some (unat v)" by (simp add: abs_best_of)
  then have "vector_of st2 = v" using st2(4) by (simp add: vector_of_def)
  moreover have "tpr_ok (lapic (cpu_of st2))" "ier_apic (lapic (cpu_of st2)) = (\<lambda>_. 1)"
    using pr q(4,5) by (auto simp: prio_def tpr_ok_def)
  then have "snd (acknowledge st2) = vector_of st2" by (rule acknowledge_vector)
  ultimately show ?thesis by simp
qed

text \<open>From an idle machine whose timer expires to the entry of the handler.\<close>

lemma expiry_enters_handler:
  fixes st :: "'d mstate"
  assumes idle: "idle_machine st" and act: "timer_active (lapic (cpu_of st))"
    and lv: "lvt (lapic (cpu_of st)) APIC_LVT_TIMER AND 0x10000 = 0"
    and v: "v = ucast (lvt (lapic (cpu_of st)) APIC_LVT_TIMER AND 0xff)" "0x10 \<le> v" "tpr_class (lapic (cpu_of st)) < unat v div 16"
  defines "st2 \<equiv> ((fst (periodic_smf st)), (snd (periodic_smf st))\<lparr>triggeredTimer := 0\<rparr>)"
  shows "handleAsyncEvent e st2 = enter_handler e v st2"
proof -
  let ?c = "cpu_of st" and ?t = "trigger_irq v 0 False (cpu_of st)"
  note p = periodic_cpu [OF act lv, of "snd st", folded v(1)]
  have c2: "cpu_of st2 = fst (lapic_periodic (?c, snd st))" "kill_bochs_request (snd st2) = kill_bochs_request (snd st)"
    using p(5) by (simp_all add: st2_def periodic_smf_def case_prod_beta Let_def)
  have i: "undisturbed st" "pending_event (events ?c) = 0" "\<not> is_masked_event 0x800 (events ?c)"
    "\<not> interrupts_inhibited 1 (async ?c)" and quiet: "\<And>u. \<not> lapic_requested (lapic ?c) u" "\<And>u. \<not> lapic_in_service (lapic ?c) u"
    and ty: "tpr_ok (lapic ?c)" "ier_apic (lapic ?c) = (\<lambda>_. 1)"
    using idle by (auto simp: idle_machine_def lapic_typed_def)
  note q = sole_request [OF quiet ty v(2,3), of 0]
  have ev: "events ?t = signal_event 0x800 (events ?c)" using q(2,3) none_pending [OF i(2)] by auto
  show ?thesis
  proof (rule request_enters_handler [OF quiet ty v(2,3)])
    show "prio (lapic (cpu_of st2)) = prio (lapic ?t)" using p(2) by (simp add: c2(1))
    show "undisturbed st2" using i(1) c2 p(3,4) by (simp add: undisturbed_def)
    show "none_above (cpu_of st2)" using i(2) ev by (simp add: none_above_def c2(1) p(1) signal_event_def Let_def)
    show "\<not> is_masked_event 0x800 (events (cpu_of st2))" using i(3) ev by (simp add: c2(1) p(1) is_masked_event_def signal_event_def Let_def)
  qed (use i(4) q(2) in \<open>simp_all add: c2(1) p(1,3)\<close>)
qed

lemma and_submask: "w AND m = 0 \<Longrightarrow> k AND m = k \<Longrightarrow> w AND k = 0" for w :: Bit32u
proof -
  assume "w AND m = 0" "k AND m = k"
  then have "w AND k = (w AND m) AND k" by (metis and.assoc and.commute)
  then show ?thesis by (simp add: \<open>w AND m = 0\<close>)
qed

lemma set_initial_shape:
  assumes "lvt (lapic cpu) APIC_LVT_TIMER AND 0x40000 = 0" "n \<noteq> 0"
  defines "hn \<equiv> timer_handle (lapic cpu)"
  shows "set_initial_timer_count n (cpu, pc) =
    (upd_lapic (\<lambda>la. la\<lparr>timer_initial := n, timer_current := n, timer_active := True, ticksInitial := time_ticks pc\<rparr>) cpu,
     activate_timer_ticks hn (ucast n * ucast (timer_divide_factor (lapic cpu))) False
       (if timer_active (lapic cpu) then deactivate_timer hn pc else pc))"
  using assms(1,2) by (simp add: set_initial_timer_count_def start_timer_def stop_timer_def hn_def deactivate_timer_def time_ticks_def)

lemma TLB_flush_frame:
  "events (TLB_flush cpu) = events cpu" "async (TLB_flush cpu) = async cpu" "guest (TLB_flush cpu) = guest cpu" "lapic (TLB_flush cpu) = lapic cpu"
  by (simp_all add: TLB_flush_def Let_def invalidate_stack_cache_def invalidate_prefetch_q_def)

text \<open>Writing the initial count arms the clock's timer; the rest of the machine stays as it was.\<close>

lemma arm_lapic_timer:
  fixes st :: "'d mstate"
  assumes ty: "lapic_typed (lapic (cpu_of st))" and clock: "pc_ok (snd st)" "now_ticks (snd st) \<le> 2 ^ 60"
    and h: "0 < timer_handle (lapic (cpu_of st))" "timer_handle (lapic (cpu_of st)) < numTimers (snd st)"
    and lv: "lvt (lapic (cpu_of st)) APIC_LVT_TIMER AND 0x40000 = 0"
    and n: "n \<noteq> 0" "unat n * unat (timer_divide_factor (lapic (cpu_of st))) < unat (currCountdown (snd st))"
  defines "hn \<equiv> timer_handle (lapic (cpu_of st))" and "t \<equiv> unat n * unat (timer_divide_factor (lapic (cpu_of st)))"
  obtains c q where
    "upd_cpu TLB_flush (let (cpu1, pc1) = set_initial_timer_count n (cpu_of st, snd st) in ((fst st)\<lparr>m_cpu := cpu1\<rparr>, pc1)) =
       ((fst st)\<lparr>m_cpu := c\<rparr>, q)"
    "lapic c = (lapic (cpu_of st))\<lparr>timer_initial := n, timer_current := n, timer_active := True, ticksInitial := time_ticks (snd st)\<rparr>"
    "events c = events (cpu_of st)" "async c = async (cpu_of st)" "guest c = guest (cpu_of st)"
    "pc_ok q" "unat (currCountdown q) = t" "period_end q \<le> 2 ^ 61" "active (timer q hn)" "\<not> continuous (timer q hn)"
    "unat (timeToFire (timer q hn)) = period_end q" "hn < numTimers q" "funct (timer q hn) = funct (timer (snd st) hn)"
    "kill_bochs_request q = kill_bochs_request (snd st)"
    "\<And>i. i < numTimers q \<Longrightarrow> i \<noteq> hn \<Longrightarrow> active (timer q i) \<Longrightarrow> period_end q < unat (timeToFire (timer q i))"
proof -
  let ?f = "timer_divide_factor (lapic (cpu_of st))"
  let ?tk = "ucast n * ucast ?f :: Bit64u"
  note prod = count_product [OF ty, of n]
  define c where "c = TLB_flush (upd_lapic (\<lambda>la. la\<lparr>timer_initial := n, timer_current := n, timer_active := True,
      ticksInitial := time_ticks (snd st)\<rparr>) (cpu_of st))"
  define pc0 where "pc0 = (if timer_active (lapic (cpu_of st)) then deactivate_timer hn (snd st) else snd st)"
  define q where "q = activate_timer_ticks hn ?tk False pc0"
  have pc0: "pc_ok pc0" "now_ticks pc0 = now_ticks (snd st)" "numTimers pc0 = numTimers (snd st)" "currCountdown pc0 = currCountdown (snd st)"
    "funct (timer pc0 hn) = funct (timer (snd st) hn)" "kill_bochs_request pc0 = kill_bochs_request (snd st)"
    using clock(1) deactivate_timer_ok [OF clock(1) h(1)] by (simp_all add: pc0_def hn_def) (simp_all add: deactivate_timer_def)
  have "0 < unat ?f" using ty divide_factor_bounds [of ?f] by (simp add: lapic_typed_def)
  moreover have "0 < unat n" using n(1) by (simp add: unat_gt_0)
  ultimately have tk: "1 \<le> unat ?tk" "unat ?tk < unat (currCountdown pc0)" using prod n(2) pc0(4) by simp_all
  have now0: "now_ticks pc0 \<le> 2 ^ 61" and h0: "0 < hn" "hn < numTimers pc0" using pc0(2,3) clock(2) h by (simp_all add: hn_def)
  note arm = arm_timer [OF pc0(1) now0 h0 tk, folded q_def]
  show thesis
  proof
    show "upd_cpu TLB_flush (let (cpu1, pc1) = set_initial_timer_count n (cpu_of st, snd st) in ((fst st)\<lparr>m_cpu := cpu1\<rparr>, pc1)) =
       ((fst st)\<lparr>m_cpu := c\<rparr>, q)"
      by (simp add: set_initial_shape [OF lv n(1)] c_def q_def pc0_def hn_def)
    show "period_end q \<le> 2 ^ 61" using arm(3) pc0(2) clock(2) prod by simp
  qed (use arm pc0 h0 prod in \<open>simp_all add: c_def TLB_flush_frame t_def\<close>)
qed


text \<open>A machine at rest, and calls that log the vectors of the handlers they enter.\<close>

definition wit_machine :: "Bit8u list mstate" where
  "wit_machine = (\<lparr>m_cpu = wit_bx_cpu\<lparr>eflags := 0x202, events := \<lparr>pending_event = 0, event_mask = 0, async_event = 0\<rparr>,
       lapic := wit_lapic\<lparr>lvt := (\<lambda>_. 0x10000)(0 := 0x31)\<rparr>\<rparr>,
     m_pic = \<lparr>master_pic = (init_chip 8 4 1)\<lparr>irr := 1, INT_pin := True\<rparr>, slave_pic = init_chip 0x70 2 0, INTR = True,
       ioapic_present = False, ioapic_levels = [], pic_panics = []\<rparr>, m_dev = []\<rparr>, wit_pc)"

definition logging_calls :: "Bit8u list cpu_calls" where
  "logging_calls = idle_calls\<lparr>interrupt := (\<lambda>v t st. Inl ((fst st)\<lparr>m_dev := m_dev (fst st) @ [v]\<rparr>, snd st))\<rparr>"

lemma logging_interrupt: "interrupt logging_calls v t st = Inl ((fst st)\<lparr>m_dev := m_dev (fst st) @ [v]\<rparr>, snd st)"
  by (simp add: logging_calls_def)

abbreviation wit_events :: "bx_events \<Rightarrow> Bit8u list mstate" where
  "wit_events ev \<equiv> upd_cpu (upd_events (\<lambda>_. ev)) wit_machine"

lemma wit_pc_ok: "pc_ok wit_pc" "now_ticks wit_pc = 0"
proof -
  show "pc_ok wit_pc" unfolding wit_pc_def register_timer_def
    by (rule register_timer_ticks_ok) (simp_all add: initialize_ok, simp add: now_ticks_def initialize_def)
  show "now_ticks wit_pc = 0"
    unfolding wit_pc_def register_timer_def
    by (subst register_timer_ticks_ok) (simp_all add: initialize_ok, simp_all add: now_ticks_def initialize_def)
qed

lemma wit_pc_more: "\<not> kill_bochs_request wit_pc" "\<not> HRQ wit_pc" "currCountdown wit_pc = 5" "funct (timer wit_pc 1) = Some 1"
  by (simp_all add: wit_pc_def register_timer_def register_timer_ticks_def initialize_def bx_pc_system_c_def skew_def time_ticks_def Let_def)

lemma wit_machine_simps [simp]:
  "snd wit_machine = wit_pc" "m_dev (fst wit_machine) = []" "async (cpu_of wit_machine) = async wit_bx_cpu" "guest (cpu_of wit_machine) = guest wit_bx_cpu"
  "lapic (cpu_of wit_machine) = wit_lapic\<lparr>lvt := (\<lambda>_. 0x10000)(0 := 0x31)\<rparr>" "eflags (cpu_of wit_machine) = 0x202"
  "events (cpu_of wit_machine) = \<lparr>pending_event = 0, event_mask = 0, async_event = 0\<rparr>"
  by (simp_all add: wit_machine_def)

lemma wit_undisturbed: "undisturbed (wit_events ev)" "undisturbed wit_machine"
  "\<not> interrupts_inhibited 1 (async wit_bx_cpu)" "tpr_ok (wit_lapic\<lparr>lvt := l'\<rparr>)" "ier_apic (wit_lapic\<lparr>lvt := l'\<rparr>) = (\<lambda>_. 1)"
  using wit_pc_more by (simp_all add: undisturbed_def interrupts_inhibited_def tpr_ok_def) (simp_all add: wit_bx_cpu_def wit_lapic_def)

lemma wit_idle: "idle_machine wit_machine"
proof -
  have "(0x31 :: Bit32u) AND NOT (lvt_mask 0) = 0" by (simp add: lvt_mask_def)
  moreover have "(0x10000 :: Bit32u) AND NOT (lvt_mask i) = 0" if "i < 6" for i using lvt_values(1) [OF that, of 0] by simp
  ultimately show ?thesis
    using wit_undisturbed(2,3) by (simp add: idle_machine_def is_masked_event_def)
      (simp add: wit_lapic_def ready_def lapic_typed_def tpr_ok_def divide_factors_def)
qed

theorem external_interrupt_taken_witness:
  "\<exists>s. handleAsyncEvent logging_calls (wit_events \<lparr>pending_event = 0x400, event_mask = 0, async_event = 1\<rparr>) = Inl s \<and> m_dev (fst s) = [8]"
proof -
  let ?st = "wit_events \<lparr>pending_event = 0x400, event_mask = 0, async_event = 1\<rparr>"
  have v: "vector_of ?st = 8"
    by (simp add: vector_of_def is_pending_def wit_machine_def IAC_def init_chip_def Let_def clear_INTR_def ack_chip_def)
  have "handleAsyncEvent logging_calls ?st = enter_handler logging_calls (vector_of ?st) ?st"
    using wit_undisturbed
    by (intro external_interrupt_taken) (simp_all add: none_above_def is_unmasked_event_pending_def)
  moreover have "m_dev (fst (fst (acknowledge ?st))) = []"
    by (simp add: acknowledge_def is_pending_def pic_iac_def Let_def case_prod_beta)
  ultimately show ?thesis unfolding v logging_interrupt sum.case by (intro exI conjI) auto
qed

theorem nmi_first_witness:
  "\<exists>s. handleAsyncEvent logging_calls (wit_events \<lparr>pending_event = 0x401, event_mask = 0, async_event = 1\<rparr>) = Inl s"
proof -
  let ?st = "wit_events \<lparr>pending_event = 0x401, event_mask = 0, async_event = 1\<rparr>"
  have "undisturbed ?st" "pending_event (events (cpu_of ?st)) AND 0x70F6 = 0" "unmasked BX_EVENT_NMI ?st"
    "\<not> interrupts_inhibited BX_INHIBIT_INTERRUPTS (async (cpu_of ?st))"
    using wit_undisturbed by (simp_all add: is_unmasked_event_pending_def)
  from nmi_first [OF this, of logging_calls] show ?thesis by (auto simp: logging_interrupt)
qed


theorem async_keeps_events_witness:
  "\<exists>s. handleAsyncEvent idle_calls (wit_events \<lparr>pending_event = 0x401, event_mask = 0, async_event = 1\<rparr>) = Inr (s, False) \<and>
     unmasked_events_pending (events (cpu_of s)) \<noteq> 0 \<and> async_event (events (cpu_of s)) \<noteq> 0"
proof -
  let ?st = "wit_events \<lparr>pending_event = 0x401, event_mask = 0, async_event = 1\<rparr>"
  define s1 where "s1 = upd_cpu (\<lambda>cpu. upd_async (\<lambda>a. a\<lparr>EXT := True\<rparr>) (upd_events (\<lambda>ev. mask_event 1 (clear_event 1 ev)) cpu)) ?st"
  note u = wit_undisturbed(1) [of "\<lparr>pending_event = 0x401, event_mask = 0, async_event = 1\<rparr>", unfolded undisturbed_def]
  have "async_traps idle_calls ?st = Inr ?st" "async_interventions idle_calls ?st = Inr ?st" "async_debug idle_calls ?st = Inr ?st"
    using u by (simp_all add: async_traps_def async_interventions_def async_debug_def is_unmasked_event_pending_def and_then_def Let_def no_debug_trap)
  moreover have "async_external idle_calls ?st = Inr s1"
    using u wit_undisturbed(3)
    by (simp add: async_external_def take_NMI_def VMexit_Event_def is_unmasked_event_pending_def and_then_def idle_calls_def s1_def)
  ultimately have h: "handleAsyncEvent idle_calls ?st = Inr (async_finish s1, False)"
    using u by (simp add: handleAsyncEvent_def and_then_def)
  have g: "gif ?st \<longrightarrow> events_ok (events (cpu_of ?st))" by (simp add: events_ok_def)
  have "gif (async_finish s1)" "unmasked_events_pending (events (cpu_of (async_finish s1))) \<noteq> 0"
    using u by (auto simp: s1_def async_finish_def Let_def unmasked_events_pending_def mask_event_def clear_event_def)
  with async_keeps_events [OF idle_calls_keep g h] h show ?thesis by blast
qed




end
