(* ===== verification/IoApic.thy ===== *)
theory IoApic
  imports Event PhysMem
begin

text \<open>
  The I/O APIC, \<^verbatim>\<open>bochs/iodev/ioapic.cc\<close> and \<^verbatim>\<open>bochs/iodev/ioapic.h\<close>: 24 input pins, a redirection table and the
  delivery of requests to the local APIC, on the machine of \<^verbatim>\<open>Event\<close>. A delivery in ExtINT mode runs the acknowledge cycle
  of the 8259 controllers. A \<open>BX_PANIC\<close> is \<open>None\<close>. The counter \<open>stuck\<close> only chooses a log message and is left out.
\<close>

subsection \<open>Redirection entries\<close>

record bx_io_redirect_entry_t =
  hi_part :: Bit32u
  lo_part :: Bit32u

definition destination :: "bx_io_redirect_entry_t \<Rightarrow> Bit8u" where
  "destination en = ucast (drop_bit 24 (hi_part en))"

definition is_masked :: "bx_io_redirect_entry_t \<Rightarrow> bool" where
  "is_masked en \<longleftrightarrow> drop_bit 16 (lo_part en) AND 1 \<noteq> 0"

definition trigger_mode :: "bx_io_redirect_entry_t \<Rightarrow> Bit8u" where
  "trigger_mode en = ucast (drop_bit 15 (lo_part en) AND 1)"

definition destination_mode :: "bx_io_redirect_entry_t \<Rightarrow> Bit8u" where
  "destination_mode en = ucast (drop_bit 11 (lo_part en) AND 1)"

definition delivery_mode :: "bx_io_redirect_entry_t \<Rightarrow> Bit8u" where
  "delivery_mode en = ucast (drop_bit 8 (lo_part en) AND 7)"

definition entry_vector :: "bx_io_redirect_entry_t \<Rightarrow> Bit8u" where
  "entry_vector en = ucast (lo_part en AND 0xff)"

definition set_delivery_status :: "bx_io_redirect_entry_t \<Rightarrow> bx_io_redirect_entry_t" where
  "set_delivery_status en = en\<lparr>lo_part := lo_part en OR push_bit 12 1\<rparr>"

definition clear_delivery_status :: "bx_io_redirect_entry_t \<Rightarrow> bx_io_redirect_entry_t" where
  "clear_delivery_status en = en\<lparr>lo_part := lo_part en AND NOT (push_bit 12 1)\<rparr>"

definition set_lo_part :: "Bit32u \<Rightarrow> bx_io_redirect_entry_t \<Rightarrow> bx_io_redirect_entry_t" where
  "set_lo_part val_lo_part en = en\<lparr>lo_part := val_lo_part AND 0xffffafff\<rparr>"

definition set_hi_part :: "Bit32u \<Rightarrow> bx_io_redirect_entry_t \<Rightarrow> bx_io_redirect_entry_t" where
  "set_hi_part val_hi_part en = en\<lparr>hi_part := val_hi_part\<rparr>"

subsection \<open>The device\<close>

record bx_ioapic_c =
  ioapic_enabled :: bool
  ioapic_base :: bx_phy_address
  ioapic_id :: Bit32u
  ioregsel :: Bit32u
  intin :: Bit32u
  io_irr :: Bit32u
  ioredtbl :: "nat \<Rightarrow> bx_io_redirect_entry_t"

type_synonym 'd io_state = "bx_ioapic_c \<times> 'd mstate"

abbreviation (input) "BX_IOAPIC_NUM_PINS \<equiv> (24 :: nat)"
abbreviation (input) "BX_IOAPIC_BASE_ADDR \<equiv> (0xfec00000 :: bx_phy_address)"

abbreviation upd_entry :: "nat \<Rightarrow> (bx_io_redirect_entry_t \<Rightarrow> bx_io_redirect_entry_t) \<Rightarrow> bx_ioapic_c \<Rightarrow> bx_ioapic_c" where
  "upd_entry n f io \<equiv> io\<lparr>ioredtbl := (ioredtbl io)(n := f (ioredtbl io n))\<rparr>"

text \<open>The constructor, for one processor.\<close>

definition bx_ioapic_c_init :: "bx_ioapic_c \<Rightarrow> bx_ioapic_c" where
  "bx_ioapic_c_init io = io\<lparr>ioapic_enabled := False, ioapic_base := BX_IOAPIC_BASE_ADDR, ioapic_id := 1,
     ioredtbl := (\<lambda>_. \<lparr>hi_part = 0, lo_part = 0x10000\<rparr>)\<rparr>"

definition ioapic_reset :: "bx_ioapic_c \<Rightarrow> bx_ioapic_c" where
  "ioapic_reset io = io\<lparr>ioredtbl := (\<lambda>n. if n < BX_IOAPIC_NUM_PINS then set_hi_part 0 (set_lo_part 0x10000 (ioredtbl io n)) else ioredtbl io n),
     intin := 0, io_irr := 0, ioregsel := 0\<rparr>"

subsection \<open>Delivery\<close>

text \<open>One round of the loop of \<open>service_ioapic\<close>.\<close>

definition service_pin :: "lapic_conf \<Rightarrow> nat \<Rightarrow> 'd io_state \<Rightarrow> 'd io_state" where
  "service_pin conf n s =
     (case s of (io, st) \<Rightarrow>
      let entry = ioredtbl io n
      in if bit (io_irr io) n \<and> \<not> is_masked entry
         then let (st1, vec) = (if delivery_mode entry = 7 then pic_iac st else (st, entry_vector entry));
                  (cpu1, finished) = apic_bus_deliver_interrupt conf vec (ucast (destination entry)) (delivery_mode entry)
                     (destination_mode entry \<noteq> 0) (trigger_mode entry) (cpu_of st1)
              in (if finished
                  then upd_entry n clear_delivery_status
                         (if trigger_mode entry = 0 then io\<lparr>io_irr := io_irr io AND NOT (push_bit n 1)\<rparr> else io)
                  else upd_entry n set_delivery_status io,
                  upd_cpu (\<lambda>_. cpu1) st1)
         else (io, st))"

definition service_ioapic :: "lapic_conf \<Rightarrow> 'd io_state \<Rightarrow> 'd io_state" where
  "service_ioapic conf s = fold (service_pin conf) [0..<BX_IOAPIC_NUM_PINS] s"

text \<open>The timer, line 0, is connected to pin 2.\<close>

definition ioapic_pin :: "nat \<Rightarrow> nat" where
  "ioapic_pin int_in = (if int_in = 0 then 2 else int_in)"

definition set_irq_level :: "lapic_conf \<Rightarrow> nat \<Rightarrow> bool \<Rightarrow> 'd io_state \<Rightarrow> 'd io_state" where
  "set_irq_level conf int_in0 level s =
     (case s of (io, st) \<Rightarrow>
      let int_in = ioapic_pin int_in0; bt = push_bit int_in 1; entry = ioredtbl io int_in
      in if int_in < BX_IOAPIC_NUM_PINS \<and> level \<noteq> (intin io AND bt \<noteq> 0)
         then (if trigger_mode entry \<noteq> 0
               then (if level then service_ioapic conf (io\<lparr>intin := intin io OR bt, io_irr := io_irr io OR bt\<rparr>, st)
                     else (io\<lparr>intin := intin io AND NOT bt, io_irr := io_irr io AND NOT bt\<rparr>, st))
               else (if level
                     then (if \<not> is_masked entry then service_ioapic conf (io\<lparr>intin := intin io OR bt, io_irr := io_irr io OR bt\<rparr>, st)
                           else (io\<lparr>intin := intin io OR bt\<rparr>, st))
                     else (io\<lparr>intin := intin io AND NOT bt\<rparr>, st)))
         else (io, st))"

text \<open>An end of interrupt is only logged.\<close>

definition receive_eoi :: "Bit8u \<Rightarrow> bx_ioapic_c \<Rightarrow> bx_ioapic_c" where
  "receive_eoi vec io = io"

subsection \<open>Registers\<close>

definition ioapic_index :: "Bit32u \<Rightarrow> nat" where
  "ioapic_index sel = unat (drop_bit 1 (sel - 0x10))"

definition ioapic_read_aligned :: "lapic_conf \<Rightarrow> bx_phy_address \<Rightarrow> bx_ioapic_c \<Rightarrow> Bit32u option" where
  "ioapic_read_aligned conf address io =
     (if address AND 0xff = 0 then Some (ioregsel io)
      else if address AND 0xff \<noteq> 0x10 then None
      else if ioregsel io = 0 then Some (push_bit 24 (ioapic_id io AND apic_id_mask conf))
      else if ioregsel io = 1 then Some 0x00170011
      else if ioregsel io = 2 then Some 0
      else let index = ioapic_index (ioregsel io)
           in if index < BX_IOAPIC_NUM_PINS
              then Some (if odd (ioregsel io) then hi_part (ioredtbl io index) else lo_part (ioredtbl io index))
              else None)"

definition ioapic_write_aligned :: "lapic_conf \<Rightarrow> bx_phy_address \<Rightarrow> Bit32u \<Rightarrow> 'd io_state \<Rightarrow> 'd io_state option" where
  "ioapic_write_aligned conf address v s =
     (case s of (io, st) \<Rightarrow>
      if address AND 0xff = 0 then Some (io\<lparr>ioregsel := v\<rparr>, st)
      else if address AND 0xff \<noteq> 0x10 then None
      else if ioregsel io = 0
      then (let newid = ucast (drop_bit 24 v AND apic_id_mask conf) :: Bit8u in Some (io\<lparr>ioapic_id := ucast newid\<rparr>, st))
      else if ioregsel io = 1 \<or> ioregsel io = 2 then Some (io, st)
      else let index = ioapic_index (ioregsel io)
           in if index < BX_IOAPIC_NUM_PINS
              then Some (service_ioapic conf (upd_entry index (if odd (ioregsel io) then set_hi_part v else set_lo_part v) io, st))
              else None)"

text \<open>The memory handlers: a read of 4, 2 or 1 bytes inside a doubleword, a write at a multiple of 16.\<close>

definition ioapic_read :: "lapic_conf \<Rightarrow> bx_phy_address \<Rightarrow> nat \<Rightarrow> bx_ioapic_c \<Rightarrow> Bit32u option" where
  "ioapic_read conf a20addr len io =
     (if a20addr AND NOT 3 \<noteq> (a20addr + of_nat len - 1) AND NOT 3 then None
      else case ioapic_read_aligned conf (a20addr AND NOT 3) io of
        None \<Rightarrow> None
      | Some v \<Rightarrow> if len = 4 then Some v
                  else let v1 = drop_bit (unat (a20addr AND 3) * 8) v
                       in if len = 1 then Some (v1 AND 0xff)
                          else if len = 2 then Some (v1 AND 0xffff)
                          else None)"

definition ioapic_write :: "lapic_conf \<Rightarrow> bx_phy_address \<Rightarrow> nat \<Rightarrow> Bit32u \<Rightarrow> 'd io_state \<Rightarrow> 'd io_state option" where
  "ioapic_write conf a20addr len data s =
     (if a20addr AND 0xf \<noteq> 0 then None
      else if len = 4 then ioapic_write_aligned conf a20addr data s
      else if a20addr AND 0xff \<noteq> 0 then None
      else if len = 2 then ioapic_write_aligned conf a20addr (data AND 0xffff) s
      else if len = 1 then ioapic_write_aligned conf a20addr (data AND 0xff) s
      else None)"

text \<open>Moving the register window registers and removes the memory handlers; \<open>prm\<close> identifies the device.\<close>

definition set_enabled :: "nat \<Rightarrow> 'm read_handler \<Rightarrow> 'm write_handler \<Rightarrow> bool \<Rightarrow> Bit16u \<Rightarrow> bx_ioapic_c \<times> 'm bx_mem \<Rightarrow> bx_ioapic_c \<times> 'm bx_mem" where
  "set_enabled prm rd wr en base_offset s =
     (case s of (io, m) \<Rightarrow>
      let newbase = BX_IOAPIC_BASE_ADDR OR ucast base_offset;
          reg = (\<lambda>m. fst (registerMemoryHandlers prm (Some rd) (Some wr) None newbase (newbase + 0xfff) m));
          unreg = (\<lambda>m. fst (unregisterMemoryHandlers prm (ioapic_base io) (ioapic_base io + 0xfff) m))
      in if en \<noteq> ioapic_enabled io
         then (if en then (io\<lparr>ioapic_base := newbase, ioapic_enabled := en\<rparr>, reg m) else (io\<lparr>ioapic_enabled := en\<rparr>, unreg m))
         else if ioapic_enabled io \<and> ucast base_offset \<noteq> ioapic_base io AND 0xffff
         then (io\<lparr>ioapic_base := newbase\<rparr>, reg (unreg m))
         else (io, m))"

subsection \<open>Interrupt lines\<close>

text \<open>
  Raising and lowering a line: the 8259 passes the change on to the I/O APIC first, except for its cascade input, then acts
  itself; a rising INTR is an event of the processor.
\<close>

abbreviation upd_pic :: "(bx_pic_c \<Rightarrow> bx_pic_c) \<Rightarrow> 'd mstate \<Rightarrow> 'd mstate" where
  "upd_pic f st \<equiv> ((fst st)\<lparr>m_pic := f (m_pic (fst st))\<rparr>, snd st)"

definition forward_level :: "lapic_conf \<Rightarrow> nat \<Rightarrow> bool \<Rightarrow> 'd io_state \<Rightarrow> 'd io_state" where
  "forward_level conf irq_no level s =
     (if ioapic_present (m_pic (fst (snd s))) \<and> irq_no \<noteq> 2 then set_irq_level conf irq_no level s else s)"

definition dev_raise_irq :: "lapic_conf \<Rightarrow> nat \<Rightarrow> 'd io_state \<Rightarrow> 'd io_state" where
  "dev_raise_irq conf irq_no s =
     (let (io1, st1) = forward_level conf irq_no True s; st2 = upd_pic (raise_irq irq_no) st1
      in (io1, if INTR (m_pic (fst st2)) \<and> \<not> INTR (m_pic (fst st1))
               then upd_cpu (upd_events (signal_event BX_EVENT_PENDING_INTR)) st2 else st2))"

definition dev_lower_irq :: "lapic_conf \<Rightarrow> nat \<Rightarrow> 'd io_state \<Rightarrow> 'd io_state" where
  "dev_lower_irq conf irq_no s =
     (let (io1, st1) = forward_level conf irq_no False s in (io1, upd_pic (lower_irq irq_no) st1))"

end
