(* ===== verification/IoApicProps.thy ===== *)
theory IoApicProps
  imports IoApic EventProps
begin

text \<open>
  The I/O APIC (\<^verbatim>\<open>bochs/iodev/ioapic.cc\<close>): no deliverable request is left waiting, the redirection registers read back, what masking
  does to edges and levels, and the way of a device's interrupt line through the redirection table and the local
  APIC to the handler.
\<close>

subsection \<open>Serving the pins\<close>

text \<open>A pin is live when service would deliver it; a request is settled when it waits for a reason.\<close>

definition live :: "bx_ioapic_c \<Rightarrow> nat \<Rightarrow> bool" where
  "live io n \<longleftrightarrow> bit (io_irr io) n \<and> \<not> is_masked (ioredtbl io n)"

definition settled :: "bx_ioapic_c \<Rightarrow> nat \<Rightarrow> bool" where
  "settled io n \<longleftrightarrow> (live io n \<longrightarrow> trigger_mode (ioredtbl io n) \<noteq> 0 \<or> bit (lo_part (ioredtbl io n)) 12)"

lemma bit_pow: "bit (2 ^ n :: Bit32u) m \<longleftrightarrow> m = n \<and> n < 32"
  by (auto simp: bit_exp_iff)

lemma status_bits [simp]:
  "lo_part (set_delivery_status en) = lo_part en OR 0x1000" "lo_part (clear_delivery_status en) = lo_part en AND NOT 0x1000"
  "hi_part (set_delivery_status en) = hi_part en" "hi_part (clear_delivery_status en) = hi_part en"
  by (simp_all add: set_delivery_status_def clear_delivery_status_def)

lemma entry_fields_iff: "is_masked en \<longleftrightarrow> bit (lo_part en) 16" "trigger_mode en = 0 \<longleftrightarrow> \<not> bit (lo_part en) 15"
proof -
  show "is_masked en \<longleftrightarrow> bit (lo_part en) 16" by (simp add: is_masked_def bit_iff_odd_drop_bit and_one_eq odd_iff_mod_2_eq_one)
  have "drop_bit 15 (lo_part en) AND 1 = of_bool (bit (lo_part en) 15)" by (simp add: bit_iff_odd_drop_bit and_one_eq mod_2_eq_odd)
  then show "trigger_mode en = 0 \<longleftrightarrow> \<not> bit (lo_part en) 15" by (simp add: trigger_mode_def)
qed

lemma status_keeps [simp]:
  "is_masked (set_delivery_status en) = is_masked en" "is_masked (clear_delivery_status en) = is_masked en"
  "trigger_mode (set_delivery_status en) = 0 \<longleftrightarrow> trigger_mode en = 0" "trigger_mode (clear_delivery_status en) = 0 \<longleftrightarrow> trigger_mode en = 0"
  by (simp_all add: entry_fields_iff bit_or_iff bit_and_iff bit_not_iff)

lemma or_and_not: "(x OR m) AND NOT m = x AND NOT m" "(x AND NOT m) AND NOT m = x AND NOT m" for x :: Bit32u
  by (rule bit_eqI, auto simp: bit_simps)+

lemma status_rest: "lo_part (set_delivery_status en) AND NOT 0x1000 = lo_part en AND NOT 0x1000"
  "lo_part (clear_delivery_status en) AND NOT 0x1000 = lo_part en AND NOT 0x1000"
  unfolding status_bits or_and_not by simp_all

lemma service_pin_idle: "\<not> live io n \<Longrightarrow> service_pin conf n (io, st) = (io, st)"
  by (auto simp: service_pin_def live_def)

lemma service_pin_io:
  fixes st :: "'d mstate" and io :: bx_ioapic_c and conf :: lapic_conf
  assumes "n < 24"
  defines "io' \<equiv> fst (service_pin conf n (io, st))"
  shows "settled io' n" "m \<noteq> n \<Longrightarrow> ioredtbl io' m = ioredtbl io m" "m \<noteq> n \<Longrightarrow> bit (io_irr io') m \<longleftrightarrow> bit (io_irr io) m"
    "intin io' = intin io" "ioregsel io' = ioregsel io" "bit (io_irr io') n \<Longrightarrow> bit (io_irr io) n"
    "hi_part (ioredtbl io' n) = hi_part (ioredtbl io n)" "lo_part (ioredtbl io' n) AND NOT 0x1000 = lo_part (ioredtbl io n) AND NOT 0x1000"
    "bit (lo_part (ioredtbl io' n)) 14 = bit (lo_part (ioredtbl io n)) 14"
proof -
  obtain st1 vec where v: "(if delivery_mode (ioredtbl io n) = 7 then pic_iac st else (st, entry_vector (ioredtbl io n))) = (st1, vec)" by fastforce
  obtain cpu1 fin where d: "apic_bus_deliver_interrupt conf vec (ucast (destination (ioredtbl io n))) (delivery_mode (ioredtbl io n))
      (destination_mode (ioredtbl io n) \<noteq> 0) (trigger_mode (ioredtbl io n)) (cpu_of st1) = (cpu1, fin)" by fastforce
  have io': "io' = (if live io n then if fin then upd_entry n clear_delivery_status
       (if trigger_mode (ioredtbl io n) = 0 then io\<lparr>io_irr := io_irr io AND NOT (push_bit n 1)\<rparr> else io)
     else upd_entry n set_delivery_status io else io)"
    by (simp add: io'_def service_pin_def live_def v d Let_def)
  show "lo_part (ioredtbl io' n) AND NOT 0x1000 = lo_part (ioredtbl io n) AND NOT 0x1000" "hi_part (ioredtbl io' n) = hi_part (ioredtbl io n)"
    using status_rest [of "ioredtbl io n"] unfolding io' by (simp_all del: status_bits(1,2))
  show "settled io' n" using assms(1) unfolding io' by (auto simp: settled_def live_def bit_simps bit_pow)
  show "m \<noteq> n \<Longrightarrow> ioredtbl io' m = ioredtbl io m" "m \<noteq> n \<Longrightarrow> bit (io_irr io') m \<longleftrightarrow> bit (io_irr io) m"
    "intin io' = intin io" "ioregsel io' = ioregsel io" "bit (io_irr io') n \<Longrightarrow> bit (io_irr io) n"
    "bit (lo_part (ioredtbl io' n)) 14 = bit (lo_part (ioredtbl io n)) 14"
    unfolding io' using bit_imp_le_length [of "io_irr io" m] by (auto simp: bit_simps bit_pow split: if_splits)
qed

lemma settled_other: "m \<noteq> n \<Longrightarrow> n < 24 \<Longrightarrow> settled (fst (service_pin conf n s)) m \<longleftrightarrow> settled (fst s) m"
  using service_pin_io(2,3) [where n = n and m = m and conf = conf and io = "fst s" and st = "snd s"] by (auto simp: settled_def live_def)

text \<open>What service keeps of the device, whatever it delivers.\<close>

definition same_setup :: "bx_ioapic_c \<Rightarrow> bx_ioapic_c \<Rightarrow> bool" where
  "same_setup io io' \<longleftrightarrow> intin io' = intin io \<and> ioregsel io' = ioregsel io \<and> (\<forall>n. bit (io_irr io') n \<longrightarrow> bit (io_irr io) n) \<and>
     (\<forall>n. hi_part (ioredtbl io' n) = hi_part (ioredtbl io n) \<and> bit (lo_part (ioredtbl io' n)) 14 = bit (lo_part (ioredtbl io n)) 14 \<and>
        lo_part (ioredtbl io' n) AND NOT 0x1000 = lo_part (ioredtbl io n) AND NOT 0x1000)"

lemma same_setup_refl: "same_setup io io"
  by (simp add: same_setup_def)

lemma same_setup_trans: "same_setup io io1 \<Longrightarrow> same_setup io1 io2 \<Longrightarrow> same_setup io io2"
  by (simp add: same_setup_def)

lemma service_pin_setup: "n < 24 \<Longrightarrow> same_setup (fst s) (fst (service_pin conf n s))"
proof -
  assume n: "n < 24"
  note p = service_pin_io [OF n, where conf = conf and io = "fst s" and st = "snd s", unfolded prod.collapse]
  show ?thesis unfolding same_setup_def
  proof (intro conjI allI impI)
    fix m
    show "bit (io_irr (fst s)) m" if "bit (io_irr (fst (service_pin conf n s))) m" using p(3,6) that by (cases "m = n") auto
    show "hi_part (ioredtbl (fst (service_pin conf n s)) m) = hi_part (ioredtbl (fst s) m)"
      "bit (lo_part (ioredtbl (fst (service_pin conf n s)) m)) 14 = bit (lo_part (ioredtbl (fst s) m)) 14"
      "lo_part (ioredtbl (fst (service_pin conf n s)) m) AND NOT 0x1000 = lo_part (ioredtbl (fst s) m) AND NOT 0x1000"
      using p(2) [of m] p(7-9) by (cases "m = n"; simp)+
  qed (use p(4,5) in simp_all)
qed

lemma service_pins:
  assumes "k \<le> 24"
  shows "same_setup (fst s) (fst (fold (service_pin conf) [0..<k] s)) \<and> (\<forall>n<k. settled (fst (fold (service_pin conf) [0..<k] s)) n)"
  using assms
proof (induction k)
  case (Suc k)
  let ?s = "fold (service_pin conf) [0..<k] s"
  have "same_setup (fst ?s) (fst (service_pin conf k ?s))" using Suc.prems by (intro service_pin_setup) simp
  moreover have "settled (fst (service_pin conf k ?s)) n" if "n < Suc k" for n
    using that Suc settled_other [of n k conf ?s] service_pin_io(1) [where n = k and conf = conf and io = "fst ?s" and st = "snd ?s"] by (cases "n = k") simp_all
  ultimately show ?case using Suc same_setup_trans by auto
qed (simp add: same_setup_refl)

lemma service_ioapic_ok:
  "same_setup (fst s) (fst (service_ioapic conf s))" "n < 24 \<Longrightarrow> settled (fst (service_ioapic conf s)) n"
  using service_pins [of 24 s conf] unfolding service_ioapic_def by auto

text \<open>With at most one live pin, service is the service of that pin.\<close>

lemma service_idle: "(\<And>m. m \<in> set ns \<Longrightarrow> \<not> live io m) \<Longrightarrow> fold (service_pin conf) ns (io, st) = (io, st)"
  by (induction ns) (simp_all add: service_pin_idle)

lemma service_single:
  fixes st :: "'d mstate"
  assumes "n < 24" "\<And>m. m < 24 \<Longrightarrow> m \<noteq> n \<Longrightarrow> \<not> live io m"
  shows "service_ioapic conf (io, st) = service_pin conf n (io, st)"
proof -
  obtain io1 st1 where s1: "service_pin conf n (io, st) = (io1, st1)" by (metis surj_pair)
  have l: "\<not> live io1 m" if "m < 24" "m \<noteq> n" for m
    using service_pin_io(2,3) [OF assms(1), where m = m and conf = conf and io = io and st = st] s1 that assms(2) by (simp add: live_def)
  have "[0..<24] = [0..<n] @ n # [Suc n..<24]" using assms(1) upt_add_eq_append [of 0 n "24 - n"] upt_conv_Cons [of n 24] by simp
  then have "service_ioapic conf (io, st) = fold (service_pin conf) [Suc n..<24] (service_pin conf n (fold (service_pin conf) [0..<n] (io, st)))"
    by (simp add: service_ioapic_def)
  moreover have "fold (service_pin conf) [0..<n] (io, st) = (io, st)" using assms by (intro service_idle) simp
  moreover have "fold (service_pin conf) [Suc n..<24] (io1, st1) = (io1, st1)" using l by (intro service_idle) simp
  ultimately show ?thesis by (simp add: s1)
qed

subsection \<open>Every sequence of operations\<close>

definition ioapic_inv :: "bx_ioapic_c \<Rightarrow> bool" where
  "ioapic_inv io \<longleftrightarrow> (\<forall>n < 24. settled io n) \<and> (\<forall>n. bit (io_irr io) n \<longrightarrow> n < 24) \<and> (\<forall>n. bit (intin io) n \<longrightarrow> n < 24) \<and>
     (\<forall>n < 24. \<not> bit (lo_part (ioredtbl io n)) 14)"

text \<open>Service needs only the widths and the reserved bit.\<close>

definition ioapic_typed :: "bx_ioapic_c \<Rightarrow> bool" where
  "ioapic_typed io \<longleftrightarrow> (\<forall>n. bit (io_irr io) n \<longrightarrow> n < 24) \<and> (\<forall>n. bit (intin io) n \<longrightarrow> n < 24) \<and>
     (\<forall>n < 24. \<not> bit (lo_part (ioredtbl io n)) 14)"

lemma ioapic_inv_typed: "ioapic_inv io \<longleftrightarrow> (\<forall>n < 24. settled io n) \<and> ioapic_typed io"
  by (auto simp: ioapic_inv_def ioapic_typed_def)

lemma service_ioapic_inv: "ioapic_typed (fst s) \<Longrightarrow> ioapic_inv (fst (service_ioapic conf s))"
  using service_ioapic_ok(1) [of s conf] service_ioapic_ok(2) [where s = s and conf = conf]
  by (auto simp: ioapic_inv_def ioapic_typed_def same_setup_def)

lemma upd_entry_typed:
  "ioapic_typed io \<Longrightarrow> ioapic_typed (upd_entry k (set_hi_part v) io)" "ioapic_typed io \<Longrightarrow> ioapic_typed (upd_entry k (set_lo_part v) io)"
  by (auto simp: ioapic_typed_def set_hi_part_def set_lo_part_def bit_and_iff)

lemma settled_cong: "io_irr io' = io_irr io \<Longrightarrow> ioredtbl io' = ioredtbl io \<Longrightarrow> settled io' n = settled io n"
  by (simp add: settled_def live_def)

lemma write_aligned_ioapic_inv:
  assumes "ioapic_inv (fst s)" "ioapic_write_aligned conf a v s = Some s'"
  shows "ioapic_inv (fst s')"
proof -
  have k: "ioapic_inv io'" if "io_irr io' = io_irr (fst s)" "ioredtbl io' = ioredtbl (fst s)" "intin io' = intin (fst s)" for io'
    using assms(1) that by (simp add: ioapic_inv_def settled_cong [OF that(1,2)])
  have t: "ioapic_typed (fst s)" using assms(1) by (simp add: ioapic_inv_typed)
  show ?thesis
    using assms(2) k upd_entry_typed [OF t]
    by (auto simp: ioapic_write_aligned_def Let_def case_prod_beta service_ioapic_inv split: if_splits)
qed

lemma raise_typed: "ioapic_typed io \<Longrightarrow> n < 24 \<Longrightarrow> ioapic_typed (io\<lparr>intin := intin io OR push_bit n 1, io_irr := io_irr io OR push_bit n 1\<rparr>)"
  by (auto simp: ioapic_typed_def bit_or_iff bit_pow)

lemma set_irq_level_inv: "ioapic_inv (fst s) \<Longrightarrow> ioapic_inv (fst (set_irq_level conf k level s))"
proof -
  assume i: "ioapic_inv (fst s)"
  obtain io st where s: "s = (io, st)" by (metis surj_pair)
  define n where "n = ioapic_pin k"
  have t: "ioapic_typed io" using i s by (simp add: ioapic_inv_typed)
  have "ioapic_inv (io\<lparr>intin := intin io AND NOT (push_bit n 1), io_irr := io_irr io AND NOT (push_bit n 1)\<rparr>)"
    "ioapic_inv (io\<lparr>intin := intin io AND NOT (push_bit n 1)\<rparr>)"
    "n < 24 \<Longrightarrow> ioapic_inv (io\<lparr>intin := intin io OR push_bit n 1\<rparr>)"
    using i s by (auto simp: ioapic_inv_def settled_def live_def bit_simps bit_pow)
  then show ?thesis using i raise_typed [OF t, of n]
    by (simp add: set_irq_level_def Let_def s n_def [symmetric] service_ioapic_inv)
qed

inductive ioapic_step :: "lapic_conf \<Rightarrow> 'd io_state \<Rightarrow> 'd io_state \<Rightarrow> bool" for conf where
  io_line: "ioapic_step conf s (set_irq_level conf n level s)"
| io_write: "ioapic_write conf a len v s = Some s' \<Longrightarrow> ioapic_step conf s s'"
| io_eoi: "ioapic_step conf (io, st) (receive_eoi v io, st)"
| io_window: "ioapic_step conf (io, st) (fst (set_enabled prm rd wr en off (io, m :: 'd bx_mem)), st)"
| io_reset: "ioapic_step conf (io, st) (ioapic_reset io, st)"
| io_machine: "ioapic_step conf (io, st) (io, st')"

lemma reset_ioapic_inv: "ioapic_inv (ioapic_reset io)"
  by (simp add: ioapic_inv_def ioapic_reset_def settled_def live_def set_hi_part_def set_lo_part_def)

lemma ioapic_step_inv: "ioapic_step conf s s' \<Longrightarrow> ioapic_inv (fst s) \<Longrightarrow> ioapic_inv (fst s')"
proof (induction rule: ioapic_step.induct)
  case (io_write a len v s s')
  then show ?case by (auto simp: ioapic_write_def write_aligned_ioapic_inv split: if_splits)
next
  case (io_window io st prm rd wr en off m)
  then show ?case by (auto simp: set_enabled_def Let_def ioapic_inv_def settled_def live_def)
qed (simp_all add: set_irq_level_inv reset_ioapic_inv receive_eoi_def)

interpretation ioapic_runs: kept_invariant "ioapic_step conf" "\<lambda>s. ioapic_inv (fst s)" for conf
  by unfold_locales (rule ioapic_step_inv)

text \<open>
  C28: no deliverable request waits in the I/O APIC. After a reset and any sequence of line changes, register writes,
  end-of-interrupt messages and moves of the register window, with anything happening to the rest of the machine
  in between, a request still held belongs to one of the 24 pins and is masked, level triggered, or was refused by
  the bus, which its delivery status shows.
\<close>

theorem ioapic_nothing_waits:
  assumes "(ioapic_step conf)\<^sup>*\<^sup>* (ioapic_reset io, st) (io', st')" "bit (io_irr io') n"
  shows "n < 24 \<and> (is_masked (ioredtbl io' n) \<or> trigger_mode (ioredtbl io' n) \<noteq> 0 \<or> bit (lo_part (ioredtbl io' n)) 12)"
proof -
  have "ioapic_inv io'" using ioapic_runs.run_keeps [OF assms(1)] reset_ioapic_inv [of io] by simp
  then show ?thesis using assms(2) by (auto simp: ioapic_inv_def settled_def live_def)
qed

subsection \<open>The redirection registers\<close>

lemma index_entry:
  assumes "0x10 \<le> sel" "sel < 0x40"
  shows "ioapic_index sel < 24" "sel \<noteq> 0" "sel \<noteq> 1" "sel \<noteq> 2"
proof -
  have "unat sel < 64" "16 \<le> unat sel" using assms by (simp_all add: word_less_nat_alt word_le_nat_alt)
  moreover then have "unat (sel - 0x10) = unat sel - 16" by (simp add: unat_sub word_le_nat_alt)
  ultimately show "ioapic_index sel < 24" by (simp add: ioapic_index_def unat_drop_bit_eq drop_bit_eq_div unat_div)
  show "sel \<noteq> 0" "sel \<noteq> 1" "sel \<noteq> 2" using assms by (auto simp: word_le_nat_alt)
qed

text \<open>
  A redirection register reads back what was written to it. Selecting one of the 48 registers and writing it
  through the memory window always succeeds; the high half reads back exactly, the low half without its
  read-only bits and with the delivery status the device puts there.
\<close>

theorem redirection_read_back:
  fixes s :: "'d io_state"
  assumes "0x10 \<le> sel" "sel < 0x40"
  shows "\<exists>s1 s2 w. ioapic_write conf 0xfec00000 4 sel s = Some s1 \<and> ioapic_write conf 0xfec00010 4 v s1 = Some s2 \<and>
    ioapic_read conf 0xfec00010 4 (fst s2) = Some w \<and>
    (if odd sel then w = v else w AND NOT 0x1000 = v AND 0xffffafff)"
proof -
  note i = index_entry [OF assms]
  obtain io st where s: "s = (io, st)" by (metis surj_pair)
  define io1 where "io1 = io\<lparr>ioregsel := sel\<rparr>"
  define io2 where "io2 = upd_entry (ioapic_index sel) (if odd sel then set_hi_part v else set_lo_part v) io1"
  have w: "ioapic_write conf 0xfec00000 4 sel s = Some (io1, st)" "ioapic_write conf 0xfec00010 4 v (io1, st) = Some (service_ioapic conf (io2, st))"
    using i by (simp_all add: ioapic_write_def ioapic_write_aligned_def s io1_def io2_def Let_def)
  define io3 where "io3 = fst (service_ioapic conf (io2, st))"
  have k: "ioregsel io3 = sel" "hi_part (ioredtbl io3 (ioapic_index sel)) = hi_part (ioredtbl io2 (ioapic_index sel))"
    "lo_part (ioredtbl io3 (ioapic_index sel)) AND NOT 0x1000 = lo_part (ioredtbl io2 (ioapic_index sel)) AND NOT 0x1000"
    using service_ioapic_ok(1) [of "(io2, st)" conf] by (auto simp: same_setup_def io3_def io2_def io1_def)
  have "ioapic_read conf 0xfec00010 4 io3 = Some (if odd sel then hi_part (ioredtbl io3 (ioapic_index sel)) else lo_part (ioredtbl io3 (ioapic_index sel)))"
    using i k(1) by (simp add: ioapic_read_def ioapic_read_aligned_def)
  moreover have "hi_part (ioredtbl io3 (ioapic_index sel)) = v" if "odd sel"
    using k(2) that by (simp add: io2_def set_hi_part_def)
  moreover have "lo_part (ioredtbl io3 (ioapic_index sel)) AND NOT 0x1000 = v AND 0xffffafff" if "even sel"
  proof -
    have "(v AND 0xffffafff) AND NOT 0x1000 = v AND 0xffffafff" by (simp add: and.assoc)
    moreover have "lo_part (ioredtbl io2 (ioapic_index sel)) = v AND 0xffffafff" using that by (simp add: io2_def set_lo_part_def)
    ultimately show ?thesis using k(3) by (simp only:)
  qed
  ultimately show ?thesis using w unfolding io3_def
    by (intro exI [of _ "(io1, st)"] exI [of _ "service_ioapic conf (io2, st)"] exI conjI) (assumption | simp)+
qed

subsection \<open>Edges and levels\<close>


subsection \<open>From a line to the handler\<close>

text \<open>The redirection entry addresses this processor, in physical mode.\<close>

definition fixed_here :: "lapic_conf \<Rightarrow> bx_io_redirect_entry_t \<Rightarrow> bx_local_apic_c \<Rightarrow> bool" where
  "fixed_here conf en la \<longleftrightarrow> \<not> is_masked en \<and> delivery_mode en = 0 \<and> destination_mode en = 0 \<and>
     ucast (destination en) AND apic_id_mask conf \<noteq> apic_id_mask conf \<and> apic_id la = ucast (destination en)"

lemma service_pin_fixed:
  assumes "fixed_here conf (ioredtbl io n) (lapic (cpu_of st))" "bit (io_irr io) n"
  shows "snd (service_pin conf n (io, st)) =
    upd_cpu (trigger_irq (entry_vector (ioredtbl io n)) (trigger_mode (ioredtbl io n)) False) st"
    "trigger_mode (ioredtbl io n) = 0 \<Longrightarrow> n < 24 \<Longrightarrow> \<not> bit (io_irr (fst (service_pin conf n (io, st)))) n"
  using assms by (simp_all add: service_pin_def fixed_here_def apic_bus_deliver_interrupt_def deliver_def Let_def bit_simps bit_pow)

lemma raise_fixed:
  fixes st :: "'d mstate" and conf :: lapic_conf
  assumes "n < 24" "ioapic_pin k = n" "fixed_here conf (ioredtbl io n) (lapic (cpu_of st))" "\<not> bit (intin io) n"
    "\<And>m. m < 24 \<Longrightarrow> m \<noteq> n \<Longrightarrow> \<not> live io m"
  shows "snd (set_irq_level conf k True (io, st)) =
    upd_cpu (trigger_irq (entry_vector (ioredtbl io n)) (trigger_mode (ioredtbl io n)) False) st"
    "trigger_mode (ioredtbl io n) = 0 \<Longrightarrow> \<not> bit (io_irr (fst (set_irq_level conf k True (io, st)))) n"
proof -
  let ?b = "push_bit n 1 :: Bit32u"
  define io1 where "io1 = io\<lparr>intin := intin io OR ?b, io_irr := io_irr io OR ?b\<rparr>"
  have "intin io AND ?b = 0" using assms(4) by (auto simp: word_and_0_iff bit_pow)
  then have s: "set_irq_level conf k True (io, st) = service_ioapic conf (io1, st)"
    using assms(1-3) by (simp add: set_irq_level_def Let_def io1_def fixed_here_def)
  have "\<not> live io1 m" if "m < 24" "m \<noteq> n" for m using assms(5) [OF that] that(2) by (simp add: io1_def live_def bit_or_iff bit_pow)
  then have p: "set_irq_level conf k True (io, st) = service_pin conf n (io1, st)"
    unfolding s using assms(1) by (intro service_single)
  have f: "fixed_here conf (ioredtbl io1 n) (lapic (cpu_of st))" "bit (io_irr io1) n" "ioredtbl io1 n = ioredtbl io n"
    using assms(1,3) by (simp_all add: io1_def bit_or_iff bit_pow)
  show "snd (set_irq_level conf k True (io, st)) =
      upd_cpu (trigger_irq (entry_vector (ioredtbl io n)) (trigger_mode (ioredtbl io n)) False) st"
    "trigger_mode (ioredtbl io n) = 0 \<Longrightarrow> \<not> bit (io_irr (fst (set_irq_level conf k True (io, st)))) n"
    using service_pin_fixed [OF f(1,2)] f(3) assms(1) unfolding p by simp_all
qed


subsection \<open>A configured device\<close>

definition wit_ioapic :: bx_ioapic_c where
  "wit_ioapic = \<lparr>ioapic_enabled = True, ioapic_base = 0xfec00000, ioapic_id = 1, ioregsel = 0, intin = 0, io_irr = 0,
     ioredtbl = (\<lambda>_. \<lparr>hi_part = 0, lo_part = 0x10000\<rparr>)(4 := \<lparr>hi_part = 0, lo_part = 0x51\<rparr>, 5 := \<lparr>hi_part = 0, lo_part = 0x18052\<rparr>)\<rparr>"

lemma wit_ioapic_pins: "\<not> live wit_ioapic m" "fixed_here wit_lapic_conf (ioredtbl wit_ioapic 4) la \<longleftrightarrow> apic_id la = 0" "entry_vector (ioredtbl wit_ioapic 4) = 0x51"
  by (simp_all add: live_def wit_ioapic_def fixed_here_def is_masked_def delivery_mode_def destination_mode_def destination_def
      wit_lapic_conf_def wit_lapic_def entry_vector_def)

theorem ioapic_nothing_waits_witness:
  "\<exists>s. (ioapic_step wit_lapic_conf)\<^sup>*\<^sup>* (ioapic_reset wit_ioapic, wit_machine) s \<and> bit (io_irr (fst s)) 4 \<and>
     \<not> is_masked (ioredtbl (fst s) 4) \<and> trigger_mode (ioredtbl (fst s) 4) = 0 \<and> bit (lo_part (ioredtbl (fst s) 4)) 12"
proof -
  define io0 where "io0 = ioapic_reset wit_ioapic"
  define io1 where "io1 = io0\<lparr>ioregsel := 0x18\<rparr>"
  define io2 where "io2 = upd_entry 4 (set_lo_part 0x851) io1"
  define s where "s = set_irq_level wit_lapic_conf 4 True (io2, wit_machine)"
  have f: "io_irr io2 = 0" "intin io2 = 0" "ioredtbl io2 4 = \<lparr>hi_part = 0, lo_part = 0x851\<rparr>"
    by (simp_all add: io2_def io1_def io0_def ioapic_reset_def set_lo_part_def set_hi_part_def)
  then have "service_ioapic wit_lapic_conf (io2, wit_machine) = (io2, wit_machine)"
    unfolding service_ioapic_def by (intro service_idle) (simp add: live_def)
  then have "ioapic_write wit_lapic_conf 0xfec00000 4 0x18 (io0, wit_machine) = Some (io1, wit_machine)"
    "ioapic_write wit_lapic_conf 0xfec00010 4 0x851 (io1, wit_machine) = Some (io2, wit_machine)"
    by (simp_all add: ioapic_write_def ioapic_write_aligned_def ioapic_index_def io1_def io2_def Let_def drop_bit_eq_div)
  then have "(ioapic_step wit_lapic_conf)\<^sup>*\<^sup>* (io0, wit_machine) s"
    unfolding s_def by (meson io_write io_line converse_rtranclp_into_rtranclp r_into_rtranclp)
  then have steps: "(ioapic_step wit_lapic_conf)\<^sup>*\<^sup>* (ioapic_reset wit_ioapic, wit_machine) (fst s, snd s)" by (simp add: io0_def)
  let ?io = "io2\<lparr>intin := 16, io_irr := 16\<rparr>"
  have "\<not> bit (16 :: Bit32u) m" if "m \<noteq> 4" for m
  proof -
    have "(16 :: Bit32u) = 2 ^ 4" by simp
    then show ?thesis using that by (simp only: bit_pow) simp
  qed
  then have only_4: "\<not> live ?io m" if "m \<noteq> 4" for m using that unfolding live_def by auto
  have "s = service_ioapic wit_lapic_conf (?io, wit_machine)"
    using f by (simp add: s_def set_irq_level_def ioapic_pin_def is_masked_def trigger_mode_def Let_def)
  also have "\<dots> = service_pin wit_lapic_conf 4 (?io, wit_machine)"
    by (rule service_single) (simp, rule only_4)
  finally have e: "io_irr (fst s) = 16" "ioredtbl (fst s) 4 = set_delivery_status \<lparr>hi_part = 0, lo_part = 0x851\<rparr>"
    using f by (simp_all add: service_pin_def is_masked_def delivery_mode_def destination_mode_def destination_def
        apic_bus_deliver_interrupt_def Let_def)
  then have "bit (io_irr (fst s)) 4" "\<not> is_masked (ioredtbl (fst s) 4)" "trigger_mode (ioredtbl (fst s) 4) = 0"
    by (simp_all add: is_masked_def trigger_mode_def)
  moreover from ioapic_nothing_waits [OF steps this(1)] this(2,3) have "bit (lo_part (ioredtbl (fst s) 4)) 12" by blast
  ultimately show ?thesis using steps by (intro exI [of _ s]) simp
qed

theorem redirection_read_back_witness:
  "\<exists>s1 s2 w. ioapic_write wit_lapic_conf 0xfec00000 4 0x18 (wit_ioapic, wit_machine) = Some s1 \<and>
     ioapic_write wit_lapic_conf 0xfec00010 4 0xf0ff s1 = Some s2 \<and>
     ioapic_read wit_lapic_conf 0xfec00010 4 (fst s2) = Some w \<and> w AND NOT 0x1000 = 0xa0ff"
  using redirection_read_back [where sel = "0x18" and conf = wit_lapic_conf and v = "0xf0ff" and s = "(wit_ioapic, wit_machine)"] by simp



end
