(* ===== verification/PageWalk.thy ===== *)
theory PageWalk
  imports Lapic PhysMem
begin

text \<open>
  The page walk of \<^verbatim>\<open>bochs/cpu/paging.cc\<close> in its three formats, with protection, accessed and dirty bits and memory types. A walk
  runs over a state of any type through the record \<open>walk_ops\<close> of the accesses it makes. A fault, which never returns to the
  caller, is the left side of a sum. Memory notifications are empty in this build, so that the memory types of the entries,
  which only they read, are left out. The buffer a walk reads an entry into starts as zero.
\<close>

subsection \<open>Memory types\<close>

abbreviation (input) "BX_MEMTYPE_UC \<equiv> (0 :: Bit32u)"
abbreviation (input) "BX_MEMTYPE_WC \<equiv> (1 :: Bit32u)"
abbreviation (input) "BX_MEMTYPE_WT \<equiv> (4 :: Bit32u)"
abbreviation (input) "BX_MEMTYPE_WP \<equiv> (5 :: Bit32u)"
abbreviation (input) "BX_MEMTYPE_WB \<equiv> (6 :: Bit32u)"
abbreviation (input) "BX_MEMTYPE_UC_WEAK \<equiv> (7 :: Bit32u)"
abbreviation (input) "BX_MEMTYPE_INVALID \<equiv> (8 :: Bit32u)"

definition ubyte :: "Bit64u \<Rightarrow> nat \<Rightarrow> Bit32u" where
  "ubyte w i = ucast (drop_bit (8 * i) w AND 0xff)"

text \<open>The variable ranges in order; an uncacheable match ends the search.\<close>

fun variable_memtype :: "bx_phy_address \<Rightarrow> (Bit64u \<times> Bit64u) list \<Rightarrow> Bit32u option \<Rightarrow> Bit32u option" where
  "variable_memtype pa [] mt = mt"
| "variable_memtype pa ((bs, msk) # rs) mt =
     (if msk AND 0x800 = 0 \<or> pa AND PPFOf msk \<noteq> bs AND PPFOf msk then variable_memtype pa rs mt
      else let curr = ucast (bs AND 0xff)
           in if curr = BX_MEMTYPE_UC then Some BX_MEMTYPE_UC
              else variable_memtype pa rs (Some (case mt of
                     None \<Rightarrow> curr
                   | Some t \<Rightarrow> if t = curr then t
                               else if curr = BX_MEMTYPE_WT \<and> t = BX_MEMTYPE_WB then BX_MEMTYPE_WT
                               else if curr = BX_MEMTYPE_WB \<and> t = BX_MEMTYPE_WT then BX_MEMTYPE_WT
                               else BX_MEMTYPE_INVALID)))"

definition fixed_memtype :: "bx_phy_address \<Rightarrow> bx_mtrrs \<Rightarrow> Bit32u" where
  "fixed_memtype pa m =
     (if pa < 0x80000 then ubyte (mtrrfix64k m) (unat (drop_bit 16 pa AND 7))
      else if pa < 0xc0000
      then (let index = unat (drop_bit 14 (pa - 0x80000) AND 0xf) in ubyte (mtrrfix16k m (index div 8)) (index mod 8))
      else (let index = unat (drop_bit 12 (pa - 0xc0000)) in ubyte (mtrrfix4k m (index div 8)) (index mod 8)))"

definition memtype_by_mtrr :: "bool \<Rightarrow> bx_phy_address \<Rightarrow> bx_mtrrs \<Rightarrow> Bit32u" where
  "memtype_by_mtrr isa_mtrr pa m =
     (if \<not> isa_mtrr then BX_MEMTYPE_INVALID
      else if mtrr_deftype m AND 0x800 = 0 then BX_MEMTYPE_UC
      else if pa < 0x100000 \<and> mtrr_deftype m AND 0x400 \<noteq> 0 then fixed_memtype pa m
      else case variable_memtype pa (map (\<lambda>i. (mtrrphys m (2 * i), mtrrphys m (2 * i + 1))) [0..<8]) None of
             Some t \<Rightarrow> t
           | None \<Rightarrow> mtrr_deftype m AND 0xff)"

definition memtype_by_pat :: "Bit32u \<Rightarrow> BX_CPU_C \<Rightarrow> Bit32u" where
  "memtype_by_pat pp cpu = ubyte (pat (msr cpu)) (unat pp)"

text \<open>The last case panics and answers \<open>BX_MEMTYPE_INVALID\<close>.\<close>

definition resolve_memtype :: "Bit32u \<Rightarrow> Bit32u \<Rightarrow> BX_CPU_C \<Rightarrow> Bit32u" where
  "resolve_memtype mtrr0 pat_memtype cpu =
     (let mtrr = (if mtrr0 = BX_MEMTYPE_INVALID then BX_MEMTYPE_WB else mtrr0)
      in if crreg_get (cr0 (crs cpu)) 30 then BX_MEMTYPE_UC
         else if pat_memtype = BX_MEMTYPE_UC \<or> pat_memtype = BX_MEMTYPE_WC then pat_memtype
         else if pat_memtype = BX_MEMTYPE_WT \<or> pat_memtype = BX_MEMTYPE_WP
         then (if mtrr = BX_MEMTYPE_WC then BX_MEMTYPE_UC else if mtrr < pat_memtype then mtrr else pat_memtype)
         else if pat_memtype = BX_MEMTYPE_WB then mtrr
         else if pat_memtype = BX_MEMTYPE_UC_WEAK then (if mtrr = BX_MEMTYPE_WC then BX_MEMTYPE_WC else BX_MEMTYPE_UC)
         else BX_MEMTYPE_INVALID)"

text \<open>What a write to the model-specific registers accepts as a memory type.\<close>

definition isMemTypeValidMTRR :: "Bit32u \<Rightarrow> bool" where
  "isMemTypeValidMTRR memtype \<longleftrightarrow> memtype \<in> {BX_MEMTYPE_UC, BX_MEMTYPE_WC, BX_MEMTYPE_WT, BX_MEMTYPE_WP, BX_MEMTYPE_WB}"

definition isMemTypeValidPAT :: "Bit32u \<Rightarrow> bool" where
  "isMemTypeValidPAT memtype \<longleftrightarrow> memtype = 7 \<or> isMemTypeValidMTRR memtype"

definition isValidMSR_PAT :: "Bit64u \<Rightarrow> bool" where
  "isValidMSR_PAT pat_val \<longleftrightarrow> list_all (\<lambda>i. isMemTypeValidPAT (ubyte pat_val i)) [0..<8]"

definition isValidMSR_FixedMTRR :: "Bit64u \<Rightarrow> bool" where
  "isValidMSR_FixedMTRR fixed_mtrr_val \<longleftrightarrow> list_all (\<lambda>i. isMemTypeValidMTRR (ubyte fixed_mtrr_val i)) [0..<8]"

definition calculate_pcd_pwt :: "Bit32u \<Rightarrow> Bit32u" where
  "calculate_pcd_pwt en = drop_bit 3 en AND 3"

definition calculate_pat :: "Bit32u \<Rightarrow> Bit32u \<Rightarrow> Bit32u" where
  "calculate_pat en lpf_mask =
     calculate_pcd_pwt en OR push_bit 2 ((if lpf_mask < 0x1000 then drop_bit 7 en else drop_bit 12 en) AND 1)"

subsection \<open>Walking the tables\<close>

abbreviation "get_PG c \<equiv> crreg_get (cr0 c) 31"
abbreviation "get_PSE c \<equiv> crreg_get (cr4 c) 4"
abbreviation "get_PAE c \<equiv> crreg_get (cr4 c) 5"
abbreviation "get_PGE c \<equiv> crreg_get (cr4 c) 7"
abbreviation "get_SMEP c \<equiv> crreg_get (cr4 c) 20"
abbreviation "get_SMAP c \<equiv> crreg_get (cr4 c) 21"
abbreviation "get_NXE c \<equiv> crreg_get (efer c) 11"

abbreviation (input) "ERROR_NOT_PRESENT \<equiv> (0 :: Bit32u)"
abbreviation (input) "ERROR_PROTECTION \<equiv> (1 :: Bit32u)"
abbreviation (input) "ERROR_RESERVED \<equiv> (8 :: Bit32u)"
abbreviation (input) "ERROR_CODE_ACCESS \<equiv> (0x10 :: Bit32u)"
abbreviation (input) "ERROR_PKEY \<equiv> (0x20 :: Bit32u)"

abbreviation (input) "PAGE_FRAME_MASK \<equiv> (0x000ffffffffff000 :: Bit64u)"
abbreviation (input) "PAGE_DIRECTORY_NX_BIT \<equiv> (0x8000000000000000 :: Bit64u)"
abbreviation (input) "PAGING_PAE_RESERVED_BITS \<equiv> (0x000fff0000000000 :: Bit64u)"
abbreviation (input) "PAGING_LEGACY_PAE_RESERVED_BITS \<equiv> (0x7fffff0000000000 :: Bit64u)"
abbreviation (input) "PAGING_PAE_PDE2M_RESERVED_BITS \<equiv> (0x000fff00001fe000 :: Bit64u)"
abbreviation (input) "PAGING_PAE_PDPTE_RESERVED_BITS \<equiv> (0xffffff00000001e6 :: Bit64u)"
abbreviation (input) "PAGING_PDE4M_RESERVED_BITS \<equiv> (0x200000 :: Bit64u)"

text \<open>How an access ends early: exceptions, exits of a guest to its hypervisor with reason and qualification, the end of the program.\<close>

datatype walk_stop = Page_fault Bit32u | Alignment_fault | Virtualization_fault
  | Svm_exit Bit64u bx_phy_address | Vmx_exit Bit32u Bit32u | Intercepted | Host_exit

type_synonym ('s, 'a) walking = "walk_stop \<times> 's + 'a \<times> 's"

definition walk_then :: "('s, 'a) walking \<Rightarrow> ('a \<Rightarrow> 's \<Rightarrow> ('s, 'b) walking) \<Rightarrow> ('s, 'b) walking" where
  "walk_then r f = (case r of Inl x \<Rightarrow> Inl x | Inr (a, s) \<Rightarrow> f a s)"

record 's walk_ops =
  walk_read :: "nat \<Rightarrow> bx_phy_address \<Rightarrow> 's \<Rightarrow> 's \<times> Bit64u"
  walk_write :: "nat \<Rightarrow> bx_phy_address \<Rightarrow> Bit64u \<Rightarrow> 's \<Rightarrow> ('s, unit) walking"
  walk_nested :: "bx_phy_address \<Rightarrow> 's \<Rightarrow> ('s, bx_phy_address) walking"
  svm_nested :: bool
  isa_1g_pages :: bool

text \<open>What the loop of a walk has found so far; the visited entries with their addresses, the leaf last.\<close>

record walk =
  w_ppf :: bx_phy_address
  w_lpf_mask :: Bit32u
  w_access :: Bit32u
  w_nx :: bool
  w_offset :: Bit64u
  w_visited :: "(bx_phy_address \<times> Bit64u) list"

definition start_walk :: "bx_phy_address \<Rightarrow> walk" where
  "start_walk pp = \<lparr>w_ppf = pp, w_lpf_mask = 0xfff, w_access = 6, w_nx = False, w_offset = 0x0000ffffffffffff, w_visited = []\<rparr>"

definition check_entry_PAE :: "Bit64u \<Rightarrow> Bit64u \<Rightarrow> Bit32u option" where
  "check_entry_PAE en rsvd =
     (if en AND 1 = 0 then Some ERROR_NOT_PRESENT
      else if en AND rsvd \<noteq> 0 then Some (ERROR_RESERVED OR ERROR_PROTECTION)
      else None)"

text \<open>One level: the entry is read, checked and accounted for.\<close>

definition visit :: "'s walk_ops \<Rightarrow> nat \<Rightarrow> Bit64u \<Rightarrow> Bit64u \<Rightarrow> mem_rw \<Rightarrow> bx_phy_address \<Rightarrow> walk \<Rightarrow> 's \<Rightarrow> ('s, walk) walking" where
  "visit ops sz rsvd frame rw a0 w st =
     walk_then (walk_nested ops a0 st) (\<lambda>a st1.
       let (st2, en) = walk_read ops sz a st1
       in case check_entry_PAE en rsvd of
            Some f \<Rightarrow> Inl (Page_fault f, st2)
          | None \<Rightarrow> Inr (w\<lparr>w_ppf := en AND frame, w_access := w_access w AND ucast en,
                     w_nx := w_nx w \<or> (en AND PAGE_DIRECTORY_NX_BIT \<noteq> 0 \<and> rw = BX_EXECUTE),
                     w_offset := drop_bit 9 (w_offset w), w_visited := w_visited w @ [(a, en)]\<rparr>, st2))"

abbreviation leaf_entry :: "walk \<Rightarrow> Bit64u" where
  "leaf_entry w \<equiv> snd (last (w_visited w))"

fun walk_long :: "'s walk_ops \<Rightarrow> Bit64u \<Rightarrow> mem_rw \<Rightarrow> bx_address \<Rightarrow> nat \<Rightarrow> walk \<Rightarrow> 's \<Rightarrow> ('s, walk) walking" where
  "walk_long ops rsvd rw laddr 0 w st = visit ops 8 rsvd PAGE_FRAME_MASK rw (w_ppf w + (drop_bit 9 laddr AND 0xff8)) w st"
| "walk_long ops rsvd rw laddr (Suc k) w st =
     walk_then (visit ops 8 rsvd PAGE_FRAME_MASK rw (w_ppf w + (drop_bit (9 + 9 * Suc k) laddr AND 0xff8)) w st) (\<lambda>w1 st1.
       if leaf_entry w1 AND 0x80 \<noteq> 0
       then (if Suc k > 1 + of_bool (isa_1g_pages ops) then Inl (Page_fault (ERROR_RESERVED OR ERROR_PROTECTION), st1)
             else let pp = w_ppf w1 AND 0x000fffffffffe000
                  in if pp AND w_offset w1 \<noteq> 0 then Inl (Page_fault (ERROR_RESERVED OR ERROR_PROTECTION), st1)
                     else Inr (w1\<lparr>w_ppf := pp, w_lpf_mask := ucast (w_offset w1)\<rparr>, st1))
       else walk_long ops rsvd rw laddr k w1 st1)"

definition nx_reserved :: "bool \<Rightarrow> Bit64u \<Rightarrow> Bit64u" where
  "nx_reserved nxe r = (if \<not> nxe then r OR PAGE_DIRECTORY_NX_BIT else r)"

text \<open>The page-directory-pointer entry of PAE mode comes from the cache, or from memory under nested paging.\<close>

definition translate_linear_load_PDPTR :: "'s walk_ops \<Rightarrow> BX_CPU_C \<Rightarrow> bx_address \<Rightarrow> 's \<Rightarrow> ('s, Bit64u) walking" where
  "translate_linear_load_PDPTR ops cpu laddr st =
     (let index = drop_bit 30 laddr AND 3
      in walk_then
           (if svm_nested ops
            then walk_then (walk_nested ops (cr3 (crs cpu) AND 0xffffffe0) st) (\<lambda>pp st1.
                   let (st2, en) = walk_read ops 8 (pp OR push_bit 3 index) st1
                   in if en AND 1 \<noteq> 0 \<and> en AND PAGING_PAE_PDPTE_RESERVED_BITS \<noteq> 0
                      then Inl (Page_fault (ERROR_RESERVED OR ERROR_PROTECTION), st2) else Inr (en, st2))
            else Inr (PDPTR_CACHE cpu (unat index), st))
           (\<lambda>en st1. if en AND 1 = 0 then Inl (Page_fault ERROR_NOT_PRESENT, st1) else Inr (en, st1)))"

definition walk_PAE :: "'s walk_ops \<Rightarrow> Bit64u \<Rightarrow> mem_rw \<Rightarrow> bx_address \<Rightarrow> walk \<Rightarrow> 's \<Rightarrow> ('s, walk) walking" where
  "walk_PAE ops rsvd rw laddr w st =
     walk_then (visit ops 8 rsvd PAGE_FRAME_MASK rw (w_ppf w + (drop_bit 18 laddr AND 0xff8)) w st) (\<lambda>w1 st1.
       if leaf_entry w1 AND 0x80 \<noteq> 0
       then (if leaf_entry w1 AND PAGING_PAE_PDE2M_RESERVED_BITS \<noteq> 0
             then Inl (Page_fault (ERROR_RESERVED OR ERROR_PROTECTION), st1)
             else Inr (w1\<lparr>w_ppf := leaf_entry w1 AND 0x000fffffffe00000, w_lpf_mask := 0x1fffff\<rparr>, st1))
       else visit ops 8 rsvd PAGE_FRAME_MASK rw (w_ppf w1 + (drop_bit 9 laddr AND 0xff8)) w1 st1)"

text \<open>Entries of the 32 bit format have no reserved bits besides those of a large page.\<close>

definition walk_legacy :: "'s walk_ops \<Rightarrow> bool \<Rightarrow> mem_rw \<Rightarrow> bx_address \<Rightarrow> walk \<Rightarrow> 's \<Rightarrow> ('s, walk) walking" where
  "walk_legacy ops pse rw laddr w st =
     walk_then (visit ops 4 0 0xfffff000 rw (w_ppf w + (drop_bit 20 laddr AND 0xffc)) w st) (\<lambda>w1 st1.
       if leaf_entry w1 AND 0x80 \<noteq> 0 \<and> pse
       then (if leaf_entry w1 AND PAGING_PDE4M_RESERVED_BITS \<noteq> 0
             then Inl (Page_fault (ERROR_RESERVED OR ERROR_PROTECTION), st1)
             else Inr (w1\<lparr>w_ppf := (leaf_entry w1 AND 0xffc00000) OR push_bit 19 (leaf_entry w1 AND 0x003fe000),
                         w_lpf_mask := 0x3fffff\<rparr>, st1))
       else visit ops 4 0 0xfffff000 rw (w_ppf w1 + (drop_bit 10 laddr AND 0xffc)) w1 st1)"

subsection \<open>Protection\<close>

definition priv_check :: "bool list" where
  "priv_check =
     [True, True, True, True, True, True, True, True, False, False, False, False, True, False, True, True,
      True, False, True, True, True, False, True, True, False, False, False, False, True, False, True, True]"

definition page_protection :: "BX_CPU_C \<Rightarrow> bool \<Rightarrow> mem_rw \<Rightarrow> Bit32u \<Rightarrow> bool \<Rightarrow> Bit32u option" where
  "page_protection cpu user rw combined_access nx_fault =
     (let priv_index = (of_bool (get_WP (crs cpu)) * 16 OR of_bool user * 8) OR (combined_access OR of_bool (is_write rw)) :: Bit32u
      in if \<not> priv_check ! unat priv_index \<or> nx_fault then Some ERROR_PROTECTION
         else if get_SMEP (crs cpu) \<and> rw = BX_EXECUTE \<and> \<not> user \<and> combined_access AND 4 \<noteq> 0 then Some ERROR_PROTECTION
         else if get_SMAP (crs cpu) \<and> \<not> get_AC cpu \<and> rw \<noteq> BX_EXECUTE \<and> \<not> user \<and> combined_access AND 4 \<noteq> 0 then Some ERROR_PROTECTION
         else None)"

definition pkey_protection :: "BX_CPU_C \<Rightarrow> bool \<Rightarrow> mem_rw \<Rightarrow> Bit32u \<Rightarrow> Bit32u option" where
  "pkey_protection cpu user rw pkey =
     (if get_PKE (crs cpu) \<and> rw \<noteq> BX_EXECUTE \<and>
         (bit (pkru (modes cpu)) (2 * unat pkey) \<or>
          bit (pkru (modes cpu)) (2 * unat pkey + 1) \<and> is_write rw \<and> (user \<or> get_WP (crs cpu)))
      then Some (ERROR_PROTECTION OR ERROR_PKEY) else None)"

text \<open>Accessed and dirty bits: every visited entry is accessed, the leaf of a write is dirty.\<close>

fun update_access_dirty :: "'s walk_ops \<Rightarrow> nat \<Rightarrow> bool \<Rightarrow> (bx_phy_address \<times> Bit64u) list \<Rightarrow> 's \<Rightarrow> ('s, unit) walking" where
  "update_access_dirty ops sz wr [] st = Inr ((), st)"
| "update_access_dirty ops sz wr ((a, en) # es) st =
     (if es = []
      then (if en AND 0x20 = 0 \<or> wr \<and> en AND 0x40 = 0
            then walk_write ops sz a (en OR (0x20 OR of_bool wr * 0x40)) st else Inr ((), st))
      else walk_then (if en AND 0x20 = 0 then walk_write ops sz a (en OR 0x20) st else Inr ((), st))
             (\<lambda>_. update_access_dirty ops sz wr es))"

text \<open>The end of the three walks: protection, global bit and memory type, accessed and dirty bits.\<close>

definition finish_walk :: "'s walk_ops \<Rightarrow> nat \<Rightarrow> BX_CPU_C \<Rightarrow> bool \<Rightarrow> mem_rw \<Rightarrow> walk \<Rightarrow> 's \<Rightarrow> ('s, bx_phy_address \<times> Bit32u) walking" where
  "finish_walk ops sz cpu user rw w st =
     (case page_protection cpu user rw (w_access w) (w_nx w) of
        Some f \<Rightarrow> Inl (Page_fault f, st)
      | None \<Rightarrow>
          let en = leaf_entry w;
              acc1 = (if get_PGE (crs cpu) then w_access w OR (ucast en AND 0x100) else w_access w);
              acc2 = acc1 OR push_bit 9 (memtype_by_pat (calculate_pat (ucast en) (w_lpf_mask w)) cpu)
          in walk_then (update_access_dirty ops sz (is_write rw) (w_visited w) st)
               (\<lambda>_ st1. Inr ((w_ppf w OR ucast acc2, w_lpf_mask w), st1)))"

definition translate_linear_long_mode ::
    "'s walk_ops \<Rightarrow> BX_CPU_C \<Rightarrow> bx_address \<Rightarrow> bool \<Rightarrow> mem_rw \<Rightarrow> 's \<Rightarrow> ('s, bx_phy_address \<times> Bit32u \<times> Bit32u) walking" where
  "translate_linear_long_mode ops cpu laddr user rw st =
     walk_then (walk_long ops (nx_reserved (get_NXE (crs cpu)) PAGING_PAE_RESERVED_BITS) rw laddr 3 (start_walk (cr3 (crs cpu) AND PAGE_FRAME_MASK)) st) (\<lambda>w st1.
       let pkey = (if get_PKE (crs cpu) then ucast (drop_bit 59 (leaf_entry w) AND 0xf) else 0)
       in case pkey_protection cpu user rw pkey of
            Some f \<Rightarrow> Inl (Page_fault f, st1)
          | None \<Rightarrow> walk_then (finish_walk ops 8 cpu user rw w st1) (\<lambda>(pp, m) st2. Inr ((pp, m, pkey), st2)))"

definition translate_linear_PAE ::
    "'s walk_ops \<Rightarrow> BX_CPU_C \<Rightarrow> bx_address \<Rightarrow> bool \<Rightarrow> mem_rw \<Rightarrow> 's \<Rightarrow> ('s, bx_phy_address \<times> Bit32u) walking" where
  "translate_linear_PAE ops cpu laddr user rw st =
     walk_then (translate_linear_load_PDPTR ops cpu laddr st) (\<lambda>pdpte st1.
       walk_then (walk_PAE ops (nx_reserved (get_NXE (crs cpu)) PAGING_LEGACY_PAE_RESERVED_BITS) rw laddr (start_walk (pdpte AND PAGE_FRAME_MASK)) st1)
         (finish_walk ops 8 cpu user rw))"

definition translate_linear_legacy ::
    "'s walk_ops \<Rightarrow> BX_CPU_C \<Rightarrow> bx_address \<Rightarrow> bool \<Rightarrow> mem_rw \<Rightarrow> 's \<Rightarrow> ('s, bx_phy_address \<times> Bit32u) walking" where
  "translate_linear_legacy ops cpu laddr user rw st =
     walk_then (walk_legacy ops (get_PSE (crs cpu)) rw laddr (start_walk (cr3 (crs cpu) AND 0xfffff000)) st) (finish_walk ops 4 cpu user rw)"

end
