(* ===== verification/PageWalkProps.thy ===== *)
theory PageWalkProps
  imports PageWalk CpuProps
begin

text \<open>
  Properties of page walks: protection is the architectural rule, the range registers resolve overlaps as documented, memory
  types stay valid, cached protection keys, and what a walk does to the tables it visits.
\<close>

subsection \<open>Protection\<close>

text \<open>The rights of an access, by the rules of the manual: privilege, write protection, SMEP and SMAP.\<close>

definition access_allowed :: "BX_CPU_C \<Rightarrow> bool \<Rightarrow> mem_rw \<Rightarrow> bool \<Rightarrow> bool \<Rightarrow> bool" where
  "access_allowed cpu user rw us wr \<longleftrightarrow>
     (user \<longrightarrow> us) \<and>
     (is_write rw \<and> (user \<or> get_WP (crs cpu)) \<longrightarrow> wr) \<and>
     (\<not> user \<and> us \<and> rw = BX_EXECUTE \<longrightarrow> \<not> get_SMEP (crs cpu)) \<and>
     (\<not> user \<and> us \<and> rw \<noteq> BX_EXECUTE \<longrightarrow> \<not> get_SMAP (crs cpu) \<or> get_AC cpu)"

lemma priv_check_rule:
  "priv_check ! unat ((of_bool wp * 16 OR of_bool user * 8) OR ((of_bool us * 4 OR of_bool wr * 2) OR of_bool ww) :: Bit32u) \<longleftrightarrow>
     (user \<longrightarrow> us) \<and> (ww \<and> (user \<or> wp) \<longrightarrow> wr)"
  by (cases wp; cases user; cases us; cases wr; cases ww) (simp_all add: priv_check_def)

lemma bit_6: "bit (6 :: Bit32u) n \<longleftrightarrow> n = 1 \<or> n = 2"
proof -
  have "(6 :: Bit32u) = push_bit 1 1 OR push_bit 2 1" by simp
  then show ?thesis by (simp only: bit_simps) auto
qed

lemma access_bits: "acc AND NOT 6 = 0 \<Longrightarrow> acc = of_bool (bit acc 2) * 4 OR of_bool (bit acc 1) * 2" for acc :: Bit32u
proof -
  assume "acc AND NOT 6 = 0"
  then have "\<not> (bit acc n \<and> bit (NOT 6 :: Bit32u) n)" for n by (metis bit_and_iff bit_0_eq bot_apply bot_bool_def)
  then have "\<not> bit acc n" if "n \<noteq> 1" "n \<noteq> 2" for n
    using that bit_6 [of n] bit_imp_le_length [of acc n] unfolding bit_not_iff by fastforce
  then have "bit acc n \<longrightarrow> n = 1 \<or> n = 2" for n by blast
  moreover have "(of_bool P * 4 :: Bit32u) = (if P then push_bit 2 1 else 0)" "(of_bool P * 2 :: Bit32u) = (if P then push_bit 1 1 else 0)" for P
    by simp_all
  ultimately show ?thesis by (intro bit_eqI) (auto simp: bit_simps simp del: push_bit_of_1)
qed

lemma protection_passes:
  assumes "acc AND NOT 6 = 0"
  shows "page_protection cpu user rw acc nx = None \<longleftrightarrow> \<not> nx \<and> access_allowed cpu user rw (bit acc 2) (bit acc 1)"
proof -
  have acc: "acc = of_bool (bit acc 2) * 4 OR of_bool (bit acc 1) * 2" by (rule access_bits [OF assms])
  have "priv_check ! unat ((of_bool (get_WP (crs cpu)) * 16 OR of_bool user * 8) OR (acc OR of_bool (is_write rw)) :: Bit32u) \<longleftrightarrow>
      (user \<longrightarrow> bit acc 2) \<and> (is_write rw \<and> (user \<or> get_WP (crs cpu)) \<longrightarrow> bit acc 1)"
    by (subst acc) (rule priv_check_rule)
  moreover have "acc AND 4 \<noteq> 0 \<longleftrightarrow> bit acc 2" by (subst acc) (cases "bit acc 2"; cases "bit acc 1"; simp)
  ultimately show ?thesis
    by (auto simp: page_protection_def access_allowed_def Let_def)
qed

text \<open>
  C18: page protection. Given the user and write bits combined over the tables, the check of the walk passes exactly when
  no entry forbids execution and the rules of the manual allow the access: user code reaches user pages only, write protection
  binds user code and, under CR0.WP, supervisor code, SMEP and SMAP keep supervisor code out of user pages. Otherwise the access is
  a protection fault.
\<close>

theorem page_protection_rule:
  assumes "acc AND NOT 6 = 0"
  shows "page_protection cpu user rw acc nx = (if nx \<or> \<not> access_allowed cpu user rw (bit acc 2) (bit acc 1) then Some ERROR_PROTECTION else None)"
proof (cases "page_protection cpu user rw acc nx")
  case None
  then show ?thesis using protection_passes [OF assms] by simp
next
  case (Some f)
  then have "f = ERROR_PROTECTION" by (auto simp: page_protection_def Let_def split: if_splits)
  then show ?thesis using Some protection_passes [OF assms, of cpu user rw nx] by auto
qed

subsection \<open>Memory types\<close>

text \<open>The types of the enabled variable ranges that contain an address.\<close>

definition matching_types :: "bx_phy_address \<Rightarrow> (Bit64u \<times> Bit64u) list \<Rightarrow> Bit32u set" where
  "matching_types pa rs = {ucast (bs AND 0xff) | bs msk. (bs, msk) \<in> set rs \<and> msk AND 0x800 \<noteq> 0 \<and> pa AND PPFOf msk = bs AND PPFOf msk}"

text \<open>The documented rule for overlapping ranges.\<close>

definition overlap_type :: "Bit32u set \<Rightarrow> Bit32u option" where
  "overlap_type S =
     (if S = {} then None
      else if BX_MEMTYPE_UC \<in> S then Some BX_MEMTYPE_UC
      else if \<exists>t. S = {t} then Some (the_elem S)
      else if S = {BX_MEMTYPE_WT, BX_MEMTYPE_WB} then Some BX_MEMTYPE_WT
      else Some BX_MEMTYPE_INVALID)"

lemma matching_types_Cons:
  "matching_types pa ((bs, msk) # rs) =
     (if msk AND 0x800 \<noteq> 0 \<and> pa AND PPFOf msk = bs AND PPFOf msk then insert (ucast (bs AND 0xff)) (matching_types pa rs) else matching_types pa rs)"
  by (auto simp: matching_types_def)

lemma overlap_insert:
  assumes "BX_MEMTYPE_UC \<notin> S" "c \<noteq> BX_MEMTYPE_UC"
  shows "overlap_type (insert c S) = Some (case overlap_type S of
      None \<Rightarrow> c
    | Some t \<Rightarrow> if t = c then t else if c = BX_MEMTYPE_WT \<and> t = BX_MEMTYPE_WB then BX_MEMTYPE_WT
        else if c = BX_MEMTYPE_WB \<and> t = BX_MEMTYPE_WT then BX_MEMTYPE_WT else BX_MEMTYPE_INVALID)"
proof (cases "S = {} \<or> (\<exists>t. S = {t})")
  case True
  then consider "S = {}" | t where "S = {t}" by blast
  then show ?thesis
  proof cases
    case 1
    with assms show ?thesis by (simp add: overlap_type_def)
  next
    case 2
    have one: "overlap_type {t} = Some t" using 2 assms by (simp add: overlap_type_def)
    have two: "overlap_type {c, t} = Some (if {c, t} = {BX_MEMTYPE_WT, BX_MEMTYPE_WB} then BX_MEMTYPE_WT else BX_MEMTYPE_INVALID)" if "c \<noteq> t"
      using 2 assms that unfolding overlap_type_def by simp
    show ?thesis using one two 2 by (cases "c = t") (auto simp: doubleton_eq_iff)
  qed
next
  case False
  then obtain x y where xy: "x \<in> S" "y \<in> S" "x \<noteq> y" by (metis is_singletonI' is_singleton_def)
  have big: "T \<noteq> {}" "\<not> (\<exists>t. T = {t})" if "S \<subseteq> T" for T using xy that by auto
  have ov: "overlap_type T = Some (if T = {BX_MEMTYPE_WT, BX_MEMTYPE_WB} then BX_MEMTYPE_WT else BX_MEMTYPE_INVALID)"
    if "S \<subseteq> T" "BX_MEMTYPE_UC \<notin> T" for T
    using big [OF that(1)] that(2) unfolding overlap_type_def by simp
  have "S = {a, b}" if "insert c S = {a, b}" for a b
  proof -
    have "S \<subseteq> {a, b}" using that by blast
    moreover from this xy have "a \<in> S" "b \<in> S" by auto
    ultimately show ?thesis by auto
  qed
  then have "insert c S = {BX_MEMTYPE_WT, BX_MEMTYPE_WB} \<longleftrightarrow> S = {BX_MEMTYPE_WT, BX_MEMTYPE_WB} \<and> (c = BX_MEMTYPE_WT \<or> c = BX_MEMTYPE_WB)"
    by (metis insertI1 insertE insert_absorb singletonD insert_iff)
  then show ?thesis
    using ov [of S] ov [of "insert c S"] assms by (cases "S = {BX_MEMTYPE_WT, BX_MEMTYPE_WB}") auto
qed

lemma variable_memtype_from:
  "BX_MEMTYPE_UC \<notin> S \<Longrightarrow> variable_memtype pa rs (overlap_type S) = overlap_type (S \<union> matching_types pa rs)"
proof (induction rs arbitrary: S)
  case Nil
  then show ?case by (simp add: matching_types_def)
next
  case (Cons r rs)
  obtain bs msk where r: "r = (bs, msk)" by (metis surj_pair)
  let ?c = "ucast (bs AND 0xff) :: Bit32u"
  show ?case
  proof (cases "msk AND 0x800 = 0 \<or> pa AND PPFOf msk \<noteq> bs AND PPFOf msk")
    case True
    then show ?thesis using Cons r by (auto simp: matching_types_Cons)
  next
    case hit: False
    then have m: "matching_types pa (r # rs) = insert ?c (matching_types pa rs)" by (simp add: r matching_types_Cons)
    show ?thesis
    proof (cases "?c = BX_MEMTYPE_UC")
      case True
      then have "overlap_type (S \<union> matching_types pa (r # rs)) = Some BX_MEMTYPE_UC" by (simp add: m overlap_type_def)
      with True hit show ?thesis by (simp add: r)
    next
      case False
      have "variable_memtype pa (r # rs) (overlap_type S) = variable_memtype pa rs (overlap_type (insert ?c S))"
        using hit False by (simp add: r Let_def overlap_insert [OF Cons.prems False] cong: option.case_cong if_cong)
      also have "\<dots> = overlap_type (insert ?c S \<union> matching_types pa rs)" using Cons False by simp
      finally show ?thesis by (simp add: m)
    qed
  qed
qed

text \<open>
  C21: overlapping memory type ranges. The search over the variable range registers gives, whatever their order, what the
  comment in the code documents: no type without a match, uncacheable if one match is uncacheable, the type all
  matches agree on, write-through for write-through over write-back, and otherwise the invalid type.
\<close>

theorem variable_memtype_overlap: "variable_memtype pa rs None = overlap_type (matching_types pa rs)"
  using variable_memtype_from [of "{}" pa rs] by (simp add: overlap_type_def)

text \<open>Range registers that hold only types a write to them accepts.\<close>

definition mtrrs_valid :: "bx_mtrrs \<Rightarrow> bool" where
  "mtrrs_valid m \<longleftrightarrow> isValidMSR_FixedMTRR (mtrrfix64k m) \<and> list_all (\<lambda>i. isValidMSR_FixedMTRR (mtrrfix16k m i)) [0..<2] \<and>
     list_all (\<lambda>i. isValidMSR_FixedMTRR (mtrrfix4k m i)) [0..<8] \<and>
     list_all (\<lambda>i. isMemTypeValidMTRR (ucast (mtrrphys m (2 * i) AND 0xff))) [0..<8] \<and> isMemTypeValidMTRR (mtrr_deftype m AND 0xff)"

lemma fixed_byte: "isValidMSR_FixedMTRR w \<Longrightarrow> i < 8 \<Longrightarrow> isMemTypeValidMTRR (ubyte w i)"
  by (simp add: isValidMSR_FixedMTRR_def list_all_iff)

lemma unat_and_mask: "unat (w AND mask n) < 2 ^ n" for w :: "'a::len word"
  by (simp add: take_bit_eq_mask [symmetric] unsigned_take_bit_eq)

lemma fixed_memtype_valid:
  assumes "mtrrs_valid m" "pa < 0x100000"
  shows "isMemTypeValidMTRR (fixed_memtype pa m)"
proof -
  have a: "unat (drop_bit 16 pa AND 7) < 8" using unat_and_mask [of "drop_bit 16 pa" 3] by (simp add: mask_eq_exp_minus_1)
  have b: "unat (drop_bit 14 (pa - 0x80000) AND 0xf) < 16"
    using unat_and_mask [of "drop_bit 14 (pa - 0x80000)" 4] by (simp add: mask_eq_exp_minus_1)
  have c: "unat (drop_bit 12 (pa - 0xc0000)) < 64" if "\<not> pa < 0xc0000"
    using that assms(2) by (simp add: unat_div drop_bit_eq_div unat_sub word_less_nat_alt word_le_nat_alt)
  have "i div 8 < 2" "i mod 8 < 8" if "i < 16" for i :: nat using that by auto
  moreover have "i div 8 < 8" if "i < 64" for i :: nat using that by auto
  ultimately show ?thesis
    using assms a b c unfolding fixed_memtype_def mtrrs_valid_def Let_def list_all_iff set_upt
    by (auto intro!: fixed_byte)
qed

lemma overlap_valid:
  assumes "\<forall>t \<in> S. isMemTypeValidMTRR t" "overlap_type S = Some t"
  shows "isMemTypeValidMTRR t \<or> t = BX_MEMTYPE_INVALID"
  using assms by (auto simp: overlap_type_def isMemTypeValidMTRR_def split: if_splits)

lemma memtype_by_mtrr_valid:
  assumes "mtrrs_valid m"
  shows "isMemTypeValidMTRR (memtype_by_mtrr isa pa m) \<or> memtype_by_mtrr isa pa m = BX_MEMTYPE_INVALID"
proof -
  let ?rs = "map (\<lambda>i. (mtrrphys m (2 * i), mtrrphys m (2 * i + 1))) [0..<8]"
  have "\<forall>t \<in> matching_types pa ?rs. isMemTypeValidMTRR t"
    using assms by (auto simp: matching_types_def mtrrs_valid_def list_all_iff)
  then have "isMemTypeValidMTRR t \<or> t = BX_MEMTYPE_INVALID" if "variable_memtype pa ?rs None = Some t" for t
    using overlap_valid that variable_memtype_from [of "{}" pa ?rs] by (simp add: overlap_type_def)
  moreover have "isMemTypeValidMTRR BX_MEMTYPE_UC" by (simp add: isMemTypeValidMTRR_def)
  ultimately show ?thesis
    using assms fixed_memtype_valid [OF assms, of pa] unfolding memtype_by_mtrr_def
    by (auto simp: mtrrs_valid_def split: option.splits)
qed

text \<open>
  C20: memory types stay valid. As long as the attribute table and the range registers hold values that a write to
  them accepts, the type a page gets is one of the five types of the processor, for every address, table index and
  state of the caches, and the panic for an unknown type is never reached.
\<close>

theorem resolved_memtype_valid:
  assumes "isValidMSR_PAT (pat (msr cpu))" "mtrrs_valid (mtrrs cpu)" "i < 8"
  shows "isMemTypeValidMTRR (resolve_memtype (memtype_by_mtrr isa pa (mtrrs cpu)) (memtype_by_pat i cpu) cpu)"
proof -
  have "isMemTypeValidPAT (memtype_by_pat i cpu)"
    using assms(1,3) by (simp add: isValidMSR_PAT_def list_all_iff memtype_by_pat_def word_less_nat_alt)
  then show ?thesis
    using memtype_by_mtrr_valid [OF assms(2), of isa pa]
    by (auto simp: resolve_memtype_def isMemTypeValidPAT_def isMemTypeValidMTRR_def Let_def)
qed

subsection \<open>What a walk keeps\<close>

text \<open>A computation relates the state it starts in to the one it ends in, however it ends.\<close>

definition ends :: "('s \<Rightarrow> 's \<Rightarrow> bool) \<Rightarrow> 's \<Rightarrow> ('s, 'a) walking \<Rightarrow> bool" where
  "ends rel s r = (case r of Inl (_, t) \<Rightarrow> rel s t | Inr (_, t) \<Rightarrow> rel s t)"

lemma ends_simps [simp]: "ends rel s (Inl (x, t)) = rel s t" "ends rel s (Inr (a, t)) = rel s t"
  by (simp_all add: ends_def)

lemma walk_then_simps [simp]: "walk_then (Inl x) f = Inl x" "walk_then (Inr (a, t)) f = f a t"
  by (simp_all add: walk_then_def)

lemma walk_then_InrD:
  assumes "walk_then r f = Inr y"
  obtains a t where "r = Inr (a, t)" "f a t = Inr y"
  using assms by (auto simp: walk_then_def split: sum.splits prod.splits)

text \<open>A relation kept by the accesses of a walk is kept by the walk.\<close>

locale walk_frame =
  fixes ops :: "'s walk_ops" and rel :: "'s \<Rightarrow> 's \<Rightarrow> bool"
  assumes rel_refl: "rel s s" and rel_trans: "rel s t \<Longrightarrow> rel t u \<Longrightarrow> rel s u"
    and read_rel: "rel s (fst (walk_read ops n a s))"
    and write_rel: "ends rel s (walk_write ops n a v s)"
    and nested_rel: "ends rel s (walk_nested ops a s)"
begin

lemma ends_from: "rel s t \<Longrightarrow> ends rel t r \<Longrightarrow> ends rel s r"
  by (auto simp: ends_def intro: rel_trans split: sum.splits prod.splits)

lemma ends_then: "ends rel s r \<Longrightarrow> (\<And>a t. ends rel t (f a t)) \<Longrightarrow> ends rel s (walk_then r f)"
  by (cases r) (auto intro: ends_from)

lemma visit_ends: "ends rel s (visit ops sz rsvd frame rw a w s)"
  unfolding visit_def
  by (rule ends_then [OF nested_rel]) (auto simp: case_prod_beta Let_def read_rel split: option.split)

lemma walk_long_ends: "ends rel s (walk_long ops rsvd rw laddr k w s)"
  by (induction k arbitrary: w s) (auto intro!: visit_ends ends_then simp: rel_refl Let_def)

lemma walk_PAE_ends: "ends rel s (walk_PAE ops rsvd rw laddr w s)"
  unfolding walk_PAE_def by (rule ends_then [OF visit_ends]) (simp add: rel_refl visit_ends)

lemma walk_legacy_ends: "ends rel s (walk_legacy ops pse rw laddr w s)"
  unfolding walk_legacy_def by (rule ends_then [OF visit_ends]) (simp add: rel_refl visit_ends)

lemma load_PDPTR_ends: "ends rel s (translate_linear_load_PDPTR ops cpu laddr s)"
  unfolding translate_linear_load_PDPTR_def Let_def
  by (intro ends_then) (auto simp: rel_refl read_rel case_prod_beta intro!: ends_then nested_rel)

lemma update_ends: "ends rel s (update_access_dirty ops sz wr es s)"
proof (induction es arbitrary: s)
  case (Cons x es)
  then show ?case by (cases x; cases wr) (auto intro!: ends_then write_rel simp: rel_refl)
qed (simp add: rel_refl)

lemma finish_ends: "ends rel s (finish_walk ops sz cpu user rw w s)"
  by (auto simp: finish_walk_def Let_def rel_refl intro!: ends_then update_ends split: option.split)

lemma translate_ends:
  "ends rel s (translate_linear_long_mode ops cpu laddr user rw s)"
  "ends rel s (translate_linear_PAE ops cpu laddr user rw s)"
  "ends rel s (translate_linear_legacy ops cpu laddr user rw s)"
  unfolding translate_linear_long_mode_def translate_linear_PAE_def translate_linear_legacy_def
  by (auto intro!: ends_then walk_long_ends walk_PAE_ends walk_legacy_ends load_PDPTR_ends finish_ends simp: rel_refl Let_def split: option.split)

end

subsection \<open>Page sizes\<close>

definition page_size_mask :: "Bit32u \<Rightarrow> bool" where
  "page_size_mask m \<longleftrightarrow> m = 0xfff \<or> m = 0x1fffff \<or> m = 0x3fffff \<or> m = 0x3fffffff"

lemma visit_InrD:
  assumes "visit ops sz rsvd frame rw a0 w st = Inr (w1, st1)"
  obtains a st0 en where "walk_nested ops a0 st = Inr (a, st0)" "walk_read ops sz a st0 = (st1, en)" "check_entry_PAE en rsvd = None"
    "w1 = w\<lparr>w_ppf := en AND frame, w_access := w_access w AND ucast en,
       w_nx := w_nx w \<or> (en AND PAGE_DIRECTORY_NX_BIT \<noteq> 0 \<and> rw = BX_EXECUTE), w_offset := drop_bit 9 (w_offset w),
       w_visited := w_visited w @ [(a, en)]\<rparr>"
  using assms unfolding visit_def
  by (elim walk_then_InrD) (auto simp: Let_def split: prod.splits option.splits)

abbreviation leaf_frame :: "walk \<Rightarrow> bool" where
  "leaf_frame w \<equiv> w_ppf w AND NOT (ucast (w_lpf_mask w)) = leaf_entry w AND PAGE_FRAME_MASK AND NOT (ucast (w_lpf_mask w))"

lemma walk_long_size:
  assumes "walk_long ops rsvd rw laddr k w st = Inr (w', st')" "w_lpf_mask w = 0xfff" "w_offset w = mask (12 + 9 * Suc k)" "k \<le> 3"
  shows "page_size_mask (w_lpf_mask w') \<and> leaf_frame w'"
  using assms
proof (induction k arbitrary: w st)
  case 0
  then show ?case by (auto elim!: visit_InrD simp: page_size_mask_def and.assoc)
next
  case (Suc k)
  from Suc.prems(1) obtain w1 st1 where v: "visit ops 8 rsvd PAGE_FRAME_MASK rw (w_ppf w + (drop_bit (9 + 9 * Suc k) laddr AND 0xff8)) w st = Inr (w1, st1)"
    and r: "(if leaf_entry w1 AND 0x80 \<noteq> 0
       then (if Suc k > 1 + of_bool (isa_1g_pages ops) then Inl (Page_fault (ERROR_RESERVED OR ERROR_PROTECTION), st1)
             else let pp = w_ppf w1 AND 0x000fffffffffe000
                  in if pp AND w_offset w1 \<noteq> 0 then Inl (Page_fault (ERROR_RESERVED OR ERROR_PROTECTION), st1)
                     else Inr (w1\<lparr>w_ppf := pp, w_lpf_mask := ucast (w_offset w1)\<rparr>, st1))
       else walk_long ops rsvd rw laddr k w1 st1) = Inr (w', st')"
    by (auto elim!: walk_then_InrD)
  have "drop_bit 9 (mask (30 + 9 * k) :: Bit64u) = mask (21 + 9 * k)"
    using Suc.prems(4) by (intro bit_eqI) (auto simp: bit_simps)
  then have off: "w_offset w1 = mask (12 + 9 * Suc k)" and lpf: "w_lpf_mask w1 = 0xfff"
    using v Suc.prems(2,3) by (auto elim!: visit_InrD)
  show ?case
  proof (cases "leaf_entry w1 AND 0x80 \<noteq> 0")
    case True
    then have "w_lpf_mask w' = ucast (w_offset w1)" "Suc k \<le> 2" using r by (auto simp: Let_def of_bool_def split: if_splits)
    then have m: "w_lpf_mask w' = 0x1fffff \<or> w_lpf_mask w' = 0x3fffffff"
      using off by (cases k) (auto simp: mask_eq_exp_minus_1)
    have "w_ppf w' = leaf_entry w1 AND PAGE_FRAME_MASK AND 0x000fffffffffe000" "leaf_entry w' = leaf_entry w1"
      using r True v by (auto simp: Let_def and.assoc elim!: visit_InrD split: if_splits)
    with m show ?thesis by (auto simp: page_size_mask_def and.assoc)
  next
    case False
    then show ?thesis using r Suc.IH [of w1 st1] off lpf Suc.prems(4) by simp
  qed
qed

lemma walk_PAE_size: "walk_PAE ops rsvd rw laddr w st = Inr (w', st') \<Longrightarrow> w_lpf_mask w = 0xfff \<Longrightarrow> page_size_mask (w_lpf_mask w')"
  unfolding walk_PAE_def by (auto elim!: walk_then_InrD visit_InrD simp: page_size_mask_def split: if_splits)

lemma walk_legacy_size: "walk_legacy ops pse rw laddr w st = Inr (w', st') \<Longrightarrow> w_lpf_mask w = 0xfff \<Longrightarrow> page_size_mask (w_lpf_mask w')"
  unfolding walk_legacy_def by (auto elim!: walk_then_InrD visit_InrD simp: page_size_mask_def split: if_splits)

lemma start_walk_simps [simp]:
  "w_lpf_mask (start_walk pp) = 0xfff" "w_offset (start_walk pp) = mask 48" "w_visited (start_walk pp) = []"
  "w_access (start_walk pp) = 6" "w_ppf (start_walk pp) = pp" "w_nx (start_walk pp) = False"
  by (simp_all add: start_walk_def mask_eq_exp_minus_1)

lemma finish_walk_InrD:
  assumes "finish_walk ops sz cpu user rw w st = Inr ((pp, m), st')"
  shows "m = w_lpf_mask w"
  using assms by (auto simp: finish_walk_def Let_def elim!: walk_then_InrD split: option.splits)

lemma translate_size:
  "translate_linear_long_mode ops cpu laddr user rw st = Inr ((pp, m, k), st') \<Longrightarrow> page_size_mask m"
  "translate_linear_PAE ops cpu laddr user rw st = Inr ((pp, m), st') \<Longrightarrow> page_size_mask m"
  "translate_linear_legacy ops cpu laddr user rw st = Inr ((pp, m), st') \<Longrightarrow> page_size_mask m"
proof -
  assume "translate_linear_long_mode ops cpu laddr user rw st = Inr ((pp, m, k), st')"
  then show "page_size_mask m" unfolding translate_linear_long_mode_def
    by (elim walk_then_InrD) (auto simp: Let_def elim!: walk_then_InrD dest!: finish_walk_InrD dest!: walk_long_size split: option.splits)
next
  assume "translate_linear_PAE ops cpu laddr user rw st = Inr ((pp, m), st')"
  then show "page_size_mask m" unfolding translate_linear_PAE_def
    by (elim walk_then_InrD) (auto dest!: finish_walk_InrD dest: walk_PAE_size)
next
  assume "translate_linear_legacy ops cpu laddr user rw st = Inr ((pp, m), st')"
  then show "page_size_mask m" unfolding translate_linear_legacy_def
    by (elim walk_then_InrD) (auto dest!: finish_walk_InrD dest: walk_legacy_size)
qed

subsection \<open>Witnesses\<close>

lemma wit_cpu_fields [simp]:
  "crs wit_bx_cpu = \<lparr>cr0 = 0x80000011, cr2 = 0, cr3 = 0x1000, cr4 = 0x20, efer = 0x500, xcr0 = 1, dr = (\<lambda>_. 0), dr6 = 0, dr7 = 0x400\<rparr>"
  "pat (msr wit_bx_cpu) = 0" "lapic wit_bx_cpu = wit_lapic"
  "guest wit_bx_cpu = \<lparr>in_vmx_guest = False, external_interrupt_vmexit = False, tsc_scaling = False, tsc_multiplier = 0,
     in_svm_guest = False, svm_v_intr_prio = 0, svm_v_tpr = 0, svm_v_ignore_tpr = False, svm_v_intr_masking = False, svm_host_if = False\<rparr>"
  "cpu_mode (modes wit_bx_cpu) = BX_MODE_LONG_64"
  by (simp_all add: wit_bx_cpu_def)

theorem page_protection_rule_witness:
  "page_protection wit_bx_cpu True BX_WRITE 4 False = Some ERROR_PROTECTION \<and> page_protection wit_bx_cpu False BX_WRITE 4 False = None"
  using page_protection_rule [of 4 wit_bx_cpu True BX_WRITE False] page_protection_rule [of 4 wit_bx_cpu False BX_WRITE False]
  by (simp add: access_allowed_def is_write_def)

theorem resolved_memtype_valid_witness:
  "isMemTypeValidMTRR (resolve_memtype (memtype_by_mtrr True 0xb8000 (mtrrs wit_bx_cpu)) (memtype_by_pat 3 wit_bx_cpu) wit_bx_cpu)"
proof (rule resolved_memtype_valid)
  show "isValidMSR_PAT (pat (msr wit_bx_cpu))" by (simp, code_simp)
  show "mtrrs_valid (mtrrs wit_bx_cpu)" unfolding wit_bx_cpu_def by code_simp
qed simp

end
