(* ===== verification/GuestWalk.thy ===== *)
theory GuestWalk
  imports PageWalk
begin

text \<open>
  The processor's physical accesses and the translation of guest-physical addresses, \<^verbatim>\<open>bochs/cpu/paging.cc\<close>: nested walks of
  SVM, walks of the extended page tables of VMX with page-modification logging, sub-page permissions and virtualization
  exceptions. What these read of the VMCS and the VMCB is a record of its own. The virtual APIC page and the interception of a
  page fault belong to the VMX and SVM code and are fields of \<open>page_env\<close>, with the features of the configured
  processor model. An exit to the hypervisor never returns: it is a \<open>walk_stop\<close>.
\<close>

subsection \<open>Physical accesses of the processor\<close>

record vmcs_cache =
  ctrls3 :: Bit32u
  eptptr :: Bit64u
  spptp :: Bit64u
  pml_address :: Bit64u
  pml_index :: Bit16u
  ve_info_addr :: bx_phy_address
  eptp_index :: Bit16u
  apic_access_page :: bx_phy_address
  in_event :: bool
  nmi_unblocking_iret :: bool
  vmcs_guest_physical :: bx_phy_address
  vmcs_guest_linear :: bx_address

record vmcb_cache =
  np_enable :: bool
  ncr3 :: Bit64u
  host_efer :: Bit32u
  host_cr4 :: Bit32u

text \<open>The scratch record of the last linear access.\<close>

record address_xlation =
  paddress1 :: bx_phy_address
  paddress2 :: bx_phy_address
  len1 :: nat
  len2 :: nat
  pages :: nat
  memtype1 :: Bit32u
  memtype2 :: Bit32u

record 'd pg_state =
  pg_cpu :: BX_CPU_C
  pg_pc :: pc_system
  pg_mem :: "'d bx_mem"
  pg_vmcs :: vmcs_cache
  pg_vmcb :: vmcb_cache
  xlation :: address_xlation

record 'd page_env =
  intercept_PF :: "Bit32u \<Rightarrow> bx_address \<Rightarrow> 'd pg_state \<Rightarrow> 'd pg_state + 'd pg_state"
  vapic_read :: "bx_phy_address \<Rightarrow> nat \<Rightarrow> 'd pg_state \<Rightarrow> 'd pg_state \<times> bx_phy_address"
  vapic_write :: "bx_phy_address \<Rightarrow> Bit8u list \<Rightarrow> 'd pg_state \<Rightarrow> ('d pg_state, unit) walking"
  env_1g_pages :: bool
  env_mtrr :: bool
  env_lapic :: lapic_conf
  env_opcode :: Bit16u
  env_smm :: bool

definition secondary_control :: "nat \<Rightarrow> 'd pg_state \<Rightarrow> bool" where
  "secondary_control n st \<longleftrightarrow> bit (ctrls3 (pg_vmcs st)) n"

definition ept_enabled :: "'d pg_state \<Rightarrow> bool" where
  "ept_enabled st \<longleftrightarrow> in_vmx_guest (guest (pg_cpu st)) \<and> secondary_control 1 st"

definition svm_nested_paging :: "'d pg_state \<Rightarrow> bool" where
  "svm_nested_paging st \<longleftrightarrow> in_svm_guest (guest (pg_cpu st)) \<and> np_enable (pg_vmcb st)"

definition is_virtual_apic_page :: "bx_phy_address \<Rightarrow> 'd pg_state \<Rightarrow> bool" where
  "is_virtual_apic_page paddr st \<longleftrightarrow>
     in_vmx_guest (guest (pg_cpu st)) \<and> secondary_control 0 st \<and> PPFOf paddr = apic_access_page (pg_vmcs st)"

primrec le_word :: "Bit8u list \<Rightarrow> Bit64u" where
  "le_word [] = 0"
| "le_word (b # bs) = ucast b OR push_bit 8 (le_word bs)"

definition le_bytes :: "nat \<Rightarrow> Bit64u \<Rightarrow> Bit8u list" where
  "le_bytes n w = map (\<lambda>i. ucast (drop_bit (8 * i) w)) [0..<n]"

text \<open>A local APIC that refuses a write only reports it; a write that memory cannot do ends the program.\<close>

definition access_read_physical :: "'d page_env \<Rightarrow> bx_phy_address \<Rightarrow> Bit8u list \<Rightarrow> 'd pg_state \<Rightarrow> 'd pg_state \<times> Bit8u list" where
  "access_read_physical e paddr0 old st0 =
     (let (st, paddr) = (if is_virtual_apic_page paddr0 st0 then vapic_read e paddr0 (length old) st0 else (st0, paddr0))
      in if is_selected paddr (lapic (pg_cpu st))
         then let ((cpu1, pc1), v) = lapic_read (env_lapic e) paddr (length old) (pg_cpu st, pg_pc st)
              in (st\<lparr>pg_cpu := cpu1, pg_pc := pc1\<rparr>, case v of None \<Rightarrow> old | Some w \<Rightarrow> le_bytes (length old) (ucast w))
         else let (m1, data) = readPhysicalPage (Some (env_smm e)) paddr old (pg_mem st) in (st\<lparr>pg_mem := m1\<rparr>, data))"

definition access_write_physical :: "'d page_env \<Rightarrow> bx_phy_address \<Rightarrow> Bit8u list \<Rightarrow> 'd pg_state \<Rightarrow> ('d pg_state, unit) walking" where
  "access_write_physical e paddr data st =
     (if is_virtual_apic_page paddr st then vapic_write e paddr data st
      else if is_selected paddr (lapic (pg_cpu st))
      then (case lapic_write (env_lapic e) paddr (ucast (le_word data)) (length data) (pg_cpu st, pg_pc st) of
              None \<Rightarrow> Inr ((), st)
            | Some (cpu1, pc1) \<Rightarrow> Inr ((), st\<lparr>pg_cpu := cpu1, pg_pc := pc1\<rparr>))
      else (case writePhysicalPage (env_opcode e) (Some (env_smm e)) paddr data (pg_mem st) of
              Inl _ \<Rightarrow> Inl (Host_exit, st)
            | Inr m1 \<Rightarrow> Inr ((), st\<lparr>pg_mem := m1\<rparr>)))"

definition cpu_getHostMemAddr :: "'d page_env \<Rightarrow> bx_phy_address \<Rightarrow> mem_rw \<Rightarrow> 'd pg_state \<Rightarrow> host_ptr option" where
  "cpu_getHostMemAddr e paddr rw st =
     (if is_virtual_apic_page paddr st \<or> is_selected paddr (lapic (pg_cpu st)) then None
      else getHostMemAddr (Some (env_smm e)) paddr rw (pg_mem st))"

text \<open>The accesses of a walk, its entries at host-physical addresses.\<close>

definition phys_read :: "'d page_env \<Rightarrow> nat \<Rightarrow> bx_phy_address \<Rightarrow> 'd pg_state \<Rightarrow> 'd pg_state \<times> Bit64u" where
  "phys_read e n a st = (let (st1, data) = access_read_physical e a (replicate n 0) st in (st1, le_word data))"

definition phys_ops :: "'d page_env \<Rightarrow> 'd pg_state walk_ops" where
  "phys_ops e =
     \<lparr>walk_read = phys_read e, walk_write = (\<lambda>n a w. access_write_physical e a (le_bytes n w)), walk_nested = (\<lambda>a st. Inr (a, st)),
      svm_nested = False, isa_1g_pages = env_1g_pages e\<rparr>"

subsection \<open>Nested walks of SVM\<close>

definition nested_page_fault :: "bx_phy_address \<Rightarrow> mem_rw \<Rightarrow> bool \<Rightarrow> Bit32u \<Rightarrow> walk_stop" where
  "nested_page_fault guest_paddr rw is_page_walk fault =
     Svm_exit ((ucast fault OR (4 OR of_bool (is_write rw) * 2)) OR (if rw = BX_EXECUTE then 0x10 else 0) OR
               push_bit (if is_page_walk then 32 else 33) 1) guest_paddr"

definition nested_faults :: "bx_phy_address \<Rightarrow> mem_rw \<Rightarrow> bool \<Rightarrow> ('s, 'a) walking \<Rightarrow> ('s, 'a) walking" where
  "nested_faults gpa rw pw r = (case r of Inl (Page_fault f, s) \<Rightarrow> Inl (nested_page_fault gpa rw pw f, s) | _ \<Rightarrow> r)"

text \<open>The end of the nested walks: every access is a user access, and CR0.WP has no part.\<close>

definition nested_finish :: "'s walk_ops \<Rightarrow> nat \<Rightarrow> mem_rw \<Rightarrow> walk \<Rightarrow> 's \<Rightarrow> ('s, walk) walking" where
  "nested_finish ops sz rw w st =
     (if \<not> priv_check ! unat (8 OR (w_access w OR of_bool (is_write rw))) \<or> w_nx w then Inl (Page_fault ERROR_PROTECTION, st)
      else walk_then (update_access_dirty ops sz (is_write rw) (w_visited w) st) (\<lambda>_ st1. Inr (w, st1)))"

definition nested_walk_long_mode :: "'d page_env \<Rightarrow> bx_phy_address \<Rightarrow> mem_rw \<Rightarrow> 'd pg_state \<Rightarrow> ('d pg_state, bx_phy_address) walking" where
  "nested_walk_long_mode e gpa rw st =
     walk_then (walk_long (phys_ops e) (nx_reserved (crreg_get (host_efer (pg_vmcb st)) 11) PAGING_PAE_RESERVED_BITS) rw gpa 3
                  (start_walk (ncr3 (pg_vmcb st) AND PAGE_FRAME_MASK)) st) (\<lambda>w st1.
       walk_then (nested_finish (phys_ops e) 8 rw w st1) (\<lambda>w st2. Inr (w_ppf w OR (gpa AND w_offset w), st2)))"

definition nested_walk_PAE :: "'d page_env \<Rightarrow> bx_phy_address \<Rightarrow> mem_rw \<Rightarrow> 'd pg_state \<Rightarrow> ('d pg_state, bx_phy_address) walking" where
  "nested_walk_PAE e gpa rw st =
     (let (st1, pdptr) = phys_read e 8 ((ncr3 (pg_vmcb st) AND 0xffffffe0) OR push_bit 3 (drop_bit 30 gpa AND 3)) st
      in case check_entry_PAE pdptr PAGING_PAE_PDPTE_RESERVED_BITS of
           Some f \<Rightarrow> Inl (Page_fault f, st1)
         | None \<Rightarrow>
             walk_then (walk_PAE (phys_ops e) (nx_reserved (crreg_get (host_efer (pg_vmcb st)) 11) PAGING_LEGACY_PAE_RESERVED_BITS) rw gpa
                          (start_walk (pdptr AND PAGE_FRAME_MASK)) st1) (\<lambda>w st2.
               walk_then (nested_finish (phys_ops e) 8 rw w st2) (\<lambda>w st3. Inr (w_ppf w OR (gpa AND ucast (w_lpf_mask w)), st3))))"

definition nested_walk_legacy :: "'d page_env \<Rightarrow> bx_phy_address \<Rightarrow> mem_rw \<Rightarrow> 'd pg_state \<Rightarrow> ('d pg_state, bx_phy_address) walking" where
  "nested_walk_legacy e gpa rw st =
     walk_then (walk_legacy (phys_ops e) (crreg_get (host_cr4 (pg_vmcb st)) 4) rw gpa (start_walk (ncr3 (pg_vmcb st) AND PAGE_FRAME_MASK)) st)
       (\<lambda>w st1. walk_then (nested_finish (phys_ops e) 4 rw w st1) (\<lambda>w st2. Inr (w_ppf w OR (gpa AND ucast (w_lpf_mask w)), st2)))"

definition nested_walk :: "'d page_env \<Rightarrow> bx_phy_address \<Rightarrow> mem_rw \<Rightarrow> bool \<Rightarrow> 'd pg_state \<Rightarrow> ('d pg_state, bx_phy_address) walking" where
  "nested_walk e gpa rw is_page_walk st =
     nested_faults gpa rw is_page_walk
       (if crreg_get (host_efer (pg_vmcb st)) 10 then nested_walk_long_mode e gpa rw st
        else if crreg_get (host_cr4 (pg_vmcb st)) 5 then nested_walk_PAE e gpa rw st
        else nested_walk_legacy e gpa rw st)"

subsection \<open>Extended page tables of VMX\<close>

abbreviation (input) "VMX_VMEXIT_EPT_VIOLATION \<equiv> (48 :: Bit32u)"
abbreviation (input) "VMX_VMEXIT_EPT_MISCONFIGURATION \<equiv> (49 :: Bit32u)"
abbreviation (input) "VMX_VMEXIT_PML_LOGFULL \<equiv> (62 :: Bit32u)"
abbreviation (input) "VMX_VMEXIT_SPP \<equiv> (66 :: Bit32u)"
abbreviation (input) "PAGING_SPP_RESERVED_BITS \<equiv> (0xffffff0000000ffe :: Bit64u)"

definition iret_qualification :: "'d pg_state \<Rightarrow> Bit32u" where
  "iret_qualification st = (if nmi_unblocking_iret (pg_vmcs st) then 0x1000 else 0)"

definition vmx_page_modification_logging :: "'d page_env \<Rightarrow> bx_phy_address \<Rightarrow> bool \<Rightarrow> 'd pg_state \<Rightarrow> ('d pg_state, unit) walking" where
  "vmx_page_modification_logging e gpa dirty_update st =
     (if pml_index (pg_vmcs st) \<ge> 512 then Inl (Vmx_exit VMX_VMEXIT_PML_LOGFULL (iret_qualification st), st)
      else if dirty_update
      then walk_then (access_write_physical e (pml_address (pg_vmcs st) + 8 * ucast (pml_index (pg_vmcs st))) (le_bytes 8 gpa) st)
             (\<lambda>_ st1. Inr ((), st1\<lparr>pg_vmcs := (pg_vmcs st1)\<lparr>pml_index := pml_index (pg_vmcs st1) - 1\<rparr>\<rparr>))
      else Inr ((), st))"

fun write_all :: "'d page_env \<Rightarrow> (bx_phy_address \<times> Bit8u list) list \<Rightarrow> 'd pg_state \<Rightarrow> ('d pg_state, unit) walking" where
  "write_all e [] st = Inr ((), st)"
| "write_all e ((a, data) # ws) st = walk_then (access_write_physical e a data st) (\<lambda>_. write_all e ws)"

text \<open>The last field is two bytes wide but eight are written, the padding of the structure with them, taken as zero here.\<close>

definition Virtualization_Exception :: "'d page_env \<Rightarrow> Bit32u \<Rightarrow> bx_phy_address \<Rightarrow> bx_address \<Rightarrow> 'd pg_state \<Rightarrow> ('d pg_state, unit) walking" where
  "Virtualization_Exception e qual gpa gla st =
     (if \<not> get_PE (crs (pg_cpu st)) \<or> in_event (pg_vmcs st) then Inr ((), st)
      else let a = ve_info_addr (pg_vmcs st); (st1, magic) = phys_read e 4 (a + 4) st
           in if magic \<noteq> 0 then Inr ((), st1)
              else walk_then (write_all e [(a, le_bytes 4 (ucast VMX_VMEXIT_EPT_VIOLATION)), (a + 4, le_bytes 4 0xffffffff),
                       (a + 8, le_bytes 8 (ucast qual)), (a + 16, le_bytes 8 gla), (a + 24, le_bytes 8 gpa),
                       (a + 32, le_bytes 8 (ucast (eptp_index (pg_vmcs st1))))] st1) (\<lambda>_ st2. Inl (Virtualization_fault, st2)))"

text \<open>The check of one entry: 0, or the reason for an exit.\<close>

definition ept_entry_fault :: "Bit64u \<Rightarrow> Bit32u" where
  "ept_entry_fault en =
     (let m = en AND 7
      in if m = 0 then VMX_VMEXIT_EPT_VIOLATION
         else if m = 2 \<or> m = 6 \<or> \<not> isMemTypeValidMTRR (ucast (drop_bit 3 en AND 7)) \<or> en AND PAGING_PAE_RESERVED_BITS \<noteq> 0
         then VMX_VMEXIT_EPT_MISCONFIGURATION else 0)"

definition ept_visit :: "'s walk_ops \<Rightarrow> bx_phy_address \<Rightarrow> nat \<Rightarrow> walk \<Rightarrow> 's \<Rightarrow> 's \<times> walk" where
  "ept_visit ops gpa k w st =
     (let a = w_ppf w + (drop_bit (9 + 9 * k) gpa AND 0xff8); (st1, en) = walk_read ops 8 a st
      in (st1, w\<lparr>w_ppf := en AND PAGE_FRAME_MASK, w_access := w_access w AND ucast (en AND 7), w_offset := drop_bit 9 (w_offset w),
            w_visited := w_visited w @ [(a, en)]\<rparr>))"

fun ept_levels :: "'s walk_ops \<Rightarrow> bx_phy_address \<Rightarrow> nat \<Rightarrow> walk \<Rightarrow> 's \<Rightarrow> 's \<times> walk \<times> Bit32u" where
  "ept_levels ops gpa 0 w st = (let (st1, w1) = ept_visit ops gpa 0 w st in (st1, w1, ept_entry_fault (leaf_entry w1)))"
| "ept_levels ops gpa (Suc k) w st =
     (let (st1, w1) = ept_visit ops gpa (Suc k) w st; en = leaf_entry w1
      in if ept_entry_fault en \<noteq> 0 then (st1, w1, ept_entry_fault en)
         else if en AND 0x80 \<noteq> 0
         then (if Suc k > 1 + of_bool (isa_1g_pages ops) then (st1, w1, VMX_VMEXIT_EPT_MISCONFIGURATION)
               else let pp = w_ppf w1 AND 0x000fffffffffe000
                    in if pp AND w_offset w1 \<noteq> 0 then (st1, w1, VMX_VMEXIT_EPT_MISCONFIGURATION)
                       else (st1, w1\<lparr>w_ppf := pp + (gpa AND w_offset w1)\<rparr>, 0))
         else if drop_bit 3 en AND 0xf \<noteq> 0 then (st1, w1, VMX_VMEXIT_EPT_MISCONFIGURATION)
         else ept_levels ops gpa k w1 st1)"

fun update_ept_access_dirty :: "'s walk_ops \<Rightarrow> bool \<Rightarrow> (bx_phy_address \<times> Bit64u) list \<Rightarrow> 's \<Rightarrow> ('s, unit) walking" where
  "update_ept_access_dirty ops wr [] st = Inr ((), st)"
| "update_ept_access_dirty ops wr ((a, en) # es) st =
     (if es = []
      then (if en AND 0x100 = 0 \<or> wr \<and> en AND 0x200 = 0
            then walk_write ops 8 a (en OR (0x100 OR of_bool wr * 0x200)) st else Inr ((), st))
      else walk_then (if en AND 0x100 = 0 then walk_write ops 8 a (en OR 0x100) st else Inr ((), st))
             (\<lambda>_. update_ept_access_dirty ops wr es))"

text \<open>The walk for sub-page permissions: the leaf as it is, or the qualification of an exit.\<close>

fun spp_levels :: "'s walk_ops \<Rightarrow> bx_phy_address \<Rightarrow> nat \<Rightarrow> bx_phy_address \<Rightarrow> 's \<Rightarrow> 's \<times> (Bit32u + Bit64u)" where
  "spp_levels ops gpa 0 pp st = (let (st1, en) = walk_read ops 8 (pp + (drop_bit 9 gpa AND 0xff8)) st in (st1, Inr en))"
| "spp_levels ops gpa (Suc k) pp st =
     (let (st1, en) = walk_read ops 8 (pp + (drop_bit (9 + 9 * Suc k) gpa AND 0xff8)) st
      in if en AND 1 = 0 then (st1, Inl 0x800)
         else if en AND PAGING_SPP_RESERVED_BITS \<noteq> 0 then (st1, Inl 0)
         else spp_levels ops gpa k (en AND PAGE_FRAME_MASK) st1)"

definition ept_exit :: "bx_phy_address \<Rightarrow> bx_address \<Rightarrow> Bit32u \<Rightarrow> Bit32u \<Rightarrow> 'd pg_state \<Rightarrow> walk_stop \<times> 'd pg_state" where
  "ept_exit gpa gla reason qual st =
     (Vmx_exit reason qual, st\<lparr>pg_vmcs := (pg_vmcs st)\<lparr>vmcs_guest_physical := gpa, vmcs_guest_linear := gla\<rparr>\<rparr>)"

definition spp_walk :: "'d page_env \<Rightarrow> bx_phy_address \<Rightarrow> bx_address \<Rightarrow> 'd pg_state \<Rightarrow> ('d pg_state, bool) walking" where
  "spp_walk e gpa gla st =
     (case spp_levels (phys_ops e) gpa 3 (LPFOf (spptp (pg_vmcs st))) st of
        (st1, Inl qual) \<Rightarrow> Inl (ept_exit gpa gla VMX_VMEXIT_SPP (qual OR iret_qualification st1) st1)
      | (st1, Inr en) \<Rightarrow> Inr (bit en (2 * unat (drop_bit 7 (gpa AND 0xfff))), st1))"

definition ept_access_mask :: "mem_rw \<Rightarrow> Bit32u" where
  "ept_access_mask rw = (if rw = BX_EXECUTE then 4 else 0) OR (if is_write rw then 2 else 0) OR (if rw = BX_READ then 1 else 0)"

definition ept_violation :: "'d page_env \<Rightarrow> bx_phy_address \<Rightarrow> bx_address \<Rightarrow> bool \<Rightarrow> bool \<Rightarrow> Bit32u \<Rightarrow> Bit32u \<Rightarrow> walk \<Rightarrow>
    'd pg_state \<Rightarrow> ('d pg_state, bx_phy_address) walking" where
  "ept_violation e gpa gla laddr_valid is_page_walk access_mask reason w st =
     (if reason = VMX_VMEXIT_EPT_VIOLATION
      then let qual = (access_mask OR push_bit 3 (w_access w)) OR
                      (if laddr_valid then 0x80 OR (if is_page_walk then 0 else 0x100) else 0) OR iret_qualification st
           in walk_then (if secondary_control 18 st \<and> \<not> bit (leaf_entry w) 63 then Virtualization_Exception e qual gpa gla st else Inr ((), st))
                (\<lambda>_ st1. Inl (ept_exit gpa gla reason qual st1))
      else Inl (ept_exit gpa gla reason 0 st))"

definition translate_guest_physical :: "'d page_env \<Rightarrow> bx_phy_address \<Rightarrow> bx_address \<Rightarrow> bool \<Rightarrow> bool \<Rightarrow> mem_rw \<Rightarrow>
    'd pg_state \<Rightarrow> ('d pg_state, bx_phy_address) walking" where
  "translate_guest_physical e gpa gla laddr_valid is_page_walk rw0 st =
     (let ad = eptptr (pg_vmcs st) AND 0x40 \<noteq> 0;
          rw = (if ad \<and> is_page_walk \<and> laddr_valid then BX_WRITE else rw0);
          access_mask = ept_access_mask rw;
          (st1, w, reason) = ept_levels (phys_ops e) gpa 3 (start_walk (LPFOf (eptptr (pg_vmcs st)))\<lparr>w_access := 7\<rparr>) st;
          denied = access_mask AND w_access w \<noteq> access_mask
      in walk_then
           (if reason = 0 \<and> denied
            then if secondary_control 23 st1 \<and> bit (leaf_entry w) 61 \<and> length (w_visited w) = 4 \<and>
                    access_mask AND 2 \<noteq> 0 \<and> w_access w AND 2 = 0 \<and> laddr_valid \<and> \<not> is_page_walk
                 then walk_then (spp_walk e gpa gla st1) (\<lambda>b st2. Inr (if \<not> b then 0 else VMX_VMEXIT_EPT_VIOLATION, st2))
                 else Inr (VMX_VMEXIT_EPT_VIOLATION, st1)
            else Inr (reason, st1))
           (\<lambda>r st2. if r \<noteq> 0 then ept_violation e gpa gla laddr_valid is_page_walk access_mask r w st2
             else walk_then
                    (if ad
                     then walk_then (if secondary_control 17 st2
                                     then vmx_page_modification_logging e gpa (is_write rw \<and> leaf_entry w AND 0x200 = 0) st2
                                     else Inr ((), st2))
                            (\<lambda>_. update_ept_access_dirty (phys_ops e) (is_write rw) (w_visited w))
                     else Inr ((), st2))
                    (\<lambda>_ st3. Inr (w_ppf w OR ucast (PAGE_OFFSET gpa), st3))))"

text \<open>What the walks and the translation ask for: a host-physical address. Outside a guest it is the address itself.\<close>

definition guest_xlate :: "'d page_env \<Rightarrow> bx_phy_address \<Rightarrow> bx_address \<Rightarrow> bool \<Rightarrow> mem_rw \<Rightarrow> 'd pg_state \<Rightarrow> ('d pg_state, bx_phy_address) walking" where
  "guest_xlate e gpa laddr is_page_walk rw st =
     walk_then (if ept_enabled st then translate_guest_physical e gpa laddr True is_page_walk (if is_page_walk then BX_READ else rw) st
                else Inr (gpa, st)) (\<lambda>pa st1.
       if svm_nested_paging st1 then nested_walk e pa (if is_page_walk then BX_RW else rw) is_page_walk st1 else Inr (pa, st1))"

definition cpu_walk_ops :: "'d page_env \<Rightarrow> bx_address \<Rightarrow> 'd pg_state \<Rightarrow> 'd pg_state walk_ops" where
  "cpu_walk_ops e laddr st =
     (phys_ops e)\<lparr>walk_nested := (\<lambda>a. guest_xlate e a laddr True BX_READ), svm_nested := svm_nested_paging st\<rparr>"

end
