(* ===== verification/LapicFrame.thy ===== *)
theory LapicFrame
  imports Lapic
begin

text \<open>
  Accesses to the local APIC leave the processor alone, except for the APIC itself and the pending events.
\<close>

definition apart :: "bx_local_apic_c \<Rightarrow> bx_events \<Rightarrow> BX_CPU_C \<Rightarrow> BX_CPU_C" where
  "apart la ev cpu = cpu\<lparr>lapic := la, events := ev\<rparr>"

lemma apart_upd [simp]:
  "apart la ev (cpu\<lparr>lapic := x\<rparr>) = apart la ev cpu" "apart la ev (cpu\<lparr>events := y\<rparr>) = apart la ev cpu"
  by (simp_all add: apart_def)

lemma apart_service [simp]: "apart la ev (service_local_apic cpu) = apart la ev cpu"
  by (simp add: service_local_apic_def Let_def split: option.split)

lemma apart_ops [simp]:
  "apart la ev (lapic_error er cpu) = apart la ev cpu" "apart la ev (trigger_irq v tm byp cpu) = apart la ev cpu"
  "apart la ev (set_tpr pr cpu) = apart la ev cpu" "apart la ev (end_interrupt k cpu) = apart la ev cpu"
  "apart la ev (receive_EOI cpu) = apart la ev cpu" "apart la ev (receive_SEOI w cpu) = apart la ev cpu"
  "apart la ev (write_spurious_interrupt_register x cpu) = apart la ev cpu" "apart la ev (deliver_INIT cpu) = apart la ev cpu"
  "apart la ev (set_divide_configuration x cpu) = apart la ev cpu"
  by (simp_all add: lapic_error_def trigger_irq_def set_tpr_def end_interrupt_def receive_EOI_def receive_SEOI_def
      write_spurious_interrupt_register_def deliver_INIT_def set_divide_configuration_def Let_def split: option.split)

lemma apart_deliver [simp]: "apart la ev (fst (deliver v dm tm cpu)) = apart la ev cpu"
  unfolding deliver_def by (intro if_pred [where Q = "\<lambda>x. apart la ev (fst x) = apart la ev cpu"]) (simp_all only: fst_conv apart_ops apart_upd)

lemmas apart_if = if_pred [where Q = "\<lambda>x. apart la ev (fst x) = apart la ev cpu" for la ev cpu]

lemma apart_bus [simp]:
  "apart la ev (fst (apic_bus_deliver_lowest_priority v d tm bc cpu)) = apart la ev cpu"
  "apart la ev (fst (apic_bus_broadcast_interrupt v dm tm ex cpu)) = apart la ev cpu"
  "apart la ev (fst (apic_bus_deliver_interrupt conf v d dm lg tm cpu)) = apart la ev cpu"
proof -
  show l: "apart la ev (fst (apic_bus_deliver_lowest_priority v d tm bc cpu)) = apart la ev cpu" for d bc
    unfolding apic_bus_deliver_lowest_priority_def Let_def by (intro apart_if) (simp_all only: fst_conv apart_deliver)
  show b: "apart la ev (fst (apic_bus_broadcast_interrupt v dm tm ex cpu)) = apart la ev cpu" for ex
    unfolding apic_bus_broadcast_interrupt_def by (intro apart_if) (simp_all add: l)
  show "apart la ev (fst (apic_bus_deliver_interrupt conf v d dm lg tm cpu)) = apart la ev cpu"
    unfolding apic_bus_deliver_interrupt_def by (intro apart_if) (simp_all only: fst_conv apart_deliver l b)
qed

lemma apart_ipi [simp]: "apart la ev (send_ipi conf d lo cpu) = apart la ev cpu"
proof -
  have "apart la ev (if P then c else lapic_error er c) = apart la ev c" for P er c by simp
  moreover have "apart la ev (fst (if P then x else if R then (trigger_irq v tm False cpu, True) else if S then y else z)) = apart la ev cpu"
    if "apart la ev (fst x) = apart la ev cpu" "apart la ev (fst y) = apart la ev cpu" "apart la ev (fst z) = apart la ev cpu" for P R S x y z v tm
    using that by simp
  ultimately show ?thesis unfolding send_ipi_def Let_def case_prod_beta by (simp only: apart_bus if_cancel split: if_split) simp
qed

lemma apart_timers [simp]:
  "apart la ev (fst (stop_timer st)) = apart la ev (fst st)" "apart la ev (fst (start_timer st)) = apart la ev (fst st)"
  "apart la ev (fst (set_initial_timer_count n st)) = apart la ev (fst st)"
  "apart la ev (fst (fst (get_current_timer_count st))) = apart la ev (fst st)"
  "apart la ev (fst (set_lvt_entry conf r x st)) = apart la ev (fst st)"
  by (simp_all add: stop_timer_def start_timer_def set_initial_timer_count_def get_current_timer_count_def set_lvt_entry_def Let_def case_prod_beta)

lemma apart_read_aligned: "apart la ev (fst (fst (read_aligned conf a st))) = apart la ev (fst st)"
  unfolding read_aligned_def Let_def by (intro if_pred [where Q = "\<lambda>x. apart la ev (fst (fst x)) = apart la ev (fst st)"]) simp_all

lemma apart_write_aligned: "apart la ev (fst (write_aligned conf a v st)) = apart la ev (fst st)"
  unfolding write_aligned_def Let_def by (intro if_pred [where Q = "\<lambda>x. apart la ev (fst x) = apart la ev (fst st)"]) simp_all

lemma lapic_read_apart: "apart la ev (fst (fst (lapic_read conf a n st))) = apart la ev (fst st)"
  by (simp add: lapic_read_def Let_def case_prod_beta apart_read_aligned)

lemma lapic_write_apart: "lapic_write conf a v n st = Some st' \<Longrightarrow> apart la ev (fst st') = apart la ev (fst st)"
  by (auto simp: lapic_write_def apart_write_aligned split: if_splits)

end
