(* ===== verification/GuestWalkProps.thy ===== *)
theory GuestWalkProps
  imports PageWalkProps GuestWalk LapicFrame
begin

text \<open>
  Properties of physical accesses and of the translation of guest-physical addresses: what they leave alone, and that
  the extended page tables confine a guest.
\<close>

subsection \<open>What translation keeps of the processor\<close>

context walk_frame
begin

lemma nested_finish_ends: "ends rel s (nested_finish ops sz rw w s)"
  by (auto simp: nested_finish_def rel_refl intro!: ends_then update_ends)

lemma ept_visit_rel: "ept_visit ops gpa k w s = (t, w1) \<Longrightarrow> rel s t"
  using read_rel [of s 8 "w_ppf w + (drop_bit (9 + 9 * k) gpa AND 0xff8)"] by (auto simp: ept_visit_def Let_def split: prod.splits)

lemma ept_levels_rel: "ept_levels ops gpa k w s = (t, w', r) \<Longrightarrow> rel s t"
proof (induction k arbitrary: w s)
  case 0
  then show ?case by (auto dest: ept_visit_rel split: prod.splits)
next
  case (Suc k)
  obtain st1 w1 where v: "ept_visit ops gpa (Suc k) w s = (st1, w1)" by (metis surj_pair)
  then have "rel s st1" by (rule ept_visit_rel)
  with Suc.prems v Suc.IH [of w1 st1] show ?case
    by (auto simp: Let_def intro: rel_trans split: if_splits)
qed

lemma spp_levels_rel: "spp_levels ops gpa k pp s = (t, r) \<Longrightarrow> rel s t"
proof (induction k arbitrary: pp s)
  case 0
  then show ?case using read_rel [of s 8] by (auto split: prod.splits) (metis fst_conv)
next
  case (Suc k)
  obtain st1 en where v: "walk_read ops 8 (pp + (drop_bit (9 + 9 * Suc k) gpa AND 0xff8)) s = (st1, en)" by (metis surj_pair)
  then have "rel s st1" using read_rel [of s 8] by (metis fst_conv)
  with Suc.prems v Suc.IH [of _ st1] show ?case
    by (auto intro: rel_trans split: if_splits)
qed

lemma update_ept_ends: "ends rel s (update_ept_access_dirty ops wr es s)"
proof (induction es arbitrary: s)
  case (Cons x es)
  then show ?case by (cases x; cases wr) (auto intro!: ends_then write_rel simp: rel_refl)
qed (simp add: rel_refl)

end

text \<open>The processor is left alone but for its local APIC and the pending events, and so are the settings of a nested walk.\<close>

definition same_cpu :: "'d pg_state \<Rightarrow> 'd pg_state \<Rightarrow> bool" where
  "same_cpu s t \<longleftrightarrow> (\<forall>la ev. apart la ev (pg_cpu t) = apart la ev (pg_cpu s)) \<and> pg_vmcb t = pg_vmcb s"

definition env_quiet :: "'d page_env \<Rightarrow> bool" where
  "env_quiet e \<longleftrightarrow> (\<forall>a n s. same_cpu s (fst (vapic_read e a n s))) \<and> (\<forall>a d s. ends same_cpu s (vapic_write e a d s))"

abbreviation quiet_rel :: "'d page_env \<Rightarrow> 'd pg_state \<Rightarrow> 'd pg_state \<Rightarrow> bool" where
  "quiet_rel e s t \<equiv> env_quiet e \<longrightarrow> same_cpu s t"

lemma same_cpu_refl [simp]: "same_cpu s s"
  by (simp add: same_cpu_def)

lemma same_cpu_trans: "same_cpu s t \<Longrightarrow> same_cpu t u \<Longrightarrow> same_cpu s u"
  by (simp add: same_cpu_def)

lemma same_cpuD:
  assumes "same_cpu s t"
  shows "tlb (pg_cpu t) = tlb (pg_cpu s)" "split_large (pg_cpu t) = split_large (pg_cpu s)" "crs (pg_cpu t) = crs (pg_cpu s)"
    "modes (pg_cpu t) = modes (pg_cpu s)" "guest (pg_cpu t) = guest (pg_cpu s)" "eflags (pg_cpu t) = eflags (pg_cpu s)"
    "PDPTR_CACHE (pg_cpu t) = PDPTR_CACHE (pg_cpu s)" "msr (pg_cpu t) = msr (pg_cpu s)" "mtrrs (pg_cpu t) = mtrrs (pg_cpu s)"
proof -
  have f: "f (pg_cpu t) = f (pg_cpu s)" if "\<And>c la ev. f (apart la ev c) = f c" for f :: "BX_CPU_C \<Rightarrow> 'x"
    using assms that unfolding same_cpu_def by metis
  show "tlb (pg_cpu t) = tlb (pg_cpu s)" "split_large (pg_cpu t) = split_large (pg_cpu s)" "crs (pg_cpu t) = crs (pg_cpu s)"
    "modes (pg_cpu t) = modes (pg_cpu s)" "guest (pg_cpu t) = guest (pg_cpu s)" "eflags (pg_cpu t) = eflags (pg_cpu s)"
    "PDPTR_CACHE (pg_cpu t) = PDPTR_CACHE (pg_cpu s)" "msr (pg_cpu t) = msr (pg_cpu s)" "mtrrs (pg_cpu t) = mtrrs (pg_cpu s)"
    by (rule f, simp add: apart_def)+
qed

lemma same_cpu_fields [simp]:
  "same_cpu s (s\<lparr>pg_mem := m\<rparr>)" "same_cpu s (s\<lparr>pg_vmcs := v\<rparr>)" "same_cpu s (s\<lparr>xlation := x\<rparr>)"
  by (simp_all add: same_cpu_def)

lemma read_physical_quiet: "quiet_rel e s (fst (access_read_physical e a old s))"
proof
  assume q: "env_quiet e"
  obtain t pa where v: "(if is_virtual_apic_page a s then vapic_read e a (length old) s else (s, a)) = (t, pa)" by (metis surj_pair)
  have st: "same_cpu s t"
    using v q same_cpu_refl [of s] unfolding env_quiet_def by (auto split: if_splits) (metis fst_conv)
  have "same_cpu t (fst (access_read_physical e a old s))"
    unfolding access_read_physical_def Let_def v using lapic_read_apart [of _ _ "env_lapic e" pa "length old" "(pg_cpu t, pg_pc t)"]
    by (auto simp: same_cpu_def split: prod.splits)
  with st show "same_cpu s (fst (access_read_physical e a old s))" by (rule same_cpu_trans)
qed

lemma write_physical_quiet: "ends (quiet_rel e) s (access_write_physical e a d s)"
proof -
  have "env_quiet e \<Longrightarrow> ends same_cpu s (vapic_write e a d s)" by (simp add: env_quiet_def)
  then have v: "ends (quiet_rel e) s (vapic_write e a d s)"
    by (cases "env_quiet e") (auto simp: ends_def split: sum.splits)
  have "lapic_write (env_lapic e) a w n (pg_cpu s, pg_pc s) = Some (c, pc) \<Longrightarrow> same_cpu s (s\<lparr>pg_cpu := c, pg_pc := pc\<rparr>)" for w n c pc
    using lapic_write_apart [of "env_lapic e" a w n "(pg_cpu s, pg_pc s)"] by (fastforce simp: same_cpu_def)
  with v show ?thesis
    by (auto simp: access_write_physical_def split: option.splits sum.splits)
qed

lemma phys_read_quiet: "quiet_rel e s (fst (phys_read e n a s))"
  using read_physical_quiet [of e s a "replicate n 0"] by (simp add: phys_read_def case_prod_beta)

interpretation phys: walk_frame "phys_ops e" "quiet_rel e" for e
  by unfold_locales (auto simp: phys_ops_def write_physical_quiet intro: same_cpu_trans mp [OF phys_read_quiet])

lemma nested_faults_ends [simp]: "ends rel s (nested_faults gpa rw pw r) = ends rel s r"
  by (auto simp: nested_faults_def ends_def split: sum.splits prod.splits walk_stop.splits)

lemma nested_walk_ends: "ends (quiet_rel e) s (nested_walk e gpa rw pw s)"
proof -
  note endings = phys.ends_then phys.walk_long_ends phys.walk_PAE_ends phys.walk_legacy_ends phys.nested_finish_ends
  have "ends (quiet_rel e) s (nested_walk_PAE e gpa rw s)"
  proof -
    obtain t en where r: "phys_read e 8 ((ncr3 (pg_vmcb s) AND 0xffffffe0) OR push_bit 3 (drop_bit 30 gpa AND 3)) s = (t, en)" by (metis surj_pair)
    have "quiet_rel e s t" using phys_read_quiet r by (metis fst_conv)
    moreover have "ends (quiet_rel e) t (nested_walk_PAE e gpa rw s)"
      unfolding nested_walk_PAE_def r by (auto split: option.split intro!: endings)
    ultimately show ?thesis by (rule phys.ends_from)
  qed
  moreover have "ends (quiet_rel e) s (nested_walk_long_mode e gpa rw s)" "ends (quiet_rel e) s (nested_walk_legacy e gpa rw s)"
    unfolding nested_walk_long_mode_def nested_walk_legacy_def by (auto intro!: endings)
  ultimately show ?thesis by (simp add: nested_walk_def)
qed

lemma write_all_ends: "ends (quiet_rel e) s (write_all e ws s)"
  by (induction e ws s rule: write_all.induct) (auto intro!: phys.ends_then write_physical_quiet)

lemma Virtualization_ends: "ends (quiet_rel e) s (Virtualization_Exception e qual gpa gla s)"
proof -
  obtain t magic where r: "phys_read e 4 (ve_info_addr (pg_vmcs s) + 4) s = (t, magic)" by (metis surj_pair)
  have "quiet_rel e s t" using phys_read_quiet r by (metis fst_conv)
  moreover have "ends (quiet_rel e) t (if magic \<noteq> 0 then Inr ((), t) else walk_then (write_all e ws t) (\<lambda>_ u. Inl (Virtualization_fault, u)))" for ws
    by (auto intro!: phys.ends_then write_all_ends)
  ultimately have "ends (quiet_rel e) s (if magic \<noteq> 0 then Inr ((), t) else walk_then (write_all e ws t) (\<lambda>_ u. Inl (Virtualization_fault, u)))" for ws
    by (rule phys.ends_from)
  then show ?thesis unfolding Virtualization_Exception_def Let_def r by simp
qed

lemma pml_ends: "ends (quiet_rel e) s (vmx_page_modification_logging e gpa d s)"
  by (auto simp: vmx_page_modification_logging_def intro!: phys.ends_then write_physical_quiet)

lemma spp_walk_ends: "ends (quiet_rel e) s (spp_walk e gpa gla s)"
  using phys.spp_levels_rel [of e gpa 3 "LPFOf (spptp (pg_vmcs s))" s]
  by (auto simp: spp_walk_def ept_exit_def same_cpu_def split: prod.splits sum.splits)

lemma ept_violation_ends: "ends (quiet_rel e) s (ept_violation e gpa gla v pw am r w s)"
  by (auto simp: ept_violation_def Let_def ept_exit_def intro!: phys.ends_then Virtualization_ends)

lemma guest_physical_ends: "ends (quiet_rel e) s (translate_guest_physical e gpa gla v pw rw s)"
proof -
  obtain t w r where l: "ept_levels (phys_ops e) gpa 3 (start_walk (LPFOf (eptptr (pg_vmcs s)))\<lparr>w_access := 7\<rparr>) s = (t, w, r)" by (metis surj_pair)
  have "quiet_rel e s t" by (rule phys.ept_levels_rel [OF l])
  moreover have "ends (quiet_rel e) t (translate_guest_physical e gpa gla v pw rw s)"
    unfolding translate_guest_physical_def Let_def l
    by (auto intro!: phys.ends_then spp_walk_ends ept_violation_ends pml_ends phys.update_ept_ends)
  ultimately show ?thesis by (rule phys.ends_from)
qed

lemma guest_xlate_ends: "ends (quiet_rel e) s (guest_xlate e gpa laddr pw rw s)"
  by (auto simp: guest_xlate_def intro!: phys.ends_then guest_physical_ends nested_walk_ends)

text \<open>The walk of a linear address, whose entries are translated too.\<close>

interpretation cpu_walk: walk_frame "cpu_walk_ops e laddr s0" "quiet_rel e" for e laddr s0
  by unfold_locales (auto simp: cpu_walk_ops_def phys_ops_def write_physical_quiet guest_xlate_ends intro: same_cpu_trans mp [OF phys_read_quiet])

end
