(* ===== verification/PageTables.thy ===== *)
theory PageTables
  imports GuestWalkProps PhysMemProps
begin

text \<open>
  Page tables in plain memory. The interface of a walk to the memory that holds the tables is the locale \<open>table_memory\<close>: reads
  without effect and writes of single entries. Inside it, what a walk finds is compared with a path through the tables and
  its effect is the accessed and dirty bits; the processor's accesses to plain RAM are an interpretation.
\<close>

subsection \<open>Tables in plain memory\<close>

lemma le_bytes_Suc: "le_bytes (Suc n) v = ucast v # le_bytes n (drop_bit 8 v)"
  by (simp add: le_bytes_def upt_conv_Cons map_Suc_upt [symmetric] comp_def drop_bit_drop_bit add.commute del: upt_Suc)

lemma le_word_bytes: "le_word (le_bytes n v) = take_bit (8 * n) v"
proof (induction n arbitrary: v)
  case 0
  then show ?case by (simp add: le_bytes_def)
next
  case (Suc n)
  have "ucast (ucast v :: Bit8u) OR push_bit 8 (take_bit (8 * n) (drop_bit 8 v)) = take_bit (8 * Suc n) v"
    by (intro bit_eqI) (auto simp: bit_simps)
  then show ?case by (simp add: le_bytes_Suc Suc)
qed

lemma length_le_bytes [simp]: "length (le_bytes n v) = n"
  by (simp add: le_bytes_def)

lemma le_word_less: "take_bit (8 * length bs) (le_word bs) = le_word bs"
proof (induction bs)
  case (Cons b bs)
  have "bit (le_word bs) n \<Longrightarrow> n < 8 * length bs" for n using Cons by (metis bit_take_bit_iff)
  then have "bit (le_word bs) (n - 8) \<Longrightarrow> n < 8 + 8 * length bs" for n by fastforce
  then show ?case by (intro bit_eqI) (auto simp: bit_simps dest: bit_imp_le_length)
qed simp

text \<open>Table entries in memory that no device watches, inside one page and below 4 GiB.\<close>

definition plain_entry :: "nat \<Rightarrow> 'd pg_state \<Rightarrow> bx_phy_address \<Rightarrow> bool" where
  "plain_entry n s a \<longleftrightarrow> 0 < n \<and> n dvd 4096 \<and> n dvd unat a \<and> \<not> is_virtual_apic_page a s \<and> \<not> is_selected a (lapic (pg_cpu s)) \<and>
     A20ADDR a (pg_mem s) = a \<and> plain_ram a \<and> a < mem_len (pg_mem s) \<and> \<not> is_bios a \<and> a < 0x100000000 \<and>
     memory_handlers (pg_mem s) (unat (drop_bit 20 a)) = []"

definition entry_at :: "nat \<Rightarrow> 'd pg_state \<Rightarrow> bx_phy_address \<Rightarrow> Bit64u" where
  "entry_at n s a = le_word (read_bytes a n (vector (pg_mem s)))"

lemma same_page:
  fixes a :: bx_phy_address
  assumes "n dvd 4096" "n dvd unat a" "0 < n" "unat a < 2 ^ 32"
  shows "drop_bit 12 (a + of_nat n - 1) = drop_bit 12 a"
proof -
  obtain k where k: "4096 = n * k" using assms(1) by blast
  obtain j where j: "unat a = n * j" using assms(2) by blast
  have n: "n \<le> 4096" using assms(1) by (simp add: dvd_imp_le)
  have e: "a + of_nat n - 1 = a + of_nat (n - 1)" using assms(3) by (simp add: of_nat_diff)
  have "unat (a + of_nat (n - 1)) = unat a + (n - 1)"
    using n assms(4) by (subst unat_add_lem [THEN iffD1]) (simp_all add: unat_of_nat take_bit_nat_eq_self)
  moreover have "(n * j + (n - 1)) div 4096 = n * j div 4096"
  proof -
    have "n * j + (n - 1) = (n - 1) + n * j" by simp
    then have "(n * j + (n - 1)) div n = j" using assms(3) by (simp only: div_mult_self2) simp
    then show ?thesis unfolding k div_mult2_eq using assms(3) by simp
  qed
  ultimately show ?thesis
    unfolding e by (intro word_unat_eq_iff [THEN iffD2]) (simp add: drop_bit_eq_div j unat_div)
qed

lemma dvd_gap: "n dvd x \<Longrightarrow> n dvd y \<Longrightarrow> x < y \<Longrightarrow> x + n \<le> y" for n x y :: nat
  using dvd_imp_le [of n "y - x"] by (simp add: dvd_diff_nat)

lemma unat_aligned_diff:
  fixes a b :: bx_phy_address
  assumes "n dvd unat a" "n dvd unat b" "a \<noteq> b" "unat a < 2 ^ 32" "unat b < 2 ^ 32" "k < n" "n \<le> 4096"
  shows "n \<le> unat (b + of_nat k - a)"
proof -
  have "unat (of_nat k :: bx_phy_address) = k" using assms(6,7) by (simp add: unat_of_nat take_bit_nat_eq_self)
  then have bk: "unat (b + of_nat k) = unat b + k" using assms(5-7) by (subst unat_add_lem [THEN iffD1]) simp_all
  have "unat a \<noteq> unat b" using assms(3) by (simp add: word_unat_eq_iff)
  then consider "unat a + n \<le> unat b" | "unat b + n \<le> unat a"
    using dvd_gap [OF assms(1,2)] dvd_gap [OF assms(2,1)] by linarith
  then show ?thesis
  proof cases
    case 1
    then have "unat (b + of_nat k - a) = unat b + k - unat a" using bk by (subst unat_sub) (simp_all add: word_le_nat_alt)
    with 1 show ?thesis by simp
  next
    case 2
    then have "unat (b + of_nat k - a) = 2 ^ 64 + (unat b + k) - unat a"
      using bk assms(6) by (subst unat_sub_if') (simp add: word_le_nat_alt)
    then show ?thesis using assms(4,7) by simp
  qed
qed

lemma phys_read_plain: "plain_entry n s a \<Longrightarrow> phys_read e n a s = (s, entry_at n s a)"
proof -
  assume p: "plain_entry n s a"
  then have c: "cross_page a (length (replicate n (0 :: Bit8u))) (pg_mem s) = pg_mem s"
    using same_page [of n a] by (simp add: cross_page_def plain_entry_def word_less_nat_alt)
  have "readPhysicalPage (Some (env_smm e)) a (replicate n 0) (pg_mem s) = (pg_mem s, read_bytes a n (vector (pg_mem s)))"
    using p plain_not_vga [of a] unfolding readPhysicalPage_def Let_def c
    by (simp add: plain_entry_def smram_access_def mem_read_def)
  then show ?thesis
    using p by (simp add: phys_read_def access_read_physical_def plain_entry_def entry_at_def)
qed

lemma phys_write_plain:
  assumes p: "plain_entry n s a"
  shows "\<exists>m. access_write_physical e a (le_bytes n v) s = Inr ((), s\<lparr>pg_mem := m\<rparr>) \<and>
    entry_at n (s\<lparr>pg_mem := m\<rparr>) a = take_bit (8 * n) v \<and>
    (\<forall>b. plain_entry n s b \<longrightarrow> b \<noteq> a \<longrightarrow> entry_at n (s\<lparr>pg_mem := m\<rparr>) b = entry_at n s b) \<and>
    (\<forall>b. plain_entry n (s\<lparr>pg_mem := m\<rparr>) b = plain_entry n s b)"
proof -
  let ?m = "pg_mem s" and ?d = "le_bytes n v"
  have n: "0 < n" "n \<le> 4096" using p by (simp_all add: plain_entry_def dvd_imp_le)
  then have len: "length ?d < 2 ^ 64" "length ?d < 2 ^ 32" and ne: "?d \<noteq> []" by (auto simp: le_bytes_def)
  have a: "A20ADDR a ?m = a" using p by (simp add: plain_entry_def)
  obtain f where f: "write_frame (write_prelude a (length ?d) ?m) f"
    "writePhysicalPage (env_opcode e) (Some (env_smm e)) a ?d ?m = Inr (f\<lparr>vector := write_bytes a ?d (vector ?m)\<rparr>)"
    using plain_write [of ?d a ?m "env_opcode e" "Some (env_smm e)"] p ne len(2) unfolding a by (auto simp: plain_entry_def)
  let ?f = "f\<lparr>vector := write_bytes a ?d (vector ?m)\<rparr>"
  have fields: "mem_len f = mem_len ?m" "a20_mask f = a20_mask ?m" "memory_handlers f = memory_handlers ?m"
    using f(1) by (auto simp: write_frame_def)
  have "access_write_physical e a ?d s = Inr ((), s\<lparr>pg_mem := ?f\<rparr>)"
    using p f(2) by (simp add: access_write_physical_def plain_entry_def)
  moreover have "entry_at n (s\<lparr>pg_mem := ?f\<rparr>) a = take_bit (8 * n) v"
    using read_write_bytes [OF len(1), of a "vector ?m"] by (simp add: entry_at_def le_word_bytes)
  moreover have "entry_at n (s\<lparr>pg_mem := ?f\<rparr>) b = entry_at n s b" if b: "plain_entry n s b" "b \<noteq> a" for b
  proof -
    have "\<not> unat (b + of_nat k - a) < n" if "k < n" for k
      using unat_aligned_diff [of n a b k] that b p n by (auto simp: plain_entry_def word_less_nat_alt)
    then have "read_bytes b n (write_bytes a ?d (vector ?m)) = read_bytes b n (vector ?m)"
      using len(1) by (simp add: read_bytes_def write_bytes_at)
    then show ?thesis by (simp add: entry_at_def)
  qed
  moreover have "plain_entry n (s\<lparr>pg_mem := ?f\<rparr>) b = plain_entry n s b" for b
    by (simp add: plain_entry_def fields A20ADDR_def is_virtual_apic_page_def secondary_control_def)
  ultimately show ?thesis by blast
qed

text \<open>The entries on the way to an address in the four-level format, down to the leaf or to the first entry that ends the walk.\<close>

fun table_path :: "(bx_phy_address \<Rightarrow> Bit64u) \<Rightarrow> Bit64u \<Rightarrow> bx_address \<Rightarrow> nat \<Rightarrow> bx_phy_address \<Rightarrow> (bx_phy_address \<times> Bit64u) list" where
  "table_path v rsvd laddr 0 tbl = [(tbl + (drop_bit 9 laddr AND 0xff8), v (tbl + (drop_bit 9 laddr AND 0xff8)))]"
| "table_path v rsvd laddr (Suc k) tbl =
     (let a = tbl + (drop_bit (9 + 9 * Suc k) laddr AND 0xff8); en = v a
      in (a, en) # (if check_entry_PAE en rsvd = None \<and> en AND 0x80 = 0 then table_path v rsvd laddr k (en AND PAGE_FRAME_MASK) else []))"

text \<open>The same in the 32 bit format.\<close>

definition legacy_path :: "(bx_phy_address \<Rightarrow> Bit64u) \<Rightarrow> bool \<Rightarrow> bx_address \<Rightarrow> bx_phy_address \<Rightarrow> (bx_phy_address \<times> Bit64u) list" where
  "legacy_path v pse laddr tbl =
     (let a = tbl + (drop_bit 20 laddr AND 0xffc); en = v a; b = (en AND 0xfffff000) + (drop_bit 10 laddr AND 0xffc)
      in (a, en) # (if en AND 1 \<noteq> 0 \<and> \<not> (en AND 0x80 \<noteq> 0 \<and> pse) then [(b, v b)] else []))"

definition legacy_frame :: "(bx_phy_address \<times> Bit64u) list \<Rightarrow> bx_phy_address" where
  "legacy_frame es = (let en = snd (last es) in
     if length es = 1 then (en AND 0xffc00000) OR push_bit 19 (en AND 0x003fe000) else en AND 0xfffff000)"

lemma table_path_not_Nil [simp]: "table_path v rsvd laddr k tbl \<noteq> []"
  by (cases k) (simp_all add: Let_def)

lemma calculate_pat_less: "calculate_pat en m < 8"
proof -
  have "w AND 3 = take_bit 2 w" "w AND 1 = take_bit 1 w" for w :: Bit32u by (simp_all add: take_bit_eq_mask mask_eq_exp_minus_1)
  then have "calculate_pat en m AND mask 3 = calculate_pat en m"
    unfolding calculate_pat_def calculate_pcd_pwt_def by (intro bit_eqI) (auto simp: bit_simps)
  then show ?thesis using unat_and_mask [of "calculate_pat en m" 3] by (simp add: word_less_nat_alt)
qed

lemma size_mask_bits: "page_size_mask m \<Longrightarrow> n < 12 \<Longrightarrow> bit m n"
proof -
  assume m: "page_size_mask m" and n: "n < 12"
  have "(0xfff :: Bit32u) = mask 12" "(0x1fffff :: Bit32u) = mask 21" "(0x3fffff :: Bit32u) = mask 22" "(0x3fffffff :: Bit32u) = mask 30"
    by (simp_all add: mask_eq_exp_minus_1)
  with m obtain k where "m = mask k" "12 \<le> k" unfolding page_size_mask_def by fastforce
  then show "bit m n" using n by (simp add: bit_mask_iff)
qed

lemma walk_result_bits:
  assumes "isValidMSR_PAT (pat (msr cpu))" "acc AND NOT 6 = 0" "page_size_mask m"
  shows "ucast ((if pge then acc OR (en AND 0x100) else acc) OR push_bit 9 (memtype_by_pat (calculate_pat x y) cpu)) AND NOT (ucast m) = (0 :: Bit64u)"
proof -
  let ?t = "memtype_by_pat (calculate_pat x y) cpu"
  have "isMemTypeValidPAT ?t"
    using assms(1) calculate_pat_less [of x y] by (simp add: isValidMSR_PAT_def list_all_iff memtype_by_pat_def word_less_nat_alt)
  then have "unat ?t < 2 ^ 3" by (auto simp: isMemTypeValidPAT_def isMemTypeValidMTRR_def)
  then have t: "bit ?t n \<Longrightarrow> n < 3" for n by (rule bit_unat_less)
  have a: "n < 12" if "bit acc n" for n
  proof -
    have "\<not> bit (acc AND NOT 6) n" using assms(2) by simp
    then have "bit (6 :: Bit32u) n" using that bit_imp_le_length [OF that] unfolding bit_and_iff bit_not_iff by simp
    then show ?thesis unfolding bit_6 by auto
  qed
  have g: "bit (0x100 :: Bit32u) n \<Longrightarrow> n = 8" for n
  proof -
    have "(0x100 :: Bit32u) = push_bit 8 1" by simp
    then show "bit (0x100 :: Bit32u) n \<Longrightarrow> n = 8" by (simp only: bit_push_bit_iff bit_1_iff) simp
  qed
  have "n < 12" if "bit ((if pge then acc OR (en AND 0x100) else acc) OR push_bit 9 ?t) n" for n
    using that a [of n] g [of n] t [of "n - 9"] by (auto simp: bit_or_iff bit_and_iff bit_push_bit_iff split: if_splits)
  then show ?thesis using size_mask_bits [OF assms(3)]
    by (intro bit_eqI) (auto simp only: bit_and_iff bit_not_iff bit_unsigned_iff bit_0_eq bot_apply bot_bool_def)
qed

text \<open>Where accessed and dirty bits end up.\<close>

definition marks :: "bool \<Rightarrow> (bx_phy_address \<times> Bit64u) list \<Rightarrow> bx_phy_address \<Rightarrow> Bit64u" where
  "marks wr es a = (if a \<in> fst ` set es then 0x20 else 0) OR (if wr \<and> es \<noteq> [] \<and> a = fst (last es) then 0x40 else 0)"

text \<open>What a finished walk says about its path.\<close>

definition walked :: "mem_rw \<Rightarrow> Bit64u \<Rightarrow> walk \<Rightarrow> (bx_phy_address \<times> Bit64u) list \<Rightarrow> walk \<Rightarrow> bool" where
  "walked rw rsvd w es w' \<longleftrightarrow> w_visited w' = w_visited w @ es \<and> (\<forall>x \<in> set es. check_entry_PAE (snd x) rsvd = None) \<and>
     (\<forall>n. bit (w_access w') n \<longleftrightarrow> bit (w_access w) n \<and> (\<forall>x \<in> set es. bit (snd x) n)) \<and>
     (w_nx w' \<longleftrightarrow> w_nx w \<or> rw = BX_EXECUTE \<and> (\<exists>x \<in> set es. bit (snd x) 63))"

lemma nx_bit: "en AND PAGE_DIRECTORY_NX_BIT \<noteq> 0 \<longleftrightarrow> bit en 63"
  using and_pow2_eq_0 [of 63 en] by simp

lemma walked_one:
  "check_entry_PAE en rsvd = None \<Longrightarrow> walked rw rsvd w [(a, en)]
     (w\<lparr>w_ppf := x, w_access := w_access w AND ucast en, w_nx := w_nx w \<or> (en AND PAGE_DIRECTORY_NX_BIT \<noteq> 0 \<and> rw = BX_EXECUTE),
        w_offset := y, w_visited := w_visited w @ [(a, en)]\<rparr>)"
  by (auto simp: walked_def bit_simps nx_bit dest: bit_imp_le_length)

lemma walked_append: "walked rw rsvd w xs w1 \<Longrightarrow> walked rw rsvd w1 ys w2 \<Longrightarrow> walked rw rsvd w (xs @ ys) w2"
  by (auto simp: walked_def)

lemma walked_size: "walked rw rsvd w es (w1\<lparr>w_ppf := x, w_lpf_mask := y\<rparr>) = walked rw rsvd w es w1"
  by (simp add: walked_def)

text \<open>
  Memory as a walk sees it: entries at the addresses where \<open>ok\<close> holds are read without effect, and a write replaces one
  of them and leaves the others and the rest of the state alone.
\<close>

locale table_memory =
  fixes ops :: "'s walk_ops" and sz :: nat and ok :: "'s \<Rightarrow> bx_phy_address \<Rightarrow> bool" and view :: "'s \<Rightarrow> bx_phy_address \<Rightarrow> Bit64u"
    and rest :: "'s \<Rightarrow> 'r"
  assumes ok_nested: "ok s a \<Longrightarrow> walk_nested ops a s = Inr (a, s)"
    and ok_read: "ok s a \<Longrightarrow> walk_read ops sz a s = (s, view s a)"
    and ok_write: "ok s a \<Longrightarrow> \<exists>t. walk_write ops sz a v s = Inr ((), t) \<and> view t a = take_bit (8 * sz) v \<and>
       (\<forall>b. ok s b \<longrightarrow> b \<noteq> a \<longrightarrow> view t b = view s b) \<and> (\<forall>b. ok t b = ok s b) \<and> rest t = rest s"
    and view_bits: "take_bit (8 * sz) (view s a) = view s a"
    and entry_size: "8 \<le> 8 * sz"
begin

lemma ok_visit:
  "ok s a \<Longrightarrow> visit ops sz rsvd frame rw a w s =
    (case check_entry_PAE (view s a) rsvd of
       Some f \<Rightarrow> Inl (Page_fault f, s)
     | None \<Rightarrow> Inr (w\<lparr>w_ppf := view s a AND frame, w_access := w_access w AND ucast (view s a),
                w_nx := w_nx w \<or> (view s a AND PAGE_DIRECTORY_NX_BIT \<noteq> 0 \<and> rw = BX_EXECUTE),
                w_offset := drop_bit 9 (w_offset w), w_visited := w_visited w @ [(a, view s a)]\<rparr>, s))"
  by (simp add: visit_def ok_nested ok_read)

text \<open>A copy of an entry that may lack the accessed bit of the entry in memory.\<close>

definition copied :: "'s \<Rightarrow> bx_phy_address \<times> Bit64u \<Rightarrow> bool" where
  "copied s = (\<lambda>(a, en). ok s a \<and> (view s a = en \<or> view s a = en OR 0x20))"

lemma copied_or: "copied s (a, en) \<Longrightarrow> en OR (0x20 OR x) = view s a OR (0x20 OR x)"
  by (auto simp: copied_def or.assoc)

lemma low_bits: "take_bit (8 * sz) (view s a OR (0x20 OR of_bool P * 0x40)) = view s a OR (0x20 OR of_bool P * 0x40)"
proof -
  have "take_bit 8 (0x60 :: Bit64u) = 0x60" "take_bit 8 (0x20 :: Bit64u) = 0x20" by simp_all
  then have "take_bit (8 * sz) (0x60 :: Bit64u) = 0x60" "take_bit (8 * sz) (0x20 :: Bit64u) = 0x20"
    using entry_size take_bit_take_bit [of "8 * sz" 8 "0x60 :: Bit64u"] take_bit_take_bit [of "8 * sz" 8 "0x20 :: Bit64u"] by simp_all
  then show ?thesis by (cases P) (simp_all add: take_bit_or view_bits)
qed

lemma mark_entry:
  assumes c: "copied s (a, en)"
  shows "\<exists>t. (if en AND 0x20 = 0 \<or> wr \<and> en AND 0x40 = 0 then walk_write ops sz a (en OR (0x20 OR of_bool wr * 0x40)) s else Inr ((), s)) = Inr ((), t) \<and>
    (\<forall>b. ok t b = ok s b) \<and> (\<forall>b. ok s b \<longrightarrow> view t b = view s b OR (if b = a then 0x20 OR of_bool wr * 0x40 else 0)) \<and> rest t = rest s"
proof (cases "en AND 0x20 = 0 \<or> wr \<and> en AND 0x40 = 0")
  case True
  have "ok s a" using c by (simp add: copied_def)
  from ok_write [OF this, of "en OR (0x20 OR of_bool wr * 0x40)"] obtain t where
    "walk_write ops sz a (en OR (0x20 OR of_bool wr * 0x40)) s = Inr ((), t)" "view t a = view s a OR (0x20 OR of_bool wr * 0x40)"
    "\<forall>b. ok s b \<longrightarrow> b \<noteq> a \<longrightarrow> view t b = view s b" "\<forall>b. ok t b = ok s b" "rest t = rest s"
    unfolding copied_or [OF c] low_bits by blast
  with True show ?thesis by auto
next
  case False
  then have a: "en AND 0x20 \<noteq> 0" "wr \<Longrightarrow> en AND 0x40 \<noteq> 0" by auto
  have "x AND push_bit n 1 \<noteq> 0 \<Longrightarrow> x OR push_bit n 1 = x" if "n < 64" for x :: Bit64u and n
    using that and_pow2_eq_0 [of n x] by (intro bit_eqI) (auto simp: bit_simps)
  from this [of 5 en] this [of 6 en] a have "en OR 0x20 = en" "wr \<Longrightarrow> en OR 0x40 = en" by simp_all
  moreover from this c have "view s a = en" by (auto simp: copied_def)
  ultimately have "(view s a OR 0x20) OR of_bool wr * 0x40 = view s a" by (cases wr) simp_all
  then have "view s a OR (0x20 OR of_bool wr * 0x40) = view s a" by (simp only: or.assoc)
  with False show ?thesis by auto
qed

lemma mark_accessed:
  assumes "copied s (a, en)"
  obtains t where "(if en AND 0x20 = 0 then walk_write ops sz a (en OR 0x20) s else Inr ((), s)) = Inr ((), t)"
    "\<forall>b. ok t b = ok s b" "\<forall>b. ok s b \<longrightarrow> view t b = view s b OR (if b = a then 0x20 else 0)" "rest t = rest s"
proof -
  obtain t where "(if en AND 0x20 = 0 \<or> False \<and> en AND 0x40 = 0 then walk_write ops sz a (en OR (0x20 OR of_bool False * 0x40)) s else Inr ((), s)) = Inr ((), t)"
    "\<forall>b. ok t b = ok s b" "\<forall>b. ok s b \<longrightarrow> view t b = view s b OR (if b = a then 0x20 OR of_bool False * 0x40 else 0)" "rest t = rest s"
    using mark_entry [OF assms, of False] by (elim exE conjE) (rule that)
  then show thesis by (intro that [of t]) (simp_all only: of_bool_eq mult_zero_left or.right_neutral simp_thms)
qed

lemma marks_Cons: "es \<noteq> [] \<Longrightarrow> marks wr ((a, en) # es) b = (if b = a then 0x20 else 0) OR marks wr es b"
  by (auto simp: marks_def or.assoc [symmetric])

lemma update_marks:
  assumes "\<forall>x \<in> set es. copied s x"
  shows "\<exists>t. update_access_dirty ops sz wr es s = Inr ((), t) \<and> (\<forall>b. ok t b = ok s b) \<and>
    (\<forall>b. ok s b \<longrightarrow> view t b = view s b OR marks wr es b) \<and> rest t = rest s"
  using assms
proof (induction es arbitrary: s)
  case Nil
  then show ?case by (simp add: marks_def)
next
  case (Cons x es)
  obtain a en where x: "x = (a, en)" by (metis surj_pair)
  have c: "copied s (a, en)" using Cons.prems x by simp
  show ?case
  proof (cases "es = []")
    case True
    then show ?thesis using mark_entry [OF c, of wr] by (auto simp: x marks_def)
  next
    case False
    obtain t where t: "(if en AND 0x20 = 0 then walk_write ops sz a (en OR 0x20) s else Inr ((), s)) = Inr ((), t)"
      and ok: "\<forall>b. ok t b = ok s b" and v: "\<forall>b. ok s b \<longrightarrow> view t b = view s b OR (if b = a then 0x20 else 0)" and r: "rest t = rest s"
      by (rule mark_accessed [OF c])
    have step: "copied t (b, en')" if "copied s (b, en')" for b en'
      using that ok v by (cases "b = a") (auto simp: copied_def or.assoc)
    have "\<forall>x \<in> set es. copied t x" using Cons.prems step by (simp add: split_paired_all)
    from Cons.IH [OF this] obtain u where u: "update_access_dirty ops sz wr es t = Inr ((), u)" "\<forall>b. ok u b = ok t b"
      "\<forall>b. ok t b \<longrightarrow> view u b = view t b OR marks wr es b" "rest u = rest t" by blast
    have "update_access_dirty ops sz wr (x # es) s = Inr ((), u)" unfolding x update_access_dirty.simps if_not_P [OF False] t walk_then_simps by (rule u(1))
    moreover have "view u b = view s b OR marks wr (x # es) b" if "ok s b" for b
    proof -
      have "view u b = (view s b OR (if b = a then 0x20 else 0)) OR marks wr es b" using u(3) ok v that by metis
      then show ?thesis by (simp only: x marks_Cons [OF False] or.assoc)
    qed
    moreover have "\<forall>b. ok u b = ok s b" "rest u = rest s" using u(2,4) ok r by simp_all
    ultimately show ?thesis by blast
  qed
qed

lemma walk_long_path:
  assumes "\<forall>x \<in> set (table_path (view s) rsvd laddr k (w_ppf w)). ok s (fst x)" "sz = 8"
  shows "case walk_long ops rsvd rw laddr k w s of
      Inl (stop, t) \<Rightarrow> t = s \<and> (\<exists>f. stop = Page_fault f)
    | Inr (w', t) \<Rightarrow> t = s \<and> walked rw rsvd w (table_path (view s) rsvd laddr k (w_ppf w)) w'"
  using assms(1)
proof (induction k arbitrary: w)
  case 0
  let ?a = "w_ppf w + (drop_bit 9 laddr AND 0xff8)"
  have "ok s ?a" using 0 by simp
  from ok_visit [OF this, of rsvd PAGE_FRAME_MASK rw w] show ?case
    by (auto simp: assms(2) walked_def bit_simps nx_bit dest: bit_imp_le_length split: option.split)
next
  case (Suc k)
  let ?a = "w_ppf w + (drop_bit (9 + 9 * Suc k) laddr AND 0xff8)"
  let ?en = "view s ?a"
  have ok: "ok s ?a" using Suc.prems by (simp add: Let_def)
  show ?case
  proof (cases "check_entry_PAE ?en rsvd")
    case (Some f)
    then show ?thesis using ok_visit [OF ok, of rsvd PAGE_FRAME_MASK rw w] by (simp add: assms(2))
  next
    case None
    let ?w = "w\<lparr>w_ppf := ?en AND PAGE_FRAME_MASK, w_access := w_access w AND ucast ?en,
                w_nx := w_nx w \<or> (?en AND PAGE_DIRECTORY_NX_BIT \<noteq> 0 \<and> rw = BX_EXECUTE),
                w_offset := drop_bit 9 (w_offset w), w_visited := w_visited w @ [(?a, ?en)]\<rparr>"
    have v: "visit ops 8 rsvd PAGE_FRAME_MASK rw ?a w s = Inr (?w, s)"
      using ok_visit [OF ok, of rsvd PAGE_FRAME_MASK rw w] None by (simp add: assms(2))
    have one: "walked rw rsvd w [(?a, ?en)] ?w" by (rule walked_one [OF None])
    have step: "walked rw rsvd w ((?a, ?en) # es) w'" if "walked rw rsvd ?w es w'" for es w'
      using walked_append [OF one that] by simp
    show ?thesis
    proof (cases "?en AND 0x80 = 0")
      case True
      then have p: "table_path (view s) rsvd laddr (Suc k) (w_ppf w) = (?a, ?en) # table_path (view s) rsvd laddr k (w_ppf ?w)"
        using None by (simp add: Let_def)
      have "walk_long ops rsvd rw laddr (Suc k) w s = walk_long ops rsvd rw laddr k ?w s"
        using True unfolding walk_long.simps v by simp
      then show ?thesis
        using Suc.IH [of ?w] Suc.prems step unfolding p by (auto split: sum.splits prod.splits)
    next
      case False
      then have p: "table_path (view s) rsvd laddr (Suc k) (w_ppf w) = [(?a, ?en)]" by (simp add: Let_def)
      have "walked rw rsvd w [(?a, ?en)] (?w\<lparr>w_ppf := x, w_lpf_mask := y\<rparr>)" for x y
        using one unfolding walked_size .
      then show ?thesis using False unfolding walk_long.simps v p by (simp add: Let_def)
    qed
  qed
qed

lemma walked_access:
  assumes "walked rw rsvd (start_walk pp) es w"
  shows "w_access w AND NOT 6 = 0" "bit (w_access w) 2 \<longleftrightarrow> (\<forall>x \<in> set es. bit (snd x) 2)" "bit (w_access w) 1 \<longleftrightarrow> (\<forall>x \<in> set es. bit (snd x) 1)"
proof -
  have acc: "bit (w_access w) n \<longleftrightarrow> bit (6 :: Bit32u) n \<and> (\<forall>x \<in> set es. bit (snd x) n)" for n using assms by (simp add: walked_def)
  show "w_access w AND NOT 6 = 0"
    by (intro bit_eqI) (unfold bit_and_iff bit_not_iff acc, auto)
  show "bit (w_access w) 2 \<longleftrightarrow> (\<forall>x \<in> set es. bit (snd x) 2)" "bit (w_access w) 1 \<longleftrightarrow> (\<forall>x \<in> set es. bit (snd x) 1)"
    unfolding acc bit_6 by simp_all
qed

lemma finish_effect:
  assumes w: "walked rw rsvd (start_walk pp) es w" "es \<noteq> []" and ok: "\<forall>x \<in> set es. ok s (fst x) \<and> snd x = view s (fst x)"
  shows "case finish_walk ops sz cpu user rw w s of
      Inl (stop, t) \<Rightarrow> t = s \<and> stop = Page_fault ERROR_PROTECTION \<and> \<not> (\<not> w_nx w \<and> access_allowed cpu user rw (\<forall>x \<in> set es. bit (snd x) 2) (\<forall>x \<in> set es. bit (snd x) 1))
    | Inr ((q, m), t) \<Rightarrow> \<not> w_nx w \<and> access_allowed cpu user rw (\<forall>x \<in> set es. bit (snd x) 2) (\<forall>x \<in> set es. bit (snd x) 1) \<and>
        m = w_lpf_mask w \<and> rest t = rest s \<and> (\<forall>a. ok s a \<longrightarrow> view t a = view s a OR marks (is_write rw) es a) \<and>
        q = w_ppf w OR ucast ((if get_PGE (crs cpu) then w_access w OR (ucast (leaf_entry w) AND 0x100) else w_access w) OR
              push_bit 9 (memtype_by_pat (calculate_pat (ucast (leaf_entry w)) (w_lpf_mask w)) cpu))"
proof (cases "page_protection cpu user rw (w_access w) (w_nx w)")
  case None
  have vis: "w_visited w = es" using w by (simp add: walked_def)
  obtain t where t: "update_access_dirty ops sz (is_write rw) es s = Inr ((), t)" "\<forall>b. ok s b \<longrightarrow> view t b = view s b OR marks (is_write rw) es b" "rest t = rest s"
    using update_marks [of es s "is_write rw"] ok by (auto simp: copied_def split_beta)
  show ?thesis
    using None t protection_passes [OF walked_access(1) [OF w(1)], of cpu user rw "w_nx w"] walked_access(2,3) [OF w(1)]
    by (simp add: finish_walk_def vis Let_def)
next
  case (Some f)
  then have "f = ERROR_PROTECTION" by (auto simp: page_protection_def Let_def split: if_splits)
  then show ?thesis
    using Some protection_passes [OF walked_access(1) [OF w(1)], of cpu user rw "w_nx w"] walked_access(2,3) [OF w(1)]
    by (auto simp: finish_walk_def)
qed

lemma walk_legacy_path:
  assumes path: "es = legacy_path (view s) pse laddr (w_ppf w)" "\<forall>x \<in> set es. ok s (fst x)" and sz: "sz = 4"
  shows "case walk_legacy ops pse rw laddr w s of
      Inl (stop, t) \<Rightarrow> t = s \<and> (\<exists>f. stop = Page_fault f)
    | Inr (w', t) \<Rightarrow> t = s \<and> walked rw 0 w es w' \<and> w_ppf w' = legacy_frame es"
proof -
  let ?a = "w_ppf w + (drop_bit 20 laddr AND 0xffc)"
  let ?en = "view s ?a"
  let ?b = "(?en AND 0xfffff000) + (drop_bit 10 laddr AND 0xffc)"
  have ok: "ok s ?a" using path by (simp add: legacy_path_def Let_def)
  have chk: "check_entry_PAE en 0 = None \<longleftrightarrow> en AND 1 \<noteq> 0" "check_entry_PAE en 0 = Some f \<longleftrightarrow> en AND 1 = 0 \<and> f = ERROR_NOT_PRESENT" for en f
    by (auto simp: check_entry_PAE_def)
  show ?thesis
  proof (cases "?en AND 1 = 0")
    case True
    then show ?thesis unfolding walk_legacy_def sz [symmetric] ok_visit [OF ok] by (simp add: check_entry_PAE_def)
  next
    case present: False
    let ?w = "w\<lparr>w_ppf := ?en AND 0xfffff000, w_access := w_access w AND ucast ?en,
                w_nx := w_nx w \<or> (?en AND PAGE_DIRECTORY_NX_BIT \<noteq> 0 \<and> rw = BX_EXECUTE),
                w_offset := drop_bit 9 (w_offset w), w_visited := w_visited w @ [(?a, ?en)]\<rparr>"
    have v: "visit ops 4 0 0xfffff000 rw ?a w s = Inr (?w, s)"
      unfolding sz [symmetric] ok_visit [OF ok] using present by (simp add: check_entry_PAE_def)
    have one: "walked rw 0 w [(?a, ?en)] ?w" by (rule walked_one) (simp add: chk present)
    show ?thesis
    proof (cases "?en AND 0x80 \<noteq> 0 \<and> pse")
      case True
      then have p: "es = [(?a, ?en)]" using path by (simp add: legacy_path_def Let_def)
      have "walked rw 0 w [(?a, ?en)] (?w\<lparr>w_ppf := x, w_lpf_mask := y\<rparr>)" for x y using one unfolding walked_size .
      then show ?thesis using True unfolding walk_legacy_def v p by (simp add: legacy_frame_def Let_def)
    next
      case False
      then have p: "es = [(?a, ?en), (?b, view s ?b)]" using path present by (simp add: legacy_path_def Let_def)
      have ok2: "ok s ?b" using path(2) p by simp
      have s2: "walk_legacy ops pse rw laddr w s = visit ops 4 0 0xfffff000 rw ?b ?w s"
        using False unfolding walk_legacy_def v by auto
      show ?thesis
      proof (cases "view s ?b AND 1 = 0")
        case True
        then show ?thesis unfolding s2 sz [symmetric] ok_visit [OF ok2] by (simp add: check_entry_PAE_def)
      next
        case False
        then have c: "check_entry_PAE (view s ?b) 0 = None" by (simp add: chk)
        define w2 where "w2 = ?w\<lparr>w_ppf := view s ?b AND 0xfffff000, w_access := w_access ?w AND ucast (view s ?b),
            w_nx := w_nx ?w \<or> (view s ?b AND PAGE_DIRECTORY_NX_BIT \<noteq> 0 \<and> rw = BX_EXECUTE),
            w_offset := drop_bit 9 (w_offset ?w), w_visited := w_visited ?w @ [(?b, view s ?b)]\<rparr>"
        have "visit ops 4 0 0xfffff000 rw ?b ?w s = Inr (w2, s)"
          unfolding sz [symmetric] ok_visit [OF ok2] c option.case w2_def ..
        moreover have "walked rw 0 w ([(?a, ?en)] @ [(?b, view s ?b)]) w2"
          by (rule walked_append [OF one]) (unfold w2_def, rule walked_one [OF c])
        moreover have "w_ppf w2 = legacy_frame es" by (simp add: w2_def p legacy_frame_def Let_def)
        ultimately show ?thesis unfolding s2 by (simp add: p)
      qed
    qed
  qed
qed

lemma legacy_effect:
  assumes path: "es = legacy_path (view s) (get_PSE (crs cpu)) laddr (cr3 (crs cpu) AND 0xfffff000)" "\<forall>x \<in> set es. ok s (fst x)"
    and sz: "sz = 4" and valid_pat: "isValidMSR_PAT (pat (msr cpu))"
  shows "case translate_linear_legacy ops cpu laddr user rw s of
      Inl (stop, t) \<Rightarrow> t = s \<and> (\<exists>f. stop = Page_fault f)
    | Inr ((q, m), t) \<Rightarrow>
        (\<forall>x \<in> set es. snd x AND 1 \<noteq> 0) \<and>
        access_allowed cpu user rw (\<forall>x \<in> set es. bit (snd x) 2) (\<forall>x \<in> set es. bit (snd x) 1) \<and>
        q AND NOT (ucast m) = legacy_frame es AND NOT (ucast m) \<and>
        rest t = rest s \<and> (\<forall>a. ok s a \<longrightarrow> view t a = view s a OR marks (is_write rw) es a)"
proof -
  let ?w = "start_walk (cr3 (crs cpu) AND 0xfffff000)"
  have es: "es = legacy_path (view s) (get_PSE (crs cpu)) laddr (w_ppf ?w)" using path(1) by simp
  note wp = walk_legacy_path [OF es path(2) sz, of rw]
  show ?thesis
  proof (cases "walk_legacy ops (get_PSE (crs cpu)) rw laddr ?w s")
    case (Inl x)
    then show ?thesis using wp by (cases x) (simp add: translate_linear_legacy_def)
  next
    case (Inr y)
    then obtain w where r: "walk_legacy ops (get_PSE (crs cpu)) rw laddr ?w s = Inr (w, s)" and w: "walked rw 0 ?w es w" and pp: "w_ppf w = legacy_frame es"
      using wp by (cases y) auto
    have ne: "es \<noteq> []" using path(1) by (simp add: legacy_path_def Let_def)
    have copies: "\<forall>x \<in> set es. ok s (fst x) \<and> snd x = view s (fst x)"
      using path by (auto simp: legacy_path_def Let_def split: if_splits)
    note fin = finish_effect [OF w ne copies, of cpu user]
    show ?thesis
    proof (cases "finish_walk ops 4 cpu user rw w s")
      case (Inl x)
      then show ?thesis using fin unfolding translate_linear_legacy_def r sz by (cases x) auto
    next
      case (Inr z)
      then obtain q m t where z: "finish_walk ops 4 cpu user rw w s = Inr ((q, m), t)" by (metis surj_pair)
      note f = fin [unfolded sz z sum.case prod.case]
      have low: "ucast ((if get_PGE (crs cpu) then w_access w OR (ucast (leaf_entry w) AND 0x100) else w_access w) OR
              push_bit 9 (memtype_by_pat (calculate_pat (ucast (leaf_entry w)) (w_lpf_mask w)) cpu)) AND NOT (ucast (w_lpf_mask w)) = (0 :: Bit64u)"
        by (rule walk_result_bits [OF valid_pat walked_access(1) [OF w]]) (rule walk_legacy_size [OF r], simp)
      have "q AND NOT (ucast m) = legacy_frame es AND NOT (ucast m)"
        using f low by (simp add: bit.conj_disj_distrib2 pp)
      moreover have "\<forall>x \<in> set es. snd x AND 1 \<noteq> 0" using w by (auto simp: walked_def check_entry_PAE_def split: if_splits)
      ultimately show ?thesis unfolding translate_linear_legacy_def r using f z by simp
    qed
  qed
qed

lemma path_copies: "x \<in> set (table_path v rsvd laddr k tbl) \<Longrightarrow> snd x = v (fst x)"
  by (induction k arbitrary: tbl) (auto simp: Let_def split: if_splits)

lemma long_effect:
  assumes path: "es = table_path (view s) (nx_reserved (get_NXE (crs cpu)) PAGING_PAE_RESERVED_BITS) laddr 3 (cr3 (crs cpu) AND PAGE_FRAME_MASK)"
    "\<forall>x \<in> set es. ok s (fst x)" and "sz = 8" and valid_pat: "isValidMSR_PAT (pat (msr cpu))"
  shows "case translate_linear_long_mode ops cpu laddr user rw s of
      Inl (stop, t) \<Rightarrow> t = s \<and> (\<exists>f. stop = Page_fault f)
    | Inr ((q, m, k), t) \<Rightarrow>
        (\<forall>x \<in> set es. check_entry_PAE (snd x) (nx_reserved (get_NXE (crs cpu)) PAGING_PAE_RESERVED_BITS) = None) \<and>
        \<not> (rw = BX_EXECUTE \<and> (\<exists>x \<in> set es. bit (snd x) 63)) \<and>
        access_allowed cpu user rw (\<forall>x \<in> set es. bit (snd x) 2) (\<forall>x \<in> set es. bit (snd x) 1) \<and>
        q AND NOT (ucast m) = snd (last es) AND PAGE_FRAME_MASK AND NOT (ucast m) \<and>
        rest t = rest s \<and> (\<forall>a. ok s a \<longrightarrow> view t a = view s a OR marks (is_write rw) es a)"
proof -
  let ?rsvd = "nx_reserved (get_NXE (crs cpu)) PAGING_PAE_RESERVED_BITS" and ?w = "start_walk (cr3 (crs cpu) AND PAGE_FRAME_MASK)"
  have es: "\<forall>x \<in> set (table_path (view s) ?rsvd laddr 3 (w_ppf ?w)). ok s (fst x)" "es = table_path (view s) ?rsvd laddr 3 (w_ppf ?w)" using path by simp_all
  show ?thesis
  proof (cases "walk_long ops ?rsvd rw laddr 3 ?w s")
    case (Inl x)
    then show ?thesis using walk_long_path [OF es(1) assms(3), of rw]
      by (cases x) (auto simp: translate_linear_long_mode_def)
  next
    case (Inr y)
    then obtain w where r: "walk_long ops ?rsvd rw laddr 3 ?w s = Inr (w, s)" and w: "walked rw ?rsvd ?w es w"
      using walk_long_path [OF es(1) assms(3), of rw] es(2) by (cases y) auto
    have size: "page_size_mask (w_lpf_mask w)" "leaf_frame w" using walk_long_size [OF r] by simp_all
    have ne: "es \<noteq> []" using es(2) by simp
    have leaf: "leaf_entry w = snd (last es)" using w ne by (simp add: walked_def)
    have copies: "\<forall>x \<in> set es. ok s (fst x) \<and> snd x = view s (fst x)" using path path_copies by auto
    note fin = finish_effect [OF w ne copies, of cpu user]
    have split: "q AND NOT (ucast m) = snd (last es) AND PAGE_FRAME_MASK AND NOT (ucast m)"
      if "q = w_ppf w OR x" "x AND NOT (ucast (w_lpf_mask w)) = 0" "m = w_lpf_mask w" for q x :: Bit64u and m
      using that size(2) leaf by (simp add: bit.conj_disj_distrib2)
    show ?thesis
    proof (cases "finish_walk ops 8 cpu user rw w s")
      case (Inl x)
      then show ?thesis using fin unfolding translate_linear_long_mode_def r assms(3)
        by (cases x) (auto simp: Let_def split: option.split)
    next
      case (Inr z)
      then obtain q m t where z: "finish_walk ops 8 cpu user rw w s = Inr ((q, m), t)" by (metis surj_pair)
      note f = fin [unfolded assms(3) z sum.case prod.case]
      have low: "ucast ((if get_PGE (crs cpu) then w_access w OR (ucast (leaf_entry w) AND 0x100) else w_access w) OR
              push_bit 9 (memtype_by_pat (calculate_pat (ucast (leaf_entry w)) (w_lpf_mask w)) cpu)) AND NOT (ucast (w_lpf_mask w)) = (0 :: Bit64u)"
        by (rule walk_result_bits [OF valid_pat walked_access(1) [OF w] size(1)])
      have q: "q AND NOT (ucast m) = snd (last es) AND PAGE_FRAME_MASK AND NOT (ucast m)"
        by (rule split [OF _ low]) (use f in blast)+
      have nx: "\<not> (rw = BX_EXECUTE \<and> (\<exists>x \<in> set es. bit (snd x) 63))" "\<forall>x \<in> set es. check_entry_PAE (snd x) ?rsvd = None"
        using f w by (auto simp: walked_def)
      show ?thesis unfolding translate_linear_long_mode_def r assms(3) using f q nx z
        by (auto simp: Let_def split: option.split)
    qed
  qed
qed

end

text \<open>Outside a guest the entries of a walk are where the tables say.\<close>

definition plain_table :: "nat \<Rightarrow> 'd pg_state \<Rightarrow> bx_phy_address \<Rightarrow> bool" where
  "plain_table n s a \<longleftrightarrow> plain_entry n s a \<and> \<not> ept_enabled s \<and> \<not> svm_nested_paging s"

lemma plain_table_memory:
  "0 < n \<Longrightarrow> table_memory (cpu_walk_ops e laddr s0) n (plain_table n) (entry_at n) (\<lambda>s. (pg_cpu s, pg_vmcs s, pg_vmcb s, xlation s))"
  for e :: "'d page_env"
proof
  fix s :: "'d pg_state" and a v
  assume n: "0 < n"
  show "plain_table n s a \<Longrightarrow> walk_nested (cpu_walk_ops e laddr s0) a s = Inr (a, s)"
    by (simp add: cpu_walk_ops_def guest_xlate_def plain_table_def)
  show "plain_table n s a \<Longrightarrow> walk_read (cpu_walk_ops e laddr s0) n a s = (s, entry_at n s a)"
    by (simp add: cpu_walk_ops_def phys_ops_def plain_table_def phys_read_plain)
  show "take_bit (8 * n) (entry_at n s a) = entry_at n s a"
    using le_word_less [of "read_bytes a n (vector (pg_mem s))"] by (simp add: entry_at_def read_bytes_def)
  show "8 \<le> 8 * n" using n by simp
  assume p: "plain_table n s a"
  obtain m where m: "access_write_physical e a (le_bytes n v) s = Inr ((), s\<lparr>pg_mem := m\<rparr>)" "entry_at n (s\<lparr>pg_mem := m\<rparr>) a = take_bit (8 * n) v"
    "\<forall>b. plain_entry n s b \<longrightarrow> b \<noteq> a \<longrightarrow> entry_at n (s\<lparr>pg_mem := m\<rparr>) b = entry_at n s b"
    "\<forall>b. plain_entry n (s\<lparr>pg_mem := m\<rparr>) b = plain_entry n s b"
    using phys_write_plain [of n s a e v] p unfolding plain_table_def by blast
  then show "\<exists>t. walk_write (cpu_walk_ops e laddr s0) n a v s = Inr ((), t) \<and> entry_at n t a = take_bit (8 * n) v \<and>
      (\<forall>b. plain_table n s b \<longrightarrow> b \<noteq> a \<longrightarrow> entry_at n t b = entry_at n s b) \<and> (\<forall>b. plain_table n t b = plain_table n s b) \<and>
      (pg_cpu t, pg_vmcs t, pg_vmcb t, xlation t) = (pg_cpu s, pg_vmcs s, pg_vmcb s, xlation s)"
    by (intro exI [of _ "s\<lparr>pg_mem := m\<rparr>"])
      (simp add: cpu_walk_ops_def phys_ops_def plain_table_def ept_enabled_def svm_nested_paging_def secondary_control_def)
qed

interpretation tables8: table_memory "cpu_walk_ops e laddr s0" 8 "plain_table 8" "entry_at 8" "\<lambda>s. (pg_cpu s, pg_vmcs s, pg_vmcb s, xlation s)" for e laddr s0
  by (rule plain_table_memory) simp

interpretation tables4: table_memory "cpu_walk_ops e laddr s0" 4 "plain_table 4" "entry_at 4" "\<lambda>s. (pg_cpu s, pg_vmcs s, pg_vmcb s, xlation s)" for e laddr s0
  by (rule plain_table_memory) simp

text \<open>
  C12: page walks in long mode. When the entries on the way lie in plain memory, a walk outside a guest either raises a page fault and
  leaves memory and processor as they were, or it succeeds; then every entry on the way is present without reserved bits, the combined
  permissions allow the access, the page frame is the one of the leaf, and memory differs only in the accessed bits of
  the entries on the way and, for a write, the dirty bit of the leaf, also where tables refer to themselves.
\<close>

theorem long_walk_correct:
  assumes path: "es = table_path (entry_at 8 s) (nx_reserved (get_NXE (crs cpu)) PAGING_PAE_RESERVED_BITS) laddr 3 (cr3 (crs cpu) AND PAGE_FRAME_MASK)"
    "\<forall>x \<in> set es. plain_table 8 s (fst x)" and valid_pat: "isValidMSR_PAT (pat (msr cpu))"
  shows "case translate_linear_long_mode (cpu_walk_ops e laddr s) cpu laddr user rw s of
      Inl (stop, t) \<Rightarrow> t = s \<and> (\<exists>f. stop = Page_fault f)
    | Inr ((q, m, k), t) \<Rightarrow>
        (\<forall>x \<in> set es. check_entry_PAE (snd x) (nx_reserved (get_NXE (crs cpu)) PAGING_PAE_RESERVED_BITS) = None) \<and>
        \<not> (rw = BX_EXECUTE \<and> (\<exists>x \<in> set es. bit (snd x) 63)) \<and>
        access_allowed cpu user rw (\<forall>x \<in> set es. bit (snd x) 2) (\<forall>x \<in> set es. bit (snd x) 1) \<and>
        q AND NOT (ucast m) = snd (last es) AND PAGE_FRAME_MASK AND NOT (ucast m) \<and>
        (pg_cpu t, pg_vmcs t, pg_vmcb t, xlation t) = (pg_cpu s, pg_vmcs s, pg_vmcb s, xlation s) \<and>
        (\<forall>a. plain_table 8 s a \<longrightarrow> entry_at 8 t a = entry_at 8 s a OR marks (is_write rw) es a)"
  by (rule tables8.long_effect [OF path refl valid_pat])

text \<open>
  Page walks with 32 bit entries. The same for the two-level format with its pages of 4 KiB and 4 MiB.
\<close>

theorem legacy_walk_correct:
  assumes path: "es = legacy_path (entry_at 4 s) (get_PSE (crs cpu)) laddr (cr3 (crs cpu) AND 0xfffff000)" "\<forall>x \<in> set es. plain_table 4 s (fst x)"
    and valid_pat: "isValidMSR_PAT (pat (msr cpu))"
  shows "case translate_linear_legacy (cpu_walk_ops e laddr s) cpu laddr user rw s of
      Inl (stop, t) \<Rightarrow> t = s \<and> (\<exists>f. stop = Page_fault f)
    | Inr ((q, m), t) \<Rightarrow>
        (\<forall>x \<in> set es. snd x AND 1 \<noteq> 0) \<and>
        access_allowed cpu user rw (\<forall>x \<in> set es. bit (snd x) 2) (\<forall>x \<in> set es. bit (snd x) 1) \<and>
        q AND NOT (ucast m) = legacy_frame es AND NOT (ucast m) \<and>
        (pg_cpu t, pg_vmcs t, pg_vmcb t, xlation t) = (pg_cpu s, pg_vmcs s, pg_vmcb s, xlation s) \<and>
        (\<forall>a. plain_table 4 s a \<longrightarrow> entry_at 4 t a = entry_at 4 s a OR marks (is_write rw) es a)"
  by (rule tables4.legacy_effect [OF path refl valid_pat])

subsection \<open>Witnesses\<close>

text \<open>A processor in long mode over the memory of the earlier witnesses, with a table at 0x1000 whose first entry is the table itself.\<close>

definition wit_page_env :: "nat page_env" where
  "wit_page_env = \<lparr>intercept_PF = (\<lambda>_ _. Inr), vapic_read = (\<lambda>a _ s. (s, a)), vapic_write = (\<lambda>_ _ s. Inr ((), s)), env_1g_pages = True,
     env_mtrr = True, env_lapic = \<lparr>isa_xapic_ext = False, isa_tsc_deadline = True, apic_id_mask = 0xff\<rparr>, env_opcode = 0, env_smm = False\<rparr>"

definition wit_pg :: "nat pg_state" where
  "wit_pg = \<lparr>pg_cpu = wit_bx_cpu, pg_pc = wit_pc, pg_mem = wit_mem\<lparr>vector := (\<lambda>_. 0)(0x1000 := 0x07, 0x1001 := 0x10)\<rparr>,
     pg_vmcs = \<lparr>ctrls3 = 2, eptptr = 0x1000, spptp = 0, pml_address = 0, pml_index = 0, ve_info_addr = 0, eptp_index = 0, apic_access_page = 0,
       in_event = False, nmi_unblocking_iret = False, vmcs_guest_physical = 0, vmcs_guest_linear = 0\<rparr>,
     pg_vmcb = \<lparr>np_enable = False, ncr3 = 0, host_efer = 0, host_cr4 = 0\<rparr>,
     xlation = \<lparr>paddress1 = 0, paddress2 = 0, len1 = 0, len2 = 0, pages = 0, memtype1 = 0, memtype2 = 0\<rparr>\<rparr>"

lemma wit_pg_cpu [simp]: "pg_cpu wit_pg = wit_bx_cpu"
  by (simp add: wit_pg_def)

lemma wit_plain_entry: "plain_entry 8 wit_pg 0x1000" "plain_entry 4 wit_pg 0x1000" "\<not> ept_enabled wit_pg" "\<not> svm_nested_paging wit_pg"
  by (simp_all add: plain_entry_def is_virtual_apic_page_def is_selected_def wit_lapic_def plain_ram_def is_bios_def A20ADDR_def
      ept_enabled_def svm_nested_paging_def) (simp_all add: wit_pg_def wit_mem_def)

lemma wit_entry_at: "entry_at 8 wit_pg 0x1000 = 0x1007" "entry_at 4 wit_pg 0x1000 = 0x1007"
proof -
  have "[0..<8] = [0, 1, 2, 3, 4, 5, 6, 7]" "[0..<4] = [0, 1, 2, 3 :: nat]" by code_simp+
  then show "entry_at 8 wit_pg 0x1000 = 0x1007" "entry_at 4 wit_pg 0x1000 = 0x1007"
    unfolding entry_at_def read_bytes_def by (simp_all add: wit_pg_def wit_mem_def)
qed

lemma replicate_2: "replicate 2 x = [x, x]"
  by (simp add: numeral_eq_Suc)

lemma wit_path: "table_path (entry_at 8 wit_pg) r 0 3 0x1000 = replicate 4 (0x1000, 0x1007)" if "check_entry_PAE 0x1007 r = None"
proof -
  have n: "(3 :: nat) = Suc (Suc (Suc 0))" by simp
  have r: "replicate 4 x = [x, x, x, x]" for x :: "bx_phy_address \<times> Bit64u" by (simp add: numeral_eq_Suc)
  show ?thesis using that unfolding n r by (simp add: wit_entry_at)
qed

theorem long_walk_correct_witness:
  "case translate_linear_long_mode (cpu_walk_ops wit_page_env 0 wit_pg) wit_bx_cpu 0 True BX_WRITE wit_pg of
     Inl (stop, t) \<Rightarrow> t = wit_pg \<and> (\<exists>f. stop = Page_fault f)
   | Inr ((q, m, k), t) \<Rightarrow> q AND NOT (ucast m) = 0x1000 AND NOT (ucast m) \<and> entry_at 8 t 0x1000 = 0x1067"
proof -
  have es: "replicate 4 (0x1000, 0x1007) = table_path (entry_at 8 wit_pg) (nx_reserved (get_NXE (crs wit_bx_cpu)) PAGING_PAE_RESERVED_BITS) 0 3
      (cr3 (crs wit_bx_cpu) AND PAGE_FRAME_MASK)" by (simp add: wit_path check_entry_PAE_def nx_reserved_def)
  have p: "\<forall>x \<in> set (replicate 4 (0x1000, 0x1007)). plain_table 8 wit_pg (fst x)" by (simp add: plain_table_def wit_plain_entry)
  have v: "isValidMSR_PAT (pat (msr wit_bx_cpu))" by (simp, code_simp)
  have t: "plain_table 8 wit_pg 0x1000" "0x1007 OR marks (is_write BX_WRITE) (replicate 4 (0x1000, 0x1007)) 0x1000 = 0x1067"
    by (simp_all add: plain_table_def wit_plain_entry marks_def is_write_def)
  have f: "(0x1007 :: Bit64u) AND PAGE_FRAME_MASK AND x = 0x1000 AND x" for x by (simp flip: and.assoc)
  show ?thesis using f long_walk_correct [OF es p v, where e = wit_page_env and user = True and rw = BX_WRITE] t wit_entry_at by (auto split: sum.splits)
qed

theorem legacy_walk_correct_witness:
  "case translate_linear_legacy (cpu_walk_ops wit_page_env 0 wit_pg) wit_bx_cpu 0 False BX_READ wit_pg of
     Inl (stop, t) \<Rightarrow> t = wit_pg \<and> (\<exists>f. stop = Page_fault f)
   | Inr ((q, m), t) \<Rightarrow> q AND NOT (ucast m) = 0x1000 AND NOT (ucast m) \<and> entry_at 4 t 0x1000 = 0x1027"
proof -
  have es: "replicate 2 (0x1000, 0x1007) = legacy_path (entry_at 4 wit_pg) (get_PSE (crs wit_bx_cpu)) 0 (cr3 (crs wit_bx_cpu) AND 0xfffff000)"
    unfolding legacy_path_def wit_cpu_fields by (simp add: wit_entry_at replicate_2)
  have p: "\<forall>x \<in> set (replicate 2 (0x1000, 0x1007)). plain_table 4 wit_pg (fst x)" by (simp add: plain_table_def wit_plain_entry)
  have v: "isValidMSR_PAT (pat (msr wit_bx_cpu))" by (simp, code_simp)
  have t: "plain_table 4 wit_pg 0x1000" "0x1007 OR marks (is_write BX_READ) (replicate 2 (0x1000, 0x1007)) 0x1000 = 0x1027"
    "legacy_frame (replicate 2 (0x1000, 0x1007)) = 0x1000"
    by (simp_all add: plain_table_def wit_plain_entry marks_def is_write_def legacy_frame_def replicate_2)
  show ?thesis using legacy_walk_correct [OF es p v, where e = wit_page_env and user = False and rw = BX_READ] t wit_entry_at by (auto split: sum.splits)
qed

end
