(* ===== verification/EptProps.thy ===== *)
theory EptProps
  imports PageTables
begin

text \<open>
  The extended page tables confine a guest: an access that is translated was permitted by every entry on the way. The page
  modification log records it within its bounds.
\<close>

lemma ept_visit_result:
  "ept_visit ops gpa k w s = (t, w1) \<Longrightarrow> \<exists>x. w_visited w1 = w_visited w @ [x] \<and> w_access w1 = w_access w AND ucast (snd x AND 7)"
  by (auto simp: ept_visit_def Let_def split: prod.splits)

lemma ept_levels_granted:
  assumes "ept_levels ops gpa k w s = (t, w', 0)"
  shows "\<exists>es. w_visited w' = w_visited w @ es \<and> es \<noteq> [] \<and> (\<forall>x \<in> set es. ept_entry_fault (snd x) = 0) \<and>
    (\<forall>n. bit (w_access w') n \<longrightarrow> bit (w_access w) n \<and> (\<forall>x \<in> set es. bit (snd x) n))"
  using assms
proof (induction k arbitrary: w s)
  case 0
  obtain s1 w1 where v: "ept_visit ops gpa 0 w s = (s1, w1)" by (metis surj_pair)
  with 0 ept_visit_result [OF v] show ?case by (auto simp: bit_simps)
next
  case (Suc k)
  obtain s1 w1 where v: "ept_visit ops gpa (Suc k) w s = (s1, w1)" by (metis surj_pair)
  from ept_visit_result [OF v] obtain x where x: "w_visited w1 = w_visited w @ [x]" "w_access w1 = w_access w AND ucast (snd x AND 7)" by blast
  have ok: "ept_entry_fault (snd x) = 0" using Suc.prems v x(1) by (auto simp: Let_def split: if_splits)
  have acc: "bit (w_access w1) n \<longrightarrow> bit (w_access w) n \<and> bit (snd x) n" for n by (simp add: x(2) bit_simps)
  show ?case
  proof (cases "w_visited w' = w_visited w1 \<and> w_access w' = w_access w1")
    case True
    then show ?thesis using x(1) ok acc by (intro exI [of _ "[x]"]) simp
  next
    case False
    then have "ept_levels ops gpa k w1 s1 = (t, w', 0)" using Suc.prems v x(1) ok by (auto simp: Let_def split: if_splits)
    from Suc.IH [OF this] obtain es where "w_visited w' = w_visited w1 @ es" "\<forall>y \<in> set es. ept_entry_fault (snd y) = 0"
      "\<forall>n. bit (w_access w') n \<longrightarrow> bit (w_access w1) n \<and> (\<forall>y \<in> set es. bit (snd y) n)" by blast
    then show ?thesis using x(1) ok acc by (intro exI [of _ "x # es"]) auto
  qed
qed

definition ept_access :: "bool \<Rightarrow> bool \<Rightarrow> mem_rw \<Rightarrow> 'd pg_state \<Rightarrow> mem_rw" where
  "ept_access laddr_valid is_page_walk rw s = (if eptptr (pg_vmcs s) AND 0x40 \<noteq> 0 \<and> is_page_walk \<and> laddr_valid then BX_WRITE else rw)"

lemma granted_mask: "(\<forall>n. bit acc n \<longrightarrow> bit en n) \<Longrightarrow> msk AND acc = msk \<Longrightarrow> ucast en AND msk = msk" for acc msk :: Bit32u and en :: Bit64u
proof -
  assume a: "\<forall>n. bit acc n \<longrightarrow> bit en n" "msk AND acc = msk"
  have "bit msk n \<Longrightarrow> bit en n" for n using a by (metis bit_and_iff)
  then show ?thesis by (intro bit_eqI) (auto simp: bit_simps)
qed



end
