(* ===== verification/Paging.thy ===== *)
theory Paging
  imports GuestWalk
begin

text \<open>
  Paging, \<^verbatim>\<open>bochs/cpu/paging.cc\<close> and \<^verbatim>\<open>bochs/cpu/tlb.h\<close>: the TLB and its flushes, translation of linear addresses with the
  page fault it may raise, accesses to linear addresses, and the loading of the page-directory pointers.
\<close>

subsection \<open>The TLB\<close>

abbreviation (input) "TLB_NoHostPtr \<equiv> (0x800 :: bx_address)"
abbreviation (input) "TLB_GlobalPage \<equiv> (0x80000000 :: Bit32u)"

definition TLB_LPFOf :: "bx_address \<Rightarrow> bx_address" where
  "TLB_LPFOf laddr = laddr AND 0xfffffffffffff7ff"

definition BX_TLB_INDEX_OF :: "bx_address \<Rightarrow> nat" where
  "BX_TLB_INDEX_OF laddr = unat (drop_bit 12 ((ucast laddr :: Bit32u) AND 0x3ff000))"

abbreviation tlb_valid :: "bx_TLB_entry \<Rightarrow> bool" where
  "tlb_valid en \<equiv> lpf en \<noteq> BX_INVALID_TLB_ENTRY"

text \<open>What both partial flushes share: entries chosen by \<open>drop\<close> go, and the large ones among the rest are remembered.\<close>

definition flush_entries :: "(bx_TLB_entry \<Rightarrow> bool) \<Rightarrow> BX_CPU_C \<Rightarrow> BX_CPU_C" where
  "flush_entries drp cpu =
     cpu\<lparr>tlb := (\<lambda>n. if n < BX_TLB_SIZE \<and> tlb_valid (tlb cpu n) \<and> drp (tlb cpu n) then tlb_invalidate (tlb cpu n) else tlb cpu n),
         split_large := fold (\<lambda>n m. if tlb_valid (tlb cpu n) \<and> \<not> drp (tlb cpu n) then m OR tlb_lpf_mask (tlb cpu n) else m)
                          [0..<BX_TLB_SIZE] 0 > 0xfff\<rparr>"

definition TLB_flushNonGlobal :: "BX_CPU_C \<Rightarrow> BX_CPU_C" where
  "TLB_flushNonGlobal cpu =
     (let cpu1 = flush_entries (\<lambda>en. accessBits en AND TLB_GlobalPage = 0) (invalidate_stack_cache (invalidate_prefetch_q cpu))
      in cpu1\<lparr>monitor_armed := False, cpu_iCache := fst (breakLinks (cpu_iCache cpu1))\<rparr>)"

definition TLB_invlpg :: "bx_address \<Rightarrow> BX_CPU_C \<Rightarrow> BX_CPU_C" where
  "TLB_invlpg laddr cpu =
     (let cpu1 = invalidate_stack_cache (invalidate_prefetch_q cpu);
          idx = BX_TLB_INDEX_OF laddr;
          cpu2 = (if split_large cpu1
                  then flush_entries (\<lambda>en. laddr AND NOT (ucast (tlb_lpf_mask en)) = lpf en AND NOT (ucast (tlb_lpf_mask en))) cpu1
                  else if TLB_LPFOf (lpf (tlb cpu1 idx)) = LPFOf laddr
                  then cpu1\<lparr>tlb := (tlb cpu1)(idx := tlb_invalidate (tlb cpu1 idx))\<rparr> else cpu1)
      in cpu2\<lparr>monitor_armed := False, cpu_iCache := fst (breakLinks (cpu_iCache cpu2))\<rparr>)"

subsection \<open>Translation\<close>

definition page_fault :: "'d page_env \<Rightarrow> Bit32u \<Rightarrow> bx_address \<Rightarrow> bool \<Rightarrow> mem_rw \<Rightarrow> 'd pg_state \<Rightarrow> walk_stop \<times> 'd pg_state" where
  "page_fault e fault laddr user rw st =
     (let c = crs (pg_cpu st);
          code = fault OR (of_bool user * 4 OR of_bool (is_write rw) * 2) OR
                 (if rw = BX_EXECUTE \<and> (get_SMEP c \<or> get_PAE c \<and> get_NXE c) then ERROR_CODE_ACCESS else 0)
      in case intercept_PF e code laddr st of
           Inl s \<Rightarrow> (Intercepted, s)
         | Inr s \<Rightarrow> (Page_fault code, s\<lparr>pg_cpu := (pg_cpu s)\<lparr>crs := (crs (pg_cpu s))\<lparr>cr2 := laddr\<rparr>\<rparr>\<rparr>))"

text \<open>The walk of the current paging mode: address with access bits, page mask and protection key.\<close>

definition page_walk :: "'d page_env \<Rightarrow> bx_address \<Rightarrow> bool \<Rightarrow> mem_rw \<Rightarrow> 'd pg_state \<Rightarrow> ('d pg_state, bx_phy_address \<times> Bit32u \<times> Bit32u) walking" where
  "page_walk e laddr user rw st =
     (let cpu = pg_cpu st; ops = cpu_walk_ops e laddr st;
          r = (if long_mode cpu then translate_linear_long_mode ops cpu laddr user rw st
               else walk_then (if get_PAE (crs cpu) then translate_linear_PAE ops cpu laddr user rw st
                               else translate_linear_legacy ops cpu laddr user rw st) (\<lambda>(pp, m) st1. Inr ((pp, m, 0), st1)))
      in case r of
           Inl (Page_fault f, s) \<Rightarrow> Inl (page_fault e f laddr user rw s)
         | Inl x \<Rightarrow> Inl x
         | Inr y \<Rightarrow> Inr y)"

definition tlb_access :: "bool \<Rightarrow> BX_CPU_C \<Rightarrow> bool \<Rightarrow> mem_rw \<Rightarrow> Bit32u \<Rightarrow> Bit32u" where
  "tlb_access flat cpu user rw combined_access =
     (let wr = of_bool (is_write rw) :: Bit32u; ex = of_bool (rw = BX_EXECUTE) :: Bit32u;
          b0 = 1 OR wr * 4 OR ex * 0x10;
          b1 = (if flat then b0 OR 0x2A
                else if combined_access AND 4 \<noteq> 0
                then (let b = (if user then b0 OR 2 OR wr * 8 OR ex * 0x20 else b0);
                          b' = (if get_SMEP (crs cpu) then b AND NOT 0x10 else b)
                      in if get_SMAP (crs cpu) then b' AND NOT 5 else b')
                else b0)
      in if combined_access AND 0x100 \<noteq> 0 then b1 OR TLB_GlobalPage else b1)"

definition upd_tlb :: "nat \<Rightarrow> (bx_TLB_entry \<Rightarrow> bx_TLB_entry) \<Rightarrow> 'd pg_state \<Rightarrow> 'd pg_state" where
  "upd_tlb n f st = st\<lparr>pg_cpu := (pg_cpu st)\<lparr>tlb := (tlb (pg_cpu st))(n := f (tlb (pg_cpu st) n))\<rparr>\<rparr>"

text \<open>The entry a successful walk leaves behind.\<close>

definition fill_tlb ::
    "'d page_env \<Rightarrow> nat \<Rightarrow> bx_address \<Rightarrow> bool \<Rightarrow> mem_rw \<Rightarrow> Bit32u \<Rightarrow> Bit32u \<Rightarrow> Bit32u \<Rightarrow> bx_phy_address \<Rightarrow> 'd pg_state \<Rightarrow> 'd pg_state" where
  "fill_tlb e n laddr user rw combined_access lpf_mask pkey paddress st =
     (let cpu = pg_cpu st; ppf = PPFOf paddress; host = cpu_getHostMemAddr e ppf rw st
      in upd_tlb n (\<lambda>en. en\<lparr>lpf := (if host \<noteq> None then LPFOf laddr else LPFOf laddr OR TLB_NoHostPtr), tlb_lpf_mask := lpf_mask,
             tlb_pkey := pkey, tlb_ppf := ppf,
             accessBits := tlb_access (\<not> get_PG (crs cpu) \<and> \<not> ept_enabled st \<and> \<not> svm_nested_paging st) cpu user rw combined_access,
             hostPageAddr := host,
             tlb_memtype := resolve_memtype (memtype_by_mtrr (env_mtrr e) ppf (mtrrs cpu)) (drop_bit 9 combined_access) cpu\<rparr>) st)"

definition tlb_hit :: "BX_CPU_C \<Rightarrow> bx_TLB_entry \<Rightarrow> bool \<Rightarrow> mem_rw \<Rightarrow> bool" where
  "tlb_hit cpu en user rw \<longleftrightarrow>
     (if is_write rw then accessBits en AND push_bit (2 + of_bool user) 1 AND wr_pkey (modes cpu) (unat (tlb_pkey en)) \<noteq> 0
      else accessBits en AND push_bit (of_bool user) 1 AND rd_pkey (modes cpu) (unat (tlb_pkey en)) \<noteq> 0)"

definition walk_linear :: "'d page_env \<Rightarrow> nat \<Rightarrow> bx_address \<Rightarrow> bool \<Rightarrow> mem_rw \<Rightarrow> 'd pg_state \<Rightarrow> ('d pg_state, bx_phy_address) walking" where
  "walk_linear e n laddr user rw st =
     walk_then
       (if get_PG (crs (pg_cpu st))
        then walk_then (page_walk e laddr user rw st) (\<lambda>(pp, lpf_mask, pkey) st1.
               Inr (((pp AND NOT (ucast lpf_mask)) OR (laddr AND ucast lpf_mask), ucast (pp AND ucast lpf_mask), lpf_mask, pkey),
                    if lpf_mask > 0xfff then st1\<lparr>pg_cpu := (pg_cpu st1)\<lparr>split_large := True\<rparr>\<rparr> else st1))
        else Inr ((laddr, 6 OR push_bit 9 BX_MEMTYPE_WB, 0xfff, 0), st))
       (\<lambda>(paddress, combined_access, lpf_mask, pkey) st1.
          walk_then (guest_xlate e paddress laddr False rw st1) (\<lambda>pa st2.
            let pa1 = A20ADDR pa (pg_mem st2) in Inr (pa1, fill_tlb e n laddr user rw combined_access lpf_mask pkey pa1 st2)))"

definition translate_linear :: "'d page_env \<Rightarrow> nat \<Rightarrow> bx_address \<Rightarrow> bool \<Rightarrow> mem_rw \<Rightarrow> 'd pg_state \<Rightarrow> ('d pg_state, bx_phy_address) walking" where
  "translate_linear e n laddr0 user rw st =
     (let cpu = pg_cpu st; laddr = (if long_mode cpu then laddr0 else laddr0 AND 0xffffffff); en = tlb cpu n
      in if rw \<noteq> BX_EXECUTE \<and> TLB_LPFOf (lpf en) = LPFOf laddr
         then if tlb_hit cpu en user rw then Inr (tlb_ppf en OR ucast (PAGE_OFFSET laddr), st)
              else walk_linear e n laddr user rw (upd_tlb n tlb_invalidate st)
         else walk_linear e n laddr user rw st)"

subsection \<open>Linear accesses\<close>

definition IsCanonical :: "bx_address \<Rightarrow> bool" where
  "IsCanonical offset \<longleftrightarrow> signed_drop_bit 47 offset + 1 < (2 :: Bit64u)"

definition misaligned :: "BX_CPU_C \<Rightarrow> bool \<Rightarrow> bx_address \<Rightarrow> Bit32u \<Rightarrow> bool" where
  "misaligned cpu user laddr ac_mask \<longleftrightarrow> alignment_check_mask (modes cpu) \<noteq> 0 \<and> user \<and> PAGE_OFFSET laddr AND ac_mask \<noteq> 0"

text \<open>Translation of an access of \<open>len\<close> bytes: one page, or the two pages it spans. \<open>None\<close> is the answer -1.\<close>

definition xlate_access :: "'d page_env \<Rightarrow> bx_address \<Rightarrow> nat \<Rightarrow> bool \<Rightarrow> mem_rw \<Rightarrow> Bit32u \<Rightarrow> 'd pg_state \<Rightarrow> ('d pg_state, unit option) walking" where
  "xlate_access e laddr len user rw ac_mask st =
     (let cpu = pg_cpu st; off = unat (PAGE_OFFSET laddr); i1 = BX_TLB_INDEX_OF laddr
      in if \<not> IsCanonical laddr then Inr (None, st)
         else if misaligned cpu user laddr ac_mask then Inl (Alignment_fault, st)
         else if off + len \<le> 4096
         then walk_then (translate_linear e i1 laddr user rw st) (\<lambda>p1 st1.
                Inr (Some (), st1\<lparr>xlation := (xlation st1)\<lparr>paddress1 := p1, pages := 1, memtype1 := tlb_memtype (tlb (pg_cpu st1) i1)\<rparr>\<rparr>))
         else let st0 = st\<lparr>xlation := (xlation st)\<lparr>len1 := 4096 - off, len2 := len - (4096 - off), pages := 2\<rparr>\<rparr>;
                  l2 = laddr + of_nat (4096 - off);
                  laddr2 = (if cpu_mode (modes cpu) = BX_MODE_LONG_64 then l2 else l2 AND 0xffffffff); i2 = BX_TLB_INDEX_OF laddr2
              in if cpu_mode (modes cpu) = BX_MODE_LONG_64 \<and> \<not> IsCanonical l2 then Inr (None, st0)
                 else walk_then (translate_linear e i1 laddr user rw st0) (\<lambda>p1 st1.
                        walk_then (translate_linear e i2 laddr2 user rw (st1\<lparr>xlation := (xlation st1)\<lparr>paddress1 := p1\<rparr>\<rparr>)) (\<lambda>p2 st2.
                          Inr (Some (), st2\<lparr>xlation := (xlation st2)\<lparr>paddress2 := p2, memtype1 := tlb_memtype (tlb (pg_cpu st2) i1),
                                 memtype2 := tlb_memtype (tlb (pg_cpu st2) i2)\<rparr>\<rparr>))))"

definition access_write_linear :: "'d page_env \<Rightarrow> bx_address \<Rightarrow> Bit8u list \<Rightarrow> nat \<Rightarrow> Bit32u \<Rightarrow> 'd pg_state \<Rightarrow> ('d pg_state, unit option) walking" where
  "access_write_linear e laddr data curr_pl ac_mask st =
     walk_then (xlate_access e laddr (length data) (curr_pl = 3) BX_WRITE ac_mask st) (\<lambda>r st1.
       if r = None then Inr (None, st1)
       else if pages (xlation st1) = 1
       then walk_then (access_write_physical e (paddress1 (xlation st1)) data st1) (\<lambda>_ st2. Inr (Some (), st2))
       else walk_then (access_write_physical e (paddress1 (xlation st1)) (take (len1 (xlation st1)) data) st1) (\<lambda>_ st2.
              walk_then (access_write_physical e (paddress2 (xlation st2)) (drop (len1 (xlation st2)) data) st2) (\<lambda>_ st3. Inr (Some (), st3))))"

definition access_read_linear ::
    "'d page_env \<Rightarrow> bx_address \<Rightarrow> Bit8u list \<Rightarrow> nat \<Rightarrow> mem_rw \<Rightarrow> Bit32u \<Rightarrow> 'd pg_state \<Rightarrow> ('d pg_state, Bit8u list option) walking" where
  "access_read_linear e laddr old curr_pl xlate_rw ac_mask st =
     walk_then (xlate_access e laddr (length old) (curr_pl = 3) xlate_rw ac_mask st) (\<lambda>r st1.
       if r = None then Inr (None, st1)
       else if pages (xlation st1) = 1
       then (let (st2, data) = access_read_physical e (paddress1 (xlation st1)) old st1 in Inr (Some data, st2))
       else (let (st2, d1) = access_read_physical e (paddress1 (xlation st1)) (take (len1 (xlation st1)) old) st1;
                 (st3, d2) = access_read_physical e (paddress2 (xlation st2)) (drop (len1 (xlation st2)) old) st2
             in Inr (Some (d1 @ d2), st3)))"

text \<open>Loading the page-directory pointers, when CR3 is written in PAE mode.\<close>

fun read_PDPTRs :: "'d page_env \<Rightarrow> bx_phy_address \<Rightarrow> nat list \<Rightarrow> 'd pg_state \<Rightarrow> 'd pg_state \<times> Bit64u list option" where
  "read_PDPTRs e b [] st = (st, Some [])"
| "read_PDPTRs e b (n # ns) st =
     (let (st1, en) = phys_read e 8 (b OR push_bit 3 (of_nat n)) st
      in if en AND 1 \<noteq> 0 \<and> en AND PAGING_PAE_PDPTE_RESERVED_BITS \<noteq> 0 then (st1, None)
         else let (st2, es) = read_PDPTRs e b ns st1 in (st2, map_option ((#) en) es))"

definition CheckPDPTR :: "'d page_env \<Rightarrow> bx_phy_address \<Rightarrow> 'd pg_state \<Rightarrow> ('d pg_state, bool) walking" where
  "CheckPDPTR e cr3_val st =
     (if svm_nested_paging st then Inr (True, st)
      else walk_then (if ept_enabled st then translate_guest_physical e (cr3_val AND 0xffffffe0) 0 False True BX_READ st
                      else Inr (cr3_val AND 0xffffffe0, st)) (\<lambda>b st1.
        case read_PDPTRs e b [0, 1, 2, 3] st1 of
          (st2, None) \<Rightarrow> Inr (False, st2)
        | (st2, Some es) \<Rightarrow>
            Inr (True, st2\<lparr>pg_cpu := (pg_cpu st2)\<lparr>PDPTR_CACHE := (\<lambda>n. if n < 4 then es ! n else PDPTR_CACHE (pg_cpu st2) n)\<rparr>\<rparr>)))"

end
