(* ===== verification/PagingProps.thy ===== *)
theory PagingProps
  imports PageTables Paging
begin

text \<open>
  Properties of the TLB and of translation: cached protection keys, the invariant that the flushes rely on, kept by every
  step, what INVLPG removes, that a translation stays cached, and that linear accesses read back what was written.
\<close>

subsection \<open>Protection keys\<close>

lemma pkey_rights_values:
  assumes "long_mode cpu" "get_PKE (crs cpu)" "i < 16"
  shows "pkey_rights cpu v i =
    (if bit v (2 * i) then 5 else 15,
     (if bit v (2 * i) then 5 else 15) AND (if bit v (2 * i + 1) then if get_WP (crs cpu) then 3 else 7 else 15))"
  using assms and_pow2_eq_0 [where x = v and n = "i * 2"] and_pow2_eq_0 [where x = v and n = "i * 2 + 1"]
  by (simp add: pkey_rights_def Let_def mult.commute [of i 2])

lemma hit_bit: "bit a n \<Longrightarrow> a AND push_bit n 1 AND r \<noteq> 0 \<longleftrightarrow> bit r n" for a r :: Bit32u
proof -
  assume "bit a n"
  then have "a AND push_bit n 1 AND r = push_bit n (of_bool (bit r n))"
    by (intro bit_eqI) (auto simp: bit_simps)
  then have "bit (a AND push_bit n 1 AND r) n = bit r n" and "\<not> bit r n \<Longrightarrow> a AND push_bit n 1 AND r = 0"
    using bit_imp_le_length [of r n] by (auto simp: bit_simps)
  then show ?thesis by (metis bit_0_eq bot_apply bot_bool_def)
qed

lemma tlb_hit_rights:
  assumes "bit (accessBits en) ((if is_write rw then 2 else 0) + of_bool user)"
  shows "tlb_hit cpu en user rw \<longleftrightarrow>
    bit (if is_write rw then wr_pkey (modes cpu) (unat (tlb_pkey en)) else rd_pkey (modes cpu) (unat (tlb_pkey en)))
      ((if is_write rw then 2 else 0) + of_bool user)"
proof (cases "is_write rw")
  case True
  then show ?thesis using assms hit_bit [of "accessBits en" "2 + of_bool user"] unfolding tlb_hit_def by (simp only: if_True)
next
  case False
  then show ?thesis using assms hit_bit [of "accessBits en" "of_bool user"] unfolding tlb_hit_def by (simp only: if_False add_0)
qed


subsection \<open>The TLB\<close>

text \<open>
  A valid entry stands where its page is looked up, has the mask of a page size and the address of a page, and permits reads
  where it permits writes. Large pages are only there when the flag for them is set.
\<close>

definition tlb_entry_ok :: "bool \<Rightarrow> nat \<Rightarrow> bx_TLB_entry \<Rightarrow> bool" where
  "tlb_entry_ok large n en \<longleftrightarrow> tlb_valid en \<longrightarrow> page_size_mask (tlb_lpf_mask en) \<and> (large \<or> tlb_lpf_mask en = 0xfff) \<and>
     BX_TLB_INDEX_OF (lpf en) = n \<and> lpf en AND 0x7ff = 0 \<and> PPFOf (tlb_ppf en) = tlb_ppf en \<and>
     (\<forall>u. bit (accessBits en) (2 + of_bool u) \<longrightarrow> bit (accessBits en) (of_bool u))"

definition tlb_ok :: "BX_CPU_C \<Rightarrow> bool" where
  "tlb_ok cpu \<longleftrightarrow> (\<forall>n < BX_TLB_SIZE. tlb_entry_ok (split_large cpu) n (tlb cpu n))"

lemma invalid_ok [simp]: "tlb_entry_ok large n (tlb_invalidate en)"
  by (simp add: tlb_entry_ok_def tlb_invalidate_def)

lemma tlb_ok_cong: "tlb c = tlb c' \<Longrightarrow> split_large c = split_large c' \<Longrightarrow> tlb_ok c = tlb_ok c'"
  by (simp add: tlb_ok_def)

lemma fold_or_start: "x \<le> fold (\<lambda>n m. if P n then m OR f n else m) ns x" for f :: "nat \<Rightarrow> Bit32u"
  by (induction ns arbitrary: x) (auto intro: order_trans le_word_or2)

lemma fold_or_ge: "n \<in> set ns \<Longrightarrow> P n \<Longrightarrow> f n \<le> fold (\<lambda>n m. if P n then m OR f n else m) ns x" for f :: "nat \<Rightarrow> Bit32u"
proof (induction ns arbitrary: x)
  case (Cons k ns)
  have "f k \<le> fold (\<lambda>n m. if P n then m OR f n else m) ns (x OR f k)"
    by (rule order_trans [OF _ fold_or_start]) (simp add: le_word_or1 le_word_or2)
  with Cons show ?case by auto
qed simp

lemma small_mask: "page_size_mask m \<Longrightarrow> m \<le> 0xfff \<Longrightarrow> m = 0xfff"
  by (auto simp: page_size_mask_def)

lemma flush_entries_ok: "tlb_ok cpu \<Longrightarrow> tlb_ok (flush_entries drp cpu)"
proof -
  assume ok: "tlb_ok cpu"
  let ?P = "\<lambda>n. tlb_valid (tlb cpu n) \<and> \<not> drp (tlb cpu n)"
  let ?or = "fold (\<lambda>n m. if ?P n then m OR tlb_lpf_mask (tlb cpu n) else m) [0..<BX_TLB_SIZE] 0"
  have "?or > 0xfff \<or> tlb_lpf_mask (tlb cpu n) = 0xfff" if "n < BX_TLB_SIZE" "?P n" for n
  proof -
    have "tlb_lpf_mask (tlb cpu n) \<le> ?or" using that by (intro fold_or_ge) auto
    moreover have "page_size_mask (tlb_lpf_mask (tlb cpu n))" using ok that by (simp add: tlb_ok_def tlb_entry_ok_def)
    ultimately show ?thesis using small_mask by force
  qed
  then show ?thesis using ok unfolding tlb_ok_def flush_entries_def tlb_entry_ok_def
    by (auto simp: tlb_invalidate_def)
qed

lemma breakLinks_tlb [simp]:
  "tlb (invalidate_stack_cache (invalidate_prefetch_q cpu)) = tlb cpu"
  "split_large (invalidate_stack_cache (invalidate_prefetch_q cpu)) = split_large cpu"
  by (simp_all add: invalidate_stack_cache_def invalidate_prefetch_q_def)

lemma flushes_ok: "tlb_ok (TLB_flush cpu)" "tlb_ok cpu \<Longrightarrow> tlb_ok (TLB_flushNonGlobal cpu)"
proof -
  show "tlb_ok (TLB_flush cpu)" by (simp add: tlb_ok_def TLB_flush_def Let_def)
  assume "tlb_ok cpu"
  then have "tlb_ok (invalidate_stack_cache (invalidate_prefetch_q cpu))" by (simp add: tlb_ok_def)
  from flush_entries_ok [OF this] show "tlb_ok (TLB_flushNonGlobal cpu)"
    by (simp add: TLB_flushNonGlobal_def Let_def tlb_ok_def)
qed

text \<open>An entry covers an address when they agree above the mask of its page.\<close>

definition covers :: "bx_TLB_entry \<Rightarrow> bx_address \<Rightarrow> bool" where
  "covers en laddr \<longleftrightarrow> laddr AND NOT (ucast (tlb_lpf_mask en)) = lpf en AND NOT (ucast (tlb_lpf_mask en))"

lemma covers_small: "tlb_lpf_mask en = 0xfff \<Longrightarrow> covers en laddr \<longleftrightarrow> LPFOf (lpf en) = LPFOf laddr"
proof -
  have "NOT (ucast (0xfff :: Bit32u)) = (0xfffffffffffff000 :: Bit64u)" by simp
  then show "tlb_lpf_mask en = 0xfff \<Longrightarrow> ?thesis" unfolding covers_def LPFOf_def by (simp only: eq_commute)
qed

lemma bit_tlb_masks:
  "bit (0xfffffffffffff000 :: Bit64u) n \<longleftrightarrow> 12 \<le> n \<and> n < 64" "bit (0xfffffffffffff7ff :: Bit64u) n \<longleftrightarrow> n \<noteq> 11 \<and> n < 64"
  "bit (0x7ff :: Bit64u) n \<longleftrightarrow> n < 11" "bit (0x800 :: Bit64u) n \<longleftrightarrow> n = 11"
proof -
  have m: "(0xfffffffffffff000 :: Bit64u) = NOT (mask 12)" "(0xfffffffffffff7ff :: Bit64u) = NOT (push_bit 11 1)" "(0x7ff :: Bit64u) = mask 11"
    "(0x800 :: Bit64u) = push_bit 11 1"
    by (simp_all add: mask_eq_exp_minus_1)
  show "bit (0xfffffffffffff000 :: Bit64u) n \<longleftrightarrow> 12 \<le> n \<and> n < 64" unfolding m by (auto simp: bit_not_iff bit_mask_iff)
  show "bit (0xfffffffffffff7ff :: Bit64u) n \<longleftrightarrow> n \<noteq> 11 \<and> n < 64" unfolding m(2) by (auto simp: bit_not_iff bit_push_bit_iff bit_1_iff simp del: push_bit_of_1)
  show "bit (0x7ff :: Bit64u) n \<longleftrightarrow> n < 11" unfolding m(3) by (auto simp: bit_mask_iff)
  show "bit (0x800 :: Bit64u) n \<longleftrightarrow> n = 11" unfolding m(4) by (auto simp: bit_push_bit_iff bit_1_iff simp del: push_bit_of_1)
qed

lemma TLB_LPFOf_eq: "la AND 0x7ff = 0 \<Longrightarrow> TLB_LPFOf la = LPFOf la"
proof -
  assume "la AND 0x7ff = 0"
  then have *: "\<not> (bit la n \<and> n < 11)" for n using bit_tlb_masks(3) by (metis bit_0_eq bit_and_iff bot_apply bot_bool_def)
  show ?thesis unfolding TLB_LPFOf_def LPFOf_def
  proof (rule bit_eqI)
    fix n
    show "bit (la AND 0xfffffffffffff7ff) n = bit (la AND 0xfffffffffffff000) n"
      unfolding bit_and_iff bit_tlb_masks using * [of n] by auto
  qed
qed

lemma index_small: "BX_TLB_INDEX_OF laddr < BX_TLB_SIZE"
proof -
  have e: "drop_bit 12 (x AND 0x3ff000) = drop_bit 12 x AND mask 10" for x :: Bit32u
  proof -
    have m: "(0x3ff000 :: Bit32u) = push_bit 12 (mask 10)" by (simp add: mask_eq_exp_minus_1)
    show ?thesis unfolding m
      by (rule bit_eqI) (unfold bit_drop_bit_eq comp_def bit_and_iff bit_push_bit_iff bit_mask_iff, auto)
  qed
  show ?thesis unfolding BX_TLB_INDEX_OF_def e using unat_and_mask [of "drop_bit 12 (ucast laddr :: Bit32u)" 10] by simp
qed

lemma index_of_LPF: "BX_TLB_INDEX_OF (LPFOf laddr) = BX_TLB_INDEX_OF laddr"
proof -
  have m: "(0x3ff000 :: Bit32u) = push_bit 12 (mask 10)" by (simp add: mask_eq_exp_minus_1)
  have "(ucast (LPFOf laddr) :: Bit32u) AND 0x3ff000 = ucast laddr AND 0x3ff000"
    unfolding m LPFOf_def
  proof (rule bit_eqI)
    fix n
    show "bit (ucast (laddr AND 0xfffffffffffff000) AND push_bit 12 (mask 10) :: Bit32u) n = bit (ucast laddr AND push_bit 12 (mask 10) :: Bit32u) n"
      unfolding bit_and_iff bit_unsigned_iff bit_tlb_masks bit_push_bit_iff by auto
  qed
  then show ?thesis by (simp add: BX_TLB_INDEX_OF_def)
qed

lemma covered_slot:
  assumes "tlb_entry_ok False n en" "tlb_valid en" "covers en laddr"
  shows "n = BX_TLB_INDEX_OF laddr" "TLB_LPFOf (lpf en) = LPFOf laddr"
proof -
  have en: "tlb_lpf_mask en = 0xfff" "BX_TLB_INDEX_OF (lpf en) = n" "lpf en AND 0x7ff = 0" using assms by (simp_all add: tlb_entry_ok_def)
  have e: "LPFOf (lpf en) = LPFOf laddr" using covers_small [OF en(1)] assms(3) by simp
  then show "n = BX_TLB_INDEX_OF laddr" using en(2) index_of_LPF by metis
  show "TLB_LPFOf (lpf en) = LPFOf laddr" using TLB_LPFOf_eq [OF en(3)] e by simp
qed

lemma invlpg_tlb:
  assumes ok: "tlb_ok cpu"
  shows "tlb_ok (TLB_invlpg laddr cpu)"
    and "n < BX_TLB_SIZE \<Longrightarrow> tlb_valid (tlb (TLB_invlpg laddr cpu) n) \<longleftrightarrow> tlb_valid (tlb cpu n) \<and> \<not> covers (tlb cpu n) laddr"
    and "n < BX_TLB_SIZE \<Longrightarrow> tlb_valid (tlb (TLB_invlpg laddr cpu) n) \<Longrightarrow> tlb (TLB_invlpg laddr cpu) n = tlb cpu n"
proof -
  let ?c = "invalidate_stack_cache (invalidate_prefetch_q cpu)"
  have c: "tlb_ok ?c" using ok by (simp add: tlb_ok_def)
  have v: "\<not> tlb_valid (tlb_invalidate en)" for en by (simp add: tlb_invalidate_def)
  have "tlb_ok (TLB_invlpg laddr cpu) \<and> (\<forall>n < BX_TLB_SIZE.
      (tlb_valid (tlb (TLB_invlpg laddr cpu) n) \<longleftrightarrow> tlb_valid (tlb cpu n) \<and> \<not> covers (tlb cpu n) laddr) \<and>
      (tlb_valid (tlb (TLB_invlpg laddr cpu) n) \<longrightarrow> tlb (TLB_invlpg laddr cpu) n = tlb cpu n))"
  proof (cases "split_large cpu")
    case True
    let ?f = "flush_entries (\<lambda>en. covers en laddr) ?c"
    have f: "tlb (TLB_invlpg laddr cpu) = tlb ?f" "split_large (TLB_invlpg laddr cpu) = split_large ?f"
      using True by (simp_all add: TLB_invlpg_def Let_def covers_def)
    show ?thesis
      using flush_entries_ok [OF c, of "\<lambda>en. covers en laddr"] v unfolding tlb_ok_cong [OF f] f by (auto simp: flush_entries_def)
  next
    case False
    let ?i = "BX_TLB_INDEX_OF laddr"
    have f: "tlb (TLB_invlpg laddr cpu) = (if TLB_LPFOf (lpf (tlb cpu ?i)) = LPFOf laddr then (tlb cpu)(?i := tlb_invalidate (tlb cpu ?i)) else tlb cpu)"
      "split_large (TLB_invlpg laddr cpu) = split_large cpu"
      using False by (simp_all add: TLB_invlpg_def Let_def)
    have ok': "tlb_entry_ok False n (tlb cpu n)" if "n < BX_TLB_SIZE" for n using ok False that by (simp add: tlb_ok_def)
    have cov: "covers (tlb cpu ?i) laddr" if "TLB_LPFOf (lpf (tlb cpu ?i)) = LPFOf laddr" "tlb_valid (tlb cpu ?i)" "?i < BX_TLB_SIZE"
    proof -
      have "tlb_lpf_mask (tlb cpu ?i) = 0xfff" "lpf (tlb cpu ?i) AND 0x7ff = 0" using ok' [OF that(3)] that(2) by (simp_all add: tlb_entry_ok_def)
      then show ?thesis using covers_small TLB_LPFOf_eq that(1) by metis
    qed
    have "tlb_ok (TLB_invlpg laddr cpu)" using ok by (simp add: tlb_ok_def f)
    moreover have "(tlb_valid (tlb (TLB_invlpg laddr cpu) n) \<longleftrightarrow> tlb_valid (tlb cpu n) \<and> \<not> covers (tlb cpu n) laddr) \<and>
      (tlb_valid (tlb (TLB_invlpg laddr cpu) n) \<longrightarrow> tlb (TLB_invlpg laddr cpu) n = tlb cpu n)" if n: "n < BX_TLB_SIZE" for n
      using covered_slot [OF ok' [OF n]] cov n v by (auto simp: f)
    ultimately show ?thesis by blast
  qed
  then show "tlb_ok (TLB_invlpg laddr cpu)"
    and "n < BX_TLB_SIZE \<Longrightarrow> tlb_valid (tlb (TLB_invlpg laddr cpu) n) \<longleftrightarrow> tlb_valid (tlb cpu n) \<and> \<not> covers (tlb cpu n) laddr"
    and "n < BX_TLB_SIZE \<Longrightarrow> tlb_valid (tlb (TLB_invlpg laddr cpu) n) \<Longrightarrow> tlb (TLB_invlpg laddr cpu) n = tlb cpu n" by blast+
qed

subsection \<open>Translation keeps the TLB in order\<close>

lemma same_tlb_ok: "same_cpu s t \<Longrightarrow> tlb_ok (pg_cpu t) = tlb_ok (pg_cpu s)"
  by (rule tlb_ok_cong) (simp_all add: same_cpuD)

text \<open>An interception of a page fault may flush translations but does not disturb them otherwise.\<close>

definition env_intercept :: "'d page_env \<Rightarrow> bool" where
  "env_intercept e \<longleftrightarrow> (\<forall>code la s. tlb_ok (pg_cpu s) \<longrightarrow> (case intercept_PF e code la s of Inl t \<Rightarrow> tlb_ok (pg_cpu t) | Inr t \<Rightarrow> tlb_ok (pg_cpu t)))"

lemma tlb_ok_crs [simp]: "tlb_ok (cpu\<lparr>crs := c\<rparr>) = tlb_ok cpu"
  by (rule tlb_ok_cong) simp_all

lemma page_fault_tlb:
  assumes "env_intercept e" "tlb_ok (pg_cpu s)"
  shows "tlb_ok (pg_cpu (snd (page_fault e f laddr user rw s)))"
proof -
  have i: "case intercept_PF e code laddr s of Inl t \<Rightarrow> tlb_ok (pg_cpu t) | Inr t \<Rightarrow> tlb_ok (pg_cpu t)" for code
    using assms by (simp add: env_intercept_def)
  have "tlb_ok (pg_cpu (snd (case intercept_PF e code laddr s of Inl s \<Rightarrow> (Intercepted, s)
      | Inr s \<Rightarrow> (Page_fault code, s\<lparr>pg_cpu := (pg_cpu s)\<lparr>crs := (crs (pg_cpu s))\<lparr>cr2 := laddr\<rparr>\<rparr>\<rparr>))))" for code
    using i [of code] by (cases "intercept_PF e code laddr s") simp_all
  then show ?thesis unfolding page_fault_def Let_def .
qed

lemma page_walk_result:
  assumes "env_quiet e"
  shows "case page_walk e laddr user rw s of
      Inl (stop, t) \<Rightarrow> same_cpu s t \<or> (\<exists>f u. (stop, t) = page_fault e f laddr user rw u \<and> same_cpu s u)
    | Inr ((pp, m, k), t) \<Rightarrow> same_cpu s t \<and> page_size_mask m"
proof -
  let ?ops = "cpu_walk_ops e laddr s"
  define r where "r = (if long_mode (pg_cpu s) then translate_linear_long_mode ?ops (pg_cpu s) laddr user rw s
               else walk_then (if get_PAE (crs (pg_cpu s)) then translate_linear_PAE ?ops (pg_cpu s) laddr user rw s
                               else translate_linear_legacy ?ops (pg_cpu s) laddr user rw s) (\<lambda>(pp, m) st1. Inr ((pp, m, 0), st1)))"
  have "ends (quiet_rel e) s r"
    unfolding r_def by (auto intro!: cpu_walk.ends_then cpu_walk.translate_ends)
  moreover have "page_size_mask m" if "r = Inr ((pp, m, k), t)" for pp m k t
    using that unfolding r_def by (auto elim!: walk_then_InrD dest: translate_size split: if_splits)
  moreover have pw: "page_walk e laddr user rw s = (case r of Inl (Page_fault f, s) \<Rightarrow> Inl (page_fault e f laddr user rw s) | Inl x \<Rightarrow> Inl x | Inr y \<Rightarrow> Inr y)"
    unfolding page_walk_def Let_def r_def ..
  ultimately show ?thesis
  proof (cases r)
    case (Inl x)
    obtain stop t where x: "x = (stop, t)" by (metis surj_pair)
    have st: "same_cpu s t" using \<open>ends (quiet_rel e) s r\<close> assms Inl x by simp
    show ?thesis
    proof (cases stop)
      case (Page_fault f)
      obtain stop' t' where "page_fault e f laddr user rw t = (stop', t')" by (metis surj_pair)
      then show ?thesis using st unfolding pw Inl x Page_fault by (simp, metis)
    qed (use st in \<open>simp_all add: pw Inl x\<close>)
  next
    case (Inr y)
    obtain pp m k t where y: "y = ((pp, m, k), t)" by (metis surj_pair)
    show ?thesis using \<open>ends (quiet_rel e) s r\<close> assms \<open>\<And>pp m k t. r = Inr ((pp, m, k), t) \<Longrightarrow> page_size_mask m\<close> [of pp m k t]
      unfolding pw Inr y by simp
  qed
qed

lemma new_lpf:
  "BX_TLB_INDEX_OF (LPFOf laddr) = BX_TLB_INDEX_OF laddr" "BX_TLB_INDEX_OF (LPFOf laddr OR TLB_NoHostPtr) = BX_TLB_INDEX_OF laddr"
  "LPFOf laddr AND 0x7ff = 0" "(LPFOf laddr OR TLB_NoHostPtr) AND 0x7ff = 0"
proof -
  have "LPFOf (LPFOf laddr OR 0x800) = LPFOf laddr" unfolding LPFOf_def
  proof (rule bit_eqI)
    fix n show "bit (((laddr AND 0xfffffffffffff000) OR 0x800) AND 0xfffffffffffff000) n = bit (laddr AND 0xfffffffffffff000) n"
      unfolding bit_and_iff bit_or_iff bit_tlb_masks by auto
  qed
  then show "BX_TLB_INDEX_OF (LPFOf laddr) = BX_TLB_INDEX_OF laddr" "BX_TLB_INDEX_OF (LPFOf laddr OR TLB_NoHostPtr) = BX_TLB_INDEX_OF laddr"
    using index_of_LPF by metis+
  show "LPFOf laddr AND 0x7ff = 0" "(LPFOf laddr OR TLB_NoHostPtr) AND 0x7ff = 0"
    unfolding LPFOf_def by (intro bit_eqI; unfold bit_and_iff bit_or_iff bit_tlb_masks, auto)+
qed

lemma PPFOf_PPFOf [simp]: "PPFOf (PPFOf a) = PPFOf a"
  by (simp add: PPFOf_def and.assoc)

lemma bit_access:
  "bit (1 :: Bit32u) n \<longleftrightarrow> n = 0" "bit (2 :: Bit32u) n \<longleftrightarrow> n = 1" "bit (4 :: Bit32u) n \<longleftrightarrow> n = 2" "bit (8 :: Bit32u) n \<longleftrightarrow> n = 3"
  "bit (0x10 :: Bit32u) n \<longleftrightarrow> n = 4" "bit (0x20 :: Bit32u) n \<longleftrightarrow> n = 5" "bit (5 :: Bit32u) n \<longleftrightarrow> n = 0 \<or> n = 2"
  "bit (0x2A :: Bit32u) n \<longleftrightarrow> n = 1 \<or> n = 3 \<or> n = 5"
proof -
  have e: "(2 :: Bit32u) = push_bit 1 1" "(4 :: Bit32u) = push_bit 2 1" "(8 :: Bit32u) = push_bit 3 1" "(0x10 :: Bit32u) = push_bit 4 1"
    "(0x20 :: Bit32u) = push_bit 5 1" "(5 :: Bit32u) = push_bit 0 1 OR push_bit 2 1" "(0x2A :: Bit32u) = push_bit 1 1 OR push_bit 3 1 OR push_bit 5 1"
    by simp_all
  have b: "bit (push_bit k 1 :: Bit32u) n \<longleftrightarrow> n = k" if "k < 32" for k
    using that by (auto simp: bit_push_bit_iff bit_1_iff simp del: push_bit_of_1)
  show "bit (1 :: Bit32u) n \<longleftrightarrow> n = 0" by (simp add: bit_1_iff)
  show "bit (2 :: Bit32u) n \<longleftrightarrow> n = 1" "bit (4 :: Bit32u) n \<longleftrightarrow> n = 2" "bit (8 :: Bit32u) n \<longleftrightarrow> n = 3" "bit (0x10 :: Bit32u) n \<longleftrightarrow> n = 4"
    "bit (0x20 :: Bit32u) n \<longleftrightarrow> n = 5" unfolding e(1-5) by (rule b, simp)+
  show "bit (5 :: Bit32u) n \<longleftrightarrow> n = 0 \<or> n = 2" "bit (0x2A :: Bit32u) n \<longleftrightarrow> n = 1 \<or> n = 3 \<or> n = 5"
    unfolding e(6,7) bit_or_iff by (simp_all only: b simp_thms)
qed

lemma bit_of_bool_times: "bit (of_bool P * x :: Bit32u) n \<longleftrightarrow> P \<and> bit x n"
  by (cases P) simp_all

text \<open>What an entry permits: the access it was filled for, and reads where it permits writes.\<close>

lemma tlb_access_bits:
  "bit (tlb_access flat cpu user rw ca) (2 + of_bool u) \<Longrightarrow> bit (tlb_access flat cpu user rw ca) (of_bool u)"
  "(user \<longrightarrow> flat \<or> ca AND 4 \<noteq> 0) \<Longrightarrow> \<not> (get_SMAP (crs cpu) \<and> \<not> user) \<Longrightarrow>
     bit (tlb_access flat cpu user rw ca) ((if is_write rw then 2 else 0) + of_bool user)"
proof -
  have g: "bit (if P then x OR TLB_GlobalPage else x) n \<longleftrightarrow> bit x n" if "n < 4" for P n and x :: Bit32u
  proof -
    have e: "(0x80000000 :: Bit32u) = push_bit 31 1" by simp
    have "\<not> bit (0x80000000 :: Bit32u) n" unfolding e using that by (auto simp: bit_push_bit_iff bit_1_iff simp del: push_bit_of_1)
    then show ?thesis by (cases P) (simp_all only: if_True if_False bit_or_iff simp_thms)
  qed
  note bits = bit_or_iff bit_and_iff bit_not_iff bit_access bit_of_bool_times Let_def
  show "bit (tlb_access flat cpu user rw ca) (2 + of_bool u) \<Longrightarrow> bit (tlb_access flat cpu user rw ca) (of_bool u)"
    unfolding tlb_access_def Let_def by (cases u) (simp_all add: g bits split: if_splits)
  show "bit (tlb_access flat cpu user rw ca) ((if is_write rw then 2 else 0) + of_bool user)"
    if "user \<longrightarrow> flat \<or> ca AND 4 \<noteq> 0" "\<not> (get_SMAP (crs cpu) \<and> \<not> user)"
    using that unfolding tlb_access_def Let_def by (cases user; cases "is_write rw") (auto simp add: g bits)
qed

lemma fill_tlb_ok:
  assumes "tlb_ok (pg_cpu s)" "n = BX_TLB_INDEX_OF laddr" "page_size_mask m" "split_large (pg_cpu s) \<or> m = 0xfff"
  shows "tlb_ok (pg_cpu (fill_tlb e n laddr user rw ca m k pa s))"
  using assms by (auto simp: fill_tlb_def Let_def upd_tlb_def tlb_ok_def tlb_entry_ok_def new_lpf tlb_access_bits(1))

lemma large_tlb_ok: "tlb_ok cpu \<Longrightarrow> tlb_ok (cpu\<lparr>split_large := True\<rparr>)"
  by (auto simp: tlb_ok_def tlb_entry_ok_def)

lemma walk_linear_tlb:
  assumes env: "env_quiet e" "env_intercept e" and ok: "tlb_ok (pg_cpu s)" and n: "n = BX_TLB_INDEX_OF laddr"
  shows "ends (\<lambda>_ t. tlb_ok (pg_cpu t)) s (walk_linear e n laddr user rw s)"
proof -
  define r where "r = (if get_PG (crs (pg_cpu s))
        then walk_then (page_walk e laddr user rw s) (\<lambda>(pp, lpf_mask, pkey) st1.
               Inr (((pp AND NOT (ucast lpf_mask)) OR (laddr AND ucast lpf_mask), ucast (pp AND ucast lpf_mask) :: Bit32u, lpf_mask, pkey),
                    if lpf_mask > 0xfff then st1\<lparr>pg_cpu := (pg_cpu st1)\<lparr>split_large := True\<rparr>\<rparr> else st1))
        else Inr ((laddr, 6 OR push_bit 9 BX_MEMTYPE_WB, 0xfff, 0), s))"
  have stop: "tlb_ok (pg_cpu t)" if "r = Inl (x, t)" for x t
  proof -
    have "page_walk e laddr user rw s = Inl (x, t)" using that by (auto simp: r_def walk_then_def split: if_splits sum.splits prod.splits)
    then have "same_cpu s t \<or> (\<exists>f u. (x, t) = page_fault e f laddr user rw u \<and> same_cpu s u)"
      using page_walk_result [OF env(1), where laddr = laddr and user = user and rw = rw and s = s] by simp
    then show ?thesis using ok same_tlb_ok page_fault_tlb [OF env(2)] by (metis snd_conv)
  qed
  have go: "tlb_ok (pg_cpu t) \<and> page_size_mask m \<and> (split_large (pg_cpu t) \<or> m = 0xfff)" if rr: "r = Inr ((pa, ca, m, k), t)" for pa ca m k t
  proof (cases "get_PG (crs (pg_cpu s))")
    case True
    then obtain pp st1 where w: "page_walk e laddr user rw s = Inr ((pp, m, k), st1)" and t: "t = (if m > 0xfff then st1\<lparr>pg_cpu := (pg_cpu st1)\<lparr>split_large := True\<rparr>\<rparr> else st1)"
      using rr by (auto simp: r_def elim!: walk_then_InrD)
    have "same_cpu s st1" "page_size_mask m" using page_walk_result [OF env(1), where laddr = laddr and user = user and rw = rw and s = s] w by simp_all
    then show ?thesis using t ok same_tlb_ok [of s st1] large_tlb_ok small_mask [of m] by (auto simp: not_less)
  next
    case False
    then show ?thesis using rr ok by (simp add: r_def page_size_mask_def)
  qed
  have wl: "walk_linear e n laddr user rw s = walk_then r (\<lambda>(paddress, combined_access, lpf_mask, pkey) st1.
          walk_then (guest_xlate e paddress laddr False rw st1) (\<lambda>pa st2.
            let pa1 = A20ADDR pa (pg_mem st2) in Inr (pa1, fill_tlb e n laddr user rw combined_access lpf_mask pkey pa1 st2)))"
    unfolding walk_linear_def r_def ..
  have fin: "ends (\<lambda>_ t. tlb_ok (pg_cpu t)) s (walk_then (guest_xlate e pa laddr False rw t) (\<lambda>pa st2.
            let pa1 = A20ADDR pa (pg_mem st2) in Inr (pa1, fill_tlb e n laddr user rw ca m k pa1 st2)))"
    if t: "tlb_ok (pg_cpu t)" "page_size_mask m" "split_large (pg_cpu t) \<or> m = 0xfff" for pa ca m k t
  proof -
    have g: "ends same_cpu t (guest_xlate e pa laddr False rw t)" using guest_xlate_ends [of e t pa laddr False rw] env(1) by simp
    show ?thesis
    proof (cases "guest_xlate e pa laddr False rw t")
      case (Inl x)
      then show ?thesis using g t(1) same_tlb_ok by (cases x) auto
    next
      case (Inr y)
      then show ?thesis using g t n fill_tlb_ok [of "snd y" n laddr m] same_tlb_ok [of t "snd y"] same_cpuD(2) [of t "snd y"]
        by (cases y) (auto simp: Let_def)
    qed
  qed
  show ?thesis
  proof (cases r)
    case (Inl x)
    then show ?thesis using stop by (cases x) (simp add: wl)
  next
    case (Inr y)
    then show ?thesis using go fin unfolding wl by (cases y) auto
  qed
qed

lemma ucast_low32: "(ucast (laddr AND 0xffffffff) :: Bit32u) = ucast laddr" for laddr :: Bit64u
proof -
  have m: "(0xffffffff :: Bit64u) = mask 32" by (simp add: mask_eq_exp_minus_1)
  show ?thesis unfolding m by (rule bit_eqI) (simp only: bit_unsigned_iff bit_and_iff bit_mask_iff, auto)
qed

lemma index_low32: "BX_TLB_INDEX_OF (laddr AND 0xffffffff) = BX_TLB_INDEX_OF laddr"
  by (simp only: BX_TLB_INDEX_OF_def ucast_low32)

lemma upd_invalid_ok: "tlb_ok (pg_cpu s) \<Longrightarrow> tlb_ok (pg_cpu (upd_tlb n tlb_invalidate s))"
  by (auto simp: upd_tlb_def tlb_ok_def)

definition ends_ok :: "('d pg_state, 'a) walking \<Rightarrow> bool" where
  "ends_ok r = (case r of Inl (_, t) \<Rightarrow> tlb_ok (pg_cpu t) | Inr (_, t) \<Rightarrow> tlb_ok (pg_cpu t))"

lemma ends_ok_simps [simp]: "ends_ok (Inl (x, t)) = tlb_ok (pg_cpu t)" "ends_ok (Inr (a, t)) = tlb_ok (pg_cpu t)"
  by (simp_all add: ends_ok_def)

lemma ends_okI: "ends (\<lambda>_ t. tlb_ok (pg_cpu t)) s r \<Longrightarrow> ends_ok r"
  by (simp add: ends_def ends_ok_def)

lemma ends_ok_then: "ends_ok r \<Longrightarrow> (\<And>a t. tlb_ok (pg_cpu t) \<Longrightarrow> ends_ok (f a t)) \<Longrightarrow> ends_ok (walk_then r f)"
  by (cases r) auto

lemma translate_linear_tlb:
  assumes env: "env_quiet e" "env_intercept e" and ok: "tlb_ok (pg_cpu s)"
  shows "ends_ok (translate_linear e (BX_TLB_INDEX_OF laddr) laddr user rw s)"
proof -
  let ?la = "if long_mode (pg_cpu s) then laddr else laddr AND 0xffffffff"
  have n: "BX_TLB_INDEX_OF laddr = BX_TLB_INDEX_OF ?la" by (simp add: index_low32)
  show ?thesis
    unfolding translate_linear_def Let_def
    using walk_linear_tlb [OF env ok n, THEN ends_okI] walk_linear_tlb [OF env upd_invalid_ok [OF ok] n, THEN ends_okI] ok
    by auto
qed

lemma xlate_access_tlb:
  assumes "env_quiet e" "env_intercept e" "tlb_ok (pg_cpu s)"
  shows "ends_ok (xlate_access e laddr len user rw ac s)"
  using assms(3) unfolding xlate_access_def Let_def
  by (auto intro!: ends_ok_then translate_linear_tlb [OF assms(1,2)])

lemma write_physical_tlb: "env_quiet e \<Longrightarrow> tlb_ok (pg_cpu s) \<Longrightarrow> ends_ok (access_write_physical e a d s)"
  using write_physical_quiet [of e s a d] same_tlb_ok by (fastforce simp: ends_def ends_ok_def split: sum.splits)

lemma read_physical_tlb: "env_quiet e \<Longrightarrow> tlb_ok (pg_cpu (fst (access_read_physical e a old s))) = tlb_ok (pg_cpu s)"
  using read_physical_quiet [of e s a old] same_tlb_ok by blast

lemma linear_access_tlb:
  assumes env: "env_quiet e" "env_intercept e" and ok: "tlb_ok (pg_cpu s)"
  shows "ends_ok (access_write_linear e laddr data pl ac s)" "ends_ok (access_read_linear e laddr old pl rw ac s)"
proof -
  show "ends_ok (access_write_linear e laddr data pl ac s)"
    unfolding access_write_linear_def
    by (rule ends_ok_then [OF xlate_access_tlb [OF env ok]]) (auto intro!: ends_ok_then write_physical_tlb [OF env(1)])
  show "ends_ok (access_read_linear e laddr old pl rw ac s)"
    unfolding access_read_linear_def Let_def
    by (rule ends_ok_then [OF xlate_access_tlb [OF env ok]]) (simp add: case_prod_beta read_physical_tlb [OF env(1)])
qed

text \<open>The steps of a CPU that touch its TLB: translations, accesses and flushes, whether they complete or stop.\<close>

fun final_state :: "('d pg_state, 'a) walking \<Rightarrow> 'd pg_state" where
  "final_state (Inl (_, t)) = t"
| "final_state (Inr (_, t)) = t"

lemma final_ok: "tlb_ok (pg_cpu (final_state r)) = ends_ok r"
  by (cases r rule: final_state.cases) simp_all

inductive tlb_step :: "'d page_env \<Rightarrow> 'd pg_state \<Rightarrow> 'd pg_state \<Rightarrow> bool" for e where
  step_translate: "tlb_step e s (final_state (translate_linear e (BX_TLB_INDEX_OF laddr) laddr user rw s))"
| step_write: "tlb_step e s (final_state (access_write_linear e laddr data pl ac s))"
| step_read: "tlb_step e s (final_state (access_read_linear e laddr old pl rw ac s))"
| step_flush: "tlb_step e s (s\<lparr>pg_cpu := TLB_flush (pg_cpu s)\<rparr>)"
| step_nonglobal: "tlb_step e s (s\<lparr>pg_cpu := TLB_flushNonGlobal (pg_cpu s)\<rparr>)"
| step_invlpg: "tlb_step e s (s\<lparr>pg_cpu := TLB_invlpg laddr (pg_cpu s)\<rparr>)"

lemma tlb_step_ok:
  assumes "tlb_step e s t" "env_quiet e" "env_intercept e" "tlb_ok (pg_cpu s)"
  shows "tlb_ok (pg_cpu t)"
  using assms by cases (simp_all add: final_ok translate_linear_tlb linear_access_tlb flushes_ok invlpg_tlb(1))

interpretation tlb_runs: kept_invariant "tlb_step e" "\<lambda>s. env_quiet e \<and> env_intercept e \<longrightarrow> tlb_ok (pg_cpu s)" for e
  by unfold_locales (blast intro: tlb_step_ok)

text \<open>
  C13: INVLPG after any run. From an empty TLB, after any sequence of translations, accesses and flushes, INVLPG removes
  every entry that maps the address, whatever the size of its page, and keeps every other entry unchanged. While no large
  page is cached, only the slot of the address can map it, which is why one slot is then looked at.
\<close>

theorem invlpg_after_any_run:
  assumes "env_quiet e" "env_intercept e" "(tlb_step e)\<^sup>*\<^sup>* (s\<lparr>pg_cpu := TLB_flush (pg_cpu s)\<rparr>) t" "n < BX_TLB_SIZE"
  shows "(tlb_valid (tlb (TLB_invlpg laddr (pg_cpu t)) n) \<longleftrightarrow> tlb_valid (tlb (pg_cpu t) n) \<and> \<not> covers (tlb (pg_cpu t) n) laddr) \<and>
    (tlb_valid (tlb (TLB_invlpg laddr (pg_cpu t)) n) \<longrightarrow> tlb (TLB_invlpg laddr (pg_cpu t)) n = tlb (pg_cpu t) n) \<and>
    (\<not> split_large (pg_cpu t) \<and> tlb_valid (tlb (pg_cpu t) n) \<and> covers (tlb (pg_cpu t) n) laddr \<longrightarrow> n = BX_TLB_INDEX_OF laddr)"
proof -
  have ok: "tlb_ok (pg_cpu t)" using tlb_runs.run_keeps [OF assms(3)] assms(1,2) flushes_ok(1) by simp
  then have "\<not> split_large (pg_cpu t) \<Longrightarrow> tlb_entry_ok False n (tlb (pg_cpu t) n)" using assms(4) by (simp add: tlb_ok_def)
  then show ?thesis using invlpg_tlb(2,3) [OF ok assms(4)] covered_slot(1) by blast
qed

subsection \<open>Cached translations\<close>

text \<open>A walk only takes rights away, and one that ends for user code found a user page.\<close>

abbreviation few_rights :: "Bit32u \<Rightarrow> bool" where
  "few_rights acc \<equiv> acc AND NOT 6 = 0"

lemma few_rights_and: "few_rights acc \<Longrightarrow> few_rights (acc AND en)"
proof -
  have "(acc AND en) AND NOT 6 = (acc AND NOT 6) AND en" by (simp only: and.assoc and.commute and.left_commute)
  then show "few_rights acc \<Longrightarrow> few_rights (acc AND en)" by (simp only: and_zero_eq zero_and_eq)
qed

lemma visit_access: "visit ops sz rsvd frame rw a w s = Inr (w', t) \<Longrightarrow> few_rights (w_access w) \<Longrightarrow> few_rights (w_access w')"
  using few_rights_and by (auto elim!: visit_InrD)

lemma walk_long_access: "walk_long ops rsvd rw la k w s = Inr (w', t) \<Longrightarrow> few_rights (w_access w) \<Longrightarrow> few_rights (w_access w')"
proof (induction k arbitrary: w s)
  case 0
  show ?case by (rule visit_access [OF 0(1) [unfolded walk_long.simps] 0(2)])
next
  case (Suc k)
  from Suc.prems(1) obtain w1 s1 where v: "visit ops 8 rsvd PAGE_FRAME_MASK rw (w_ppf w + (drop_bit (9 + 9 * Suc k) la AND 0xff8)) w s = Inr (w1, s1)"
    and w: "w_access w' = w_access w1 \<or> walk_long ops rsvd rw la k w1 s1 = Inr (w', t)"
    by (auto elim!: walk_then_InrD simp: Let_def split: if_splits)
  from visit_access [OF v Suc.prems(2)] w Suc.IH [of w1 s1] show ?case by metis
qed

lemma walk_short_access:
  "walk_PAE ops rsvd rw la w s = Inr (w', t) \<Longrightarrow> few_rights (w_access w) \<Longrightarrow> few_rights (w_access w')"
  "walk_legacy ops pse rw la w s = Inr (w', t) \<Longrightarrow> few_rights (w_access w) \<Longrightarrow> few_rights (w_access w')"
proof -
  assume r: "few_rights (w_access w)"
  show "few_rights (w_access w')" if "walk_PAE ops rsvd rw la w s = Inr (w', t)"
    using that unfolding walk_PAE_def
    by (rule walk_then_InrD) (auto dest!: visit_access [OF _ r] split: if_splits dest: visit_access)
  show "few_rights (w_access w')" if "walk_legacy ops pse rw la w s = Inr (w', t)"
    using that unfolding walk_legacy_def
    by (rule walk_then_InrD) (auto dest!: visit_access [OF _ r] split: if_splits dest: visit_access)
qed

lemma finish_user:
  assumes "finish_walk ops sz cpu True rw w s = Inr ((pp, m), t)" "few_rights (w_access w)"
  shows "bit pp 2"
proof -
  have "page_protection cpu True rw (w_access w) (w_nx w) = None" using assms(1) by (auto simp: finish_walk_def split: option.splits)
  then have b: "bit (w_access w) 2" using protection_passes [OF assms(2)] by (auto simp: access_allowed_def)
  obtain x where "pp = w_ppf w OR ucast ((if get_PGE (crs cpu) then w_access w OR x else w_access w) OR
      push_bit 9 (memtype_by_pat (calculate_pat (ucast (leaf_entry w)) (w_lpf_mask w)) cpu))"
    using assms(1) unfolding finish_walk_def Let_def by (auto elim!: walk_then_InrD split: option.splits)
  then show ?thesis using b by (simp add: bit_simps)
qed

lemma start_few [simp]: "few_rights 6"
  by simp

lemma translate_user:
  "translate_linear_long_mode ops cpu la True rw s = Inr ((pp, m, k), t) \<Longrightarrow> bit pp 2"
  "translate_linear_PAE ops cpu la True rw s = Inr ((pp, m), t) \<Longrightarrow> bit pp 2"
  "translate_linear_legacy ops cpu la True rw s = Inr ((pp, m), t) \<Longrightarrow> bit pp 2"
proof -
  show "bit pp 2" if "translate_linear_long_mode ops cpu la True rw s = Inr ((pp, m, k), t)"
    using that unfolding translate_linear_long_mode_def Let_def
    by (rule walk_then_InrD) (auto elim!: walk_then_InrD intro!: finish_user dest!: walk_long_access split: option.splits)
  show "bit pp 2" if "translate_linear_PAE ops cpu la True rw s = Inr ((pp, m), t)"
    using that unfolding translate_linear_PAE_def by (auto elim!: walk_then_InrD intro!: finish_user dest!: walk_short_access)
  show "bit pp 2" if "translate_linear_legacy ops cpu la True rw s = Inr ((pp, m), t)"
    using that unfolding translate_linear_legacy_def by (auto elim!: walk_then_InrD intro!: finish_user dest!: walk_short_access)
qed

lemma page_walk_user: "page_walk e la True rw s = Inr ((pp, m, k), t) \<Longrightarrow> bit pp 2"
  unfolding page_walk_def Let_def
  by (auto elim!: walk_then_InrD dest: translate_user split: sum.splits prod.splits walk_stop.splits if_splits)

text \<open>Outside a guest a translation keeps the offset in the page, unless the A20 gate masks it.\<close>

definition keeps_offset :: "'d pg_state \<Rightarrow> 'd pg_state \<Rightarrow> bx_phy_address \<Rightarrow> bx_address \<Rightarrow> bool" where
  "keeps_offset s t pa la \<longleftrightarrow> in_vmx_guest (guest (pg_cpu s)) \<or> in_svm_guest (guest (pg_cpu s)) \<or>
     \<not> (\<forall>n < 12. bit (a20_mask (pg_mem t)) n) \<or> PAGE_OFFSET pa = PAGE_OFFSET la"

lemma PAGE_OFFSET_cong: "(\<And>n. n < 12 \<Longrightarrow> bit a n = bit b n) \<Longrightarrow> PAGE_OFFSET a = PAGE_OFFSET b"
proof -
  assume a: "\<And>n. n < 12 \<Longrightarrow> bit a n = bit b n"
  have m: "(0xfff :: Bit32u) = mask 12" by (simp add: mask_eq_exp_minus_1)
  show ?thesis unfolding PAGE_OFFSET_def m by (rule bit_eqI) (simp only: bit_and_iff bit_unsigned_iff bit_mask_iff, use a in blast)
qed

lemma PAGE_OFFSET_low32 [simp]: "PAGE_OFFSET (la AND 0xffffffff) = PAGE_OFFSET la"
  by (simp only: PAGE_OFFSET_def ucast_low32)

lemma bit_page_parts: "bit (PPFOf a) n \<longleftrightarrow> bit a n \<and> 12 \<le> n" "bit (ucast (PAGE_OFFSET a) :: Bit64u) n \<longleftrightarrow> bit a n \<and> n < 12"
proof -
  have m: "(0xfff :: Bit32u) = mask 12" by (simp add: mask_eq_exp_minus_1)
  show "bit (PPFOf a) n \<longleftrightarrow> bit a n \<and> 12 \<le> n" unfolding PPFOf_def bit_and_iff bit_tlb_masks using bit_imp_le_length [of a n] by auto
  show "bit (ucast (PAGE_OFFSET a) :: Bit64u) n \<longleftrightarrow> bit a n \<and> n < 12"
    unfolding PAGE_OFFSET_def m bit_and_iff bit_unsigned_iff bit_mask_iff by auto
qed

lemma page_parts: "PPFOf a OR ucast (PAGE_OFFSET a) = a" "PPFOf a = a \<Longrightarrow> PAGE_OFFSET (a OR ucast (PAGE_OFFSET la)) = PAGE_OFFSET la"
  "PPFOf a = a \<Longrightarrow> PPFOf (a OR ucast (PAGE_OFFSET la)) = a"
proof -
  show "PPFOf a OR ucast (PAGE_OFFSET a) = a" by (rule bit_eqI) (unfold bit_or_iff bit_page_parts, auto)
  assume a: "PPFOf a = a"
  have b: "bit a n \<Longrightarrow> 12 \<le> n" for n using bit_page_parts(1) [of a n] unfolding a by blast
  show "PAGE_OFFSET (a OR ucast (PAGE_OFFSET la)) = PAGE_OFFSET la"
    by (rule PAGE_OFFSET_cong) (unfold bit_or_iff bit_page_parts, use b in fastforce)
  show "PPFOf (a OR ucast (PAGE_OFFSET la)) = a"
    by (rule bit_eqI) (unfold bit_or_iff bit_page_parts, use b in auto)
qed

lemma walk_linear_fills:
  assumes env: "env_quiet e" and w: "walk_linear e n la user rw s = Inr (pa, t)"
  obtains ca m k u where "t = fill_tlb e n la user rw ca m k pa u" "crs (pg_cpu u) = crs (pg_cpu s)" "modes (pg_cpu u) = modes (pg_cpu s)"
    "guest (pg_cpu u) = guest (pg_cpu s)" "user \<longrightarrow> ca AND 4 \<noteq> 0" "keeps_offset s t pa la"
proof -
  define r where "r = (if get_PG (crs (pg_cpu s))
        then walk_then (page_walk e la user rw s) (\<lambda>(pp, lpf_mask, pkey) st1.
               Inr (((pp AND NOT (ucast lpf_mask)) OR (la AND ucast lpf_mask), ucast (pp AND ucast lpf_mask) :: Bit32u, lpf_mask, pkey),
                    if lpf_mask > 0xfff then st1\<lparr>pg_cpu := (pg_cpu st1)\<lparr>split_large := True\<rparr>\<rparr> else st1))
        else Inr ((la, 6 OR push_bit 9 BX_MEMTYPE_WB, 0xfff, 0), s))"
  obtain pad ca m k s1 where r: "r = Inr ((pad, ca, m, k), s1)"
    and g: "walk_then (guest_xlate e pad la False rw s1) (\<lambda>pa st2.
            let pa1 = A20ADDR pa (pg_mem st2) in Inr (pa1, fill_tlb e n la user rw ca m k pa1 st2)) = Inr (pa, t)"
    using w unfolding walk_linear_def r_def [symmetric] by (elim walk_then_InrD) (auto split: prod.splits)
  from g obtain pa0 u where u: "guest_xlate e pad la False rw s1 = Inr (pa0, u)" "t = fill_tlb e n la user rw ca m k pa u"
    by (elim walk_then_InrD) (auto simp: Let_def)
  have su: "same_cpu s1 u" using guest_xlate_ends [of e s1 pad la False rw] env u(1) by simp
  have s1: "crs (pg_cpu s1) = crs (pg_cpu s) \<and> modes (pg_cpu s1) = modes (pg_cpu s) \<and> (user \<longrightarrow> ca AND 4 \<noteq> 0) \<and>
      guest (pg_cpu s1) = guest (pg_cpu s) \<and> (\<forall>n < 12. bit pad n = bit la n)"
  proof (cases "get_PG (crs (pg_cpu s))")
    case True
    then obtain pp st1 where p: "page_walk e la user rw s = Inr ((pp, m, k), st1)" "ca = ucast (pp AND ucast m)"
      "s1 = (if m > 0xfff then st1\<lparr>pg_cpu := (pg_cpu st1)\<lparr>split_large := True\<rparr>\<rparr> else st1)"
      "pad = (pp AND NOT (ucast m)) OR (la AND ucast m)"
      using r by (auto simp: r_def elim!: walk_then_InrD)
    have q: "same_cpu s st1" "page_size_mask m" using page_walk_result [OF env, where laddr = la and user = user and rw = rw and s = s] p(1) by simp_all
    have "bit ca 2" if user using that p(1,2) page_walk_user size_mask_bits [OF q(2), of 2] by (auto simp: bit_simps)
    then have "user \<longrightarrow> ca AND 4 \<noteq> 0" using bit_access(3) [of 2] by (metis bit_0_eq bit_and_iff bot_apply bot_bool_def)
    moreover have "bit pad n = bit la n" if "n < 12" for n using size_mask_bits [OF q(2) that] that unfolding p(4) by (auto simp: bit_simps)
    ultimately show ?thesis using p(3) same_cpuD(3,4,5) [OF q(1)] by simp
  next
    case False
    have "(6 OR push_bit 9 BX_MEMTYPE_WB :: Bit32u) AND 4 \<noteq> 0" by simp
    then show ?thesis using r False by (auto simp: r_def)
  qed
  have "keeps_offset s t pa la"
  proof (cases "in_vmx_guest (guest (pg_cpu s)) \<or> in_svm_guest (guest (pg_cpu s))")
    case False
    then have "pa0 = pad" using u(1) s1 by (simp add: guest_xlate_def ept_enabled_def svm_nested_paging_def)
    moreover have "pa = pa0 AND a20_mask (pg_mem t)" using g u by (simp add: Let_def A20ADDR_def fill_tlb_def upd_tlb_def)
    ultimately show ?thesis using s1 unfolding keeps_offset_def by (auto simp: bit_simps intro!: PAGE_OFFSET_cong)
  qed (auto simp: keeps_offset_def)
  then show ?thesis using that [OF u(2)] s1 same_cpuD(3,4,5) [OF su] by simp
qed

lemma filled_entry:
  "tlb (pg_cpu (fill_tlb e n la user rw ca m k pa u)) n =
     (tlb (pg_cpu u) n)\<lparr>lpf := (if cpu_getHostMemAddr e (PPFOf pa) rw u \<noteq> None then LPFOf la else LPFOf la OR TLB_NoHostPtr), tlb_lpf_mask := m,
             tlb_pkey := k, tlb_ppf := PPFOf pa,
             accessBits := tlb_access (\<not> get_PG (crs (pg_cpu u)) \<and> \<not> ept_enabled u \<and> \<not> svm_nested_paging u) (pg_cpu u) user rw ca,
             hostPageAddr := cpu_getHostMemAddr e (PPFOf pa) rw u,
             tlb_memtype := resolve_memtype (memtype_by_mtrr (env_mtrr e) (PPFOf pa) (mtrrs (pg_cpu u))) (drop_bit 9 ca) (pg_cpu u)\<rparr>"
  "crs (pg_cpu (fill_tlb e n la user rw ca m k pa u)) = crs (pg_cpu u)" "modes (pg_cpu (fill_tlb e n la user rw ca m k pa u)) = modes (pg_cpu u)"
  "guest (pg_cpu (fill_tlb e n la user rw ca m k pa u)) = guest (pg_cpu u)"
  by (simp_all add: fill_tlb_def upd_tlb_def Let_def)

text \<open>With no protection keys in force, an entry is hit exactly when its access bit is set.\<close>

definition keys_off :: "BX_CPU_C \<Rightarrow> bool" where
  "keys_off cpu \<longleftrightarrow> (\<forall>k. rd_pkey (modes cpu) k = 15 \<and> wr_pkey (modes cpu) k = 15)"

lemma hit_keys_off: "keys_off cpu \<Longrightarrow> tlb_hit cpu en user rw \<longleftrightarrow> bit (accessBits en) ((if is_write rw then 2 else 0) + of_bool user)"
proof -
  assume k: "keys_off cpu"
  have e: "(15 :: Bit32u) = mask 4" by (simp add: mask_eq_exp_minus_1)
  have m: "push_bit n 1 AND 15 = (push_bit n 1 :: Bit32u)" if "n < 4" for n
    unfolding e by (rule bit_eqI) (use that in \<open>auto simp: bit_and_iff bit_mask_iff bit_push_bit_iff bit_1_iff simp del: push_bit_of_1\<close>)
  have b: "a AND push_bit n 1 AND 15 \<noteq> 0 \<longleftrightarrow> bit a n" if "n < 4" for a :: Bit32u and n
    unfolding m [OF that] using and_pow2_eq_0 [of n a] that by (simp add: push_bit_of_1)
  have "accessBits en AND push_bit ((if is_write rw then 2 else 0) + of_bool user) 1 AND 15 \<noteq> 0 \<longleftrightarrow>
      bit (accessBits en) ((if is_write rw then 2 else 0) + of_bool user)" by (rule b) simp
  then show ?thesis using k unfolding tlb_hit_def keys_off_def by (cases "is_write rw") (simp_all only: if_True if_False add_0)
qed

lemma TLB_LPFOf_filled: "TLB_LPFOf (LPFOf la) = LPFOf la" "TLB_LPFOf (LPFOf la OR TLB_NoHostPtr) = LPFOf la"
proof -
  show "TLB_LPFOf (LPFOf la) = LPFOf la" unfolding TLB_LPFOf_def LPFOf_def
    by (rule bit_eqI) (unfold bit_and_iff bit_tlb_masks, auto)
  show "TLB_LPFOf (LPFOf la OR TLB_NoHostPtr) = LPFOf la" unfolding TLB_LPFOf_def LPFOf_def
    by (rule bit_eqI) (unfold bit_and_iff bit_or_iff bit_tlb_masks, auto)
qed

text \<open>After a translation the entry of the page is in place, and is hit by accesses like it.\<close>

definition entry_for :: "BX_CPU_C \<Rightarrow> bx_address \<Rightarrow> bool \<Rightarrow> bool \<Rightarrow> bx_phy_address \<Rightarrow> bool" where
  "entry_for cpu la user wr pp \<longleftrightarrow> (let en = tlb cpu (BX_TLB_INDEX_OF la) in
     TLB_LPFOf (lpf en) = LPFOf la \<and> tlb_ppf en = pp \<and> bit (accessBits en) (of_bool user) \<and> (wr \<longrightarrow> bit (accessBits en) (2 + of_bool user)))"

abbreviation eff_addr :: "BX_CPU_C \<Rightarrow> bx_address \<Rightarrow> bx_address" where
  "eff_addr cpu la \<equiv> if long_mode cpu then la else la AND 0xffffffff"

lemma walk_linear_entry:
  assumes "env_quiet e" "\<not> (get_SMAP (crs (pg_cpu s)) \<and> \<not> user)" "walk_linear e (BX_TLB_INDEX_OF la) la user rw s = Inr (pa, t)"
  shows "entry_for (pg_cpu t) la user (is_write rw) (PPFOf pa) \<and> crs (pg_cpu t) = crs (pg_cpu s) \<and> modes (pg_cpu t) = modes (pg_cpu s) \<and>
    guest (pg_cpu t) = guest (pg_cpu s) \<and> keeps_offset s t pa la"
proof -
  obtain ca m k u where u: "t = fill_tlb e (BX_TLB_INDEX_OF la) la user rw ca m k pa u" "crs (pg_cpu u) = crs (pg_cpu s)"
    "modes (pg_cpu u) = modes (pg_cpu s)" "guest (pg_cpu u) = guest (pg_cpu s)" "user \<longrightarrow> ca AND 4 \<noteq> 0" "keeps_offset s t pa la"
    by (rule walk_linear_fills [OF assms(1,3)])
  let ?b = "tlb_access (\<not> get_PG (crs (pg_cpu u)) \<and> \<not> ept_enabled u \<and> \<not> svm_nested_paging u) (pg_cpu u) user rw ca"
  have "bit ?b ((if is_write rw then 2 else 0) + of_bool user)"
    using u(2,5) assms(2) by (intro tlb_access_bits(2)) auto
  then have b: "bit ?b (of_bool user)" "is_write rw \<Longrightarrow> bit ?b (2 + of_bool user)"
    using tlb_access_bits(1) [of _ _ user rw ca user] by (cases "is_write rw"; simp only: if_True if_False add_0; blast)+
  let ?en = "tlb (pg_cpu t) (BX_TLB_INDEX_OF la)"
  have en: "lpf ?en = (if cpu_getHostMemAddr e (PPFOf pa) rw u \<noteq> None then LPFOf la else LPFOf la OR TLB_NoHostPtr)"
    "tlb_ppf ?en = PPFOf pa" "accessBits ?en = ?b"
    unfolding u(1) filled_entry by simp_all
  moreover have "TLB_LPFOf (lpf ?en) = LPFOf la" unfolding en(1) by (simp add: TLB_LPFOf_filled)
  moreover have "crs (pg_cpu t) = crs (pg_cpu s)" "modes (pg_cpu t) = modes (pg_cpu s)" "guest (pg_cpu t) = guest (pg_cpu s)"
    unfolding u(1) filled_entry u(2-4) by (rule refl)+
  ultimately show ?thesis using b u(6) unfolding entry_for_def Let_def by simp
qed

lemma upd_invalid_cpu [simp]: "guest (pg_cpu (upd_tlb n f s)) = guest (pg_cpu s)"
  "crs (pg_cpu (upd_tlb n f s)) = crs (pg_cpu s)" "modes (pg_cpu (upd_tlb n f s)) = modes (pg_cpu s)"
  by (simp_all add: upd_tlb_def)

lemma translate_linear_entry:
  assumes "env_quiet e" "\<not> (get_SMAP (crs (pg_cpu s)) \<and> \<not> user)" "tlb_ok (pg_cpu s)" "keys_off (pg_cpu s)"
    and t: "translate_linear e (BX_TLB_INDEX_OF la) la user rw s = Inr (pa, t)"
  shows "entry_for (pg_cpu t) (eff_addr (pg_cpu s) la) user (is_write rw) (PPFOf pa) \<and> crs (pg_cpu t) = crs (pg_cpu s) \<and> modes (pg_cpu t) = modes (pg_cpu s) \<and>
    guest (pg_cpu t) = guest (pg_cpu s) \<and> keeps_offset s t pa la"
proof -
  let ?la = "eff_addr (pg_cpu s) la" and ?n = "BX_TLB_INDEX_OF la"
  let ?en = "tlb (pg_cpu s) ?n"
  have n: "BX_TLB_INDEX_OF ?la = ?n" by (simp add: index_low32)
  have o: "PAGE_OFFSET ?la = PAGE_OFFSET la" by simp
  show ?thesis
  proof (cases "rw \<noteq> BX_EXECUTE \<and> TLB_LPFOf (lpf ?en) = LPFOf ?la \<and> tlb_hit (pg_cpu s) ?en user rw")
    case True
    then have pa: "pa = tlb_ppf ?en OR ucast (PAGE_OFFSET ?la)" "t = s" using t unfolding translate_linear_def Let_def by (auto simp only: if_True simp_thms sum.inject prod.inject)
    have v: "tlb_valid ?en"
    proof
      assume "lpf ?en = BX_INVALID_TLB_ENTRY"
      then have "TLB_LPFOf (lpf ?en) AND 1 = 1" by (simp add: TLB_LPFOf_def BX_INVALID_TLB_ENTRY_def)
      moreover have "LPFOf ?la AND 1 = 0" by (simp add: LPFOf_def and.assoc)
      ultimately show False using True by simp
    qed
    have "?n < BX_TLB_SIZE" by (rule index_small)
    then have ok: "PPFOf (tlb_ppf ?en) = tlb_ppf ?en" "\<forall>u. bit (accessBits ?en) (2 + of_bool u) \<longrightarrow> bit (accessBits ?en) (of_bool u)"
      using assms(3) v by (simp_all add: tlb_ok_def tlb_entry_ok_def)
    have h: "bit (accessBits ?en) ((if is_write rw then 2 else 0) + of_bool user)" using True hit_keys_off [OF assms(4)] by blast
    then have "bit (accessBits ?en) (of_bool user)" "is_write rw \<Longrightarrow> bit (accessBits ?en) (2 + of_bool user)"
      using ok(2) by (cases "is_write rw"; simp only: if_True if_False add_0; blast)+
    moreover have "PPFOf pa = tlb_ppf ?en" unfolding pa(1) by (rule page_parts(3) [OF ok(1)])
    moreover have "PAGE_OFFSET pa = PAGE_OFFSET la" unfolding pa(1) page_parts(2) [OF ok(1)] by simp
    ultimately show ?thesis using True unfolding entry_for_def Let_def n pa(2) keeps_offset_def by simp
  next
    case False
    then consider "walk_linear e ?n ?la user rw s = Inr (pa, t)" | "walk_linear e ?n ?la user rw (upd_tlb ?n tlb_invalidate s) = Inr (pa, t)"
      using t unfolding translate_linear_def Let_def by (auto split: if_splits)
    then show ?thesis
      using walk_linear_entry [OF assms(1,2), of ?la rw pa t] walk_linear_entry [OF assms(1), of "upd_tlb ?n tlb_invalidate s" user ?la rw pa t] assms(2)
      unfolding n keeps_offset_def o by cases simp_all
  qed
qed

lemma entry_for_hit:
  assumes "entry_for cpu (eff_addr cpu la) user wr pp" "keys_off cpu" "LPFOf la' = LPFOf la" "rw \<noteq> BX_EXECUTE" "is_write rw \<longrightarrow> wr" "pg_cpu t = cpu"
  shows "translate_linear e (BX_TLB_INDEX_OF la) la' user rw t = Inr (pp OR ucast (PAGE_OFFSET la'), t)"
proof -
  have n: "BX_TLB_INDEX_OF (eff_addr cpu la) = BX_TLB_INDEX_OF la" by (simp add: index_low32)
  have "LPFOf (la' AND 0xffffffff) = LPFOf la' AND 0xffffffff" "LPFOf (la AND 0xffffffff) = LPFOf la AND 0xffffffff"
    by (simp_all only: LPFOf_def and.assoc and.commute and.left_commute)
  then have l: "LPFOf (eff_addr cpu la') = LPFOf (eff_addr cpu la)" using assms(3) by simp
  have "tlb_hit cpu (tlb cpu (BX_TLB_INDEX_OF la)) user rw"
    using assms(1,5) unfolding hit_keys_off [OF assms(2)] entry_for_def Let_def n by simp
  then show ?thesis using assms(1,4,6) l unfolding entry_for_def Let_def n translate_linear_def by simp
qed




text \<open>Plain RAM at a physical address, as the processor reaches it outside a guest.\<close>

definition plain_at :: "'d pg_state \<Rightarrow> bx_phy_address \<Rightarrow> bool" where
  "plain_at s a \<longleftrightarrow> \<not> is_selected a (lapic (pg_cpu s)) \<and> (\<forall>n < 12. bit (a20_mask (pg_mem s)) n) \<and>
     (let b = A20ADDR a (pg_mem s) in b < 0x100000000 \<and> plain_ram b \<and> b < mem_len (pg_mem s) \<and> \<not> is_bios b \<and>
        memory_handlers (pg_mem s) (unat (drop_bit 20 b)) = [])"

lemma plain_write_read:
  assumes "plain_at s a" "\<not> in_vmx_guest (guest (pg_cpu s))" "data \<noteq> []" "length data < 2 ^ 32" "length old = length data"
  obtains m where "access_write_physical e a data s = Inr ((), s\<lparr>pg_mem := m\<rparr>)" "snd (access_read_physical e a old (s\<lparr>pg_mem := m\<rparr>)) = data"
proof -
  obtain m where m: "writePhysicalPage (env_opcode e) (Some (env_smm e)) a data (pg_mem s) = Inr m" "snd (readPhysicalPage (Some (env_smm e)) a old m) = data"
    using read_after_write [OF assms(3,4) _ assms(5), of a "pg_mem s" "env_opcode e" "Some (env_smm e)" "Some (env_smm e)"] assms(1)
    unfolding plain_at_def Let_def by blast
  have v: "\<not> is_virtual_apic_page a u" if "pg_cpu u = pg_cpu s" for u using that assms(2) by (simp add: is_virtual_apic_page_def)
  have sel: "\<not> is_selected a (lapic (pg_cpu s))" using assms(1) by (simp add: plain_at_def)
  show ?thesis
  proof (rule that)
    show "access_write_physical e a data s = Inr ((), s\<lparr>pg_mem := m\<rparr>)" using v [of s] sel m(1) by (simp add: access_write_physical_def)
    show "snd (access_read_physical e a old (s\<lparr>pg_mem := m\<rparr>)) = data"
      using v [of "s\<lparr>pg_mem := m\<rparr>"] sel m(2) by (simp add: access_read_physical_def case_prod_beta)
  qed
qed


subsection \<open>Witnesses\<close>

lemma wit_page_env_ok: "env_quiet wit_page_env" "env_intercept wit_page_env"
  by (simp_all add: env_quiet_def env_intercept_def wit_page_env_def)

lemma TLB_flush_keeps [simp]:
  "crs (TLB_flush cpu) = crs cpu" "modes (TLB_flush cpu) = modes cpu" "guest (TLB_flush cpu) = guest cpu" "lapic (TLB_flush cpu) = lapic cpu"
  "n < BX_TLB_SIZE \<Longrightarrow> lpf (tlb (TLB_flush cpu) n) = BX_INVALID_TLB_ENTRY"
  by (simp_all add: TLB_flush_def Let_def tlb_invalidate_def invalidate_stack_cache_def invalidate_prefetch_q_def)

definition wit_pkey_cpu :: BX_CPU_C where
  "wit_pkey_cpu = wit_bx_cpu\<lparr>crs := (crs wit_bx_cpu)\<lparr>cr4 := 0x400020\<rparr>, gen_reg := (\<lambda>_. 8)\<rparr>"

definition wit_tlb_entry :: bx_TLB_entry where
  "wit_tlb_entry = \<lparr>lpf = 0x1000, tlb_ppf = 0x1000, hostPageAddr = None, accessBits = 15, tlb_pkey = 1, tlb_lpf_mask = 0xfff, tlb_memtype = 0\<rparr>"


abbreviation (input) "wit_start \<equiv> wit_pg\<lparr>pg_cpu := TLB_flush (pg_cpu wit_pg)\<rparr>"

theorem invlpg_after_any_run_witness:
  "tlb_valid (tlb (TLB_invlpg 0x123 (pg_cpu (final_state (translate_linear wit_page_env (BX_TLB_INDEX_OF 0) 0 True BX_WRITE wit_start)))) 0) \<longleftrightarrow>
   tlb_valid (tlb (pg_cpu (final_state (translate_linear wit_page_env (BX_TLB_INDEX_OF 0) 0 True BX_WRITE wit_start))) 0) \<and>
   \<not> covers (tlb (pg_cpu (final_state (translate_linear wit_page_env (BX_TLB_INDEX_OF 0) 0 True BX_WRITE wit_start))) 0) 0x123"
proof (rule invlpg_after_any_run [OF wit_page_env_ok, THEN conjunct1])
  show "(tlb_step wit_page_env)\<^sup>*\<^sup>* wit_start (final_state (translate_linear wit_page_env (BX_TLB_INDEX_OF 0) 0 True BX_WRITE wit_start))"
    by (rule r_into_rtranclp, rule step_translate)
qed simp

text \<open>The same processor with paging off.\<close>

definition wit_flat :: "nat pg_state" where
  "wit_flat = wit_pg\<lparr>pg_cpu := wit_bx_cpu\<lparr>crs := (crs wit_bx_cpu)\<lparr>cr0 := 0x11, efer := 0\<rparr>\<rparr>\<rparr>"

abbreviation (input) "flat_start \<equiv> wit_flat\<lparr>pg_cpu := TLB_flush (pg_cpu wit_flat)\<rparr>"

lemma flat_keys: "keys_off (pg_cpu flat_start)"
  by (simp add: keys_off_def wit_flat_def wit_bx_cpu_def)

lemma flat_translation: "\<exists>t. translate_linear wit_page_env (BX_TLB_INDEX_OF 0x1234) 0x1234 False BX_WRITE flat_start = Inr (0x1234, t) \<and>
    pg_mem t = pg_mem wit_flat \<and> lapic (pg_cpu t) = wit_lapic"
proof -
  let ?s = flat_start
  have c: "crs (pg_cpu ?s) = (crs wit_bx_cpu)\<lparr>cr0 := 0x11, efer := 0\<rparr>" "guest (pg_cpu ?s) = guest wit_bx_cpu" "lapic (pg_cpu ?s) = wit_lapic"
    by (simp_all add: wit_flat_def)
  have i: "TLB_LPFOf (lpf (tlb (pg_cpu ?s) (BX_TLB_INDEX_OF 0x1234))) \<noteq> LPFOf 0x1234"
    using TLB_flush_keeps(5) [OF index_small] by (simp add: TLB_LPFOf_def LPFOf_def BX_INVALID_TLB_ENTRY_def)
  have lm: "\<not> long_mode (pg_cpu ?s)" "\<not> get_PG (crs (pg_cpu ?s))" unfolding long_mode_def c by simp_all
  have g: "guest_xlate wit_page_env pa la False BX_WRITE ?s = Inr (pa, ?s)" for pa la
    by (simp add: guest_xlate_def ept_enabled_def svm_nested_paging_def wit_flat_def)
  have a: "A20ADDR x (pg_mem wit_flat) = x" for x by (simp add: wit_flat_def wit_pg_def A20ADDR_def wit_mem_def)
  have "translate_linear wit_page_env (BX_TLB_INDEX_OF 0x1234) 0x1234 False BX_WRITE ?s = 
      Inr (0x1234, fill_tlb wit_page_env (BX_TLB_INDEX_OF 0x1234) 0x1234 False BX_WRITE (6 OR push_bit 9 BX_MEMTYPE_WB) 0xfff 0 0x1234 ?s)"
    using i lm unfolding translate_linear_def Let_def walk_linear_def by (simp add: g a Let_def)
  then show ?thesis using c(3) by (simp add: fill_tlb_def upd_tlb_def Let_def)
qed



end
