(* ===== verification/FaultProps.thy ===== *)
theory FaultProps
  imports PagingProps
begin

text \<open>
  Page faults. Which error codes a walk can raise is the locale \<open>walk_faults\<close>: accesses to the tables that raise no page fault of
  their own give a walk with the four codes of the manual. The processor's accesses are an interpretation, inside and outside a guest,
  and a fault that is not intercepted reports the address and the access.
\<close>

definition fault_in :: "Bit32u set \<Rightarrow> ('s, 'a) walking \<Rightarrow> bool" where
  "fault_in S r = (case r of Inl (Page_fault f, _) \<Rightarrow> f \<in> S | _ \<Rightarrow> True)"

lemma fault_in_simps [simp]:
  "fault_in S (Inr y)" "fault_in S (Inl (Page_fault f, t)) = (f \<in> S)" "fault_in S (Inl (Alignment_fault, t))" "fault_in S (Inl (Virtualization_fault, t))"
  "fault_in S (Inl (Svm_exit q a, t))" "fault_in S (Inl (Vmx_exit r x, t))" "fault_in S (Inl (Intercepted, t))" "fault_in S (Inl (Host_exit, t))"
  by (simp_all add: fault_in_def)

lemma fault_in_mono: "fault_in S r \<Longrightarrow> S \<subseteq> T \<Longrightarrow> fault_in T r"
  by (auto simp: fault_in_def split: sum.splits prod.splits walk_stop.splits)

lemma fault_in_then: "fault_in S r \<Longrightarrow> (\<And>a t. fault_in S (f a t)) \<Longrightarrow> fault_in S (walk_then r f)"
proof (cases r)
  case (Inl x)
  then show "fault_in S r \<Longrightarrow> ?thesis" by (simp add: walk_then_def fault_in_def)
next
  case (Inr y)
  then show "(\<And>a t. fault_in S (f a t)) \<Longrightarrow> ?thesis" by (simp add: walk_then_def case_prod_beta)
qed

lemma fault_in_UNIV [simp]: "fault_in UNIV r"
  by (auto simp: fault_in_def split: sum.splits prod.splits walk_stop.splits)

text \<open>Not present, a reserved bit, a protection violation, a protection key.\<close>

definition walk_codes :: "Bit32u set" where
  "walk_codes = {ERROR_NOT_PRESENT, ERROR_RESERVED OR ERROR_PROTECTION, ERROR_PROTECTION, ERROR_PROTECTION OR ERROR_PKEY}"

lemma walk_codes_mem [simp]: "0 \<in> walk_codes" "1 \<in> walk_codes" "9 \<in> walk_codes" "0x21 \<in> walk_codes"
  by (simp_all add: walk_codes_def)

lemma checks_codes:
  "check_entry_PAE en rsvd = Some f \<Longrightarrow> f \<in> walk_codes" "page_protection cpu user rw acc nx = Some f \<Longrightarrow> f \<in> walk_codes"
  "pkey_protection cpu user rw k = Some f \<Longrightarrow> f \<in> walk_codes"
  by (auto simp: check_entry_PAE_def page_protection_def pkey_protection_def Let_def walk_codes_def split: if_splits)

locale walk_faults =
  fixes ops :: "'s walk_ops" and codes :: "Bit32u set"
  assumes all_codes: "walk_codes \<subseteq> codes" and silent: "fault_in codes (walk_write ops n a v s)" "fault_in codes (walk_nested ops a s)"
begin

lemma codes_mem [simp]: "0 \<in> codes" "1 \<in> codes" "9 \<in> codes" "0x21 \<in> codes"
  using all_codes by (auto simp: walk_codes_def)

lemmas check_codes = checks_codes [THEN subsetD [OF all_codes]]

lemma visit_codes: "fault_in codes (visit ops sz rsvd frame rw a w s)"
  unfolding visit_def
  by (rule fault_in_then [OF silent(2)]) (auto simp: case_prod_beta Let_def split: option.split dest: check_codes)

lemma walk_long_codes: "fault_in codes (walk_long ops rsvd rw laddr k w s)"
  by (induction k arbitrary: w s) (auto intro!: visit_codes fault_in_then simp: Let_def)

lemma walk_short_codes: "fault_in codes (walk_PAE ops rsvd rw laddr w s)" "fault_in codes (walk_legacy ops pse rw laddr w s)"
  unfolding walk_PAE_def walk_legacy_def by (auto intro!: fault_in_then visit_codes)

lemma load_PDPTR_codes: "fault_in codes (translate_linear_load_PDPTR ops cpu laddr s)"
  unfolding translate_linear_load_PDPTR_def Let_def
  by (intro fault_in_then) (auto simp: case_prod_beta intro!: fault_in_then silent)

lemma update_codes: "fault_in codes (update_access_dirty ops sz wr es s)"
proof (induction es arbitrary: s)
  case (Cons x es)
  then show ?case by (cases x) (auto intro!: fault_in_then silent)
qed simp

lemma finish_codes: "fault_in codes (finish_walk ops sz cpu user rw w s)"
  by (auto simp: finish_walk_def Let_def intro!: fault_in_then update_codes split: option.split dest: check_codes)

lemma translate_codes:
  "fault_in codes (translate_linear_long_mode ops cpu laddr user rw s)"
  "fault_in codes (translate_linear_PAE ops cpu laddr user rw s)"
  "fault_in codes (translate_linear_legacy ops cpu laddr user rw s)"
  unfolding translate_linear_long_mode_def translate_linear_PAE_def translate_linear_legacy_def
  by (auto intro!: fault_in_then walk_long_codes walk_short_codes load_PDPTR_codes finish_codes simp: Let_def split: option.split dest: check_codes)

end

text \<open>The virtual APIC page raises no page fault.\<close>

definition env_silent :: "'d page_env \<Rightarrow> bool" where
  "env_silent e \<longleftrightarrow> (\<forall>a d s. fault_in {} (vapic_write e a d s))"

lemma nested_faults_silent: "fault_in S (nested_faults gpa rw pw r)"
  by (auto simp: nested_faults_def nested_page_fault_def fault_in_def split: sum.splits prod.splits walk_stop.splits)

lemma write_physical_silent: "env_silent e \<Longrightarrow> fault_in {} (access_write_physical e a d s)"
  by (auto simp: access_write_physical_def env_silent_def split: option.splits sum.splits)

lemma write_all_silent: "env_silent e \<Longrightarrow> fault_in {} (write_all e ws s)"
  by (induction e ws s rule: write_all.induct) (auto intro!: fault_in_then write_physical_silent)

lemma violation_silent: "env_silent e \<Longrightarrow> fault_in {} (ept_violation e gpa gla v pw am r w s)"
  by (auto simp: ept_violation_def Let_def ept_exit_def Virtualization_Exception_def case_prod_beta intro!: fault_in_then write_all_silent
      write_physical_silent)

lemma pml_silent: "env_silent e \<Longrightarrow> fault_in {} (vmx_page_modification_logging e gpa d s)"
  by (auto simp: vmx_page_modification_logging_def intro!: fault_in_then write_physical_silent)

lemma spp_silent: "fault_in {} (spp_walk e gpa gla s)"
  by (auto simp: spp_walk_def ept_exit_def split: prod.splits sum.splits)

lemma update_ept_silent: "env_silent e \<Longrightarrow> fault_in {} (update_ept_access_dirty (phys_ops e) wr es s)"
proof (induction es arbitrary: s)
  case (Cons x es)
  then show ?case by (cases x) (auto simp: phys_ops_def intro!: fault_in_then write_physical_silent)
qed simp

lemma guest_xlate_silent: "env_silent e \<Longrightarrow> fault_in {} (guest_xlate e gpa laddr pw rw s)"
  by (auto simp: guest_xlate_def translate_guest_physical_def nested_walk_def Let_def nested_faults_silent case_prod_beta
      intro!: fault_in_then spp_silent pml_silent violation_silent update_ept_silent)

interpretation cpu_faults: walk_faults "cpu_walk_ops e laddr s0" "if env_silent e then walk_codes else UNIV" for e laddr s0
proof unfold_locales
  show "fault_in (if env_silent e then walk_codes else UNIV) (walk_write (cpu_walk_ops e laddr s0) n a v s)" for n a v s
    by (auto simp: cpu_walk_ops_def phys_ops_def intro: fault_in_mono [OF write_physical_silent])
  show "fault_in (if env_silent e then walk_codes else UNIV) (walk_nested (cpu_walk_ops e laddr s0) a s)" for a s
    by (auto simp: cpu_walk_ops_def intro: fault_in_mono [OF guest_xlate_silent])
qed auto

lemma page_walk_faults:
  assumes e: "env_silent e" "env_quiet e" and w: "page_walk e la user rw s = Inl (Page_fault code, t)"
  obtains f u where "f \<in> walk_codes" "same_cpu s u" "page_fault e f la user rw u = (Page_fault code, t)"
proof -
  let ?ops = "cpu_walk_ops e la s"
  define r where "r = (if long_mode (pg_cpu s) then translate_linear_long_mode ?ops (pg_cpu s) la user rw s
               else walk_then (if get_PAE (crs (pg_cpu s)) then translate_linear_PAE ?ops (pg_cpu s) la user rw s
                               else translate_linear_legacy ?ops (pg_cpu s) la user rw s) (\<lambda>(pp, m) st1. Inr ((pp, m, 0), st1)))"
  have ends: "ends (quiet_rel e) s r"
    unfolding r_def by (auto intro!: cpu_walk.ends_then cpu_walk.translate_ends)
  have codes: "fault_in walk_codes r"
    using cpu_faults.translate_codes [of e] e(1) unfolding r_def by (auto intro!: fault_in_then)
  have pw: "page_walk e la user rw s = (case r of Inl (Page_fault f, s) \<Rightarrow> Inl (page_fault e f la user rw s) | Inl x \<Rightarrow> Inl x | Inr y \<Rightarrow> Inr y)"
    unfolding page_walk_def Let_def r_def ..
  from w obtain x u where r: "r = Inl (x, u)" unfolding pw by (cases r) auto
  then have "\<exists>f. x = Page_fault f" using w unfolding pw r by (cases x) simp_all
  then show ?thesis using that ends codes e(2) r w unfolding pw r by auto
qed

lemma walk_linear_faults:
  assumes "env_silent e" "walk_linear e n la user rw s = Inl (Page_fault code, t)"
  shows "page_walk e la user rw s = Inl (Page_fault code, t)"
proof -
  have "guest_xlate e pa la False rw u \<noteq> Inl (Page_fault code, t)" for pa u
    using guest_xlate_silent [OF assms(1), of pa la False rw u] by auto
  then show ?thesis using assms(2) unfolding walk_linear_def walk_then_def by (auto simp: Let_def split: sum.splits prod.splits if_splits)
qed

lemma fault_code_bits:
  fixes f x :: Bit32u
  assumes "f \<in> walk_codes" "code = f OR (of_bool user * 4 OR of_bool wr * 2) OR (if P then 0x10 else 0)"
  shows "bit code 2 \<longleftrightarrow> user" "bit code 1 \<longleftrightarrow> wr" "bit code 4 \<longleftrightarrow> P" "code AND NOT 0x16 = f"
proof -
  consider "f = 0" | "f = 9" | "f = 1" | "f = 0x21" using assms(1) by (auto simp: walk_codes_def)
  then have "(bit code 2 \<longleftrightarrow> user) \<and> (bit code 1 \<longleftrightarrow> wr) \<and> (bit code 4 \<longleftrightarrow> P) \<and> code AND NOT 0x16 = f"
    unfolding assms(2) by cases (cases user; cases wr; cases P; simp)+
  then show "bit code 2 \<longleftrightarrow> user" "bit code 1 \<longleftrightarrow> wr" "bit code 4 \<longleftrightarrow> P" "code AND NOT 0x16 = f" by blast+
qed

lemma page_fault_reported:
  assumes "page_fault e f la user rw u = (Page_fault code, t)"
  shows "code = f OR (of_bool user * 4 OR of_bool (is_write rw) * 2) OR (if rw = BX_EXECUTE \<and>
      (get_SMEP (crs (pg_cpu u)) \<or> get_PAE (crs (pg_cpu u)) \<and> get_NXE (crs (pg_cpu u))) then 0x10 else 0)"
    and "cr2 (crs (pg_cpu t)) = la"
proof -
  define c where "c = f OR (of_bool user * 4 OR of_bool (is_write rw) * 2) OR (if rw = BX_EXECUTE \<and>
      (get_SMEP (crs (pg_cpu u)) \<or> get_PAE (crs (pg_cpu u)) \<and> get_NXE (crs (pg_cpu u))) then 0x10 else 0)"
  have "(case intercept_PF e c la u of Inl s \<Rightarrow> (Intercepted, s)
      | Inr s \<Rightarrow> (Page_fault c, s\<lparr>pg_cpu := (pg_cpu s)\<lparr>crs := (crs (pg_cpu s))\<lparr>cr2 := la\<rparr>\<rparr>\<rparr>)) = (Page_fault code, t)"
    using assms unfolding page_fault_def Let_def c_def .
  then have "code = c \<and> cr2 (crs (pg_cpu t)) = la" by (cases "intercept_PF e c la u") auto
  then show "code = f OR (of_bool user * 4 OR of_bool (is_write rw) * 2) OR (if rw = BX_EXECUTE \<and>
      (get_SMEP (crs (pg_cpu u)) \<or> get_PAE (crs (pg_cpu u)) \<and> get_NXE (crs (pg_cpu u))) then 0x10 else 0)" "cr2 (crs (pg_cpu t)) = la"
    unfolding c_def by blast+
qed

text \<open>
  C17: page faults. A translation that raises a page fault, one that is not intercepted, leaves the linear address in CR2, and the error code tells
  user from supervisor code and a write from a read, reports a fetch exactly when SMEP or the NX bits are on, and has one of the four causes
  of a walk: not present, reserved bit, protection violation, protection key.
\<close>

theorem page_fault_report:
  assumes "env_silent e" "env_quiet e" "translate_linear e n la user rw s = Inl (Page_fault code, t)"
  shows "cr2 (crs (pg_cpu t)) = (if long_mode (pg_cpu s) then la else la AND 0xffffffff) \<and>
    (bit code 2 \<longleftrightarrow> user) \<and> (bit code 1 \<longleftrightarrow> is_write rw) \<and>
    (bit code 4 \<longleftrightarrow> rw = BX_EXECUTE \<and> (get_SMEP (crs (pg_cpu s)) \<or> get_PAE (crs (pg_cpu s)) \<and> get_NXE (crs (pg_cpu s)))) \<and>
    code AND NOT 0x16 \<in> walk_codes"
proof -
  let ?la = "eff_addr (pg_cpu s) la"
  obtain s1 where "page_walk e ?la user rw s1 = Inl (Page_fault code, t)" and s1: "crs (pg_cpu s1) = crs (pg_cpu s)"
  proof -
    consider "walk_linear e n ?la user rw s = Inl (Page_fault code, t)" | "walk_linear e n ?la user rw (upd_tlb n tlb_invalidate s) = Inl (Page_fault code, t)"
      using assms(3) unfolding translate_linear_def Let_def by (auto split: if_splits)
    then show ?thesis by cases (rule that [OF walk_linear_faults [OF assms(1)]], assumption, simp)+
  qed
  then obtain f u where f: "f \<in> walk_codes" "same_cpu s1 u" "page_fault e f ?la user rw u = (Page_fault code, t)"
    using page_walk_faults [OF assms(1,2)] by blast
  have c: "crs (pg_cpu u) = crs (pg_cpu s)" using same_cpuD(3) [OF f(2)] s1 by simp
  note code = page_fault_reported [OF f(3), unfolded c]
  note b = fault_code_bits [OF f(1) code(1)]
  show ?thesis unfolding b(4) by (intro conjI code(2) b(1-3) f(1))
qed

subsection \<open>Witness\<close>

lemma wit_page_env_silent: "env_silent wit_page_env"
  by (simp add: env_silent_def wit_page_env_def)

text \<open>Tables in zeroed memory: nothing is present.\<close>

definition wit_empty :: "nat pg_state" where
  "wit_empty = wit_pg\<lparr>pg_cpu := wit_bx_cpu\<lparr>crs := (crs wit_bx_cpu)\<lparr>cr3 := 0x2000\<rparr>\<rparr>\<rparr>"

theorem page_fault_report_witness:
  "\<exists>code t. translate_linear wit_page_env 5 0x5000 True BX_WRITE wit_empty = Inl (Page_fault code, t) \<and>
     cr2 (crs (pg_cpu t)) = 0x5000 \<and> bit code 2 \<and> bit code 1"
proof -
  have p: "plain_entry 8 wit_empty 0x2000" "\<not> ept_enabled wit_empty" "\<not> svm_nested_paging wit_empty"
    by (simp_all add: plain_entry_def is_virtual_apic_page_def is_selected_def wit_lapic_def plain_ram_def is_bios_def A20ADDR_def
        ept_enabled_def svm_nested_paging_def wit_empty_def) (simp_all add: wit_pg_def wit_mem_def)
  have u: "[0..<8] = [0, 1, 2, 3, 4, 5, 6, 7 :: nat]" by code_simp
  have z: "entry_at 8 wit_empty 0x2000 = 0"
    unfolding entry_at_def read_bytes_def u by (simp add: wit_empty_def wit_pg_def wit_mem_def)
  have c: "long_mode (pg_cpu wit_empty)" "get_PG (crs (pg_cpu wit_empty))" "cr3 (crs (pg_cpu wit_empty)) = 0x2000"
    by (simp_all add: wit_empty_def long_mode_def)
  have tl: "lpf (tlb (pg_cpu wit_empty) 5) = 0x1000" by (simp add: wit_empty_def wit_bx_cpu_def)
  have n: "(3 :: nat) = Suc 2" by simp
  let ?ops = "cpu_walk_ops wit_page_env 0x5000 wit_empty"
  have r: "walk_nested ?ops 0x2000 wit_empty = Inr (0x2000, wit_empty)" "walk_read ?ops 8 0x2000 wit_empty = (wit_empty, 0)"
    using p z by (simp_all add: cpu_walk_ops_def phys_ops_def guest_xlate_def phys_read_plain)
  have w: "walk_long ?ops rsvd BX_WRITE 0x5000 3 (start_walk 0x2000) wit_empty = Inl (Page_fault 0, wit_empty)" for rsvd
    unfolding n walk_long.simps visit_def by (simp add: r check_entry_PAE_def)
  have l: "translate_linear_long_mode ?ops (pg_cpu wit_empty) 0x5000 True BX_WRITE wit_empty = Inl (Page_fault 0, wit_empty)"
    unfolding translate_linear_long_mode_def by (simp add: c w)
  have i: "intercept_PF wit_page_env x y = Inr" for x y by (simp add: wit_page_env_def)
  have "\<exists>code t. page_walk wit_page_env 0x5000 True BX_WRITE wit_empty = Inl (Page_fault code, t)"
    unfolding page_walk_def Let_def by (simp add: c l page_fault_def Let_def i)
  then obtain code t where "page_walk wit_page_env 0x5000 True BX_WRITE wit_empty = Inl (Page_fault code, t)" by blast
  then have t: "translate_linear wit_page_env 5 0x5000 True BX_WRITE wit_empty = Inl (Page_fault code, t)"
    using c unfolding translate_linear_def Let_def walk_linear_def by (simp add: tl TLB_LPFOf_def LPFOf_def)
  show ?thesis using page_fault_report [OF wit_page_env_silent wit_page_env_ok(1) t] t c(1) by (simp add: is_write_def)
qed

end
