(* ===== verification/Spec2Isabelle.thy ===== *)
theory Spec2Isabelle
  imports LazyFlags Descriptors ICacheMiss HvProps PcSystem PicProps PitProps PhysMemProps EventProps IoApicProps EptProps FaultProps
begin

text \<open>
  \<^bold>\<open>applepie\<close> is a fork of the Bochs x86 emulator (C++, \<^verbatim>\<open>src/bochs\<close>) that runs a guest partly on the Windows
  hypervisor platform and partly in the emulator. The hypervisor executes the guest until it
  exits; registers are then copied into the emulated processor, Bochs emulates for a while with all
  its devices, and the registers are copied back. Two tables of dirty bits record the pages that the
  emulator writes, so that memory can be reset. This library models the part of the C++ side on which that
  scheme rests, as functions on records, and proves it correct.

  \<^bold>\<open>Parts and theories.\<close> Each component has a theory of definitions with the names of the source, followed, in
  the same theory or in the \<^verbatim>\<open>...Props\<close> theory beside it, by its lemmas.
  \<^item> \<^verbatim>\<open>Prelude\<close>: types of machine integers, bit and carry lemmas shared by all.
  \<^item> \<^verbatim>\<open>LazyFlags\<close> (\<^verbatim>\<open>cpu/lazy_flags.h\<close>): the record \<open>bx_lazyflags_entry\<close> that stores the result and the carries
    of the last operation, the macros that fill it and the accessors that derive the six flags. Shown:
    after an addition or subtraction of any width the accessors give the architectural flags.
  \<^item> \<^verbatim>\<open>Descriptors\<close> (\<^verbatim>\<open>cpu/descriptor.h\<close>, \<^verbatim>\<open>cpu/segment_ctrl_pro.cc\<close>): selectors and the descriptor cache; parsing and
    printing are inverse.
  \<^item> \<^verbatim>\<open>ICache\<close>, \<^verbatim>\<open>ICacheMiss\<close> (\<^verbatim>\<open>cpu/icache.h\<close>, \<^verbatim>\<open>cpu/icache.cc\<close>, \<open>getICacheEntry\<close> of \<^verbatim>\<open>cpu/cpu.cc\<close>): the trace cache, the table
    of page write stamps, invalidation on self-modifying code, and the building of traces, where the decoder is
    a parameter. Shown: coherence of cache and stamps is kept by stores and by trace building, no stale
    trace is found after a store or after a switch, and a miss writes only its own pool slots.
  \<^item> \<^verbatim>\<open>Cpu\<close>, \<^verbatim>\<open>CpuProps\<close> (\<^verbatim>\<open>cpu/cpu.h\<close>, \<^verbatim>\<open>proc_ctrl.cc\<close>, \<^verbatim>\<open>flag_ctrl_pro.cc\<close>, \<^verbatim>\<open>apic.cc\<close>, \<^verbatim>\<open>paging.cc\<close>): the registers and derived state the
    switch touches, event masks, EFLAGS, mode changes and the TLB flush. Shown: an unmasked pending event
    always has \<open>async_event\<close> set, and EFLAGS read back what was written.
  \<^item> \<^verbatim>\<open>HvContext\<close>, \<^verbatim>\<open>HvProps\<close> (\<open>set_context\<close>, \<open>get_context\<close> of \<^verbatim>\<open>main.cc\<close>): the register exchange. Shown: what survives the round trip,
    that derived state follows the loaded registers, and that no translation or trace from before is used.
  \<^item> \<^verbatim>\<open>PcSystem\<close> (\<^verbatim>\<open>pc_system.cc\<close>): the clock and its timers. Shown: \<open>tickn\<close> ends and moves time by exactly
    what is asked, and a countdown runs exactly the timers that are due.
  \<^item> \<^verbatim>\<open>Pic\<close>, \<^verbatim>\<open>PicProps\<close> (\<^verbatim>\<open>iodev/pic.cc\<close>): both 8259 controllers with ports, lines, priorities and acknowledge. Shown: the
    invariant over every sequence of operations, the choice of the highest priority, delivery through
    one or two chips, and end of interrupt.
  \<^item> \<^verbatim>\<open>Pit82c54\<close>, \<^verbatim>\<open>Pit82c54Props\<close> (\<^verbatim>\<open>iodev/pit82c54.cc\<close>): the timer chip with its six modes. Shown: batches of clocks can be cut
    anywhere, counting in batches is counting in steps, the rate generator ticks at the programmed rate,
    and latched counts read back.
  \<^item> \<^verbatim>\<open>Pit\<close>, \<^verbatim>\<open>PitProps\<close> (\<^verbatim>\<open>iodev/pit.cc\<close>): the device around the chip: host time to clocks, the interrupt and speaker
    handlers, ports 40h to 43h and 61h. Shown: no drift, exact clocking, and edges on interrupt line 0.
  \<^item> \<^verbatim>\<open>PhysMem\<close>, \<^verbatim>\<open>PhysMemProps\<close> (\<^verbatim>\<open>memory/memory.cc\<close>, \<^verbatim>\<open>memory/misc_mem.cc\<close>): physical reads and writes, dirty tables, DMA, host
    pointers and device handlers. Shown: changed RAM is marked dirty, writes are read back and leave no
    stale trace, host pointers agree with physical accesses, and handlers are reached.
  \<^item> \<^verbatim>\<open>Lapic\<close>, \<^verbatim>\<open>LapicProps\<close> (\<^verbatim>\<open>cpu/apic.cc\<close>): the local APIC: registers through memory and through model-specific registers,
    priorities, messages, end of interrupt and its timers, on the processor record paired with the clock. Shown: it implements a
    specification on sets of vectors, no interrupt is lost and the registers keep their types over every
    sequence of operations, the timer counts, and refused accesses change nothing.
  \<^item> \<^verbatim>\<open>IoApic\<close>, \<^verbatim>\<open>IoApicProps\<close> (\<^verbatim>\<open>iodev/ioapic.cc\<close>, line changes of \<^verbatim>\<open>iodev/pic.cc\<close>): the I/O APIC with its redirection table, pins and registers.
    Shown: nothing deliverable waits, registers read back, edges and levels under a mask, and a raised line
    reaches its handler.
  \<^item> \<^verbatim>\<open>Event\<close>, \<^verbatim>\<open>EventProps\<close> (\<^verbatim>\<open>cpu/event.cc\<close>, \<open>step_device\<close> and \<open>step_cpu\<close> of \<^verbatim>\<open>main.cc\<close>, the landing of long jumps in \<^verbatim>\<open>cpu/cpu.cc\<close>): what
    happens between instructions. The machine is processor, controllers and devices paired with the clock; handler entry,
    exceptions, VM exits, fetch and execute are fields of the record \<open>cpu_calls\<close>, arguments of the definitions. Shown: which
    event is taken and with which vector, interrupt shadows, that events are not overlooked, that stepping ends on time, and that
    a timer interrupt of the local APIC is delivered.

  \<^item> \<^verbatim>\<open>PageWalk\<close>, \<^verbatim>\<open>PageWalkProps\<close> (\<^verbatim>\<open>cpu/paging.cc\<close>, memory types of \<^verbatim>\<open>cpu/msr.cc\<close>): the walks of long mode, PAE and 32 bit paging over any accesses to the
    tables (\<open>walk_ops\<close>), privilege checks, protection keys, accessed and dirty bits, and the memory types of range registers and attribute
    table. Shown: the checks allow what the manual allows, and memory types are valid and independent of the order of the registers.
  \<^item> \<^verbatim>\<open>GuestWalk\<close>, \<^verbatim>\<open>GuestWalkProps\<close>, \<^verbatim>\<open>LapicFrame\<close>, \<^verbatim>\<open>EptProps\<close> (\<^verbatim>\<open>cpu/paging.cc\<close>, \<^verbatim>\<open>cpu/vmexit.cc\<close>): physical accesses of the processor, nested paging of SVM,
    extended page tables with page-modification logging, sub-page permissions and virtualization exceptions. The state \<open>pg_state\<close> is the processor
    with the clock, the memory and the fields of VMCS and VMCB that are read. Shown: what an access leaves alone, and that the
    extended page tables confine a guest.
  \<^item> \<^verbatim>\<open>PageTables\<close>: tables in plain memory as a path of entries. Shown: a walk follows the path, permits what all its entries permit, and
    changes memory by the accessed and dirty bits alone.
  \<^item> \<^verbatim>\<open>Paging\<close>, \<^verbatim>\<open>PagingProps\<close>, \<^verbatim>\<open>FaultProps\<close> (\<^verbatim>\<open>cpu/paging.cc\<close>, \<^verbatim>\<open>cpu/tlb.h\<close>): the TLB and its flushes, \<open>translate_linear\<close> with page faults, linear reads and
    writes across pages, and the page-directory pointers. Shown: an invariant of the TLB over every run, INVLPG removes all that maps an
    address, translations stay cached, linear memory reads back, and what a page fault reports.

  \<^bold>\<open>Interaction.\<close> A physical write calls the write stamps of the trace cache (\<open>write_no_stale_code\<close> spans both). The timer
  chip calls the handlers of the device, which call the interrupt controller through the locale \<open>irq_lines\<close>, interpreted on
  the controllers as \<open>pic_lines\<close>. The theorem below composes chip, device and controllers. A line of the 8259 is passed to the I/O APIC,
  which sends a message to the local APIC, which signals an event of the processor, which the event code turns into the entry of a
  handler; \<open>line_reaches_handler\<close> spans all four. The clock calls the timer of the local APIC back while the devices are stepped
  (\<open>lapic_timer_delivered\<close>). The contract between the event code and the routines it calls is the locale \<open>async_client\<close>,
  interpreted on the event invariant and on the clock; invariants over step relations share the locale \<open>kept_invariant\<close>.
  Page walks reach memory through a record of accesses. What they rely on is stated three times as a locale: \<open>walk_frame\<close> (what the accesses
  keep, the walks keep), \<open>table_memory\<close> (entries that read back) and \<open>walk_faults\<close> (accesses that raise no page fault). All are
  interpreted on the processor's physical accesses, which go to the virtual APIC page, to the local APIC or to physical memory.

  \<^bold>\<open>State and effects.\<close> Stateful code passes its record; machine integers are words of their width, so they wrap as in
  the source. Calls that leave the modelled part are kept as lists in the record, in order: calls of the
  virtual timer and of the speaker, panics. Host time is an argument. \<open>exit\<close> in a physical write is the left side of a
  sum. Handlers of memory-mapped devices are functions over a device state of any type. A \<open>longjmp\<close> to the main loop is the left
  side of a sum; a panic of the two APICs is \<open>None\<close>.

  \<^bold>\<open>Loops.\<close> \<open>decrement_multiple\<close>, \<open>clock_loop\<close>, \<open>clock_steps\<close>, \<open>drop_seconds\<close>, \<open>dirty_loop\<close> and \<open>trace_loop\<close> end by a measure on their
  counters. The loops of the interrupt controller run over the eight inputs with fuel 8, after which every input has been
  visited. \<open>tickn_loop\<close> has one unit of fuel more than ticks asked for; every event uses up at least one tick, and
  \<open>tickn_advances_time\<close> shows that a result is always returned. The stepping loops recurse on the steps left; \<open>step_device_time\<close> shows
  that they return. Page walks recurse on the level of the table, at most four.

  \<^bold>\<open>Configuration.\<close> x86-64, cpu level 6, VMX, SVM, AVX without EVEX, protection keys, alignment check, handler
  chaining, PCI, MONITOR/MWAIT, long physical addresses, one processor, no debugger and no I/O debugging.

  \<^bold>\<open>Not modelled.\<close> The instruction handlers, the decoder (a parameter of trace building) and floating point; entry of
  interrupt handlers, system management mode and what a VM exit does, of which only the reason and qualification are values here; the virtual
  APIC page and the interception of page faults, which are parameters of the translation, and the memory types of table
  accesses, which only feed notifications that are empty in this configuration; the virtual timer, DMA controller, CMOS, keyboard, disks
  and other devices; allocation of memory blocks and loading of images; BIOS, user interface, debugger and
  networking; the Rust library and the calls of the Windows hypervisor, which are operating-system I/O.
\<close>

text \<open>
  C6: a timer tick reaches the processor. When the rate generator completes a period, timer
  interrupts are enabled and unmasked, nothing is in service or waiting and input 0 has the
  highest priority, INTR is raised and the acknowledge cycle returns the vector of input 0.
\<close>

theorem timer_tick_delivered:
  assumes "quiet s" "irq_enabled s" "rate_loaded (counter (timer_chip s) 0)" "out_handler (counter (timer_chip s) 0)"
    "inlatch (counter (timer_chip s) 0) \<noteq> 1"
    "\<not> bit (imr (master_pic (pit_pic s))) 0" "isr (master_pic (pit_pic s)) = 0" "\<not> INT_pin (master_pic (pit_pic s))"
    "lowest_priority (master_pic (pit_pic s)) = 7" "\<not> special_mask (master_pic (pit_pic s))"
  shows "let t = clock_steps (of_nat (rate_period (inlatch (counter (timer_chip s) 0)))) s
    in INTR (pit_pic t) \<and> snd (IAC (pit_pic t)) = interrupt_offset (master_pic (pit_pic s))"
proof -
  let ?p = "pit_pic s"
  have per: "1 * rate_period (inlatch (counter (timer_chip s) 0)) < 2 ^ 31"
    using unat_less_exp [of "inlatch (counter (timer_chip s) 0)"] by (simp add: rate_period_def)
  have t: "pit_pic (clock_steps (of_nat (rate_period (inlatch (counter (timer_chip s) 0)))) s) = raise_irq 0 (lower_irq 0 ?p)"
    using timer_periods [OF assms(1-5) per] by (simp add: pic_lines.drive_def)
  have m: "imr (master_pic (lower_irq 0 ?p)) = imr (master_pic ?p)" "isr (master_pic (lower_irq 0 ?p)) = isr (master_pic ?p)"
    "INT_pin (master_pic (lower_irq 0 ?p)) = INT_pin (master_pic ?p)"
    "lowest_priority (master_pic (lower_irq 0 ?p)) = lowest_priority (master_pic ?p)"
    "special_mask (master_pic (lower_irq 0 ?p)) = special_mask (master_pic ?p)"
    "interrupt_offset (master_pic (lower_irq 0 ?p)) = interrupt_offset (master_pic ?p)"
    by (simp_all add: lower_irq_def lower_line_def Let_def)
  have low: "\<not> bit (IRQ_in (master_pic (lower_irq 0 ?p))) 0"
    using lower_irq_level [of 0 0 ?p] by (simp add: line_level_def)
  have "wins (raise_line (push_bit 0 1) (master_pic (lower_irq 0 ?p))) 0"
    using assms(6-10) m by (simp add: wins_def eligible_def raise_line_def rank_def bit_simps bit_1_iff)
  then show ?thesis
    using raise_then_ack [of 0 "lower_irq 0 ?p"] low m assms(8,9) unfolding Let_def t by simp
qed

theorem timer_tick_delivered_witness:
  "INTR (pit_pic (clock_steps 100 wit_pit)) \<and> snd (IAC (pit_pic (clock_steps 100 wit_pit))) = 8"
proof -
  have m: "imr (master_pic (pit_pic wit_pit)) = 0xfe" "isr (master_pic (pit_pic wit_pit)) = 0"
    "\<not> INT_pin (master_pic (pit_pic wit_pit))" "lowest_priority (master_pic (pit_pic wit_pit)) = 7"
    "\<not> special_mask (master_pic (pit_pic wit_pit))" "interrupt_offset (master_pic (pit_pic wit_pit)) = 8"
    by (simp_all add: wit_pit_def wit_pic_def init_chip_def)
  have "rate_period 100 = 100" by (simp add: rate_period_def)
  then show ?thesis
    using timer_tick_delivered [of wit_pit] wit_pit_quiet wit_pit_loaded m by (simp add: Let_def)
qed
end
